(* ===== verification/Prelude.thy ===== *)
theory Prelude
  imports Complex_Main
begin

text \<open>
  Conventions every component theory shares.

  \<^item> A value of TypeScript type \<open>Result<T, E>\<close> (the \<open>neverthrow\<close> library) is a sum:
    \<open>Ok v\<close> for \<open>ok(v)\<close> and \<open>Err e\<close> for \<open>err(e)\<close>.
  \<^item> An awaited call to an injected dependency (HTTP client, Redis, queue, DNS resolver)
    settles with a value or throws: \<open>completion\<close>. What is thrown is an \<open>Error\<close> object
    (a \<open>DOMException\<close> is one too in Node) or any other value, kept as its \<open>String(..)\<close>.
  \<^item> The dependency itself is a function from a world of an arbitrary type \<open>'w\<close> to its
    outcome and the next world, so that two calls with equal arguments may differ.
  \<^item> Mutable closures and classes are records passed explicitly. A component driven by a
    sequence of calls is a step function folded over the calls; the locale
    \<open>step_system\<close> states once what such a run keeps.
\<close>

named_theorems component_simps \<open>unfolding rules the component proofs share\<close>

section \<open>Results and completions\<close>

type_synonym ('e, 'a) result = "'e + 'a"

abbreviation Ok :: "'a \<Rightarrow> ('e, 'a) result" where
  "Ok \<equiv> Inr"

abbreviation Err :: "'e \<Rightarrow> ('e, 'a) result" where
  "Err \<equiv> Inl"

definition isOk :: "('e, 'a) result \<Rightarrow> bool" where
  "isOk r = (case r of Ok _ \<Rightarrow> True | Err _ \<Rightarrow> False)"

lemma isOk_simps [simp]: "isOk (Ok v)" "\<not> isOk (Err e)"
  by (simp_all add: isOk_def)

lemma isOk_iff: "isOk r \<longleftrightarrow> (\<exists>v. r = Ok v)"
  by (cases r) simp_all

record js_error =
  err_dom :: bool
  err_name :: string
  err_message :: string
  err_code :: "string option"

datatype thrown = ThrownError js_error | ThrownOther string

text \<open>\<open>new Error(message)\<close>.\<close>

definition new_Error :: "string \<Rightarrow> js_error" where
  "new_Error m = \<lparr>err_dom = False, err_name = ''Error'', err_message = m, err_code = None\<rparr>"

text \<open>
  The two idioms the code repeats at every catch block:
  \<open>e instanceof Error ? e.message : String(e)\<close> and
  \<open>e instanceof Error ? e : new Error(String(e))\<close>.
\<close>

fun thrown_message :: "thrown \<Rightarrow> string" where
  "thrown_message (ThrownError e) = err_message e"
| "thrown_message (ThrownOther s) = s"

fun thrown_error :: "thrown \<Rightarrow> js_error" where
  "thrown_error (ThrownError e) = e"
| "thrown_error (ThrownOther s) = new_Error s"

lemma err_message_thrown_error [simp]: "err_message (thrown_error t) = thrown_message t"
  by (cases t) (simp_all add: new_Error_def)

datatype 'a completion = Return 'a | Throw thrown

text \<open>A structured log line: level, message and fields.\<close>

datatype log_level = LogDebug | LogInfo | LogWarn | LogError | LogFatal

type_synonym log_line = "log_level \<times> string \<times> (string \<times> string) list"

section \<open>Components driven by a sequence of calls\<close>

text \<open>
  The contract of a stateful component: \<open>step\<close> performs one call, \<open>inv\<close> is what every
  call keeps. Every client proof about a whole history uses the lemmas below.
\<close>

locale step_system =
  fixes step :: "'s \<Rightarrow> 'e \<Rightarrow> 's"
    and inv :: "'s \<Rightarrow> bool"
  assumes step_inv: "inv s \<Longrightarrow> inv (step s e)"
begin

lemma run_inv: "inv s \<Longrightarrow> inv (foldl step s es)"
  by (induction es arbitrary: s) (auto intro: step_inv)

lemma run_inv_append: "inv (foldl step s es) \<Longrightarrow> inv (foldl step s (es @ fs))"
  by (simp add: run_inv)

lemma run_inv_prefix: "inv s \<Longrightarrow> inv (foldl step s (take n es))"
  by (rule run_inv)

end

text \<open>A value no call changes is the same at the end of a run.\<close>

locale step_frame =
  fixes step :: "'s \<Rightarrow> 'e \<Rightarrow> 's"
    and view :: "'s \<Rightarrow> 'v"
  assumes step_view: "view (step s e) = view s"
begin

lemma run_view: "view (foldl step s es) = view s"
  by (induction es arbitrary: s) (simp_all add: step_view)

end

section \<open>Deduplication: the first occurrence wins\<close>

text \<open>
  The contract of a pass that keeps, for each key, the first element with it. The discovery of
  links and the batches of the frontier interpret it.
\<close>

locale first_wins =
  fixes key :: "'e \<Rightarrow> 'k"
    and dedup :: "'e list \<Rightarrow> 'e list"
  assumes dedup_Nil: "dedup [] = []"
    and dedup_snoc: "dedup (es @ [e]) = (if key e \<in> key ` set es then dedup es else dedup es @ [e])"
begin

lemma dedup_keys: "key ` set (dedup es) = key ` set es"
  by (induction es rule: rev_induct) (auto simp: dedup_Nil dedup_snoc)

lemma dedup_subset: "set (dedup es) \<subseteq> set es"
  by (induction es rule: rev_induct) (auto simp: dedup_Nil dedup_snoc)

lemma dedup_distinct: "distinct (map key (dedup es))"
  by (induction es rule: rev_induct) (auto simp: dedup_Nil dedup_snoc dest: subsetD [OF dedup_subset])

lemma dedup_length: "length (dedup es) = card (key ` set es)"
proof -
  have "length (map key (dedup es)) = card (set (map key (dedup es)))"
    using dedup_distinct by (rule distinct_card [symmetric])
  then show ?thesis using dedup_keys by simp
qed

lemma dedup_distinct_id: "distinct (map key es) \<Longrightarrow> dedup es = es"
  by (induction es rule: rev_induct) (auto simp: dedup_Nil dedup_snoc)

lemma dedup_idem: "dedup (dedup es) = dedup es"
  by (rule dedup_distinct_id) (rule dedup_distinct)

lemma dedup_append_known: "key ` set fs \<subseteq> key ` set es \<Longrightarrow> dedup (es @ fs) = dedup es"
proof (induction fs rule: rev_induct)
  case (snoc f fs)
  then have "dedup (es @ fs) = dedup es" "key f \<in> key ` set (es @ fs)" by auto
  then show ?case using dedup_snoc [of "es @ fs" f] by simp
qed simp

lemma dedup_append_prefix: "\<exists>rest. dedup (es @ fs) = dedup es @ rest"
proof (induction fs rule: rev_induct)
  case (snoc f fs)
  then obtain rest where "dedup (es @ fs) = dedup es @ rest" by blast
  then show ?case using dedup_snoc [of "es @ fs" f] by auto
qed simp

end

definition dedup_first :: "('e \<Rightarrow> 'k) \<Rightarrow> 'e list \<Rightarrow> 'e list" where
  "dedup_first key es = foldl (\<lambda>acc e. if key e \<in> key ` set acc then acc else acc @ [e]) [] es"

lemma dedup_first_keys: "key ` set (dedup_first key es) = key ` set es"
  by (induction es rule: rev_induct) (auto simp: dedup_first_def)

interpretation dedup_first: first_wins key "dedup_first key" for key :: "'e \<Rightarrow> 'k"
proof
  fix es :: "'e list" and e
  show "dedup_first key [] = []" by (simp add: dedup_first_def)
  have "dedup_first key (es @ [e]) =
      (if key e \<in> key ` set (dedup_first key es) then dedup_first key es else dedup_first key es @ [e])"
    by (simp add: dedup_first_def)
  then show "dedup_first key (es @ [e]) = (if key e \<in> key ` set es then dedup_first key es else dedup_first key es @ [e])"
    by (simp only: dedup_first_keys)
qed

section \<open>Generic lemmas\<close>

lemma foldl_append_acc:
  assumes "\<And>acc x. f acc x = acc @ g x"
  shows "foldl f acc xs = acc @ concat (map g xs)"
  by (induction xs arbitrary: acc) (simp_all add: assms)

lemma map_of_filter_neq: "map_of (filter (\<lambda>p. fst p \<noteq> k) m) k' = (if k' = k then None else map_of m k')"
  by (induction m) auto

lemma distinct_fst_filter: "distinct (map fst m) \<Longrightarrow> distinct (map fst (filter P m))"
  by (induction m) auto

lemma length_filter_fst_present:
  "distinct (map fst m) \<Longrightarrow> k \<in> fst ` set m \<Longrightarrow>
    Suc (length (filter (\<lambda>p. fst p \<noteq> k) m)) = length m"
proof (induction m)
  case Nil
  then show ?case by simp
next
  case (Cons p m)
  have "k \<notin> fst ` set m \<Longrightarrow> filter (\<lambda>p. fst p \<noteq> k) m = m"
    by (rule filter_True) auto
  with Cons show ?case by auto
qed

lemma filter_fst_absent: "k \<notin> fst ` set m \<Longrightarrow> filter (\<lambda>p. fst p \<noteq> k) m = m"
  by (rule filter_True) auto

lemma distinct_map_of_mem: "distinct (map fst m) \<Longrightarrow> (k, v) \<in> set m \<longleftrightarrow> map_of m k = Some v"
  by simp

end
