(* ===== verification/JsString.thy ===== *)
theory JsString
  imports Prelude
begin

text \<open>
  The part of the JavaScript string and number library the sources use. A string is a list
  of \<open>char\<close>, one per UTF-16 code unit, so it covers the code units 0 to 255; everything the
  crawler compares strings against (schemes, headers, digits, IP literals, Redis keys) is
  ASCII. Numbers parsed by \<open>Number(..)\<close> are exact rationals with \<open>NaN\<close> and the infinities;
  rounding to doubles is not modelled.
\<close>

abbreviation char_code :: "char \<Rightarrow> int" where
  "char_code c \<equiv> of_char c"

section \<open>String.prototype\<close>

text \<open>The white space and line terminators \<open>trim\<close> removes, among the code units below 256.\<close>

definition js_space :: "char \<Rightarrow> bool" where
  "js_space c = (char_code c \<in> {9, 10, 11, 12, 13, 32, 160})"

definition js_trim :: "string \<Rightarrow> string" where
  "js_trim s = rev (dropWhile js_space (rev (dropWhile js_space s)))"

definition upper_code :: "int \<Rightarrow> bool" where
  "upper_code n = ((65 \<le> n \<and> n \<le> 90) \<or> (192 \<le> n \<and> n \<le> 222 \<and> n \<noteq> 215))"

definition lower_char :: "char \<Rightarrow> char" where
  "lower_char c = (if upper_code (char_code c) then char_of (char_code c + 32) else c)"

definition to_lower :: "string \<Rightarrow> string" where
  "to_lower s = map lower_char s"

definition starts_with :: "string \<Rightarrow> string \<Rightarrow> bool" where
  "starts_with s p = (take (length p) s = p)"

definition ends_with :: "string \<Rightarrow> string \<Rightarrow> bool" where
  "ends_with s p = (starts_with (rev s) (rev p))"

fun includes_str :: "string \<Rightarrow> string \<Rightarrow> bool" where
  "includes_str [] p = (p = [])"
| "includes_str (c # s) p = (starts_with (c # s) p \<or> includes_str s p)"

text \<open>\<open>s.split(d)\<close> for a one-character separator; \<open>''''.split(d)\<close> is \<open>['''']\<close>.\<close>

fun split_on :: "char \<Rightarrow> string \<Rightarrow> string list" where
  "split_on d [] = [[]]"
| "split_on d (c # s) =
     (if c = d then [] # split_on d s
      else (case split_on d s of [] \<Rightarrow> [[c]] | w # ws \<Rightarrow> (c # w) # ws))"

text \<open>The text before and after the first occurrence of a separator.\<close>

fun cut_at :: "string \<Rightarrow> string \<Rightarrow> (string \<times> string) option" where
  "cut_at sep [] = (if sep = [] then Some ([], []) else None)"
| "cut_at sep (c # s) =
     (if starts_with (c # s) sep then Some ([], drop (length sep) (c # s))
      else map_option (\<lambda>(a, b). (c # a, b)) (cut_at sep s))"

fun join_with :: "string \<Rightarrow> string list \<Rightarrow> string" where
  "join_with sep [] = []"
| "join_with sep [w] = w"
| "join_with sep (w # v # ws) = w @ sep @ join_with sep (v # ws)"

definition pad_start :: "nat \<Rightarrow> char \<Rightarrow> string \<Rightarrow> string" where
  "pad_start n c s = replicate (n - length s) c @ s"

section \<open>Digits and String(n)\<close>

definition is_digit :: "char \<Rightarrow> bool" where
  "is_digit c = (48 \<le> char_code c \<and> char_code c \<le> 57)"

definition digit_val :: "char \<Rightarrow> int" where
  "digit_val c = char_code c - 48"

definition digits_val :: "string \<Rightarrow> int" where
  "digits_val ds = foldl (\<lambda>a c. 10 * a + digit_val c) 0 ds"

fun string_of_nonneg :: "int \<Rightarrow> string" where
  "string_of_nonneg n =
     (if n < 10 then [char_of (48 + n)]
      else string_of_nonneg (n div 10) @ [char_of (48 + n mod 10)])"

declare string_of_nonneg.simps [simp del]

definition string_of_int :: "int \<Rightarrow> string" where
  "string_of_int i = (if i < 0 then CHR ''-'' # string_of_nonneg (- i) else string_of_nonneg i)"

definition hex_val :: "char \<Rightarrow> int option" where
  "hex_val c =
     (let n = char_code c
      in if 48 \<le> n \<and> n \<le> 57 then Some (n - 48)
         else if 97 \<le> n \<and> n \<le> 102 then Some (n - 87)
         else if 65 \<le> n \<and> n \<le> 70 then Some (n - 55)
         else None)"

definition radix_digit :: "int \<Rightarrow> char \<Rightarrow> bool" where
  "radix_digit r c = (case hex_val c of None \<Rightarrow> False | Some d \<Rightarrow> d < r)"

definition radix_val :: "int \<Rightarrow> string \<Rightarrow> int" where
  "radix_val r ds = foldl (\<lambda>a c. r * a + (case hex_val c of None \<Rightarrow> 0 | Some d \<Rightarrow> d)) 0 ds"

section \<open>Number(s) and parseInt(s, 16)\<close>

datatype jsnum = NaN | PosInf | NegInf | Num rat

fun jsnum_gt :: "jsnum \<Rightarrow> rat \<Rightarrow> bool" where
  "jsnum_gt NaN _ = False"
| "jsnum_gt PosInf _ = True"
| "jsnum_gt NegInf _ = False"
| "jsnum_gt (Num q) b = (b < q)"

text \<open>
  \<open>String(n)\<close> in decimal notation, with up to 17 fraction digits; the exponent notation of very
  large and very small numbers is not modelled.
\<close>

fun frac_digits :: "nat \<Rightarrow> rat \<Rightarrow> string" where
  "frac_digits 0 q = []"
| "frac_digits (Suc n) q =
     (if q = 0 then [] else char_of (48 + floor (10 * q)) # frac_digits n (10 * q - of_int (floor (10 * q))))"

fun jsnum_text :: "jsnum \<Rightarrow> string" where
  "jsnum_text NaN = ''NaN''"
| "jsnum_text PosInf = ''Infinity''"
| "jsnum_text NegInf = ''-Infinity''"
| "jsnum_text (Num q) =
     (let a = abs q; i = floor a; f = a - of_int i
      in (if q < 0 then ''-'' else []) @ string_of_int i @ (if f = 0 then [] else ''.'' @ frac_digits 17 f))"

definition signed_rest :: "string \<Rightarrow> bool \<times> string" where
  "signed_rest s =
     (case s of [] \<Rightarrow> (False, [])
      | c # r \<Rightarrow> if c = CHR ''-'' then (True, r) else if c = CHR ''+'' then (False, r) else (False, s))"

definition parse_exponent :: "string \<Rightarrow> int option" where
  "parse_exponent s =
     (let (neg, r) = signed_rest s
      in if r \<noteq> [] \<and> list_all is_digit r
         then Some (if neg then - digits_val r else digits_val r) else None)"

definition scale10 :: "rat \<Rightarrow> int \<Rightarrow> rat" where
  "scale10 m e = (if 0 \<le> e then m * 10 ^ nat e else m / 10 ^ nat (- e))"

text \<open>\<open>StrUnsignedDecimalLiteral\<close>: digits, optional fraction, optional exponent.\<close>

definition parse_decimal :: "string \<Rightarrow> rat option" where
  "parse_decimal s =
     (let ip = takeWhile is_digit s; r1 = dropWhile is_digit s;
          (fp, r2) = (case r1 of [] \<Rightarrow> ([], [])
                      | c # r \<Rightarrow> if c = CHR ''.'' then (takeWhile is_digit r, dropWhile is_digit r)
                                 else ([], r1));
          m = of_int (digits_val (ip @ fp)) / 10 ^ length fp
      in if ip = [] \<and> fp = [] then None
         else (case r2 of [] \<Rightarrow> Some m
               | c # r \<Rightarrow> if c = CHR ''e'' \<or> c = CHR ''E''
                          then map_option (scale10 m) (parse_exponent r) else None))"

definition js_Number :: "string \<Rightarrow> jsnum" where
  "js_Number s =
     (let t = js_trim s; p = to_lower (take 2 t); d = drop 2 t;
          radix = (if p = ''0x'' then Some 16 else if p = ''0o'' then Some 8
                   else if p = ''0b'' then Some 2 else None)
      in if t = [] then Num 0
         else case radix of
           Some r \<Rightarrow> if d \<noteq> [] \<and> list_all (radix_digit r) d then Num (of_int (radix_val r d)) else NaN
         | None \<Rightarrow>
             (let (neg, u) = signed_rest t
              in if u = ''Infinity'' then (if neg then NegInf else PosInf)
                 else case parse_decimal u of None \<Rightarrow> NaN | Some q \<Rightarrow> Num (if neg then - q else q)))"

text \<open>
  \<open>parseInt(s, 16)\<close>: leading white space, a sign, an optional \<open>0x\<close>, then the longest prefix
  of hexadecimal digits; \<open>NaN\<close> (here \<open>None\<close>) when it is empty.
\<close>

definition parseInt16 :: "string \<Rightarrow> int option" where
  "parseInt16 s =
     (let (neg, u) = signed_rest (dropWhile js_space s);
          v = (if to_lower (take 2 u) = ''0x'' then drop 2 u else u);
          ds = takeWhile (radix_digit 16) v
      in if ds = [] then None
         else Some (if neg then - radix_val 16 ds else radix_val 16 ds))"

section \<open>Lemmas\<close>

lemma to_lower_Nil [simp]: "to_lower [] = []"
  by (simp add: to_lower_def)

lemma length_to_lower [simp]: "length (to_lower s) = length s"
  by (simp add: to_lower_def)

lemma upper_code_lowered: "upper_code n \<Longrightarrow> (n + 32) mod 256 = n + 32 \<and> \<not> upper_code (n + 32)"
  by (auto simp: upper_code_def intro!: mod_pos_pos_trivial)

lemma lower_char_idem [simp]: "lower_char (lower_char c) = lower_char c"
  using upper_code_lowered [of "char_code c"] by (simp add: lower_char_def of_char_of)

lemma to_lower_idem [simp]: "to_lower (to_lower s) = to_lower s"
  by (simp add: to_lower_def)

lemma starts_with_append [simp]: "starts_with (p @ s) p"
  by (simp add: starts_with_def)

lemma starts_with_iff: "starts_with s p \<longleftrightarrow> (\<exists>r. s = p @ r)"
proof
  assume "starts_with s p"
  then have "s = p @ drop (length p) s"
    using append_take_drop_id [of "length p" s] by (simp add: starts_with_def)
  then show "\<exists>r. s = p @ r" ..
qed auto

lemma ends_with_iff: "ends_with s p \<longleftrightarrow> (\<exists>r. s = r @ p)"
proof -
  have "rev s = rev p @ r \<longleftrightarrow> s = rev r @ p" for r
    by (metis rev_append rev_rev_ident)
  then show ?thesis
    unfolding ends_with_def starts_with_iff by (metis rev_rev_ident)
qed

lemma split_on_not_Nil [simp]: "split_on d s \<noteq> []"
  by (induction d s rule: split_on.induct) (auto split: list.splits)

lemma split_on_no_sep: "d \<notin> set s \<Longrightarrow> split_on d s = [s]"
  by (induction d s rule: split_on.induct) auto

lemma split_on_append: "d \<notin> set a \<Longrightarrow> split_on d (a @ d # s) = a # split_on d s"
  by (induction a) auto

lemma join_with_Cons: "ws \<noteq> [] \<Longrightarrow> join_with sep (w # ws) = w @ sep @ join_with sep ws"
  by (cases ws) simp_all

lemma join_with_Cons_head: "join_with sep ((c # w) # ws) = c # join_with sep (w # ws)"
  by (cases ws) simp_all

lemma join_split [simp]: "join_with [d] (split_on d s) = s"
proof (induction d s rule: split_on.induct)
  case (1 d)
  then show ?case by simp
next
  case (2 d c s)
  then show ?case
    by (cases "split_on d s") (simp_all add: join_with_Cons join_with_Cons_head)
qed

lemma string_of_int_not_Nil [simp]: "string_of_int i \<noteq> []"
  by (simp add: string_of_int_def string_of_nonneg.simps [of i])

lemma dropWhile_id: "s = [] \<or> \<not> P (hd s) \<Longrightarrow> dropWhile P s = s"
  by (cases s) auto

lemma js_trim_id: "s = [] \<or> (\<not> js_space (hd s) \<and> \<not> js_space (last s)) \<Longrightarrow> js_trim s = s"
proof -
  assume a: "s = [] \<or> (\<not> js_space (hd s) \<and> \<not> js_space (last s))"
  then have "dropWhile js_space s = s" by (intro dropWhile_id) blast
  moreover from a have "rev s = [] \<or> \<not> js_space (hd (rev s))" by (cases "s = []") (simp_all add: hd_rev)
  then have "dropWhile js_space (rev s) = rev s" by (rule dropWhile_id)
  ultimately show ?thesis by (simp add: js_trim_def)
qed

section \<open>Digits round trip\<close>

lemma is_digit_char_of: "0 \<le> k \<Longrightarrow> k \<le> 9 \<Longrightarrow> char_code (char_of (48 + k :: int)) = 48 + k"
  by (simp add: of_char_of)

lemma digits_val_snoc: "digits_val (ds @ [c]) = 10 * digits_val ds + digit_val c"
  by (simp add: digits_val_def)

lemma digits_val_string_of_nonneg: "0 \<le> n \<Longrightarrow> digits_val (string_of_nonneg n) = n"
proof (induction n rule: string_of_nonneg.induct)
  case (1 n)
  show ?case
  proof (cases "n < 10")
    case True
    with 1 show ?thesis
      by (subst string_of_nonneg.simps) (simp add: digits_val_def digit_val_def is_digit_char_of)
  next
    case False
    have "digit_val (char_of (48 + n mod 10)) = n mod 10"
      unfolding digit_val_def by (subst is_digit_char_of) auto
    with 1 False show ?thesis
      by (subst string_of_nonneg.simps) (simp add: digits_val_snoc)
  qed
qed

lemma string_of_nonneg_digits: "0 \<le> n \<Longrightarrow> list_all is_digit (string_of_nonneg n)"
proof (induction n rule: string_of_nonneg.induct)
  case (1 n)
  have d: "is_digit (char_of (48 + k))" if "0 \<le> k" "k \<le> 9" for k :: int
    using that by (simp add: is_digit_def is_digit_char_of)
  show ?case
  proof (cases "n < 10")
    case True
    with 1 d [of n] show ?thesis by (subst string_of_nonneg.simps) simp
  next
    case False
    with 1 d [of "n mod 10"] show ?thesis by (subst string_of_nonneg.simps) simp
  qed
qed

lemma string_of_nonneg_length3: 
  assumes "0 \<le> n" "n < 1000" shows "length (string_of_nonneg n) \<le> 3"
  by (subst string_of_nonneg.simps, subst string_of_nonneg.simps, subst string_of_nonneg.simps) (use assms in auto)

lemma js_space_digit: "is_digit c \<Longrightarrow> \<not> js_space c"
  by (auto simp: is_digit_def js_space_def)

lemma takeWhile_all: "list_all P xs \<Longrightarrow> takeWhile P xs = xs \<and> dropWhile P xs = []"
  by (induction xs) auto

lemma is_digit_neq: "is_digit c \<Longrightarrow> c \<noteq> CHR ''-'' \<and> c \<noteq> CHR ''+'' \<and> c \<noteq> CHR ''I''\<and> c \<noteq> CHR ''.'' \<and> c \<noteq> CHR '':''"
  by (auto simp: is_digit_def)

lemma lower_digit: "is_digit c \<Longrightarrow> lower_char c = c"
  by (auto simp: is_digit_def lower_char_def upper_code_def)

lemma js_Number_digits:
  assumes "w \<noteq> []" "list_all is_digit w"
  shows "js_Number w = Num (of_int (digits_val w))"
proof -
  from assms have t: "js_trim w = w"
    by (intro js_trim_id) (cases w; auto simp: list_all_iff js_space_digit)
  from assms have low: "to_lower (take 2 w) = take 2 w"
    unfolding to_lower_def by (intro map_idI) (auto simp: list_all_iff lower_digit dest: in_set_takeD)
  have "\<not> list_all is_digit u" if "u = ''0x'' \<or> u = ''0o'' \<or> u = ''0b''" for u
    using that by (auto simp: is_digit_def)
  moreover have "list_all is_digit (take 2 w)"
    using assms by (auto simp: list_all_iff dest: in_set_takeD)
  ultimately have nr: "take 2 w \<noteq> ''0x''" "take 2 w \<noteq> ''0o''" "take 2 w \<noteq> ''0b''" by metis+
  from assms have s: "signed_rest w = (False, w)"
    by (cases w) (auto simp: signed_rest_def dest: is_digit_neq)
  from assms have i: "w \<noteq> ''Infinity''" by (auto simp: is_digit_def)
  from assms have "parse_decimal w = Some (of_int (digits_val w))"
    by (simp add: parse_decimal_def takeWhile_all)
  with t low nr s i assms show ?thesis
    by (simp add: js_Number_def)
qed

end
