(* ===== verification/CoreErrors.thy ===== *)
theory CoreErrors
  imports JsString
begin

text \<open>
  packages/core/src/errors and packages/core/src/domain: the discriminated unions of the error
  channel, their constructors and the stripping of credentials from the URLs they print. The URL
  parser of the platform is the parameter \<open>parse\<close> of every definition that needs it: it returns
  the components of a URL, or \<open>None\<close> where \<open>new URL(..)\<close> throws. Its serialiser is \<open>url_href\<close>.
\<close>

section \<open>The URL object\<close>

record url_obj =
  u_protocol :: string
  u_slashes :: bool
  u_username :: string
  u_password :: string
  u_hostname :: string
  u_port :: string
  u_pathname :: string
  u_search :: string
  u_hash :: string

type_synonym url_parser = "string \<Rightarrow> url_obj option"

text \<open>\<open>toString\<close> and \<open>href\<close>; \<open>u_slashes\<close> says that the URL has a host component.\<close>

definition url_href :: "url_obj \<Rightarrow> string" where
  "url_href u =
     u_protocol u
       @ (if u_slashes u then ''//''
            @ (if u_username u = [] \<and> u_password u = [] then []
               else u_username u @ (if u_password u = [] then [] else '':'' @ u_password u) @ ''@'')
            @ u_hostname u @ (if u_port u = [] then [] else '':'' @ u_port u)
          else [])
       @ u_pathname u @ u_search u @ u_hash u"

definition stripUrlCredentials :: "url_parser \<Rightarrow> string \<Rightarrow> string" where
  "stripUrlCredentials parse url =
     (case parse url of
        None \<Rightarrow> url
      | Some parsed \<Rightarrow>
          if u_username parsed = [] \<and> u_password parsed = [] then url
          else url_href (parsed\<lparr>u_username := ''***'', u_password := []\<rparr>))"

section \<open>FetchError\<close>

datatype FetchError =
    FeTimeout (fe_url: string) int (fe_message: string)
  | FeNetwork (fe_url: string) js_error (fe_message: string)
  | FeHttp (fe_url: string) int (fe_message: string)
  | FeSsrfBlocked (fe_url: string) string (fe_message: string)
  | FeTooManyRedirects (fe_url: string) int (fe_message: string)
  | FeBodyTooLarge (fe_url: string) int jsnum (fe_message: string)
  | FeDnsResolutionFailed (fe_url: string) string (fe_message: string)
  | FeSslError (fe_url: string) string (fe_message: string)
  | FeConnectionRefused (fe_url: string) string int (fe_message: string)

fun fetch_error_kind :: "FetchError \<Rightarrow> string" where
  "fetch_error_kind (FeTimeout _ _ _) = ''timeout''"
| "fetch_error_kind (FeNetwork _ _ _) = ''network''"
| "fetch_error_kind (FeHttp _ _ _) = ''http''"
| "fetch_error_kind (FeSsrfBlocked _ _ _) = ''ssrf_blocked''"
| "fetch_error_kind (FeTooManyRedirects _ _ _) = ''too_many_redirects''"
| "fetch_error_kind (FeBodyTooLarge _ _ _ _) = ''body_too_large''"
| "fetch_error_kind (FeDnsResolutionFailed _ _ _) = ''dns_resolution_failed''"
| "fetch_error_kind (FeSslError _ _ _) = ''ssl_error''"
| "fetch_error_kind (FeConnectionRefused _ _ _ _) = ''connection_refused''"

definition createTimeoutError :: "url_parser \<Rightarrow> string \<Rightarrow> int \<Rightarrow> FetchError" where
  "createTimeoutError parse url timeoutMs =
     (let safeUrl = stripUrlCredentials parse url
      in FeTimeout url timeoutMs (''Fetch timeout after '' @ string_of_int timeoutMs @ ''ms for '' @ safeUrl))"

definition createNetworkError :: "url_parser \<Rightarrow> string \<Rightarrow> js_error \<Rightarrow> FetchError" where
  "createNetworkError parse url cause =
     (let safeUrl = stripUrlCredentials parse url
      in FeNetwork url cause (''network error fetching '' @ safeUrl @ '': '' @ err_message cause))"

definition createHttpError :: "url_parser \<Rightarrow> string \<Rightarrow> int \<Rightarrow> FetchError" where
  "createHttpError parse url statusCode =
     (let safeUrl = stripUrlCredentials parse url
      in FeHttp url statusCode (''HTTP '' @ string_of_int statusCode @ '' fetching '' @ safeUrl))"

definition createSsrfBlockedError :: "url_parser \<Rightarrow> string \<Rightarrow> string \<Rightarrow> FetchError" where
  "createSsrfBlockedError parse url reason =
     (let safeUrl = stripUrlCredentials parse url
      in FeSsrfBlocked url reason (''SSRF blocked for '' @ safeUrl @ '': '' @ reason))"

definition createTooManyRedirectsError :: "url_parser \<Rightarrow> string \<Rightarrow> int \<Rightarrow> FetchError" where
  "createTooManyRedirectsError parse url maxRedirects =
     (let safeUrl = stripUrlCredentials parse url
      in FeTooManyRedirects url maxRedirects
           (''Too many redirects (max '' @ string_of_int maxRedirects @ '') for '' @ safeUrl))"

definition createBodyTooLargeError :: "url_parser \<Rightarrow> string \<Rightarrow> int \<Rightarrow> jsnum \<Rightarrow> FetchError" where
  "createBodyTooLargeError parse url maxBytes actualBytes =
     (let safeUrl = stripUrlCredentials parse url
      in FeBodyTooLarge url maxBytes actualBytes
           (''Body too large ('' @ jsnum_text actualBytes @ '' > '' @ string_of_int maxBytes @ '') for '' @ safeUrl))"

definition createDnsResolutionFailedError :: "string \<Rightarrow> string \<Rightarrow> FetchError" where
  "createDnsResolutionFailedError url hostname =
     FeDnsResolutionFailed url hostname (''DNS resolution failed for '' @ hostname)"

definition createSslError :: "url_parser \<Rightarrow> string \<Rightarrow> string \<Rightarrow> FetchError" where
  "createSslError parse url c =
     (let safeUrl = stripUrlCredentials parse url
      in FeSslError url c (''SSL error ('' @ c @ '') for '' @ safeUrl))"

definition createConnectionRefusedError :: "string \<Rightarrow> string \<Rightarrow> int \<Rightarrow> FetchError" where
  "createConnectionRefusedError url host port =
     FeConnectionRefused url host port (''Connection refused to '' @ host @ '':'' @ string_of_int port)"

section \<open>UrlError, QueueError and CrawlError\<close>

datatype UrlError =
    UeInvalidUrl string string (ue_message: string)
  | UeDisallowedScheme string string (ue_message: string)
  | UeEmptyUrl (ue_message: string)

definition createInvalidUrlError :: "url_parser \<Rightarrow> string \<Rightarrow> string \<Rightarrow> UrlError" where
  "createInvalidUrlError parse raw reason =
     (let safeRaw = stripUrlCredentials parse raw
      in UeInvalidUrl raw reason (''invalid URL '' @ [CHR 0x22] @ safeRaw @ [CHR 0x22] @ '': '' @ reason))"

definition createDisallowedSchemeError :: "url_parser \<Rightarrow> string \<Rightarrow> string \<Rightarrow> UrlError" where
  "createDisallowedSchemeError parse raw scheme =
     (let safeRaw = stripUrlCredentials parse raw
      in UeDisallowedScheme raw scheme
           (''Disallowed scheme '' @ [CHR 0x22] @ scheme @ [CHR 0x22] @ '' in '' @ safeRaw))"

definition createEmptyUrlError :: UrlError where
  "createEmptyUrlError = UeEmptyUrl ''URL is empty''"

record QueueError =
  qe_operation :: string
  qe_cause :: thrown
  qe_message :: string

definition createQueueError :: "string \<Rightarrow> thrown \<Rightarrow> QueueError" where
  "createQueueError operation cause =
     (let causeMsg = thrown_message cause
      in \<lparr>qe_operation = operation, qe_cause = cause,
          qe_message = ''Queue error during '' @ operation @ '': '' @ causeMsg\<rparr>)"

datatype CrawlError =
    CeFetch FetchError
  | CeUrl UrlError
  | CeDepthExceeded string int int string
  | CeDomainNotAllowed string string string
  | CeQueue QueueError

fun crawl_error_kind :: "CrawlError \<Rightarrow> string" where
  "crawl_error_kind (CeFetch e) = fetch_error_kind e"
| "crawl_error_kind (CeUrl (UeInvalidUrl _ _ _)) = ''invalid_url''"
| "crawl_error_kind (CeUrl (UeDisallowedScheme _ _ _)) = ''disallowed_scheme''"
| "crawl_error_kind (CeUrl (UeEmptyUrl _)) = ''empty_url''"
| "crawl_error_kind (CeDepthExceeded _ _ _ _) = ''depth_exceeded''"
| "crawl_error_kind (CeDomainNotAllowed _ _ _) = ''domain_not_allowed''"
| "crawl_error_kind (CeQueue _) = ''queue_error''"

fun crawl_error_message :: "CrawlError \<Rightarrow> string" where
  "crawl_error_message (CeFetch e) = fe_message e"
| "crawl_error_message (CeUrl e) = ue_message e"
| "crawl_error_message (CeDepthExceeded _ _ _ m) = m"
| "crawl_error_message (CeDomainNotAllowed _ _ m) = m"
| "crawl_error_message (CeQueue e) = qe_message e"

definition createDepthExceededError :: "url_parser \<Rightarrow> string \<Rightarrow> int \<Rightarrow> int \<Rightarrow> CrawlError" where
  "createDepthExceededError parse url maxDepth currentDepth =
     (let safeUrl = stripUrlCredentials parse url
      in CeDepthExceeded url maxDepth currentDepth
           (''Crawl depth exceeded ('' @ string_of_int currentDepth @ '' > max '' @ string_of_int maxDepth
              @ '') for '' @ safeUrl))"

definition createDomainNotAllowedError :: "url_parser \<Rightarrow> string \<Rightarrow> string \<Rightarrow> CrawlError" where
  "createDomainNotAllowedError parse url domain =
     (let safeUrl = stripUrlCredentials parse url
      in CeDomainNotAllowed url domain (''domain not allowed: '' @ domain @ '' for '' @ safeUrl))"

section \<open>CrawlUrl and the contracts' data\<close>

record CrawlUrl =
  cu_raw :: string
  cu_normalized :: string
  cu_domain :: string

definition createCrawlUrl :: "string \<Rightarrow> string \<Rightarrow> string \<Rightarrow> CrawlUrl" where
  "createCrawlUrl raw normalized domain = \<lparr>cu_raw = raw, cu_normalized = normalized, cu_domain = domain\<rparr>"

record FetchConfig =
  fc_timeoutMs :: int
  fc_maxRedirects :: int
  fc_maxBodyBytes :: int

record FetchResult =
  fr_statusCode :: int
  fr_body :: string
  fr_headers :: "(string \<times> string) list"
  fr_url :: string

record FrontierEntry =
  fe_entry_url :: string
  fe_priority :: int
  fe_depth :: int

record FrontierSize =
  fs_pending :: int
  fs_active :: int
  fs_total :: int

section \<open>No credentials in messages\<close>

definition has_credentials :: "url_obj \<Rightarrow> bool" where
  "has_credentials u = (u_username u \<noteq> [] \<or> u_password u \<noteq> [])"

definition without_credentials :: "url_obj \<Rightarrow> url_obj" where
  "without_credentials u = u\<lparr>u_username := [], u_password := []\<rparr>"

lemma strip_hides:
  assumes "parse s = Some u" "parse t = Some v" "has_credentials u" "has_credentials v"
    and "without_credentials u = without_credentials v"
  shows "stripUrlCredentials parse s = stripUrlCredentials parse t"
proof -
  have "w\<lparr>u_username := ''***'', u_password := []\<rparr>
      = (without_credentials w)\<lparr>u_username := ''***'', u_password := []\<rparr>" for w :: url_obj
    by (simp add: without_credentials_def)
  then have "u\<lparr>u_username := ''***'', u_password := []\<rparr> = v\<lparr>u_username := ''***'', u_password := []\<rparr>"
    using assms(5) by metis
  with assms(1-4) show ?thesis
    unfolding stripUrlCredentials_def has_credentials_def by auto
qed

lemma strip_without_credentials:
  "parse s = None \<or> (\<exists>u. parse s = Some u \<and> \<not> has_credentials u) \<Longrightarrow> stripUrlCredentials parse s = s"
  by (auto simp: stripUrlCredentials_def has_credentials_def)

text \<open>Two URLs that differ in their credentials only give the same message in every error whose
  message prints the URL: no message of the error channel depends on a user name or a password.\<close>

theorem error_messages_hide_credentials:
  assumes "parse s = Some u" "parse t = Some v" "has_credentials u" "has_credentials v"
    and "without_credentials u = without_credentials v"
  shows "fe_message (createTimeoutError parse s ms) = fe_message (createTimeoutError parse t ms)
    \<and> fe_message (createNetworkError parse s cause) = fe_message (createNetworkError parse t cause)
    \<and> fe_message (createHttpError parse s code) = fe_message (createHttpError parse t code)
    \<and> fe_message (createSsrfBlockedError parse s reason) = fe_message (createSsrfBlockedError parse t reason)
    \<and> fe_message (createTooManyRedirectsError parse s n) = fe_message (createTooManyRedirectsError parse t n)
    \<and> fe_message (createBodyTooLargeError parse s n b) = fe_message (createBodyTooLargeError parse t n b)
    \<and> fe_message (createSslError parse s sslcode) = fe_message (createSslError parse t sslcode)
    \<and> ue_message (createInvalidUrlError parse s reason) = ue_message (createInvalidUrlError parse t reason)
    \<and> ue_message (createDisallowedSchemeError parse s sch) = ue_message (createDisallowedSchemeError parse t sch)
    \<and> crawl_error_message (createDepthExceededError parse s n m)
        = crawl_error_message (createDepthExceededError parse t n m)
    \<and> crawl_error_message (createDomainNotAllowedError parse s d)
        = crawl_error_message (createDomainNotAllowedError parse t d)"
  using strip_hides [OF assms]
  by (simp_all add: createTimeoutError_def createNetworkError_def createHttpError_def createSsrfBlockedError_def
      createTooManyRedirectsError_def createBodyTooLargeError_def createSslError_def createInvalidUrlError_def
      createDisallowedSchemeError_def createDepthExceededError_def createDomainNotAllowedError_def Let_def)

definition witness_url :: "string \<Rightarrow> string \<Rightarrow> url_obj" where
  "witness_url user pass =
     \<lparr>u_protocol = ''https:'', u_slashes = True, u_username = user, u_password = pass,
      u_hostname = ''example.com'', u_port = [], u_pathname = ''/a'', u_search = [], u_hash = []\<rparr>"

lemma error_messages_hide_credentials_witness:
  "\<exists>parse :: url_parser.
     fe_message (createHttpError parse ''https://bob:pw@example.com/a'' 500)
       = fe_message (createHttpError parse ''https://eve:xx@example.com/a'' 500)
     \<and> fe_message (createHttpError parse ''https://bob:pw@example.com/a'' 500)
       = ''HTTP 500 fetching https://***@example.com/a''"
proof -
  define parse :: url_parser where
    "parse = (\<lambda>s. if s = ''https://bob:pw@example.com/a'' then Some (witness_url ''bob'' ''pw'')
                  else if s = ''https://eve:xx@example.com/a'' then Some (witness_url ''eve'' ''xx'') else None)"
  have p: "parse ''https://bob:pw@example.com/a'' = Some (witness_url ''bob'' ''pw'')"
    "parse ''https://eve:xx@example.com/a'' = Some (witness_url ''eve'' ''xx'')"
    by (simp_all add: parse_def)
  have c: "has_credentials (witness_url ''bob'' ''pw'')" "has_credentials (witness_url ''eve'' ''xx'')"
    "without_credentials (witness_url ''bob'' ''pw'') = without_credentials (witness_url ''eve'' ''xx'')"
    by code_simp+
  have "string_of_int 500 = ''500''" by code_simp
  then have "fe_message (createHttpError parse ''https://bob:pw@example.com/a'' 500)
      = ''HTTP 500 fetching https://***@example.com/a''"
    by (simp add: createHttpError_def stripUrlCredentials_def p witness_url_def url_href_def)
  with error_messages_hide_credentials [of parse, OF p c, where code = 500] show ?thesis by metis
qed

end
