(* ===== verification/UrlNormalizer.thy ===== *)
theory UrlNormalizer
  imports CoreErrors
begin

text \<open>
  packages/crawl-pipeline/src/url-normalizer.ts, normalized-url.ts and crawl-url-factory.ts: the
  normal form of a URL that duplicates are detected by. The platform is the record \<open>url_platform\<close>:
  the URL parser, with and without a base, the query parser, \<open>domainToASCII\<close> and the collation
  \<open>localeCompare\<close>. Text is encoded as UTF-8 for the code units below 256.
\<close>

record url_platform =
  up_parse :: url_parser
  up_parse_base :: "string \<Rightarrow> string \<Rightarrow> url_obj option"
  up_search_params :: "string \<Rightarrow> (string \<times> string) list"
  up_domainToASCII :: "string \<Rightarrow> string"
  up_localeCompare :: "string \<Rightarrow> string \<Rightarrow> int"

section \<open>Encoding\<close>

definition utf8_bytes :: "char \<Rightarrow> int list" where
  "utf8_bytes c =
     (let n = char_code c in if n < 128 then [n] else [192 + n div 64, 128 + n mod 64])"

definition hex_digit :: "int \<Rightarrow> char" where
  "hex_digit d = (if d < 10 then char_of (48 + d) else char_of (55 + d))"

text \<open>\<open>b.toString(16).toUpperCase()\<close> of a byte: no leading zero.\<close>

definition hex_upper :: "int \<Rightarrow> string" where
  "hex_upper b = (if b < 16 then [hex_digit b] else [hex_digit (b div 16), hex_digit (b mod 16)])"

definition encodeNonAsciiPath :: "string \<Rightarrow> string" where
  "encodeNonAsciiPath path =
     concat (map (\<lambda>c. if 32 \<le> char_code c \<and> char_code c \<le> 126 then [c]
                      else concat (map (\<lambda>b. CHR ''%'' # hex_upper b) (utf8_bytes c))) path)"

definition uri_unreserved :: "char \<Rightarrow> bool" where
  "uri_unreserved c =
     (let n = char_code c
      in (65 \<le> n \<and> n \<le> 90) \<or> (97 \<le> n \<and> n \<le> 122) \<or> (48 \<le> n \<and> n \<le> 57)
         \<or> c \<in> set ''-_.!~*()'' \<or> n = 39)"

definition encodeURIComponent :: "string \<Rightarrow> string" where
  "encodeURIComponent s =
     concat (map (\<lambda>c. if uri_unreserved c then [c]
                      else concat (map (\<lambda>b. [CHR ''%'', hex_digit (b div 16), hex_digit (b mod 16)]) (utf8_bytes c))) s)"

section \<open>url-normalizer.ts\<close>

definition isDefaultPort :: "string \<Rightarrow> string \<Rightarrow> bool" where
  "isDefaultPort protocol port =
     (port = [] \<or> (protocol = ''https:'' \<and> port = ''443'') \<or> (protocol = ''http:'' \<and> port = ''80''))"

text \<open>\<open>Array.prototype.sort\<close> is stable: a new entry goes after those it is not less than.\<close>

fun insert_entry :: "(string \<Rightarrow> string \<Rightarrow> int) \<Rightarrow> string \<times> string \<Rightarrow> (string \<times> string) list \<Rightarrow> (string \<times> string) list" where
  "insert_entry cmp e [] = [e]"
| "insert_entry cmp e (x # xs) = (if cmp (fst e) (fst x) < 0 then e # x # xs else x # insert_entry cmp e xs)"

definition sort_entries :: "(string \<Rightarrow> string \<Rightarrow> int) \<Rightarrow> (string \<times> string) list \<Rightarrow> (string \<times> string) list" where
  "sort_entries cmp xs = foldl (\<lambda>acc e. insert_entry cmp e acc) [] xs"

definition sortQueryParams :: "url_platform \<Rightarrow> (string \<times> string) list \<Rightarrow> string" where
  "sortQueryParams pf entries =
     (if entries = [] then []
      else let sorted = sort_entries (up_localeCompare pf) entries;
               parts = map (\<lambda>(k, v). encodeURIComponent k @ ''='' @ encodeURIComponent v) sorted
           in ''?'' @ join_with ''&'' parts)"

function strip_slashes :: "string \<Rightarrow> string" where
  "strip_slashes path = (if 1 < length path \<and> ends_with path ''/'' then strip_slashes (butlast path) else path)"
  by pat_completeness auto
termination
  by (relation "measure length") auto

declare strip_slashes.simps [simp del]

definition normalizeUrl :: "url_platform \<Rightarrow> url_obj \<Rightarrow> string" where
  "normalizeUrl pf parsed =
     (let asciiHost = up_domainToASCII pf (u_hostname parsed);
          host = (if asciiHost = [] then u_hostname parsed else asciiHost);
          port = (if isDefaultPort (u_protocol parsed) (u_port parsed) then [] else '':'' @ u_port parsed);
          stripped = strip_slashes (encodeNonAsciiPath (u_pathname parsed));
          path = (if stripped = ''/'' then [] else stripped);
          sortedQuery = sortQueryParams pf (up_search_params pf (u_search parsed))
      in u_protocol parsed @ ''//'' @ host @ port @ path @ sortedQuery)"

definition hasControlChars :: "string \<Rightarrow> bool" where
  "hasControlChars raw = list_ex (\<lambda>c. char_code c \<le> 31 \<or> char_code c = 127) raw"

definition isTooLong :: "string \<Rightarrow> bool" where
  "isTooLong raw = (2048 < length raw)"

section \<open>crawl-url-factory.ts\<close>

text \<open>\<open>replace(':', '')\<close> removes the first colon.\<close>

definition without_colon :: "string \<Rightarrow> string" where
  "without_colon s = (case cut_at '':'' s of None \<Rightarrow> s | Some (a, b) \<Rightarrow> a @ b)"

definition parseCrawlUrl :: "url_platform \<Rightarrow> string \<Rightarrow> (UrlError, CrawlUrl) result" where
  "parseCrawlUrl pf raw =
     (let trimmed = js_trim raw
      in if trimmed = [] then Err createEmptyUrlError
         else case up_parse pf trimmed of
           None \<Rightarrow> Err (createInvalidUrlError (up_parse pf) trimmed ''URL parsing failed'')
         | Some parsed \<Rightarrow>
             if u_protocol parsed \<notin> {''http:'', ''https:''}
             then Err (createDisallowedSchemeError (up_parse pf) trimmed (without_colon (u_protocol parsed)))
             else Ok (createCrawlUrl trimmed (normalizeUrl pf parsed) (to_lower (u_hostname parsed))))"

section \<open>The normal form\<close>

text \<open>A collation that tells keys apart and is total and transitive, the documented contract of a comparator.\<close>

definition good_collation :: "(string \<Rightarrow> string \<Rightarrow> int) \<Rightarrow> bool" where
  "good_collation cmp =
     ((\<forall>a b. cmp a b < 0 \<longleftrightarrow> 0 < cmp b a) \<and> (\<forall>a b c. cmp a b < 0 \<longrightarrow> cmp b c < 0 \<longrightarrow> cmp a c < 0)
      \<and> (\<forall>a b. cmp a b = 0 \<longleftrightarrow> a = b))"

definition before :: "(string \<Rightarrow> string \<Rightarrow> int) \<Rightarrow> string \<times> string \<Rightarrow> string \<times> string \<Rightarrow> bool" where
  "before cmp x y = (cmp (fst x) (fst y) < 0)"

lemma set_insert_entry [simp]: "set (insert_entry cmp e xs) = insert e (set xs)"
  by (induction cmp e xs rule: insert_entry.induct) auto

lemma insert_entry_sorted:
  assumes "good_collation cmp" "sorted_wrt (before cmp) xs" "fst e \<notin> fst ` set xs"
  shows "sorted_wrt (before cmp) (insert_entry cmp e xs)"
  using assms
proof (induction xs)
  case (Cons x xs)
  have flip: "\<not> cmp (fst e) (fst x) < 0 \<Longrightarrow> cmp (fst x) (fst e) < 0"
  proof -
    assume a: "\<not> cmp (fst e) (fst x) < 0"
    have "cmp (fst e) (fst x) \<noteq> 0" using Cons.prems unfolding good_collation_def by force
    with a have "0 < cmp (fst e) (fst x)" by simp
    then show ?thesis using Cons.prems(1) unfolding good_collation_def by blast
  qed
  have trans: "cmp (fst e) (fst y) < 0" if "cmp (fst e) (fst x) < 0" "y \<in> set xs" for y
  proof -
    have "cmp (fst x) (fst y) < 0" using Cons.prems(2) that(2) by (simp add: before_def)
    with that(1) Cons.prems(1) show ?thesis unfolding good_collation_def by blast
  qed
  show ?case
    using Cons flip trans by (auto simp: before_def)
qed simp

lemma sort_entries_sorted:
  assumes "good_collation cmp" "distinct (map fst xs)"
  shows "sorted_wrt (before cmp) (sort_entries cmp xs) \<and> set (sort_entries cmp xs) = set xs"
  using assms(2)
proof (induction xs rule: rev_induct)
  case (snoc e xs)
  then have "fst e \<notin> fst ` set (sort_entries cmp xs)" by simp
  with snoc assms(1) show ?case
    by (simp add: sort_entries_def insert_entry_sorted)
qed (simp add: sort_entries_def)

lemma sorted_before_unique:
  assumes "good_collation cmp" "sorted_wrt (before cmp) xs" "sorted_wrt (before cmp) ys" "set xs = set ys"
  shows "xs = ys"
  using assms(2-)
proof (induction xs arbitrary: ys)
  case (Cons x xs)
  then obtain y ys' where ys: "ys = y # ys'" by (cases ys) auto
  have irr: "\<not> before cmp a b \<or> \<not> before cmp b a" for a b
    using assms(1) unfolding good_collation_def before_def by (metis less_asym)
  have "x = y"
  proof (rule ccontr)
    assume "x \<noteq> y"
    then have "x \<in> set ys'" "y \<in> set xs" using Cons.prems ys by auto
    then show False using Cons.prems(1,2) ys irr [of x y] by auto
  qed
  moreover from this have "set xs = set ys'"
    using Cons.prems ys irr [of x x] by (auto simp: set_eq_iff) (metis irr)+
  ultimately show ?case using Cons ys by auto
qed simp

lemma sort_entries_perm:
  assumes "good_collation cmp" "distinct (map fst xs)" "distinct (map fst ys)" "set xs = set ys"
  shows "sort_entries cmp xs = sort_entries cmp ys"
  using assms sort_entries_sorted [OF assms(1,2)] sort_entries_sorted [OF assms(1,3)]
  by (intro sorted_before_unique [OF assms(1)]) simp_all

lemma strip_slashes_app: "path \<noteq> [] \<Longrightarrow> strip_slashes (path @ ''/'') = strip_slashes path"
  by (subst strip_slashes.simps) (simp add: ends_with_iff)

lemma encodeNonAsciiPath_slash: "encodeNonAsciiPath (p @ ''/'') = encodeNonAsciiPath p @ ''/''"
  by (simp add: encodeNonAsciiPath_def)

lemma encodeNonAsciiPath_not_Nil: "p \<noteq> [] \<Longrightarrow> encodeNonAsciiPath p \<noteq> []"
  by (cases p) (auto simp: encodeNonAsciiPath_def utf8_bytes_def Let_def)


text \<open>Comparison by code units, a collation that meets the contract.\<close>

fun code_unit_compare :: "string \<Rightarrow> string \<Rightarrow> int" where
  "code_unit_compare [] [] = 0"
| "code_unit_compare [] (d # t) = - 1"
| "code_unit_compare (c # s) [] = 1"
| "code_unit_compare (c # s) (d # t) =
     (if char_code c < char_code d then - 1 else if char_code d < char_code c then 1 else code_unit_compare s t)"

lemma code_unit_compare_antisym: "code_unit_compare a b < 0 \<longleftrightarrow> 0 < code_unit_compare b a"
  by (induction a b rule: code_unit_compare.induct) auto

lemma code_unit_compare_zero: "code_unit_compare a b = 0 \<longleftrightarrow> a = b"
  by (induction a b rule: code_unit_compare.induct) (auto simp: not_less of_char_eq_iff)

lemma code_unit_compare_trans:
  "code_unit_compare a b < 0 \<Longrightarrow> code_unit_compare b c < 0 \<Longrightarrow> code_unit_compare a c < 0"
proof (induction a b arbitrary: c rule: code_unit_compare.induct)
  case (2 d t)
  then show ?case by (cases c) simp_all
next
  case (4 x s y t)
  show ?case
  proof (cases c)
    case Nil
    with "4.prems" show ?thesis by simp
  next
    case (Cons z u)
    have "code_unit_compare s t < 0 \<Longrightarrow> code_unit_compare t u < 0 \<Longrightarrow> char_code x = char_code y \<Longrightarrow> code_unit_compare s u < 0"
      using "4.IH" by simp
    with "4.prems" Cons show ?thesis by (auto split: if_splits)
  qed
qed simp_all

lemma good_code_unit_compare: "good_collation code_unit_compare"
  unfolding good_collation_def
  using code_unit_compare_antisym code_unit_compare_trans code_unit_compare_zero by blast

definition plain_platform :: url_platform where
  "plain_platform =
     \<lparr>up_parse = (\<lambda>s. None), up_parse_base = (\<lambda>s b. None),
      up_search_params = (\<lambda>s. if s = ''?a=1&b=2'' then [(''a'', ''1''), (''b'', ''2'')]
                          else if s = ''?b=2&a=1'' then [(''b'', ''2''), (''a'', ''1'')] else []),
      up_domainToASCII = (\<lambda>h. h), up_localeCompare = code_unit_compare\<rparr>"


lemma normalizeUrl_ignores:
  "normalizeUrl pf (u\<lparr>u_username := name, u_password := pass, u_hash := frag\<rparr>) = normalizeUrl pf u"
  by (simp add: normalizeUrl_def Let_def)

text \<open>A URL the factory accepts is http or https, its raw form is the trimmed input, its domain is the lowered
  host, and its normal form contains neither user name, password nor fragment: it is computed from the other
  components only.\<close>

theorem parseCrawlUrl_accepts:
  assumes "parseCrawlUrl pf raw = Ok u"
  shows "\<exists>parsed. up_parse pf (js_trim raw) = Some parsed \<and> u_protocol parsed \<in> {''http:'', ''https:''}
    \<and> cu_raw u = js_trim raw \<and> cu_domain u = to_lower (u_hostname parsed)
    \<and> (\<forall>name pass frag. cu_normalized u
          = normalizeUrl pf (parsed\<lparr>u_username := name, u_password := pass, u_hash := frag\<rparr>))"
  unfolding normalizeUrl_ignores using assms
  by (auto simp: parseCrawlUrl_def createCrawlUrl_def Let_def split: if_splits option.splits)

lemma parseCrawlUrl_accepts_witness:
  "\<exists>u. parseCrawlUrl (plain_platform\<lparr>up_parse := (\<lambda>s. Some (witness_url ''bob'' ''pw''))\<rparr>) '' https://bob:pw@example.com/a '' = Ok u
     \<and> cu_raw u = ''https://bob:pw@example.com/a'' \<and> cu_normalized u = ''https://example.com/a''"
proof -
  let ?pf = "plain_platform\<lparr>up_parse := (\<lambda>s. Some (witness_url ''bob'' ''pw''))\<rparr>"
  have "(case parseCrawlUrl ?pf '' https://bob:pw@example.com/a '' of Ok u \<Rightarrow> cu_normalized u = ''https://example.com/a'' | _ \<Rightarrow> False)"
    by code_simp
  then obtain u where u: "parseCrawlUrl ?pf '' https://bob:pw@example.com/a '' = Ok u" "cu_normalized u = ''https://example.com/a''"
    by (auto split: sum.splits)
  have "js_trim '' https://bob:pw@example.com/a '' = ''https://bob:pw@example.com/a''" by code_simp
  with parseCrawlUrl_accepts [OF u(1)] u show ?thesis by auto
qed

text \<open>The path encoder writes a byte below 16 with one hexadecimal digit, so what it produces for a line feed
  is not a percent-encoded triplet, unlike the encoder of the query parameters.\<close>

theorem encodeNonAsciiPath_drops_zero:
  "encodeNonAsciiPath [char_of (10 :: nat)] = ''%A'' \<and> encodeURIComponent [char_of (10 :: nat)] = ''%0A''"
  by code_simp

end
