(* ===== verification/CrawlPipeline.thy ===== *)
theory CrawlPipeline
  imports UrlNormalizer
begin

text \<open>
  packages/crawl-pipeline/src: the stages validate, fetch, discover, enqueue and their composition,
  and the discover stage that publishes events. The injected fetcher, frontier and clocks are the
  fields of \<open>pipeline_deps\<close>; a call that rejects makes the stage reject. Log lines are returned.
\<close>

section \<open>crawl-types.ts\<close>

record CrawlFrontierEntry =
  ce_url :: CrawlUrl
  ce_depth :: int
  ce_discoveredBy :: string
  ce_discoveredAt :: int
  ce_parentUrl :: "string option"

record CrawlFetchResult =
  cf_requestedUrl :: CrawlUrl
  cf_finalUrl :: "CrawlUrl option"
  cf_statusCode :: int
  cf_contentType :: "string option"
  cf_body :: string
  cf_fetchTimestamp :: int
  cf_fetchDurationMs :: rat

record CrawlResult =
  cr_fetchResult :: CrawlFetchResult
  cr_discoveredUrls :: "CrawlUrl list"
  cr_enqueuedCount :: int

record LinkExtractError =
  le_partialLinks :: "string list"
  le_cause :: thrown
  le_message :: string

definition createLinkExtractError :: "string list \<Rightarrow> thrown \<Rightarrow> LinkExtractError" where
  "createLinkExtractError partialLinks cause =
     \<lparr>le_partialLinks = partialLinks, le_cause = cause,
      le_message = ''Link extraction failed: '' @ thrown_message cause\<rparr>"

record ValidateConfig =
  vc_maxDepth :: int
  vc_allowedDomains :: "string list option"

record PipelineConfig =
  pl_maxDepth :: int
  pl_allowedDomains :: "string list option"
  pl_workerId :: string

type_synonym link_extractor = "string \<Rightarrow> string \<Rightarrow> (LinkExtractError, string list) result"

record 'w pipeline_deps =
  pd_fetch :: "CrawlUrl \<Rightarrow> FetchConfig \<Rightarrow> 'w \<Rightarrow> (FetchError, FetchResult) result completion \<times> 'w"
  pd_fetchConfig :: FetchConfig
  pd_enqueue :: "FrontierEntry list \<Rightarrow> 'w \<Rightarrow> (QueueError, int) result completion \<times> 'w"
  pd_extract :: link_extractor
  pd_platform :: url_platform
  pd_now :: "'w \<Rightarrow> rat"
  pd_date :: "'w \<Rightarrow> int"

section \<open>validate-stage.ts\<close>

definition validateEntry ::
  "url_parser \<Rightarrow> CrawlFrontierEntry \<Rightarrow> ValidateConfig \<Rightarrow> (CrawlError, CrawlFrontierEntry) result" where
  "validateEntry parse entry config =
     (if vc_maxDepth config < ce_depth entry
      then Err (createDepthExceededError parse (cu_raw (ce_url entry)) (vc_maxDepth config) (ce_depth entry))
      else case vc_allowedDomains config of
        None \<Rightarrow> Ok entry
      | Some allowed \<Rightarrow>
          if list_ex (\<lambda>d. to_lower d = to_lower (cu_domain (ce_url entry))) allowed then Ok entry
          else Err (createDomainNotAllowedError parse (cu_raw (ce_url entry)) (cu_domain (ce_url entry))))"

section \<open>fetch-stage.ts\<close>

fun findHeaderCaseInsensitive :: "(string \<times> string) list \<Rightarrow> string \<Rightarrow> string option" where
  "findHeaderCaseInsensitive [] target = None"
| "findHeaderCaseInsensitive ((key, val) # hs) target =
     (if to_lower key = to_lower target then Some val else findHeaderCaseInsensitive hs target)"

definition mapFetchResult ::
  "url_platform \<Rightarrow> CrawlFrontierEntry \<Rightarrow> FetchResult \<Rightarrow> rat \<Rightarrow> int \<Rightarrow> CrawlFetchResult" where
  "mapFetchResult pf entry coreFetch durationMs timestamp =
     (let finalUrl =
        (if fr_url coreFetch \<noteq> cu_normalized (ce_url entry) \<and> fr_url coreFetch \<noteq> cu_raw (ce_url entry)
         then (case parseCrawlUrl pf (fr_url coreFetch) of Ok u \<Rightarrow> Some u | Err _ \<Rightarrow> None) else None)
      in \<lparr>cf_requestedUrl = ce_url entry, cf_finalUrl = finalUrl, cf_statusCode = fr_statusCode coreFetch,
          cf_contentType = findHeaderCaseInsensitive (fr_headers coreFetch) ''content-type'',
          cf_body = fr_body coreFetch, cf_fetchTimestamp = timestamp, cf_fetchDurationMs = durationMs\<rparr>)"

definition fetchEntry ::
  "CrawlFrontierEntry \<Rightarrow> 'w pipeline_deps \<Rightarrow> 'w \<Rightarrow> (CrawlError, CrawlFetchResult) result completion \<times> 'w" where
  "fetchEntry entry deps w =
     (let fetchStart = pd_now deps w
      in case pd_fetch deps (ce_url entry) (pd_fetchConfig deps) w of
           (Throw t, w') \<Rightarrow> (Throw t, w')
         | (Return (Err e), w') \<Rightarrow> (Return (Err (CeFetch e)), w')
         | (Return (Ok r), w') \<Rightarrow>
             (Return (Ok (mapFetchResult (pd_platform deps) entry r (pd_now deps w' - fetchStart) (pd_date deps w'))), w'))"

section \<open>discover-stage.ts\<close>

definition adaptLinkExtractor :: "(string \<Rightarrow> string \<Rightarrow> string list completion) \<Rightarrow> link_extractor" where
  "adaptLinkExtractor extractor html baseUrl =
     (case extractor html baseUrl of
        Return links \<Rightarrow> Ok links
      | Throw cause \<Rightarrow> Err (createLinkExtractError [] cause))"

definition SKIP_SCHEMES :: "string list" where
  "SKIP_SCHEMES = [''javascript:'', ''data:'', ''mailto:'', ''tel:'']"

definition shouldSkipHref :: "string \<Rightarrow> bool" where
  "shouldSkipHref href =
     (let trimmed = js_trim href
      in if trimmed = [] \<or> trimmed = ''#'' then True
         else if hasControlChars trimmed then True
         else if isTooLong trimmed then True
         else list_ex (starts_with (to_lower trimmed)) SKIP_SCHEMES)"

text \<open>The loop over the links: the normal forms seen, the results and the log lines so far.\<close>

fun resolve_loop ::
  "url_platform \<Rightarrow> CrawlUrl \<Rightarrow> string list \<Rightarrow> string list \<Rightarrow> CrawlUrl list \<Rightarrow> log_line list
     \<Rightarrow> CrawlUrl list \<times> log_line list" where
  "resolve_loop pf baseUrl [] seen results logs = (results, logs)"
| "resolve_loop pf baseUrl (href # hrefs) seen results logs =
     (if shouldSkipHref href then resolve_loop pf baseUrl hrefs seen results logs
      else case up_parse_base pf href (cu_normalized baseUrl) of
        None \<Rightarrow> resolve_loop pf baseUrl hrefs seen results
                  (logs @ [(LogDebug, ''Skipping unresolvable href'', [(''href'', href)])])
      | Some absolute \<Rightarrow>
          (case parseCrawlUrl pf (url_href absolute) of
             Err _ \<Rightarrow> resolve_loop pf baseUrl hrefs seen results logs
           | Ok u \<Rightarrow>
               if cu_normalized u \<in> set seen then resolve_loop pf baseUrl hrefs seen results logs
               else resolve_loop pf baseUrl hrefs (cu_normalized u # seen) (results @ [u]) logs))"

definition resolveAndDedup :: "url_platform \<Rightarrow> string list \<Rightarrow> CrawlUrl \<Rightarrow> CrawlUrl list \<times> log_line list" where
  "resolveAndDedup pf rawHrefs baseUrl = resolve_loop pf baseUrl rawHrefs [] [] []"

definition final_or_requested :: "CrawlFetchResult \<Rightarrow> CrawlUrl" where
  "final_or_requested r = (case cf_finalUrl r of Some u \<Rightarrow> u | None \<Rightarrow> cf_requestedUrl r)"

definition discoverLinks ::
  "url_platform \<Rightarrow> CrawlFetchResult \<Rightarrow> link_extractor \<Rightarrow> (CrawlError, CrawlUrl list) result \<times> log_line list" where
  "discoverLinks pf fetchResult extract =
     (let ct = (case cf_contentType fetchResult of Some c \<Rightarrow> c | None \<Rightarrow> [])
      in if \<not> starts_with (to_lower ct) ''text/html'' then (Ok [], [])
         else let baseUrl = final_or_requested fetchResult
              in case extract (cf_body fetchResult) (cu_normalized baseUrl) of
                   Err e \<Rightarrow>
                     (let (urls, logs) = resolveAndDedup pf (le_partialLinks e) baseUrl
                      in (Ok urls, (LogWarn, ''Link extraction failed, using partial results'',
                            [(''url'', cu_normalized baseUrl), (''error'', le_message e)]) # logs))
                 | Ok hrefs \<Rightarrow>
                     (let (urls, logs) = resolveAndDedup pf hrefs baseUrl in (Ok urls, logs)))"

section \<open>enqueue-stage.ts\<close>

definition child_entries :: "CrawlUrl list \<Rightarrow> CrawlFrontierEntry \<Rightarrow> FrontierEntry list" where
  "child_entries urls parentEntry =
     map (\<lambda>u. \<lparr>fe_entry_url = cu_normalized u, fe_priority = 0, fe_depth = ce_depth parentEntry + 1\<rparr>) urls"

text \<open>The error object is not an \<open>Error\<close>: \<open>String(..)\<close> of it is \<open>[object Object]\<close>.\<close>

definition enqueueUrls ::
  "CrawlUrl list \<Rightarrow> CrawlFrontierEntry \<Rightarrow> 'w pipeline_deps \<Rightarrow> 'w \<Rightarrow> (CrawlError, int) result completion \<times> 'w" where
  "enqueueUrls urls parentEntry deps w =
     (if urls = [] then (Return (Ok 0), w)
      else case pd_enqueue deps (child_entries urls parentEntry) w of
        (Throw t, w') \<Rightarrow> (Throw t, w')
      | (Return (Err e), w') \<Rightarrow>
          (Return (Err (CeQueue (createQueueError ''enqueue'' (ThrownOther ''[object Object]'')))), w')
      | (Return (Ok n), w') \<Rightarrow> (Return (Ok n), w'))"

section \<open>crawl-pipeline.ts\<close>

type_synonym 'w pipeline_outcome = "((CrawlError, CrawlResult) result completion \<times> log_line list) \<times> 'w"

definition executePipeline ::
  "CrawlFrontierEntry \<Rightarrow> PipelineConfig \<Rightarrow> 'w pipeline_deps \<Rightarrow> 'w \<Rightarrow> 'w pipeline_outcome" where
  "executePipeline entry config deps w =
     (case validateEntry (up_parse (pd_platform deps)) entry
             \<lparr>vc_maxDepth = pl_maxDepth config, vc_allowedDomains = pl_allowedDomains config\<rparr> of
        Err e \<Rightarrow> ((Return (Err e), []), w)
      | Ok _ \<Rightarrow>
          (case fetchEntry entry deps w of
             (Throw t, w1) \<Rightarrow> ((Throw t, []), w1)
           | (Return (Err e), w1) \<Rightarrow> ((Return (Err e), []), w1)
           | (Return (Ok crawlFetch), w1) \<Rightarrow>
               (case discoverLinks (pd_platform deps) crawlFetch (pd_extract deps) of
                  (Err e, logs) \<Rightarrow> ((Return (Err e), logs), w1)
                | (Ok discovered, logs) \<Rightarrow>
                    (case enqueueUrls discovered entry deps w1 of
                       (Throw t, w2) \<Rightarrow> ((Throw t, logs), w2)
                     | (Return (Err e), w2) \<Rightarrow> ((Return (Err e), logs), w2)
                     | (Return (Ok n), w2) \<Rightarrow>
                         ((Return (Ok \<lparr>cr_fetchResult = crawlFetch, cr_discoveredUrls = discovered,
                                       cr_enqueuedCount = n\<rparr>), logs), w2)))))"

section \<open>discover-stage-events.ts\<close>

record DiscoveryEvent =
  dv_type :: string
  dv_version :: int
  dv_sourceUrl :: string
  dv_discoveredUrl :: string
  dv_depth :: int
  dv_id :: string
  dv_timestamp :: string
  dv_source :: string

record DiscoverWithEventsConfig =
  dc_streamKey :: string
  dc_source :: string
  dc_maxEventsPerBatch :: "nat option"

definition discovery_events :: "DiscoverWithEventsConfig \<Rightarrow> string \<Rightarrow> string \<Rightarrow> CrawlUrl list \<Rightarrow> DiscoveryEvent list" where
  "discovery_events config sourceUrl now urls =
     map (\<lambda>(i, u). \<lparr>dv_type = ''URLDiscovered'', dv_version = 1, dv_sourceUrl = sourceUrl,
            dv_discoveredUrl = cu_normalized u, dv_depth = 0,
            dv_id = ''discover-'' @ now @ ''-'' @ string_of_int (int i), dv_timestamp = now,
            dv_source = dc_source config\<rparr>) (enumerate 0 urls)"

text \<open>The result, the log lines and the batch handed to the publisher, if one is.\<close>

definition discoverLinksWithEvents ::
  "url_platform \<Rightarrow> CrawlFetchResult \<Rightarrow> link_extractor \<Rightarrow> DiscoverWithEventsConfig \<Rightarrow> string
     \<Rightarrow> ((CrawlError, CrawlUrl list) result \<times> log_line list) \<times> DiscoveryEvent list option" where
  "discoverLinksWithEvents pf fetchResult extract config now =
     (let (result, logs) = discoverLinks pf fetchResult extract
      in case result of
           Err e \<Rightarrow> ((result, logs), None)
         | Ok urls \<Rightarrow>
             if urls = [] then ((result, logs), None)
             else
               (let sourceUrl = cu_normalized (final_or_requested fetchResult);
                    maxEvents = (case dc_maxEventsPerBatch config of Some n \<Rightarrow> n | None \<Rightarrow> 500);
                    events = discovery_events config sourceUrl now (take maxEvents urls);
                    capped = (if maxEvents < length urls
                      then [(LogWarn, ''URLDiscovered events capped at maxEventsPerBatch'',
                         [(''source'', sourceUrl), (''total'', string_of_int (int (length urls))),
                          (''published'', string_of_int (int maxEvents))])] else [])
                in ((result, logs @ capped), Some events)))"

text \<open>The handlers of the publication: the failure callback's arguments and the warning, if it failed.\<close>

definition publish_settled ::
  "string \<Rightarrow> nat \<Rightarrow> (string, string list) result completion \<Rightarrow> ((nat \<times> string) \<times> log_line) option" where
  "publish_settled sourceUrl count outcome =
     (case outcome of
        Return (Ok _) \<Rightarrow> None
      | Return (Err m) \<Rightarrow>
          Some ((count, m), (LogWarn, ''Failed to publish URLDiscovered events'',
            [(''source'', sourceUrl), (''count'', string_of_int (int count)), (''error'', m)]))
      | Throw cause \<Rightarrow>
          Some ((count, thrown_message cause), (LogWarn, ''URLDiscovered event publishing threw'',
            [(''source'', sourceUrl), (''error'', thrown_message cause)])))"

section \<open>Discovery is resolve, filter, deduplicate\<close>

text \<open>The reference: what one link resolves to, and deduplication by normal form, first occurrence kept.\<close>

definition resolve_link :: "url_platform \<Rightarrow> CrawlUrl \<Rightarrow> string \<Rightarrow> CrawlUrl option" where
  "resolve_link pf baseUrl href =
     (if shouldSkipHref href then None
      else case up_parse_base pf href (cu_normalized baseUrl) of
        None \<Rightarrow> None
      | Some absolute \<Rightarrow> (case parseCrawlUrl pf (url_href absolute) of Ok u \<Rightarrow> Some u | Err _ \<Rightarrow> None))"

fun dedup_urls :: "CrawlUrl list \<Rightarrow> CrawlUrl list" where
  "dedup_urls [] = []"
| "dedup_urls (u # us) = u # filter (\<lambda>v. cu_normalized v \<noteq> cu_normalized u) (dedup_urls us)"

lemma dedup_filter:
  "dedup_urls (filter (\<lambda>v. P (cu_normalized v)) us) = filter (\<lambda>v. P (cu_normalized v)) (dedup_urls us)"
  by (induction us) (auto simp: filter_filter conj_commute intro: filter_cong)

lemma resolve_loop_spec:
  "fst (resolve_loop pf b hrefs seen results logs) =
     results @ filter (\<lambda>u. cu_normalized u \<notin> set seen) (dedup_urls (List.map_filter (resolve_link pf b) hrefs))"
proof (induction pf b hrefs seen results logs rule: resolve_loop.induct)
  case (2 pf b href hrefs seen results logs)
  show ?case
  proof (cases "resolve_link pf b href")
    case None
    with 2 show ?thesis
      by (auto simp: resolve_link_def map_filter_simps split: if_splits option.splits sum.splits)
  next
    case (Some u)
    then obtain a where a: "\<not> shouldSkipHref href" "up_parse_base pf href (cu_normalized b) = Some a"
      "parseCrawlUrl pf (url_href a) = Ok u"
      by (auto simp: resolve_link_def split: if_splits option.splits sum.splits)
    show ?thesis
    proof (cases "cu_normalized u \<in> set seen")
      case True
      with 2(4) [OF a(1,2,3) True] a Some show ?thesis
        by (auto simp: map_filter_simps filter_filter intro!: filter_cong)
    next
      case False
      with 2(5) [OF a(1,2,3) False] a Some show ?thesis
        by (auto simp: map_filter_simps filter_filter intro!: filter_cong)
    qed
  qed
qed (simp add: map_filter_simps)

lemma dedup_urls_snoc:
  "dedup_urls (us @ [u]) = (if cu_normalized u \<in> cu_normalized ` set us then dedup_urls us else dedup_urls us @ [u])"
  by (induction us) auto

interpretation link_dedup: first_wins cu_normalized dedup_urls
  by unfold_locales (simp_all add: dedup_urls_snoc)

lemma resolveAndDedup_fst:
  "fst (resolveAndDedup pf hrefs b) = dedup_urls (List.map_filter (resolve_link pf b) hrefs)"
  by (simp add: resolveAndDedup_def resolve_loop_spec)

lemma discovered_normal:
  assumes "fst (discoverLinks pf r ex) = Ok urls" and "u \<in> set urls"
  shows "\<exists>p. cu_normalized u = normalizeUrl pf p"
proof -
  obtain hrefs b where "u \<in> set (fst (resolveAndDedup pf hrefs b))"
    using assms by (auto simp: discoverLinks_def Let_def split: sum.splits prod.splits if_splits option.splits) (metis fst_conv)+
  then obtain href where "resolve_link pf b href = Some u"
    using link_dedup.dedup_subset by (force simp: resolveAndDedup_fst map_filter_def)
  then show ?thesis
    by (auto simp: resolve_link_def parseCrawlUrl_def createCrawlUrl_def Let_def split: if_splits option.splits sum.splits)
qed

lemma discoverLinks_ok: "\<exists>urls. fst (discoverLinks pf r ex) = Ok urls"
  by (auto simp: discoverLinks_def Let_def split: sum.splits prod.splits)

text \<open>C38: Discovery never fails: for an HTML page it returns the links that resolve to an http or https URL,
  without the skipped ones, each normal form once and in the order of first occurrence (the partial links
  when extraction failed), and for any other content type it returns nothing.\<close>

theorem discoverLinks_reference:
  "fst (discoverLinks pf r ex) = Ok
     (case cf_contentType r of
        None \<Rightarrow> []
      | Some ct \<Rightarrow>
          if starts_with (to_lower ct) ''text/html''
          then dedup_urls (List.map_filter (resolve_link pf (final_or_requested r))
                 (case ex (cf_body r) (cu_normalized (final_or_requested r)) of Ok hrefs \<Rightarrow> hrefs | Err e \<Rightarrow> le_partialLinks e))
          else [])
   \<and> distinct (map cu_normalized (case fst (discoverLinks pf r ex) of Ok urls \<Rightarrow> urls | Err _ \<Rightarrow> []))"
proof -
  have n: "\<not> starts_with [] ''text/html''" by code_simp
  have "fst (discoverLinks pf r ex) = Ok
     (case cf_contentType r of
        None \<Rightarrow> []
      | Some ct \<Rightarrow>
          if starts_with (to_lower ct) ''text/html''
          then dedup_urls (List.map_filter (resolve_link pf (final_or_requested r))
                 (case ex (cf_body r) (cu_normalized (final_or_requested r)) of Ok hrefs \<Rightarrow> hrefs | Err e \<Rightarrow> le_partialLinks e))
          else [])"
    by (simp add: discoverLinks_def Let_def n split_def resolveAndDedup_fst split: option.split sum.split)
  then show ?thesis by (auto simp: link_dedup.dedup_distinct split: option.splits)
qed

section \<open>The pipeline\<close>

lemma validateEntry_Ok:
  "isOk (validateEntry parse entry c) \<longleftrightarrow> ce_depth entry \<le> vc_maxDepth c \<and>
     (\<forall>ds. vc_allowedDomains c = Some ds \<longrightarrow> (\<exists>d \<in> set ds. to_lower d = to_lower (cu_domain (ce_url entry))))"
  by (auto simp: validateEntry_def list_ex_iff split: option.splits)

text \<open>An entry that is too deep or whose domain is not on a configured allow-list is rejected before anything
  is fetched or enqueued: the world is unchanged and the error is the depth or the domain error.\<close>

theorem pipeline_rejects_before_fetch:
  assumes "pl_maxDepth config < ce_depth entry \<or>
     (\<exists>ds. pl_allowedDomains config = Some ds \<and> (\<forall>d \<in> set ds. to_lower d \<noteq> to_lower (cu_domain (ce_url entry))))"
  shows "\<exists>e. executePipeline entry config deps w = ((Return (Err e), []), w)
     \<and> crawl_error_kind e \<in> {''depth_exceeded'', ''domain_not_allowed''}"
proof -
  let ?c = "\<lparr>vc_maxDepth = pl_maxDepth config, vc_allowedDomains = pl_allowedDomains config\<rparr>"
  let ?v = "validateEntry (up_parse (pd_platform deps)) entry ?c"
  have "\<not> isOk ?v" using assms by (auto simp: validateEntry_Ok)
  then obtain e where e: "?v = Err e" by (cases ?v) auto
  then have "crawl_error_kind e \<in> {''depth_exceeded'', ''domain_not_allowed''}"
    by (auto simp: validateEntry_def createDepthExceededError_def createDomainNotAllowedError_def Let_def
        split: if_splits option.splits)
  with e show ?thesis by (simp add: executePipeline_def)
qed

definition demo_deps :: "nat pipeline_deps" where
  "demo_deps =
     \<lparr>pd_fetch = (\<lambda>u c w. (Return (Ok \<lparr>fr_statusCode = 200, fr_body = ''<a href=x>'',
          fr_headers = [(''Content-Type'', ''text/html'')], fr_url = cu_normalized u\<rparr>), w + 1)),
      pd_fetchConfig = \<lparr>fc_timeoutMs = 1000, fc_maxRedirects = 5, fc_maxBodyBytes = 1000\<rparr>,
      pd_enqueue = (\<lambda>es w. (Return (Ok (int (length es))), w + 100)),
      pd_extract = (\<lambda>html b. Ok [''x'', ''mailto:a'', ''x'']),
      pd_platform = plain_platform\<lparr>up_parse := (\<lambda>s. Some (witness_url [] [])),
                                   up_parse_base := (\<lambda>s b. Some (witness_url [] []))\<rparr>,
      pd_now = of_nat, pd_date = int\<rparr>"

definition demo_entry :: "int \<Rightarrow> CrawlFrontierEntry" where
  "demo_entry depth =
     \<lparr>ce_url = \<lparr>cu_raw = ''https://example.com/'', cu_normalized = ''https://example.com'', cu_domain = ''example.com''\<rparr>,
      ce_depth = depth, ce_discoveredBy = ''seed'', ce_discoveredAt = 0, ce_parentUrl = None\<rparr>"

definition demo_pipeline_config :: PipelineConfig where
  "demo_pipeline_config = \<lparr>pl_maxDepth = 3, pl_allowedDomains = Some [''Example.com''], pl_workerId = ''w1''\<rparr>"

lemma pipeline_rejects_before_fetch_witness:
  "\<exists>e. executePipeline (demo_entry 4) demo_pipeline_config demo_deps 7 = ((Return (Err e), []), 7)"
  using pipeline_rejects_before_fetch [of demo_pipeline_config "demo_entry 4" demo_deps 7]
  by (auto simp: demo_pipeline_config_def demo_entry_def)

text \<open>A pipeline that succeeds fetched the entry once, discovered the links of that page, and enqueued exactly
  those, in order, one level deeper than the entry, reporting the count of the frontier; with no link it
  enqueues nothing.\<close>

theorem pipeline_success:
  assumes "executePipeline entry config deps w = ((Return (Ok r), logs), w2)"
  shows "\<exists>core w1. pd_fetch deps (ce_url entry) (pd_fetchConfig deps) w = (Return (Ok core), w1)
    \<and> fst (discoverLinks (pd_platform deps) (cr_fetchResult r) (pd_extract deps)) = Ok (cr_discoveredUrls r)
    \<and> cf_body (cr_fetchResult r) = fr_body core \<and> cf_statusCode (cr_fetchResult r) = fr_statusCode core
    \<and> (if cr_discoveredUrls r = [] then cr_enqueuedCount r = 0 \<and> w2 = w1
       else pd_enqueue deps (child_entries (cr_discoveredUrls r) entry) w1 = (Return (Ok (cr_enqueuedCount r)), w2))
    \<and> (\<forall>c \<in> set (child_entries (cr_discoveredUrls r) entry). fe_depth c = ce_depth entry + 1)"
proof -
  obtain f w1 urls n where f: "fetchEntry entry deps w = (Return (Ok f), w1)"
    and d: "discoverLinks (pd_platform deps) f (pd_extract deps) = (Ok urls, logs)"
    and q: "enqueueUrls urls entry deps w1 = (Return (Ok n), w2)"
    and r: "r = \<lparr>cr_fetchResult = f, cr_discoveredUrls = urls, cr_enqueuedCount = n\<rparr>"
    using assms by (auto simp: executePipeline_def split: sum.splits prod.splits completion.splits)
  obtain core where c: "pd_fetch deps (ce_url entry) (pd_fetchConfig deps) w = (Return (Ok core), w1)"
    "cf_body f = fr_body core" "cf_statusCode f = fr_statusCode core"
    using f by (auto simp: fetchEntry_def mapFetchResult_def Let_def split: prod.splits completion.splits sum.splits)
  from q have "if urls = [] then n = 0 \<and> w2 = w1 else pd_enqueue deps (child_entries urls entry) w1 = (Return (Ok n), w2)"
    by (auto simp: enqueueUrls_def split: if_splits prod.splits completion.splits sum.splits)
  with c d r show ?thesis by (auto simp: child_entries_def)
qed

lemma pipeline_success_witness:
  "\<exists>r logs. executePipeline (demo_entry 1) demo_pipeline_config demo_deps 0 = ((Return (Ok r), logs), 101)
     \<and> pd_enqueue demo_deps (child_entries (cr_discoveredUrls r) (demo_entry 1)) 1 = (Return (Ok (cr_enqueuedCount r)), 101)"
proof -
  have "(case executePipeline (demo_entry 1) demo_pipeline_config demo_deps 0 of
      ((Return (Ok r), logs), w2) \<Rightarrow> map cu_normalized (cr_discoveredUrls r) = [''https://example.com/a''] \<and> w2 = 101 | _ \<Rightarrow> False)"
    by code_simp
  then obtain r logs where e: "executePipeline (demo_entry 1) demo_pipeline_config demo_deps 0 = ((Return (Ok r), logs), 101)"
    "map cu_normalized (cr_discoveredUrls r) = [''https://example.com/a'']"
    by (auto split: prod.splits completion.splits sum.splits)
  moreover have "cr_discoveredUrls r \<noteq> []" using e(2) by auto
  moreover have "fst (pd_fetch demo_deps (ce_url (demo_entry 1)) (pd_fetchConfig demo_deps) 0) \<noteq> Throw t"
    "snd (pd_fetch demo_deps (ce_url (demo_entry 1)) (pd_fetchConfig demo_deps) 0) = 1" for t
    by (simp_all add: demo_deps_def)
  ultimately show ?thesis using pipeline_success [OF e(1)] by (metis snd_conv)
qed

text \<open>Whatever error the frontier reports, the pipeline's queue error says only \<open>[object Object]\<close>: the kind and
  the message of the original error are lost from the message.\<close>

theorem enqueue_error_message_lost:
  assumes "urls \<noteq> []" "pd_enqueue deps (child_entries urls entry) w = (Return (Err e), w')"
  shows "\<exists>c. enqueueUrls urls entry deps w = (Return (Err c), w')
    \<and> crawl_error_message c = ''Queue error during enqueue: [object Object]''"
  using assms by (simp add: enqueueUrls_def createQueueError_def Let_def)

lemma enqueue_error_message_lost_witness:
  "\<exists>c. enqueueUrls [ce_url (demo_entry 0)] (demo_entry 0)
        (demo_deps\<lparr>pd_enqueue := (\<lambda>es w. (Return (Err (createQueueError ''addBulk'' (ThrownOther ''redis is down''))), w))\<rparr>) 0
      = (Return (Err c), 0) \<and> crawl_error_message c = ''Queue error during enqueue: [object Object]''"
  by (rule enqueue_error_message_lost) auto

text \<open>Publishing the discovery events changes neither the links nor the error of the discovery; one event is
  published per link, for the first links up to the batch limit, in order and with distinct positions in the ids.\<close>

theorem discover_events_batch:
  "fst (fst (discoverLinksWithEvents pf r ex config now)) = fst (discoverLinks pf r ex)
   \<and> (case snd (discoverLinksWithEvents pf r ex config now) of
        None \<Rightarrow> fst (discoverLinks pf r ex) = Ok []
      | Some events \<Rightarrow> \<exists>urls. fst (discoverLinks pf r ex) = Ok urls \<and> urls \<noteq> []
          \<and> map dv_discoveredUrl events
              = map cu_normalized (take (case dc_maxEventsPerBatch config of Some n \<Rightarrow> n | None \<Rightarrow> 500) urls))"
proof -
  obtain urls where u: "fst (discoverLinks pf r ex) = Ok urls" using discoverLinks_ok by blast
  have ev: "map dv_discoveredUrl (discovery_events config s now us) = map cu_normalized us" for s us
  proof -
    have "map dv_discoveredUrl (discovery_events config s now us) = map cu_normalized (map snd (enumerate 0 us))"
      by (simp add: discovery_events_def split_def comp_def del: map_snd_enumerate)
    then show ?thesis by (simp only: map_snd_enumerate)
  qed
  obtain logs where "discoverLinks pf r ex = (Ok urls, logs)" using u by (metis prod.collapse)
  then show ?thesis
    by (simp add: discoverLinksWithEvents_def Let_def ev)
qed

end
