(* ===== verification/JsMap.thy ===== *)
theory JsMap
  imports Prelude
begin

text \<open>
  The JavaScript \<open>Map\<close> the registries, caches and buckets are built on: an association
  list in insertion order with distinct keys. \<open>set\<close> on a present key keeps the key's
  position, on a new key appends; \<open>delete\<close> removes the entry. The locale
  \<open>dictionary\<close> is the contract the components rely on; it is interpreted on this model
  here, and on the model of \<open>LruMap\<close> (weakened to \<open>bounded_dictionary\<close>) in its theory.
\<close>

type_synonym ('k, 'v) js_map = "('k \<times> 'v) list"

definition jsmap_get :: "('k, 'v) js_map \<Rightarrow> 'k \<Rightarrow> 'v option" where
  "jsmap_get m k = map_of m k"

definition jsmap_has :: "('k, 'v) js_map \<Rightarrow> 'k \<Rightarrow> bool" where
  "jsmap_has m k = (jsmap_get m k \<noteq> None)"

fun jsmap_set :: "('k, 'v) js_map \<Rightarrow> 'k \<Rightarrow> 'v \<Rightarrow> ('k, 'v) js_map" where
  "jsmap_set [] k v = [(k, v)]"
| "jsmap_set ((k', v') # m) k v = (if k' = k then (k, v) # m else (k', v') # jsmap_set m k v)"

definition jsmap_delete :: "('k, 'v) js_map \<Rightarrow> 'k \<Rightarrow> ('k, 'v) js_map" where
  "jsmap_delete m k = filter (\<lambda>p. fst p \<noteq> k) m"

abbreviation jsmap_size :: "('k, 'v) js_map \<Rightarrow> nat" where
  "jsmap_size m \<equiv> length m"

abbreviation jsmap_keys :: "('k, 'v) js_map \<Rightarrow> 'k list" where
  "jsmap_keys m \<equiv> map fst m"

definition jsmap_wf :: "('k, 'v) js_map \<Rightarrow> bool" where
  "jsmap_wf m = distinct (map fst m)"

section \<open>The contract\<close>

locale dictionary =
  fixes empty :: "'m"
    and get :: "'m \<Rightarrow> 'k \<Rightarrow> 'v option"
    and put :: "'m \<Rightarrow> 'k \<Rightarrow> 'v \<Rightarrow> 'm"
    and del :: "'m \<Rightarrow> 'k \<Rightarrow> 'm"
    and size_of :: "'m \<Rightarrow> nat"
    and wf :: "'m \<Rightarrow> bool"
  assumes get_empty: "get empty k = None"
    and get_put: "get (put m k v) k' = (if k' = k then Some v else get m k')"
    and get_del: "get (del m k) k' = (if k' = k then None else get m k')"
    and size_empty: "size_of empty = 0"
    and size_put: "size_of (put m k v) = (if get m k = None then Suc (size_of m) else size_of m)"
    and size_del: "wf m \<Longrightarrow> size_of (del m k) = (if get m k = None then size_of m else size_of m - 1)"
    and wf_empty: "wf empty"
    and wf_put: "wf m \<Longrightarrow> wf (put m k v)"
    and wf_del: "wf m \<Longrightarrow> wf (del m k)"
begin

lemma dom_put: "dom (get (put m k v)) = insert k (dom (get m))"
  by (auto simp: get_put dom_def)

lemma dom_del: "dom (get (del m k)) = dom (get m) - {k}"
  by (auto simp: get_del dom_def)

lemma put_after_del: "get (put (del m k) k v) k' = get (put m k v) k'"
  by (simp add: get_put get_del)

lemma size_put_le: "size_of (put m k v) \<le> Suc (size_of m)"
  by (simp add: size_put)

lemma size_del_le: "wf m \<Longrightarrow> size_of (del m k) \<le> size_of m"
  by (simp add: size_del)

end

section \<open>The model meets the contract\<close>

lemma jsmap_get_set: "jsmap_get (jsmap_set m k v) k' = (if k' = k then Some v else jsmap_get m k')"
  by (induction m k v rule: jsmap_set.induct) (auto simp: jsmap_get_def)

lemma fst_set_jsmap_set: "fst ` set (jsmap_set m k v) = insert k (fst ` set m)"
  by (induction m k v rule: jsmap_set.induct) auto

lemma jsmap_wf_set: "jsmap_wf m \<Longrightarrow> jsmap_wf (jsmap_set m k v)"
proof (induction m k v rule: jsmap_set.induct)
  case (1 k v)
  then show ?case by (simp add: jsmap_wf_def)
next
  case (2 k' v' m k v)
  have "k' \<notin> fst ` set (jsmap_set m k v)" if "k' \<noteq> k" "k' \<notin> fst ` set m"
    using that by (simp add: fst_set_jsmap_set)
  with 2 show ?case by (auto simp: jsmap_wf_def)
qed

lemma length_jsmap_set:
  "length (jsmap_set m k v) = (if jsmap_get m k = None then Suc (length m) else length m)"
  by (induction m k v rule: jsmap_set.induct) (auto simp: jsmap_get_def)

lemma jsmap_get_delete: "jsmap_get (jsmap_delete m k) k' = (if k' = k then None else jsmap_get m k')"
  by (simp add: jsmap_get_def jsmap_delete_def map_of_filter_neq)

lemma jsmap_get_None_iff: "jsmap_get m k = None \<longleftrightarrow> k \<notin> fst ` set m"
  by (simp add: jsmap_get_def map_of_eq_None_iff)

lemma jsmap_wf_delete: "jsmap_wf m \<Longrightarrow> jsmap_wf (jsmap_delete m k)"
  by (simp add: jsmap_wf_def jsmap_delete_def distinct_fst_filter)

lemma length_jsmap_delete:
  "jsmap_wf m \<Longrightarrow>
    length (jsmap_delete m k) = (if jsmap_get m k = None then length m else length m - 1)"
proof (cases "k \<in> fst ` set m")
  case True
  assume "jsmap_wf m"
  with True have "Suc (length (filter (\<lambda>p. fst p \<noteq> k) m)) = length m"
    by (simp add: length_filter_fst_present jsmap_wf_def)
  with True show ?thesis by (simp add: jsmap_delete_def jsmap_get_None_iff)
next
  case False
  then show ?thesis by (simp add: jsmap_delete_def jsmap_get_None_iff filter_fst_absent)
qed

interpretation jsmap: dictionary "[]" jsmap_get jsmap_set jsmap_delete length jsmap_wf
  by unfold_locales
    (simp_all add: jsmap_get_set jsmap_get_delete length_jsmap_set length_jsmap_delete
       jsmap_wf_set jsmap_wf_delete, simp_all add: jsmap_get_def jsmap_wf_def)

lemmas jsmap_laws = jsmap.get_put jsmap.get_del jsmap.wf_put jsmap.wf_del jsmap.get_empty

text \<open>A key that is set again keeps its place; a new key goes to the end.\<close>

lemma jsmap_set_new: "jsmap_get m k = None \<Longrightarrow> jsmap_set m k v = m @ [(k, v)]"
  by (induction m k v rule: jsmap_set.induct) (auto simp: jsmap_get_def split: if_splits)

lemma keys_jsmap_set_present: "jsmap_get m k \<noteq> None \<Longrightarrow> map fst (jsmap_set m k v) = map fst m"
  by (induction m k v rule: jsmap_set.induct) (auto simp: jsmap_get_def split: if_splits)

end
