(* ===== verification/UrlFrontier.thy ===== *)
theory UrlFrontier
  imports JsMap CoreErrors
begin

text \<open>
  packages/url-frontier/src (job ids, priorities, collision detection, the frontier adapter), the
  queue backend of packages/job-queue/src/bullmq-queue-backend.ts, and the seeding of
  packages/completion-detection/src/seed-frontier.ts. SHA-256 (hexadecimal), the queue library and
  the world \<open>'w\<close> are parameters.
\<close>

section \<open>job-id.ts, priority.ts, frontier-config.ts\<close>

definition deriveJobId :: "(string \<Rightarrow> string) \<Rightarrow> string \<Rightarrow> string" where
  "deriveJobId sha256_hex normalizedUrl = take 32 (sha256_hex normalizedUrl)"

definition depthToPriority :: "int \<Rightarrow> int" where
  "depthToPriority depth = depth"

definition FRONTIER_QUEUE_NAME :: string where
  "FRONTIER_QUEUE_NAME = ''crawl-jobs''"

record RetryConfig =
  rt_attempts :: int
  rt_backoffType :: string
  rt_backoffDelay :: int

definition DEFAULT_RETRY_CONFIG :: RetryConfig where
  "DEFAULT_RETRY_CONFIG = \<lparr>rt_attempts = 3, rt_backoffType = ''exponential'', rt_backoffDelay = 1000\<rparr>"

record RetentionConfig =
  rn_completedLimit :: int
  rn_failedLimit :: int

definition DEFAULT_RETENTION_CONFIG :: RetentionConfig where
  "DEFAULT_RETENTION_CONFIG = \<lparr>rn_completedLimit = 10000, rn_failedLimit = 5000\<rparr>"

record FrontierConfig =
  fc_retry :: RetryConfig
  fc_retention :: RetentionConfig

definition DEFAULT_FRONTIER_CONFIG :: FrontierConfig where
  "DEFAULT_FRONTIER_CONFIG = \<lparr>fc_retry = DEFAULT_RETRY_CONFIG, fc_retention = DEFAULT_RETENTION_CONFIG\<rparr>"

section \<open>queue-backend.ts\<close>

record JobData =
  jd_url :: string
  jd_depth :: int

record JobSpec =
  js_jobId :: string
  js_data :: JobData
  js_priority :: int
  js_attempts :: int
  js_backoffType :: string
  js_backoffDelay :: int
  js_removeOnComplete :: int
  js_removeOnFail :: int

record BulkAddResult =
  ba_added :: int
  ba_submitted :: int

record 'w QueueBackend =
  qb_addBulk :: "JobSpec list \<Rightarrow> 'w \<Rightarrow> (QueueError, BulkAddResult) result \<times> 'w"
  qb_getQueueSize :: "'w \<Rightarrow> (QueueError, FrontierSize) result \<times> 'w"
  qb_close :: "'w \<Rightarrow> unit completion \<times> 'w"

section \<open>collision-detector.ts\<close>

text \<open>The count added to the collision metric; \<open>None\<close> when it is not touched.\<close>

definition detectCollisions :: "int \<Rightarrow> int \<Rightarrow> int \<Rightarrow> int option" where
  "detectCollisions submitted added uniqueUrls =
     (let discarded = submitted - added
      in if discarded \<le> 0 then None
         else let expectedDedup = submitted - uniqueUrls;
                  unexpectedDiscards = discarded - expectedDedup
              in if 0 < unexpectedDiscards then Some unexpectedDiscards else None)"

section \<open>frontier-adapter.ts\<close>

definition job_spec :: "(string \<Rightarrow> string) \<Rightarrow> FrontierConfig \<Rightarrow> FrontierEntry \<Rightarrow> JobSpec" where
  "job_spec sha config entry =
     \<lparr>js_jobId = deriveJobId sha (fe_entry_url entry),
      js_data = \<lparr>jd_url = fe_entry_url entry, jd_depth = fe_depth entry\<rparr>,
      js_priority = depthToPriority (fe_depth entry), js_attempts = rt_attempts (fc_retry config),
      js_backoffType = rt_backoffType (fc_retry config), js_backoffDelay = rt_backoffDelay (fc_retry config),
      js_removeOnComplete = rn_completedLimit (fc_retention config),
      js_removeOnFail = rn_failedLimit (fc_retention config)\<rparr>"

text \<open>The loop that fills the job map, and the jobs in insertion order.\<close>

fun fill_job_map ::
  "(string \<Rightarrow> string) \<Rightarrow> FrontierConfig \<Rightarrow> FrontierEntry list \<Rightarrow> (string, JobSpec) js_map \<Rightarrow> (string, JobSpec) js_map" where
  "fill_job_map sha config [] jobMap = jobMap"
| "fill_job_map sha config (entry # es) jobMap =
     (let jobId = deriveJobId sha (fe_entry_url entry)
      in fill_job_map sha config es
           (if jsmap_has jobMap jobId then jobMap else jsmap_set jobMap jobId (job_spec sha config entry)))"

definition batch_jobs :: "(string \<Rightarrow> string) \<Rightarrow> FrontierConfig \<Rightarrow> FrontierEntry list \<Rightarrow> JobSpec list" where
  "batch_jobs sha config entries = map snd (fill_job_map sha config entries [])"

definition unique_urls :: "FrontierEntry list \<Rightarrow> int" where
  "unique_urls entries = int (length (remdups (map fe_entry_url entries)))"

text \<open>The result, the increments of the collision metric, and the world.\<close>

definition enqueueEntries ::
  "(string \<Rightarrow> string) \<Rightarrow> FrontierEntry list \<Rightarrow> 'w QueueBackend \<Rightarrow> FrontierConfig \<Rightarrow> 'w
     \<Rightarrow> ((QueueError, int) result \<times> int list) \<times> 'w" where
  "enqueueEntries sha entries backend config w =
     (if entries = [] then ((Ok 0, []), w)
      else let jobs = batch_jobs sha config entries
           in case qb_addBulk backend jobs w of
                (Err e, w') \<Rightarrow> ((Err e, []), w')
              | (Ok r, w') \<Rightarrow>
                  ((Ok (ba_added r),
                    (case detectCollisions (int (length jobs)) (ba_added r) (unique_urls entries) of
                       None \<Rightarrow> [] | Some n \<Rightarrow> [n])), w'))"

definition frontier_size :: "'w QueueBackend \<Rightarrow> 'w \<Rightarrow> (QueueError, FrontierSize) result \<times> 'w" where
  "frontier_size backend w = qb_getQueueSize backend w"

definition frontier_close :: "'w QueueBackend \<Rightarrow> 'w \<Rightarrow> unit completion \<times> 'w" where
  "frontier_close backend w = qb_close backend w"

record 'w Frontier =
  fr_enqueue :: "FrontierEntry list \<Rightarrow> 'w \<Rightarrow> (QueueError, int) result \<times> 'w"
  fr_size :: "'w \<Rightarrow> (QueueError, FrontierSize) result \<times> 'w"
  fr_close :: "'w \<Rightarrow> unit completion \<times> 'w"

text \<open>Without a configuration and metrics the adapter takes the default configuration and counts no collisions.\<close>

definition createFrontierAdapter :: "(string \<Rightarrow> string) \<Rightarrow> 'w QueueBackend \<Rightarrow> FrontierConfig option \<Rightarrow> 'w Frontier" where
  "createFrontierAdapter sha backend config =
     \<lparr>fr_enqueue = (\<lambda>entries w. case enqueueEntries sha entries backend
          (case config of Some c \<Rightarrow> c | None \<Rightarrow> DEFAULT_FRONTIER_CONFIG) w of ((r, _), w') \<Rightarrow> (r, w')),
      fr_size = frontier_size backend, fr_close = frontier_close backend\<rparr>"

section \<open>bullmq-queue-backend.ts\<close>

text \<open>What is handed to the queue library: the job and its options.\<close>

record BullJob =
  bj_name :: string
  bj_data :: JobData
  bj_jobId :: string
  bj_priority :: int
  bj_attempts :: int
  bj_backoffType :: string
  bj_backoffDelay :: int
  bj_removeOnCompleteAge :: int
  bj_removeOnFailAge :: int

definition toBullMQJob :: "JobSpec \<Rightarrow> BullJob" where
  "toBullMQJob spec =
     \<lparr>bj_name = ''crawl'', bj_data = js_data spec, bj_jobId = js_jobId spec, bj_priority = js_priority spec,
      bj_attempts = js_attempts spec, bj_backoffType = js_backoffType spec, bj_backoffDelay = js_backoffDelay spec,
      bj_removeOnCompleteAge = js_removeOnComplete spec, bj_removeOnFailAge = js_removeOnFail spec\<rparr>"

text \<open>The queue of the library: its \<open>addBulk\<close> settles with one result per job, counts are by state name.\<close>

record 'w bull_queue =
  bq_addBulk :: "BullJob list \<Rightarrow> 'w \<Rightarrow> string list completion \<times> 'w"
  bq_getJobCounts :: "string list \<Rightarrow> 'w \<Rightarrow> (string \<times> int) list completion \<times> 'w"
  bq_pause :: "'w \<Rightarrow> unit completion \<times> 'w"
  bq_resume :: "'w \<Rightarrow> unit completion \<times> 'w"
  bq_obliterate :: "'w \<Rightarrow> unit completion \<times> 'w"
  bq_close :: "'w \<Rightarrow> unit completion \<times> 'w"

definition count_or_zero :: "(string \<times> int) list \<Rightarrow> string \<Rightarrow> int" where
  "count_or_zero counts state = (case map_of counts state of Some n \<Rightarrow> n | None \<Rightarrow> 0)"

definition bull_addBulk :: "'w bull_queue \<Rightarrow> JobSpec list \<Rightarrow> 'w \<Rightarrow> (QueueError, BulkAddResult) result \<times> 'w" where
  "bull_addBulk queue jobs w =
     (case bq_addBulk queue (map toBullMQJob jobs) w of
        (Return results, w') \<Rightarrow> (Ok \<lparr>ba_added = int (length results), ba_submitted = int (length jobs)\<rparr>, w')
      | (Throw cause, w') \<Rightarrow> (Err (createQueueError ''addBulk'' cause), w'))"

definition bull_getQueueSize :: "'w bull_queue \<Rightarrow> 'w \<Rightarrow> (QueueError, FrontierSize) result \<times> 'w" where
  "bull_getQueueSize queue w =
     (case bq_getJobCounts queue [''waiting'', ''active'', ''delayed'', ''completed'', ''failed''] w of
        (Return counts, w') \<Rightarrow>
          (let pending = count_or_zero counts ''waiting'' + count_or_zero counts ''delayed'';
               active = count_or_zero counts ''active''
           in (Ok \<lparr>fs_pending = pending, fs_active = active, fs_total = pending + active\<rparr>, w'))
      | (Throw cause, w') \<Rightarrow> (Err (createQueueError ''getQueueSize'' cause), w'))"

definition createBullMQQueueBackend :: "'w bull_queue \<Rightarrow> 'w QueueBackend" where
  "createBullMQQueueBackend queue =
     \<lparr>qb_addBulk = bull_addBulk queue, qb_getQueueSize = bull_getQueueSize queue, qb_close = bq_close queue\<rparr>"

section \<open>seed-frontier.ts of completion detection\<close>

record SeedResult =
  sd_enqueued :: int
  sd_skippedDuplicates :: int

definition seedFrontier ::
  "(FrontierEntry list \<Rightarrow> 'w \<Rightarrow> (QueueError, int) result \<times> 'w) \<Rightarrow> string list \<Rightarrow> 'w
     \<Rightarrow> ((QueueError, SeedResult) result \<times> log_line list) \<times> 'w" where
  "seedFrontier enqueue urls w =
     (if urls = [] then ((Ok \<lparr>sd_enqueued = 0, sd_skippedDuplicates = 0\<rparr>, []), w)
      else let entries = map (\<lambda>u. \<lparr>fe_entry_url = u, fe_priority = 0, fe_depth = 0\<rparr>) urls
           in case enqueue entries w of
                (Err e, w') \<Rightarrow> ((Err e, []), w')
              | (Ok enqueued, w') \<Rightarrow>
                  (let skipped = int (length urls) - enqueued
                   in ((Ok \<lparr>sd_enqueued = enqueued, sd_skippedDuplicates = skipped\<rparr>,
                        [(LogInfo, ''Seed complete'',
                          [(''total'', string_of_int (int (length urls))), (''enqueued'', string_of_int enqueued),
                           (''skippedDuplicates'', string_of_int skipped)])]), w')))"

section \<open>A batch holds each job once\<close>

definition entry_id :: "(string \<Rightarrow> string) \<Rightarrow> FrontierEntry \<Rightarrow> string" where
  "entry_id sha e = deriveJobId sha (fe_entry_url e)"

text \<open>The entries whose jobs a batch holds.\<close>

definition kept_entries :: "(string \<Rightarrow> string) \<Rightarrow> FrontierEntry list \<Rightarrow> FrontierEntry list" where
  "kept_entries sha es = dedup_first (entry_id sha) es"

lemma fill_job_map_append:
  "fill_job_map sha config (es @ fs) m = fill_job_map sha config fs (fill_job_map sha config es m)"
  by (induction es arbitrary: m) (simp_all add: Let_def)

lemma fill_job_map_eq:
  "fill_job_map sha config es [] = map (\<lambda>e. (entry_id sha e, job_spec sha config e)) (kept_entries sha es)"
proof (induction es rule: rev_induct)
  case Nil
  then show ?case by (simp add: kept_entries_def dedup_first.dedup_Nil)
next
  case (snoc e es)
  let ?m = "fill_job_map sha config es []"
  have keys: "fst ` set ?m = entry_id sha ` set es"
    unfolding snoc using dedup_first.dedup_keys [of "entry_id sha" es] by (simp add: kept_entries_def image_image)
  show ?case
  proof (cases "entry_id sha e \<in> entry_id sha ` set es")
    case True
    then have "jsmap_has ?m (entry_id sha e)"
      using keys by (metis jsmap_get_None_iff jsmap_has_def)
    with True snoc show ?thesis
      by (simp add: fill_job_map_append kept_entries_def dedup_first.dedup_snoc entry_id_def)
  next
    case False
    then have n: "jsmap_get ?m (entry_id sha e) = None" by (simp add: jsmap_get_None_iff keys)
    with False snoc show ?thesis
      by (simp add: fill_job_map_append kept_entries_def dedup_first.dedup_snoc jsmap_has_def jsmap_set_new
          flip: entry_id_def)
  qed
qed

lemma batch_jobs_eq: "batch_jobs sha config es = map (job_spec sha config) (kept_entries sha es)"
  by (simp add: batch_jobs_def fill_job_map_eq)

interpretation batch: first_wins "entry_id sha" "kept_entries sha" for sha
  unfolding kept_entries_def by (rule dedup_first.first_wins_axioms)

text \<open>A batch is submitted with one job per distinct job id, in the order of first occurrence, each built from
  the first entry with that id and given the entry's depth as priority; enqueueing the same entries twice in one
  batch submits the same jobs.\<close>

theorem frontier_batch_dedup:
  "distinct (map js_jobId (batch_jobs sha config es))
   \<and> js_jobId ` set (batch_jobs sha config es) = (\<lambda>e. take 32 (sha (fe_entry_url e))) ` set es
   \<and> (\<forall>j \<in> set (batch_jobs sha config es). \<exists>e \<in> set es. j = job_spec sha config e \<and> js_priority j = fe_depth e)
   \<and> batch_jobs sha config (es @ es) = batch_jobs sha config es"
proof -
  have i: "map js_jobId (batch_jobs sha config es) = map (entry_id sha) (kept_entries sha es)"
    by (simp add: batch_jobs_eq job_spec_def entry_id_def comp_def)
  then have "js_jobId ` set (batch_jobs sha config es) = entry_id sha ` set es"
    by (metis batch.dedup_keys list.set_map)
  moreover have "distinct (map js_jobId (batch_jobs sha config es))"
    unfolding i by (rule batch.dedup_distinct)
  moreover have "batch_jobs sha config (es @ es) = batch_jobs sha config es"
    by (simp add: batch_jobs_eq batch.dedup_append_known)
  ultimately show ?thesis
    using batch.dedup_subset [of sha es]
    by (auto simp: batch_jobs_eq entry_id_def deriveJobId_def job_spec_def depthToPriority_def)
qed

lemma frontier_batch_dedup_witness:
  "map js_jobId (batch_jobs id DEFAULT_FRONTIER_CONFIG
      [\<lparr>fe_entry_url = ''u'', fe_priority = 0, fe_depth = 1\<rparr>, \<lparr>fe_entry_url = ''v'', fe_priority = 0, fe_depth = 2\<rparr>,
       \<lparr>fe_entry_url = ''u'', fe_priority = 0, fe_depth = 3\<rparr>]) = [''u'', ''v'']"
proof -
  let ?es = "[\<lparr>fe_entry_url = ''u'', fe_priority = 0, fe_depth = 1\<rparr>, \<lparr>fe_entry_url = ''v'', fe_priority = 0, fe_depth = 2\<rparr>,
    \<lparr>fe_entry_url = ''u'', fe_priority = 0, fe_depth = 3\<rparr>]"
  have "distinct (map js_jobId (batch_jobs id DEFAULT_FRONTIER_CONFIG ?es))"
    using frontier_batch_dedup [of id DEFAULT_FRONTIER_CONFIG ?es] by blast
  moreover have "map js_jobId (batch_jobs id DEFAULT_FRONTIER_CONFIG ?es) = [''u'', ''v'']" by code_simp
  ultimately show ?thesis by simp
qed

lemma bull_added_submitted:
  assumes "bq_addBulk queue (map toBullMQJob jobs) w = (Return results, w')" "length results = length jobs"
  shows "bull_addBulk queue jobs w = (Ok \<lparr>ba_added = int (length jobs), ba_submitted = int (length jobs)\<rparr>, w')"
  using assms by (simp add: bull_addBulk_def)

text \<open>With the queue library's bulk add, which settles with one job per submitted job whether or not its id was
  known, the backend reports every job of a batch as added: no duplicate of an earlier batch is ever counted, and
  the collision metric is never touched.\<close>

theorem bullmq_backend_counts_duplicates:
  assumes "bq_addBulk queue (map toBullMQJob (batch_jobs sha config es)) w = (Return results, w')"
    and "length results = length (batch_jobs sha config es)" "es \<noteq> []"
  shows "enqueueEntries sha es (createBullMQQueueBackend queue) config w
    = ((Ok (int (card ((\<lambda>e. take 32 (sha (fe_entry_url e))) ` set es))), []), w')"
proof -
  have "length (batch_jobs sha config es) = card (entry_id sha ` set es)"
    by (simp add: batch_jobs_eq batch.dedup_length)
  moreover have "entry_id sha ` set es = (\<lambda>e. take 32 (sha (fe_entry_url e))) ` set es"
    by (simp add: entry_id_def deriveJobId_def)
  ultimately show ?thesis
    using assms(3) bull_added_submitted [OF assms(1,2)]
    by (simp add: enqueueEntries_def createBullMQQueueBackend_def detectCollisions_def Let_def)
qed

text \<open>A queue that keeps the set of known ids and returns one result per job.\<close>

definition id_queue :: "string list bull_queue" where
  "id_queue =
     \<lparr>bq_addBulk = (\<lambda>jobs w. (Return (map bj_jobId jobs), remdups (map bj_jobId jobs @ w))),
      bq_getJobCounts = (\<lambda>states w. (Return [(''waiting'', int (length w))], w)),
      bq_pause = (\<lambda>w. (Return (), w)), bq_resume = (\<lambda>w. (Return (), w)), bq_obliterate = (\<lambda>w. (Return (), [])),
      bq_close = (\<lambda>w. (Return (), w))\<rparr>"

lemma bullmq_backend_counts_duplicates_witness:
  "\<exists>w1 w2. enqueueEntries id [\<lparr>fe_entry_url = ''u'', fe_priority = 0, fe_depth = 1\<rparr>] (createBullMQQueueBackend id_queue)
       DEFAULT_FRONTIER_CONFIG [] = ((Ok 1, []), w1)
     \<and> enqueueEntries id [\<lparr>fe_entry_url = ''u'', fe_priority = 0, fe_depth = 1\<rparr>] (createBullMQQueueBackend id_queue)
       DEFAULT_FRONTIER_CONFIG w1 = ((Ok 1, []), w2)"
proof -
  let ?es = "[\<lparr>fe_entry_url = ''u'', fe_priority = 0, fe_depth = 1\<rparr>]"
  let ?jobs = "map toBullMQJob (batch_jobs id DEFAULT_FRONTIER_CONFIG ?es)"
  have r: "bq_addBulk id_queue ?jobs w = (Return (map bj_jobId ?jobs), remdups (map bj_jobId ?jobs @ w))" for w
    by (simp add: id_queue_def)
  show ?thesis
    using bullmq_backend_counts_duplicates [OF r [of "[]"]]
      bullmq_backend_counts_duplicates [OF r [of "remdups (map bj_jobId ?jobs @ [])"]]
    by simp
qed

end
