(* ===== verification/CompletionDetector.thy ===== *)
theory CompletionDetector
  imports CoreErrors
begin

text \<open>
  packages/completion-detection/src/backoff-controller.ts, completion-detector.ts and
  control-plane-adapter.ts. The poll loop is a fold over timer ticks: \<open>wait_ticks n\<close> is the loop
  after at most \<open>n\<close> ticks, \<open>None\<close> while it has not resolved. The queue is a parameter.
\<close>

section \<open>backoff-controller.ts\<close>

record BackoffConfig =
  bk_maxConsecutiveFailures :: int
  bk_maxSkipTicks :: int

definition DEFAULT_BACKOFF_CONFIG :: BackoffConfig where
  "DEFAULT_BACKOFF_CONFIG = \<lparr>bk_maxConsecutiveFailures = 25, bk_maxSkipTicks = 32\<rparr>"

record BackoffController =
  bo_config :: BackoffConfig
  bo_failures :: int
  bo_skipRemaining :: int
  bo_aborted :: bool

definition createBackoffController :: "BackoffConfig \<Rightarrow> BackoffController" where
  "createBackoffController config = \<lparr>bo_config = config, bo_failures = 0, bo_skipRemaining = 0, bo_aborted = False\<rparr>"

definition onStoreError :: "BackoffController \<Rightarrow> thrown \<Rightarrow> BackoffController \<times> log_line list" where
  "onStoreError b error =
     (if bo_aborted b then (b, [])
      else let failures = bo_failures b + 1;
               warn = (LogWarn, ''State-store poll error'',
                 [(''consecutive'', string_of_int failures), (''error'', thrown_message error)])
           in if bk_maxConsecutiveFailures (bo_config b) \<le> failures
              then (b\<lparr>bo_failures := failures, bo_aborted := True\<rparr>,
                    [warn, (LogFatal, ''State-store abort threshold reached'', [(''failures'', string_of_int failures)])])
              else let raw = 2 ^ nat (failures - 1);
                       skip = min raw (bk_maxSkipTicks (bo_config b))
                   in (b\<lparr>bo_failures := failures, bo_skipRemaining := skip\<rparr>,
                       [warn, (LogInfo, ''Backoff active'', [(''skipTicks'', string_of_int skip)])]))"

definition onStoreSuccess :: "BackoffController \<Rightarrow> BackoffController \<times> log_line list" where
  "onStoreSuccess b =
     (b\<lparr>bo_failures := 0, bo_skipRemaining := 0\<rparr>,
      if 0 < bo_failures b
      then [(LogInfo, ''State-store recovered'', [(''previousFailures'', string_of_int (bo_failures b))])] else [])"

definition shouldSkipTick :: "BackoffController \<Rightarrow> bool \<times> BackoffController" where
  "shouldSkipTick b =
     (if 0 < bo_skipRemaining b then (True, b\<lparr>bo_skipRemaining := bo_skipRemaining b - 1\<rparr>) else (False, b))"

section \<open>completion-detector.ts\<close>

record QueueCounts =
  qc_pending :: int
  qc_done :: int

datatype CompletionOutcome = Completed int | EmptyComplete | Aborted int

record Detector =
  dt_backoff :: BackoffController
  dt_emptyPollCount :: nat
  dt_isFirstPoll :: bool
  dt_restarts :: nat
  dt_logs :: "log_line list"

definition detector_start :: "BackoffController \<Rightarrow> Detector" where
  "detector_start b = \<lparr>dt_backoff = b, dt_emptyPollCount = 0, dt_isFirstPoll = True, dt_restarts = 0, dt_logs = []\<rparr>"

type_synonym 'w counts_fn = "'w \<Rightarrow> (QueueError, QueueCounts) result \<times> 'w"

text \<open>The part of a tick after a successful poll.\<close>

definition counts_seen :: "Detector \<Rightarrow> QueueCounts \<Rightarrow> CompletionOutcome option \<times> Detector" where
  "counts_seen d counts =
     (let (b, logs1) = onStoreSuccess (dt_backoff d);
          restart = dt_isFirstPoll d \<and> 0 < qc_done counts;
          logs2 = (if restart then [(LogWarn, ''Restart detected: done>0 on first poll'',
                     [(''done'', string_of_int (qc_done counts))])] else []);
          d1 = d\<lparr>dt_backoff := b, dt_isFirstPoll := False,
                 dt_restarts := dt_restarts d + (if restart then 1 else 0), dt_logs := dt_logs d @ logs1 @ logs2\<rparr>
      in if qc_pending counts = 0 \<and> 0 < qc_done counts
         then (Some (Completed (qc_done counts)),
               d1\<lparr>dt_logs := dt_logs d1 @ [(LogInfo, ''Crawl complete'', [(''done'', string_of_int (qc_done counts))])]\<rparr>)
         else if qc_pending counts = 0 \<and> qc_done counts = 0 then
           (if 2 \<le> Suc (dt_emptyPollCount d1)
            then (Some EmptyComplete,
                  d1\<lparr>dt_emptyPollCount := Suc (dt_emptyPollCount d1),
                     dt_logs := dt_logs d1 @ [(LogWarn, ''Empty queue on two consecutive polls, resolving with zero stats'', [])]\<rparr>)
            else (None, d1\<lparr>dt_emptyPollCount := Suc (dt_emptyPollCount d1)\<rparr>))
         else (None, d1\<lparr>dt_emptyPollCount := 0\<rparr>))"

text \<open>One timer tick. The error of the queue is not an \<open>Error\<close> object.\<close>

definition tick :: "'w counts_fn \<Rightarrow> Detector \<Rightarrow> 'w \<Rightarrow> (CompletionOutcome option \<times> Detector) \<times> 'w" where
  "tick getQueueCounts d w =
     (if bo_aborted (dt_backoff d) then ((Some (Aborted (bo_failures (dt_backoff d))), d), w)
      else case shouldSkipTick (dt_backoff d) of
        (True, b) \<Rightarrow> ((None, d\<lparr>dt_backoff := b\<rparr>), w)
      | (False, b) \<Rightarrow>
          (case getQueueCounts w of
             (Err e, w') \<Rightarrow>
               (let (b', logs) = onStoreError b (ThrownOther ''[object Object]'');
                    d' = d\<lparr>dt_backoff := b', dt_logs := dt_logs d @ logs\<rparr>
                in ((if bo_aborted b' then Some (Aborted (bo_failures b')) else None, d'), w'))
           | (Ok counts, w') \<Rightarrow> (counts_seen (d\<lparr>dt_backoff := b\<rparr>) counts, w')))"

fun wait_ticks :: "nat \<Rightarrow> 'w counts_fn \<Rightarrow> Detector \<Rightarrow> 'w \<Rightarrow> (CompletionOutcome option \<times> Detector) \<times> 'w" where
  "wait_ticks 0 getQueueCounts d w = ((None, d), w)"
| "wait_ticks (Suc n) getQueueCounts d w =
     (case tick getQueueCounts d w of
        ((Some outcome, d'), w') \<Rightarrow> ((Some outcome, d'), w')
      | ((None, d'), w') \<Rightarrow> wait_ticks n getQueueCounts d' w')"

definition already_called :: thrown where
  "already_called = ThrownError (new_Error ''waitForCompletion already called - overlapping polls prevented'')"

text \<open>The once guard: the flag \<open>called\<close>, and the loop on the first call.\<close>

definition waitForCompletion ::
  "nat \<Rightarrow> bool \<Rightarrow> 'w counts_fn \<Rightarrow> BackoffController \<Rightarrow> 'w \<Rightarrow> (CompletionOutcome option completion \<times> bool) \<times> 'w" where
  "waitForCompletion ticks called getQueueCounts b w =
     (if called then ((Throw already_called, called), w)
      else let ((outcome, _), w') = wait_ticks ticks getQueueCounts (detector_start b) w
           in ((Return outcome, True), w'))"

section \<open>error-handler-attachment.ts\<close>

text \<open>
  The listeners of an emitter for the event \<open>error\<close>, each a function of the log. Node calls them in order;
  an error nobody listens to is thrown.
\<close>

type_synonym error_emitter = "(js_error \<Rightarrow> log_line list \<Rightarrow> log_line list) list"

definition attachErrorHandler :: "string \<Rightarrow> error_emitter \<Rightarrow> error_emitter" where
  "attachErrorHandler componentName emitter =
     emitter @ [\<lambda>e logs. logs @ [(LogError, ''Unhandled error in '' @ componentName,
        [(''component'', componentName), (''error'', err_message e)])]]"

definition emit_error :: "error_emitter \<Rightarrow> js_error \<Rightarrow> log_line list \<Rightarrow> unit completion \<times> log_line list" where
  "emit_error emitter e logs =
     (if emitter = [] then (Throw (ThrownError e), logs) else (Return (), fold (\<lambda>l. l e) emitter logs))"

lemma attached_never_throws:
  "emit_error (attachErrorHandler name emitter) e logs =
     (Return (), fold (\<lambda>l. l e) emitter logs @ [(LogError, ''Unhandled error in '' @ name, [(''component'', name), (''error'', err_message e)])])"
  by (simp add: emit_error_def attachErrorHandler_def)

section \<open>control-plane-adapter.ts\<close>

record JobCounts =
  jc_waiting :: int
  jc_active :: int
  jc_completed :: int
  jc_failed :: int
  jc_delayed :: int
  jc_paused :: int

datatype CrawlState = CsIdle | CsRunning | CsPaused | CsCancelled | CsCompleted

record CrawlProgress =
  cp_completed :: int
  cp_failed :: int
  cp_pending :: int
  cp_total :: int

record 'w QueueAdapter =
  qa_getJobCounts :: "'w \<Rightarrow> (QueueError, JobCounts) result \<times> 'w"
  qa_pause :: "'w \<Rightarrow> (QueueError, unit) result \<times> 'w"
  qa_resume :: "'w \<Rightarrow> (QueueError, unit) result \<times> 'w"
  qa_obliterate :: "'w \<Rightarrow> (QueueError, unit) result \<times> 'w"
  qa_close :: "'w \<Rightarrow> unit completion \<times> 'w"

definition deriveState :: "JobCounts \<Rightarrow> bool \<Rightarrow> CrawlState" where
  "deriveState counts cancelled =
     (if cancelled then CsCancelled
      else if 0 < jc_paused counts then CsPaused
      else let pending = jc_waiting counts + jc_active counts + jc_delayed counts;
               finished = jc_completed counts + jc_failed counts
           in if pending = 0 \<and> 0 < finished then CsCompleted
              else if pending = 0 \<and> finished = 0 then CsIdle
              else CsRunning)"

text \<open>\<open>cancelPromise\<close> is the settled result of the one cancellation, if it was started.\<close>

record ControlPlane =
  cl_cancelled :: bool
  cl_cancelResult :: "(QueueError, unit) result option"
  cl_logs :: "log_line list"

definition createControlPlaneAdapter :: ControlPlane where
  "createControlPlaneAdapter = \<lparr>cl_cancelled = False, cl_cancelResult = None, cl_logs = []\<rparr>"

definition cp_getState :: "'w QueueAdapter \<Rightarrow> ControlPlane \<Rightarrow> 'w \<Rightarrow> (QueueError, CrawlState) result \<times> 'w" where
  "cp_getState q c w =
     (case qa_getJobCounts q w of
        (Err e, w') \<Rightarrow> (Err e, w')
      | (Ok counts, w') \<Rightarrow> (Ok (deriveState counts (cl_cancelled c)), w'))"

definition cp_getProgress :: "'w QueueAdapter \<Rightarrow> 'w \<Rightarrow> (QueueError, CrawlProgress) result \<times> 'w" where
  "cp_getProgress q w =
     (case qa_getJobCounts q w of
        (Err e, w') \<Rightarrow> (Err e, w')
      | (Ok c, w') \<Rightarrow>
          (Ok \<lparr>cp_completed = jc_completed c, cp_failed = jc_failed c,
               cp_pending = jc_waiting c + jc_active c + jc_delayed c,
               cp_total = jc_waiting c + jc_active c + jc_delayed c + jc_completed c + jc_failed c\<rparr>, w'))"

definition cp_pause :: "'w QueueAdapter \<Rightarrow> ControlPlane \<Rightarrow> 'w \<Rightarrow> ((QueueError, unit) result \<times> ControlPlane) \<times> 'w" where
  "cp_pause q c w =
     (let (r, w') = qa_pause q w in ((r, c\<lparr>cl_logs := cl_logs c @ [(LogInfo, ''Pausing queue'', [])]\<rparr>), w'))"

definition cp_resume :: "'w QueueAdapter \<Rightarrow> ControlPlane \<Rightarrow> 'w \<Rightarrow> ((QueueError, unit) result \<times> ControlPlane) \<times> 'w" where
  "cp_resume q c w =
     (let (r, w') = qa_resume q w in ((r, c\<lparr>cl_logs := cl_logs c @ [(LogInfo, ''Resuming queue'', [])]\<rparr>), w'))"

definition cp_doCancel :: "'w QueueAdapter \<Rightarrow> ControlPlane \<Rightarrow> 'w \<Rightarrow> ControlPlane \<times> 'w" where
  "cp_doCancel q c w =
     (let (r, w') = qa_obliterate q w;
          logs = (LogInfo, ''Cancelling crawl'', []) #
            (case r of Err e \<Rightarrow> [(LogError, ''Cancel failed'', [(''error'', qe_message e)])] | Ok _ \<Rightarrow> [])
      in (c\<lparr>cl_cancelled := True, cl_cancelResult := Some r, cl_logs := cl_logs c @ logs\<rparr>, w'))"

definition cp_cancel :: "'w QueueAdapter \<Rightarrow> ControlPlane \<Rightarrow> 'w \<Rightarrow> ((QueueError, unit) result \<times> ControlPlane) \<times> 'w" where
  "cp_cancel q c w =
     (case cl_cancelResult c of
        Some r \<Rightarrow> ((r, c), w)
      | None \<Rightarrow>
          (let (c', w') = cp_doCancel q c w
           in (((case cl_cancelResult c' of Some r \<Rightarrow> r | None \<Rightarrow> Ok ()), c'), w')))"

definition cp_close :: "'w QueueAdapter \<Rightarrow> 'w \<Rightarrow> unit completion \<times> 'w" where
  "cp_close q w = qa_close q w"

section \<open>The backoff controller\<close>

text \<open>Errors, recoveries and skip checks as the steps of one transition system.\<close>

datatype backoff_event = StoreError thrown | StoreSuccess | SkipCheck

fun backoff_step :: "BackoffController \<Rightarrow> backoff_event \<Rightarrow> BackoffController" where
  "backoff_step b (StoreError e) = fst (onStoreError b e)"
| "backoff_step b StoreSuccess = fst (onStoreSuccess b)"
| "backoff_step b SkipCheck = snd (shouldSkipTick b)"

definition backoff_wf :: "BackoffConfig \<Rightarrow> BackoffController \<Rightarrow> bool" where
  "backoff_wf c b \<longleftrightarrow> bo_config b = c \<and> 0 \<le> bo_failures b \<and> 0 \<le> bo_skipRemaining b
     \<and> bo_skipRemaining b \<le> bk_maxSkipTicks c
     \<and> (\<not> bo_aborted b \<longrightarrow> bo_failures b < bk_maxConsecutiveFailures c)"

lemma backoff_wf_step:
  assumes "backoff_wf c b" and "0 < bk_maxConsecutiveFailures c"
  shows "backoff_wf c (backoff_step b e)"
  using assms by (cases e) (auto simp: backoff_wf_def onStoreError_def onStoreSuccess_def shouldSkipTick_def Let_def)

lemma backoff_wf_create:
  "0 < bk_maxConsecutiveFailures c \<Longrightarrow> 0 \<le> bk_maxSkipTicks c \<Longrightarrow> backoff_wf c (createBackoffController c)"
  by (simp add: backoff_wf_def createBackoffController_def)

definition default_backoff_wf :: "BackoffController \<Rightarrow> bool" where
  "default_backoff_wf = backoff_wf DEFAULT_BACKOFF_CONFIG"

interpretation backoff: step_system backoff_step default_backoff_wf
  by unfold_locales (auto simp: default_backoff_wf_def DEFAULT_BACKOFF_CONFIG_def intro!: backoff_wf_step)

text \<open>Whatever errors, recoveries and skip checks occur, a controller with the default configuration skips between 0 and 32 ticks, its failure count is not negative, and it is below 25 as long as the controller has not aborted.\<close>

theorem backoff_bounded:
  "let b = foldl backoff_step (createBackoffController DEFAULT_BACKOFF_CONFIG) events
   in 0 \<le> bo_skipRemaining b \<and> bo_skipRemaining b \<le> 32 \<and> 0 \<le> bo_failures b
      \<and> (bo_aborted b \<or> bo_failures b < 25)"
proof -
  have "default_backoff_wf (createBackoffController DEFAULT_BACKOFF_CONFIG)"
    unfolding default_backoff_wf_def by (rule backoff_wf_create) (simp_all add: DEFAULT_BACKOFF_CONFIG_def)
  from backoff.run_inv [OF this, of events] show ?thesis
    by (auto simp: default_backoff_wf_def backoff_wf_def Let_def DEFAULT_BACKOFF_CONFIG_def)
qed

section \<open>The poll loop\<close>

text \<open>With an unreachable store, the ticks a controller needs at most until it aborts.\<close>

definition ticks_left :: "BackoffController \<Rightarrow> int" where
  "ticks_left b = bo_skipRemaining b + 1
     + (bk_maxConsecutiveFailures (bo_config b) - 1 - bo_failures b) * (bk_maxSkipTicks (bo_config b) + 1)"

lemma ticks_left_skip:
  "0 < bo_skipRemaining b \<Longrightarrow> ticks_left (b\<lparr>bo_skipRemaining := bo_skipRemaining b - 1\<rparr>) = ticks_left b - 1"
  by (simp add: ticks_left_def)

lemma product_step: "(m - 1 - (f + 1)) * (k + 1) = (m - 1 - f) * (k + 1) - (k + 1)" for m f k :: int
  by (simp add: algebra_simps)

lemma ticks_left_error:
  assumes "backoff_wf c b" and "\<not> bo_aborted b" and "bo_skipRemaining b = 0"
    and "\<not> bo_aborted (fst (onStoreError b e))"
  shows "ticks_left (fst (onStoreError b e)) \<le> ticks_left b - 1"
  using assms product_step [of "bk_maxConsecutiveFailures c" "bo_failures b" "bk_maxSkipTicks c"]
  by (auto simp: onStoreError_def Let_def ticks_left_def backoff_wf_def split: if_splits)

lemma ticks_left_pos: "backoff_wf c b \<Longrightarrow> \<not> bo_aborted b \<Longrightarrow> 1 \<le> ticks_left b"
  by (auto simp: ticks_left_def backoff_wf_def)

lemma onStoreError_aborts:
  "backoff_wf c b \<Longrightarrow> \<not> bo_aborted b \<Longrightarrow> bo_aborted (fst (onStoreError b e)) \<Longrightarrow>
    bo_failures (fst (onStoreError b e)) = bk_maxConsecutiveFailures c"
  by (auto simp: onStoreError_def Let_def backoff_wf_def split: if_splits)

text \<open>A counts function of a store that is down: every call is an error.\<close>

definition store_down :: "'w counts_fn \<Rightarrow> bool" where
  "store_down g \<longleftrightarrow> (\<forall>w. \<exists>e w'. g w = (Err e, w'))"

lemma tick_down:
  assumes "store_down g" and wf: "backoff_wf c (dt_backoff d)" and "\<not> bo_aborted (dt_backoff d)"
    and c: "0 < bk_maxConsecutiveFailures c"
  obtains d' w' where "tick g d w = ((Some (Aborted (bk_maxConsecutiveFailures c)), d'), w')"
  | d' w' where "tick g d w = ((None, d'), w')" "backoff_wf c (dt_backoff d')" "\<not> bo_aborted (dt_backoff d')"
      "ticks_left (dt_backoff d') \<le> ticks_left (dt_backoff d) - 1"
proof (cases "0 < bo_skipRemaining (dt_backoff d)")
  case True
  then show ?thesis
    using assms that(2) backoff_wf_step [OF wf c, of SkipCheck] ticks_left_skip [OF True]
    by (simp add: tick_def shouldSkipTick_def)
next
  case False
  with wf have s0: "bo_skipRemaining (dt_backoff d) = 0" by (simp add: backoff_wf_def)
  obtain e w' where g: "g w = (Err e, w')"
    using assms(1) unfolding store_down_def by metis
  let ?e = "ThrownOther ''[object Object]''"
  let ?b = "fst (onStoreError (dt_backoff d) ?e)"
  show ?thesis
  proof (cases "bo_aborted ?b")
    case True
    with onStoreError_aborts [OF wf assms(3) True] that(1) g s0 assms(3) show ?thesis
      by (simp add: tick_def shouldSkipTick_def split_beta Let_def)
  next
    case False
    with ticks_left_error [OF wf assms(3) s0 False] backoff_wf_step [OF wf c, of "StoreError ?e"] that(2) g s0 assms(3)
    show ?thesis by (simp add: tick_def shouldSkipTick_def split_beta Let_def)
  qed
qed

lemma wait_down:
  assumes "store_down g" and "0 < bk_maxConsecutiveFailures c"
  shows "backoff_wf c (dt_backoff d) \<Longrightarrow> \<not> bo_aborted (dt_backoff d) \<Longrightarrow> ticks_left (dt_backoff d) \<le> int n \<Longrightarrow>
    fst (fst (wait_ticks n g d w)) = Some (Aborted (bk_maxConsecutiveFailures c))"
proof (induction n arbitrary: d w)
  case 0
  then show ?case using ticks_left_pos [of c "dt_backoff d"] by simp
next
  case (Suc n)
  show ?case
    by (rule tick_down [OF assms(1) Suc.prems(1,2) assms(2), of w]) (use Suc in simp_all)
qed

text \<open>C13: While the state store is unreachable, the detector ends by itself: after at most maxConsecutiveFailures polls, each followed by at most maxSkipTicks skipped ticks, it resolves with Aborted and exactly the configured number of failures.\<close>

theorem detector_aborts:
  assumes "store_down getQueueCounts"
    and "0 < bk_maxConsecutiveFailures config" and "0 \<le> bk_maxSkipTicks config"
    and "bk_maxConsecutiveFailures config * (bk_maxSkipTicks config + 1) \<le> int n"
  shows "fst (fst (waitForCompletion n False getQueueCounts (createBackoffController config) w))
    = Return (Some (Aborted (bk_maxConsecutiveFailures config)))"
proof -
  let ?b = "createBackoffController config"
  have "ticks_left ?b \<le> int n"
    using assms(3,4) by (simp add: ticks_left_def createBackoffController_def algebra_simps)
  then have "fst (fst (wait_ticks n getQueueCounts (detector_start ?b) w))
      = Some (Aborted (bk_maxConsecutiveFailures config))"
    using wait_down [OF assms(1,2), of "detector_start ?b" n w] backoff_wf_create [OF assms(2,3)]
    by (simp add: detector_start_def createBackoffController_def)
  then show ?thesis by (simp add: waitForCompletion_def split_beta)
qed

theorem detector_aborts_witness:
  "fst (fst (waitForCompletion 3 False (\<lambda>w. (Err (createQueueError ''getJobCounts'' (ThrownOther ''down'')), w))
      (createBackoffController \<lparr>bk_maxConsecutiveFailures = 1, bk_maxSkipTicks = 2\<rparr>) ()))
    = Return (Some (Aborted 1))"
  using detector_aborts [of "\<lambda>w. (Err (createQueueError ''getJobCounts'' (ThrownOther ''down'')), w)"
      "\<lparr>bk_maxConsecutiveFailures = 1, bk_maxSkipTicks = 2\<rparr>" 3 "()"]
  by (simp add: store_down_def)

text \<open>The counts function that also records its answers, and the answers that were no errors.\<close>

definition recorded :: "'w counts_fn \<Rightarrow> ('w \<times> (QueueError, QueueCounts) result list) counts_fn" where
  "recorded g s = (case g (fst s) of (r, w') \<Rightarrow> (r, (w', snd s @ [r])))"

definition seen :: "(QueueError, QueueCounts) result list \<Rightarrow> QueueCounts list" where
  "seen tr = concat (map (\<lambda>r. case r of Ok c \<Rightarrow> [c] | Err _ \<Rightarrow> []) tr)"

lemma seen_snoc [simp]: "seen (tr @ [Ok c]) = seen tr @ [c]" "seen (tr @ [Err e]) = seen tr"
  by (simp_all add: seen_def)

definition empty_counts :: QueueCounts where
  "empty_counts = \<lparr>qc_pending = 0, qc_done = 0\<rparr>"

definition complete_counts :: "QueueCounts \<Rightarrow> bool" where
  "complete_counts c \<longleftrightarrow> qc_pending c = 0 \<and> 0 < qc_done c"

text \<open>What an unresolved detector knows: no complete answer yet, and whether the last answer was empty.\<close>

definition detector_inv :: "Detector \<Rightarrow> (QueueError, QueueCounts) result list \<Rightarrow> bool" where
  "detector_inv d tr \<longleftrightarrow> (\<forall>c\<in>set (seen tr). \<not> complete_counts c)
     \<and> dt_emptyPollCount d = (if seen tr \<noteq> [] \<and> last (seen tr) = empty_counts then 1 else 0)"

definition outcome_justified :: "CompletionOutcome \<Rightarrow> QueueCounts list \<Rightarrow> bool" where
  "outcome_justified outcome cs = (case outcome of
     Completed k \<Rightarrow> 0 < k \<and> cs \<noteq> [] \<and> last cs = \<lparr>qc_pending = 0, qc_done = k\<rparr>
   | EmptyComplete \<Rightarrow> 2 \<le> length cs \<and> last cs = empty_counts \<and> last (butlast cs) = empty_counts
   | Aborted _ \<Rightarrow> True)"

lemma counts_seen_cases:
  assumes "detector_inv d tr" and "counts_seen d c = (r, d')"
  shows "case r of None \<Rightarrow> detector_inv d' (tr @ [Ok c])
    | Some outcome \<Rightarrow> outcome_justified outcome (seen (tr @ [Ok c]))"
proof (cases "complete_counts c")
  case True
  then show ?thesis using assms(2)
    by (cases c) (auto simp: counts_seen_def split_beta Let_def complete_counts_def outcome_justified_def)
next
  case False
  show ?thesis
  proof (cases "c = empty_counts")
    case True
    show ?thesis using assms False True
      by (auto simp: counts_seen_def split_beta Let_def empty_counts_def complete_counts_def detector_inv_def
          outcome_justified_def neq_Nil_conv split: if_splits)
  next
    case ne: False
    with False have "\<not> (qc_pending c = 0 \<and> 0 < qc_done c)" "\<not> (qc_pending c = 0 \<and> qc_done c = 0)"
      by (auto simp: complete_counts_def empty_counts_def)
    then show ?thesis using assms False ne
      by (auto simp: counts_seen_def split_beta Let_def detector_inv_def complete_counts_def)
  qed
qed

lemma tick_recorded:
  assumes "detector_inv d tr" and "tick (recorded g) d (w, tr) = ((r, d'), (w', tr'))"
  shows "case r of None \<Rightarrow> detector_inv d' tr' | Some outcome \<Rightarrow> outcome_justified outcome (seen tr')"
proof (cases "bo_aborted (dt_backoff d)")
  case True
  then show ?thesis using assms(2) by (auto simp: tick_def outcome_justified_def)
next
  case na: False
  obtain sk b where sk: "shouldSkipTick (dt_backoff d) = (sk, b)" by fastforce
  show ?thesis
  proof (cases sk)
    case True
    then show ?thesis using na assms sk by (auto simp: tick_def detector_inv_def)
  next
    case False
    obtain res w1 where g: "g w = (res, w1)" by fastforce
    show ?thesis
    proof (cases res)
      case (Inr c)
      have "detector_inv (d\<lparr>dt_backoff := b\<rparr>) tr" using assms(1) by (simp add: detector_inv_def)
      moreover have "counts_seen (d\<lparr>dt_backoff := b\<rparr>) c = (r, d')" and "tr' = tr @ [Ok c]"
        using assms(2) na sk False g Inr by (auto simp: tick_def recorded_def)
      ultimately show ?thesis using counts_seen_cases by blast
    next
      case (Inl e)
      then show ?thesis using assms na sk False g
        by (auto simp: tick_def recorded_def detector_inv_def outcome_justified_def split_beta Let_def split: if_splits)
    qed
  qed
qed

lemma wait_recorded:
  "detector_inv d tr \<Longrightarrow> wait_ticks n (recorded g) d (w, tr) = ((r, d'), (w', tr')) \<Longrightarrow>
    (case r of None \<Rightarrow> detector_inv d' tr' | Some outcome \<Rightarrow> outcome_justified outcome (seen tr'))"
proof (induction n arbitrary: d w tr)
  case 0
  then show ?case by simp
next
  case (Suc n)
  obtain r1 d1 w1 tr1 where t: "tick (recorded g) d (w, tr) = ((r1, d1), (w1, tr1))"
    by (metis prod.collapse)
  note inv = tick_recorded [OF Suc.prems(1) t]
  show ?case
  proof (cases r1)
    case None
    then show ?thesis using Suc.IH [of d1 tr1 w1] Suc.prems(2) t inv by simp
  next
    case (Some o1)
    then show ?thesis using Suc.prems(2) t inv by auto
  qed
qed

lemma detector_inv_start: "detector_inv (detector_start b) []"
  by (simp add: detector_inv_def detector_start_def seen_def)

text \<open>C14: The detector never ends too early or with the wrong outcome: Completed k only when the last answer of the queue has no pending jobs and k > 0 done ones, EmptyComplete only when the last two answers that were no errors are empty, and while it keeps polling no answer was complete.\<close>

theorem detector_outcome_sound:
  assumes "wait_ticks n (recorded getQueueCounts) (detector_start b) (w, []) = ((r, d), (w', answers))"
  shows "case r of
      Some (Completed k) \<Rightarrow> 0 < k \<and> seen answers \<noteq> [] \<and> last (seen answers) = \<lparr>qc_pending = 0, qc_done = k\<rparr>
    | Some EmptyComplete \<Rightarrow> 2 \<le> length (seen answers) \<and> last (seen answers) = \<lparr>qc_pending = 0, qc_done = 0\<rparr>
        \<and> last (butlast (seen answers)) = \<lparr>qc_pending = 0, qc_done = 0\<rparr>
    | Some (Aborted _) \<Rightarrow> True
    | None \<Rightarrow> list_all (\<lambda>c. \<not> (qc_pending c = 0 \<and> 0 < qc_done c)) (seen answers)"
  using wait_recorded [OF detector_inv_start assms]
  by (auto simp: outcome_justified_def detector_inv_def empty_counts_def complete_counts_def list_all_iff
      split: option.splits CompletionOutcome.splits)

definition demo_counts :: "nat counts_fn" where
  "demo_counts w = (Ok (if w = 0 then \<lparr>qc_pending = 3, qc_done = 0\<rparr> else \<lparr>qc_pending = 0, qc_done = 5\<rparr>), Suc w)"

theorem detector_outcome_sound_witness:
  "0 < (5::int) \<and> last (seen (snd (snd (wait_ticks 2 (recorded demo_counts)
      (detector_start (createBackoffController DEFAULT_BACKOFF_CONFIG)) (0, []))))) = \<lparr>qc_pending = 0, qc_done = 5\<rparr>"
proof -
  obtain r d w' tr where run: "wait_ticks 2 (recorded demo_counts)
      (detector_start (createBackoffController DEFAULT_BACKOFF_CONFIG)) (0, []) = ((r, d), (w', tr))"
    by (metis prod.collapse)
  then have "r = Some (Completed 5)"
    by (auto simp: numeral_2_eq_2 recorded_def demo_counts_def tick_def counts_seen_def detector_start_def
        createBackoffController_def shouldSkipTick_def onStoreSuccess_def)
  with detector_outcome_sound [OF run] run show ?thesis by simp
qed

text \<open>A failed poll between two empty answers does not reset the count of empty polls.\<close>

lemma empty_polls_around_error:
  "fst (fst (wait_ticks 4 (\<lambda>w::nat. (if w = 1 then Err (createQueueError ''getJobCounts'' (ThrownOther ''down''))
       else Ok empty_counts, Suc w)) (detector_start (createBackoffController DEFAULT_BACKOFF_CONFIG)) 0))
    = Some EmptyComplete"
  by (simp add: eval_nat_numeral tick_def counts_seen_def detector_start_def createBackoffController_def
      shouldSkipTick_def onStoreSuccess_def onStoreError_def DEFAULT_BACKOFF_CONFIG_def empty_counts_def Let_def)

section \<open>The control plane\<close>

text \<open>A cancellation obliterates the queue exactly once: the first call returns the queue's result, every later call returns that same result without touching the queue, so a failed cancellation is never tried again; from then on the state is reported as cancelled whatever the jobs say, also when the cancellation failed.\<close>

theorem cancel_once:
  "let ((r, c), w1) = cp_cancel q createControlPlaneAdapter w
   in (r, w1) = qa_obliterate q w
      \<and> cp_cancel q c w2 = ((r, c), w2)
      \<and> cp_getState q c w3 = (case qa_getJobCounts q w3 of
          (Ok _, w4) \<Rightarrow> (Ok CsCancelled, w4) | (Err e, w4) \<Rightarrow> (Err e, w4))"
  by (auto simp: cp_cancel_def cp_doCancel_def createControlPlaneAdapter_def Let_def split_beta
      cp_getState_def deriveState_def split: prod.splits sum.splits)

end
