(* ===== verification/LeaderElection.thy ===== *)
theory LeaderElection
  imports CoreErrors
begin

text \<open>
  packages/completion-detection/src/leader-election.ts and failover-controller.ts, with the store
  as a record of functions over the world, and the coordinators of one cluster as a step relation:
  a poll of the standby timer, a tick of the renewal timer, a shutdown, and the expiry of the lease.
\<close>

section \<open>leader-election.ts\<close>

record LeaderElectionConfig =
  le_coordinatorId :: string
  le_leaseTtlMs :: int
  le_leaseKey :: string

definition DEFAULT_ELECTION_CONFIG :: "string \<Rightarrow> LeaderElectionConfig" where
  "DEFAULT_ELECTION_CONFIG coordinatorId =
     \<lparr>le_coordinatorId = coordinatorId, le_leaseTtlMs = 30000, le_leaseKey = ''coordinator:leader''\<rparr>"

record 'w LeaseStore =
  ls_setNX :: "string \<Rightarrow> string \<Rightarrow> int \<Rightarrow> 'w \<Rightarrow> bool completion \<times> 'w"
  ls_setXX :: "string \<Rightarrow> string \<Rightarrow> int \<Rightarrow> 'w \<Rightarrow> bool completion \<times> 'w"
  ls_get :: "string \<Rightarrow> 'w \<Rightarrow> string option completion \<times> 'w"
  ls_del :: "string \<Rightarrow> 'w \<Rightarrow> unit completion \<times> 'w"

text \<open>The closure variables: \<open>leader\<close>, and the period of the renewal timer while it runs.\<close>

record Election =
  el_config :: LeaderElectionConfig
  el_leader :: bool
  el_renewalTimer :: "int option"
  el_logs :: "log_line list"

definition createLeaderElection :: "LeaderElectionConfig \<Rightarrow> Election" where
  "createLeaderElection config = \<lparr>el_config = config, el_leader = False, el_renewalTimer = None, el_logs = []\<rparr>"

definition el_log :: "log_level \<Rightarrow> string \<Rightarrow> (string \<times> string) list \<Rightarrow> Election \<Rightarrow> Election" where
  "el_log level msg kv e = e\<lparr>el_logs := el_logs e @ [(level, msg, kv)]\<rparr>"

definition id_field :: "Election \<Rightarrow> (string \<times> string) list" where
  "id_field e = [(''coordinatorId'', le_coordinatorId (el_config e))]"

definition el_tryAcquire :: "'w LeaseStore \<Rightarrow> Election \<Rightarrow> 'w \<Rightarrow> ((QueueError, bool) result \<times> Election) \<times> 'w" where
  "el_tryAcquire store e w =
     (let c = el_config e
      in case ls_setNX store (le_leaseKey c) (le_coordinatorId c) (le_leaseTtlMs c) w of
           (Return acquired, w') \<Rightarrow>
             (if acquired
              then ((Ok acquired, el_log LogInfo ''Leadership acquired'' (id_field e) (e\<lparr>el_leader := True\<rparr>)), w')
              else ((Ok acquired, el_log LogDebug ''Leadership not acquired, another coordinator is leader'' []
                       (e\<lparr>el_leader := False\<rparr>)), w'))
         | (Throw cause, w') \<Rightarrow> ((Err (createQueueError ''leader.tryAcquire'' cause), e), w'))"

definition el_renew :: "'w LeaseStore \<Rightarrow> Election \<Rightarrow> 'w \<Rightarrow> ((QueueError, bool) result \<times> Election) \<times> 'w" where
  "el_renew store e w =
     (let c = el_config e
      in case ls_setXX store (le_leaseKey c) (le_coordinatorId c) (le_leaseTtlMs c) w of
           (Return renewed, w') \<Rightarrow>
             (if \<not> renewed
              then ((Ok renewed, el_log LogWarn ''Lease renewal failed - lost leadership'' (id_field e)
                       (e\<lparr>el_leader := False\<rparr>)), w')
              else ((Ok renewed, e), w'))
         | (Throw cause, w') \<Rightarrow> ((Err (createQueueError ''leader.renew'' cause), e\<lparr>el_leader := False\<rparr>), w'))"

definition el_release :: "'w LeaseStore \<Rightarrow> Election \<Rightarrow> 'w \<Rightarrow> ((QueueError, unit) result \<times> Election) \<times> 'w" where
  "el_release store e w =
     (let c = el_config e; failed = (\<lambda>cause. (Err (createQueueError ''leader.release'' cause), e\<lparr>el_leader := False\<rparr>))
      in case ls_get store (le_leaseKey c) w of
           (Throw cause, w1) \<Rightarrow> (failed cause, w1)
         | (Return current, w1) \<Rightarrow>
             (if current = Some (le_coordinatorId c)
              then case ls_del store (le_leaseKey c) w1 of
                     (Throw cause, w2) \<Rightarrow> (failed cause, w2)
                   | (Return _, w2) \<Rightarrow>
                       ((Ok (), (el_log LogInfo ''Leadership released'' (id_field e) e)\<lparr>el_leader := False\<rparr>), w2)
              else ((Ok (), e\<lparr>el_leader := False\<rparr>), w1)))"

definition startRenewal :: "Election \<Rightarrow> Election" where
  "startRenewal e =
     (case el_renewalTimer e of
        Some _ \<Rightarrow> e
      | None \<Rightarrow>
          (let interval = le_leaseTtlMs (el_config e) div 3
           in el_log LogInfo ''Lease renewal started'' [(''intervalMs'', string_of_int interval)]
                (e\<lparr>el_renewalTimer := Some interval\<rparr>)))"

definition stopRenewal :: "Election \<Rightarrow> Election" where
  "stopRenewal e =
     (case el_renewalTimer e of
        Some _ \<Rightarrow> el_log LogInfo ''Lease renewal stopped'' [] (e\<lparr>el_renewalTimer := None\<rparr>)
      | None \<Rightarrow> e)"

section \<open>failover-controller.ts\<close>

record FailoverController =
  fo_pollIntervalMs :: int
  fo_timer :: bool
  fo_active :: bool
  fo_logs :: "log_line list"

definition createFailoverController :: "int \<Rightarrow> FailoverController" where
  "createFailoverController pollIntervalMs =
     \<lparr>fo_pollIntervalMs = pollIntervalMs, fo_timer = False, fo_active = False, fo_logs = []\<rparr>"

text \<open>The result is the completion of the promise; the timer drops it.\<close>

definition attemptAcquire ::
  "'w LeaseStore \<Rightarrow> ('w \<Rightarrow> unit completion \<times> 'w) \<Rightarrow> FailoverController \<times> Election \<Rightarrow> 'w \<Rightarrow>
     (unit completion \<times> FailoverController \<times> Election) \<times> 'w" where
  "attemptAcquire store onBecameLeader fe w =
     (case fe of (f, e) \<Rightarrow>
       if el_leader e then ((Return (), f, e), w)
       else case el_tryAcquire store e w of
         ((Err err, e'), w') \<Rightarrow>
           ((Return (), f\<lparr>fo_logs := fo_logs f @ [(LogWarn, ''Failover lease acquisition failed'', [(''error'', qe_message err)])]\<rparr>, e'), w')
       | ((Ok acquired, e'), w') \<Rightarrow>
           (if acquired
            then let f' = f\<lparr>fo_logs := fo_logs f @ [(LogInfo, ''Failover: acquired leadership, re-deriving state'', [])]\<rparr>;
                     (r, w'') = onBecameLeader w'
                 in ((r, f', startRenewal e'), w'')
            else ((Return (), f, e'), w')))"

definition fo_start :: "FailoverController \<Rightarrow> FailoverController" where
  "fo_start f =
     (if fo_active f then f
      else f\<lparr>fo_active := True, fo_timer := True,
             fo_logs := fo_logs f @ [(LogInfo, ''Failover controller started'', [(''pollIntervalMs'', string_of_int (fo_pollIntervalMs f))])]\<rparr>)"

definition fo_stop :: "FailoverController \<Rightarrow> FailoverController" where
  "fo_stop f = f\<lparr>fo_timer := False, fo_active := False, fo_logs := fo_logs f @ [(LogInfo, ''Failover controller stopped'', [])]\<rparr>"

section \<open>A cluster of coordinators\<close>

text \<open>The coordinators by their id, and the world with the store.\<close>

record 'w cluster =
  cu_node :: "string \<Rightarrow> FailoverController \<times> Election"
  cu_world :: 'w

definition is_leader :: "'w cluster \<Rightarrow> string \<Rightarrow> bool" where
  "is_leader s i \<longleftrightarrow> el_leader (snd (cu_node s i))"

definition renewing :: "'w cluster \<Rightarrow> string \<Rightarrow> bool" where
  "renewing s i \<longleftrightarrow> el_renewalTimer (snd (cu_node s i)) \<noteq> None"

datatype cluster_label = PollBy string | RenewBy string | ShutdownOf string

inductive cluster_step ::
  "'w LeaseStore \<Rightarrow> ('w \<Rightarrow> unit completion \<times> 'w) \<Rightarrow> cluster_label \<Rightarrow> 'w cluster \<Rightarrow> 'w cluster \<Rightarrow> bool"
  for store :: "'w LeaseStore" and onBecameLeader :: "'w \<Rightarrow> unit completion \<times> 'w" where
  PollTick: "fo_timer (fst (cu_node s i)) \<Longrightarrow>
     attemptAcquire store onBecameLeader (cu_node s i) (cu_world s) = ((r, n), w') \<Longrightarrow>
     cluster_step store onBecameLeader (PollBy i) s (s\<lparr>cu_node := (cu_node s)(i := n), cu_world := w'\<rparr>)"
| RenewTick: "renewing s i \<Longrightarrow> cu_node s i = (f, e) \<Longrightarrow> el_renew store e (cu_world s) = ((r, e'), w') \<Longrightarrow>
     cluster_step store onBecameLeader (RenewBy i) s (s\<lparr>cu_node := (cu_node s)(i := (f, e')), cu_world := w'\<rparr>)"
| Shutdown: "cu_node s i = (f, e) \<Longrightarrow> el_release store (stopRenewal e) (cu_world s) = ((r, e'), w') \<Longrightarrow>
     cluster_step store onBecameLeader (ShutdownOf i) s (s\<lparr>cu_node := (cu_node s)(i := (fo_stop f, e')), cu_world := w'\<rparr>)"

inductive_cases cluster_stepE: "cluster_step store onBecameLeader l s t"

inductive cluster_run ::
  "'w LeaseStore \<Rightarrow> ('w \<Rightarrow> unit completion \<times> 'w) \<Rightarrow> 'w cluster \<Rightarrow> cluster_label list \<Rightarrow> 'w cluster \<Rightarrow> bool"
  for store :: "'w LeaseStore" and onBecameLeader :: "'w \<Rightarrow> unit completion \<times> 'w" where
  RunNil: "cluster_run store onBecameLeader s [] s"
| RunSnoc: "cluster_run store onBecameLeader s ls t \<Longrightarrow> cluster_step store onBecameLeader l t u \<Longrightarrow>
     cluster_run store onBecameLeader s (ls @ [l]) u"

definition cluster_start :: "string \<Rightarrow> int \<Rightarrow> 'w \<Rightarrow> 'w cluster" where
  "cluster_start key ttl w =
     \<lparr>cu_node = (\<lambda>i. (fo_start (createFailoverController 5000),
         createLeaderElection \<lparr>le_coordinatorId = i, le_leaseTtlMs = ttl, le_leaseKey = key\<rparr>)), cu_world = w\<rparr>"

text \<open>
  What the store documents for one key while the lease does not expire: SET NX sets the key when it
  is absent, SET XX when it is present, a failed call may or may not have had its effect. Taking over
  leadership (the callback) does not touch the lease.
\<close>

definition setNX_law :: "('w \<Rightarrow> string option) \<Rightarrow> string \<Rightarrow> 'w \<Rightarrow> bool completion \<times> 'w \<Rightarrow> bool" where
  "setNX_law owner v w res = (case res of
     (Return b, w') \<Rightarrow> b = (owner w = None) \<and> owner w' = (if b then Some v else owner w)
   | (Throw _, w') \<Rightarrow> owner w' = owner w \<or> owner w = None \<and> owner w' = Some v)"

definition setXX_law :: "('w \<Rightarrow> string option) \<Rightarrow> string \<Rightarrow> 'w \<Rightarrow> bool completion \<times> 'w \<Rightarrow> bool" where
  "setXX_law owner v w res = (case res of
     (Return b, w') \<Rightarrow> b = (owner w \<noteq> None) \<and> owner w' = (if b then Some v else None)
   | (Throw _, w') \<Rightarrow> owner w' = owner w \<or> owner w \<noteq> None \<and> owner w' = Some v)"

definition get_law :: "('w \<Rightarrow> string option) \<Rightarrow> 'w \<Rightarrow> string option completion \<times> 'w \<Rightarrow> bool" where
  "get_law owner w res = (case res of
     (Return x, w') \<Rightarrow> x = owner w \<and> owner w' = owner w | (Throw _, w') \<Rightarrow> owner w' = owner w)"

definition del_law :: "('w \<Rightarrow> string option) \<Rightarrow> 'w \<Rightarrow> unit completion \<times> 'w \<Rightarrow> bool" where
  "del_law owner w res = (case res of
     (Return _, w') \<Rightarrow> owner w' = None | (Throw _, w') \<Rightarrow> owner w' = owner w \<or> owner w' = None)"

definition lease_laws :: "'w LeaseStore \<Rightarrow> ('w \<Rightarrow> unit completion \<times> 'w) \<Rightarrow> string \<Rightarrow> ('w \<Rightarrow> string option) \<Rightarrow> bool" where
  "lease_laws store onBecameLeader key owner \<longleftrightarrow>
     (\<forall>v ttl w. setNX_law owner v w (ls_setNX store key v ttl w))
   \<and> (\<forall>v ttl w. setXX_law owner v w (ls_setXX store key v ttl w))
   \<and> (\<forall>w. get_law owner w (ls_get store key w))
   \<and> (\<forall>w. del_law owner w (ls_del store key w))
   \<and> (\<forall>w. owner (snd (onBecameLeader w)) = owner w)"

section \<open>Single operations under the laws\<close>

definition node_ok :: "string \<Rightarrow> string \<Rightarrow> ('w \<Rightarrow> string option) \<Rightarrow> Election \<Rightarrow> 'w \<Rightarrow> bool" where
  "node_ok key i owner e w \<longleftrightarrow> le_leaseKey (el_config e) = key \<and> le_coordinatorId (el_config e) = i
     \<and> (el_leader e \<or> el_renewalTimer e \<noteq> None \<longrightarrow> owner w = Some i)"

lemma lease_laws_facts:
  assumes "lease_laws store f key owner"
  shows "setNX_law owner v w (ls_setNX store key v ttl w)"
    and "setXX_law owner v w (ls_setXX store key v ttl w)"
    and "get_law owner w (ls_get store key w)"
    and "del_law owner w (ls_del store key w)"
    and "owner (snd (f w)) = owner w"
  using assms by (auto simp: lease_laws_def)

lemmas law_defs = setNX_law_def setXX_law_def get_law_def del_law_def

lemma el_log_simps [simp]:
  "el_config (el_log l m kv e) = el_config e" "el_leader (el_log l m kv e) = el_leader e"
  "el_renewalTimer (el_log l m kv e) = el_renewalTimer e"
  by (simp_all add: el_log_def)

lemma startRenewal_simps [simp]:
  "el_config (startRenewal e) = el_config e" "el_leader (startRenewal e) = el_leader e"
  "el_renewalTimer (startRenewal e) \<noteq> None"
  by (auto simp: startRenewal_def Let_def split: option.splits)

lemma stopRenewal_simps [simp]:
  "el_config (stopRenewal e) = el_config e" "el_leader (stopRenewal e) = el_leader e"
  "el_renewalTimer (stopRenewal e) = None"
  by (auto simp: stopRenewal_def split: option.splits)

text \<open>An operation of coordinator \<open>i\<close> keeps its own claim and takes the lease from nobody else.\<close>

definition harmless :: "string \<Rightarrow> ('w \<Rightarrow> string option) \<Rightarrow> 'w \<Rightarrow> 'w \<Rightarrow> bool" where
  "harmless i owner w w' \<longleftrightarrow> (\<forall>j. j \<noteq> i \<longrightarrow> owner w = Some j \<longrightarrow> owner w' = Some j)"

lemma tryAcquire_ok:
  assumes "lease_laws store f key owner" and "node_ok key i owner e w"
    and "el_tryAcquire store e w = ((r, e'), w')"
  shows "node_ok key i owner e' w' \<and> harmless i owner w w' \<and> (r = Ok True \<longrightarrow> owner w' = Some i)
    \<and> el_config e' = el_config e"
  using assms(2,3) lease_laws_facts(1) [OF assms(1), of i w "le_leaseTtlMs (el_config e)"]
  by (auto simp: el_tryAcquire_def Let_def node_ok_def law_defs harmless_def
      split: prod.splits completion.splits if_splits)

lemma renew_ok:
  assumes "lease_laws store f key owner" and "node_ok key i owner e w" and "el_renewalTimer e \<noteq> None"
    and "el_renew store e w = ((r, e'), w')"
  shows "node_ok key i owner e' w' \<and> harmless i owner w w' \<and> owner w' = Some i
    \<and> (el_leader e' \<longrightarrow> el_leader e) \<and> el_renewalTimer e' = el_renewalTimer e"
  using assms(2,3,4) lease_laws_facts(2) [OF assms(1), of i w "le_leaseTtlMs (el_config e)"]
  by (auto simp: el_renew_def Let_def node_ok_def law_defs harmless_def
      split: prod.splits completion.splits if_splits)

lemma release_ok:
  assumes "lease_laws store f key owner" and "node_ok key i owner e w" and "el_renewalTimer e = None"
    and "el_release store e w = ((r, e'), w')"
  shows "node_ok key i owner e' w' \<and> harmless i owner w w' \<and> \<not> el_leader e'"
proof (cases "ls_get store key w")
  case (Pair x w1)
  show ?thesis
  proof (cases x)
    case (Return y)
    then have y: "y = owner w" "owner w1 = owner w" using lease_laws_facts(3) [OF assms(1), of w] Pair
      by (auto simp: law_defs)
    obtain x2 w2 where del: "ls_del store key w1 = (x2, w2)" by fastforce
    then have "owner w2 = owner w1 \<or> owner w2 = None"
      using lease_laws_facts(4) [OF assms(1), of w1] by (cases x2) (auto simp: law_defs)
    then show ?thesis using assms(2-4) Pair Return y del
      by (auto simp: el_release_def Let_def node_ok_def harmless_def split: completion.splits if_splits)
  next
    case (Throw y)
    then have "owner w1 = owner w" using lease_laws_facts(3) [OF assms(1), of w] Pair
      by (auto simp: law_defs)
    then show ?thesis using assms(2-4) Pair Throw
      by (auto simp: el_release_def Let_def node_ok_def harmless_def)
  qed
qed

lemma node_ok_startRenewal:
  "node_ok key i owner e w \<Longrightarrow> owner w = Some i \<Longrightarrow> node_ok key i owner (startRenewal e) w"
  by (simp add: node_ok_def)

lemma attemptAcquire_ok:
  assumes "lease_laws store cb key owner" and "node_ok key i owner (snd n) w"
    and "attemptAcquire store cb n w = ((r, n'), w')"
  shows "node_ok key i owner (snd n') w' \<and> harmless i owner w w'"
proof (cases "el_leader (snd n)")
  case True
  then show ?thesis using assms(2,3) by (auto simp: attemptAcquire_def harmless_def split: prod.splits)
next
  case False
  obtain f e where n: "n = (f, e)" by fastforce
  obtain a e1 w1 where acq: "el_tryAcquire store e w = ((a, e1), w1)" by (metis prod.collapse)
  obtain r2 w2 where cb: "cb w1 = (r2, w2)" by fastforce
  have "owner w2 = owner w1" using lease_laws_facts(5) [OF assms(1), of w1] cb by simp
  then have "node_ok key i owner e' w2 = node_ok key i owner e' w1"
    and "harmless i owner w w2 = harmless i owner w w1" for e'
    by (simp_all add: node_ok_def harmless_def)
  then show ?thesis
    using assms(2,3) n acq cb False tryAcquire_ok [OF assms(1) _ acq] node_ok_startRenewal [of key i owner e1 w1]
    by (auto simp: attemptAcquire_def split: sum.splits if_splits)
qed

section \<open>The cluster\<close>

definition cluster_inv :: "string \<Rightarrow> ('w \<Rightarrow> string option) \<Rightarrow> 'w cluster \<Rightarrow> bool" where
  "cluster_inv key owner s \<longleftrightarrow> (\<forall>i. node_ok key i owner (snd (cu_node s i)) (cu_world s))"

lemma node_ok_harmless:
  "node_ok key j owner e w \<Longrightarrow> harmless i owner w w' \<Longrightarrow> j \<noteq> i \<Longrightarrow> node_ok key j owner e w'"
  by (auto simp: node_ok_def harmless_def)

lemma cluster_inv_update:
  assumes "cluster_inv key owner s" and "node_ok key i owner (snd n) w' \<and> harmless i owner (cu_world s) w'"
  shows "cluster_inv key owner (s\<lparr>cu_node := (cu_node s)(i := n), cu_world := w'\<rparr>)"
  using assms by (auto simp: cluster_inv_def intro: node_ok_harmless)

lemma cluster_node: "cluster_inv key owner s \<Longrightarrow> cu_node s i = (f, e) \<Longrightarrow> node_ok key i owner e (cu_world s)"
  unfolding cluster_inv_def by (metis snd_conv)

lemma cluster_inv_step:
  assumes "lease_laws store cb key owner" and "cluster_step store cb l s t" and "cluster_inv key owner s"
  shows "cluster_inv key owner t"
  using assms(2)
proof cases
  case (PollTick i r n w')
  have "node_ok key i owner (snd (cu_node s i)) (cu_world s)" using assms(3) by (simp add: cluster_inv_def)
  from attemptAcquire_ok [OF assms(1) this PollTick(4)] show ?thesis
    using PollTick cluster_inv_update [OF assms(3)] by simp
next
  case (RenewTick i f e r e' w')
  then have "node_ok key i owner e (cu_world s)" "el_renewalTimer e \<noteq> None"
    using cluster_node [OF assms(3)] by (auto simp: renewing_def)
  from renew_ok [OF assms(1) this RenewTick(5)] show ?thesis
    using RenewTick cluster_inv_update [OF assms(3)] by simp
next
  case (Shutdown i f e r e' w')
  then have "node_ok key i owner (stopRenewal e) (cu_world s)"
    using cluster_node [OF assms(3)] by (auto simp: node_ok_def)
  from release_ok [OF assms(1) this _ Shutdown(4)] show ?thesis
    using Shutdown cluster_inv_update [OF assms(3)] by simp
qed

lemma cluster_inv_run:
  "cluster_run store cb s ls t \<Longrightarrow> lease_laws store cb key owner \<Longrightarrow> cluster_inv key owner s \<Longrightarrow> cluster_inv key owner t"
  by (induction rule: cluster_run.induct) (auto intro: cluster_inv_step)

lemma cluster_inv_start: "cluster_inv key owner (cluster_start key ttl w)"
  by (simp add: cluster_inv_def cluster_start_def node_ok_def createLeaderElection_def)

lemma leader_owns: "cluster_inv key owner s \<Longrightarrow> is_leader s i \<or> renewing s i \<Longrightarrow> owner (cu_world s) = Some i"
  by (auto simp: cluster_inv_def is_leader_def renewing_def node_ok_def)


text \<open>A store that keeps one key and fails the calls that the world has planned.\<close>

definition plan_call :: "bool list \<times> string option \<Rightarrow> ('a \<times> string option) \<Rightarrow> 'a completion \<times> (bool list \<times> string option)" where
  "plan_call w good = (case fst w of
     True # plan \<Rightarrow> (Throw (ThrownOther ''connection lost''), (plan, snd w))
   | False # plan \<Rightarrow> (Return (fst good), (plan, snd good))
   | [] \<Rightarrow> (Return (fst good), ([], snd good)))"

definition plan_store :: "(bool list \<times> string option) LeaseStore" where
  "plan_store = \<lparr>
     ls_setNX = (\<lambda>k v ttl w. plan_call w (case snd w of None \<Rightarrow> (True, Some v) | Some x \<Rightarrow> (False, Some x))),
     ls_setXX = (\<lambda>k v ttl w. plan_call w (case snd w of None \<Rightarrow> (False, None) | Some x \<Rightarrow> (True, Some v))),
     ls_get = (\<lambda>k w. plan_call w (snd w, snd w)),
     ls_del = (\<lambda>k w. plan_call w ((), None))\<rparr>"

definition quiet_takeover :: "bool list \<times> string option \<Rightarrow> unit completion \<times> (bool list \<times> string option)" where
  "quiet_takeover w = (Return (), w)"

lemma plan_store_laws: "lease_laws plan_store quiet_takeover key snd"
  by (auto simp: lease_laws_def plan_store_def plan_call_def law_defs quiet_takeover_def
      split: list.splits bool.splits option.splits)

definition demo_start :: "bool list \<Rightarrow> (bool list \<times> string option) cluster" where
  "demo_start plan = cluster_start ''lease'' 30000 (plan, None)"

lemma demo_poll:
  "\<exists>s. cluster_step plan_store quiet_takeover (PollBy ''a'') (demo_start (False # plan)) s
     \<and> is_leader s ''a'' \<and> renewing s ''a'' \<and> cu_world s = (plan, Some ''a'')"
  by (rule exI, rule conjI, rule PollTick)
    (auto simp: demo_start_def cluster_start_def fo_start_def createFailoverController_def attemptAcquire_def
      createLeaderElection_def el_tryAcquire_def plan_store_def plan_call_def quiet_takeover_def
      is_leader_def renewing_def startRenewal_def Let_def el_log_def)

lemma run_single: "cluster_step store cb l s t \<Longrightarrow> cluster_run store cb s [l] t"
  using RunSnoc [OF RunNil] by fastforce


text \<open>A coordinator that lost leadership while its renewal timer still runs.\<close>

definition zombie :: "'w cluster \<Rightarrow> string \<Rightarrow> bool" where
  "zombie s i \<longleftrightarrow> \<not> is_leader s i \<and> renewing s i"

lemma attempt_denied:
  assumes "lease_laws store cb key owner" and "node_ok key i owner (snd n) w" and "owner w \<noteq> None"
    and "\<not> el_leader (snd n)" and "attemptAcquire store cb n w = ((r, n'), w')"
  shows "\<not> el_leader (snd n') \<and> el_renewalTimer (snd n') = el_renewalTimer (snd n)"
  using assms(2-5) lease_laws_facts(1) [OF assms(1), of i w "le_leaseTtlMs (el_config (snd n))"]
  by (auto simp: attemptAcquire_def el_tryAcquire_def law_defs node_ok_def Let_def
      split: prod.splits completion.splits sum.splits if_splits)

lemma zombie_step:
  assumes laws: "lease_laws store cb key owner" and step: "cluster_step store cb l s t"
    and inv: "cluster_inv key owner s" and z: "zombie s i" and l: "l \<noteq> ShutdownOf i"
  shows "zombie t i"
  using step
proof cases
  case (PollTick j r n w')
  show ?thesis
  proof (cases "j = i")
    case True
    have "node_ok key i owner (snd (cu_node s i)) (cu_world s)" using inv by (simp add: cluster_inv_def)
    moreover have "owner (cu_world s) \<noteq> None" using leader_owns [OF inv] z by (auto simp: zombie_def)
    ultimately show ?thesis
      using attempt_denied [OF laws] PollTick True z by (fastforce simp: zombie_def is_leader_def renewing_def)
  next
    case False
    then show ?thesis using PollTick z by (simp add: zombie_def is_leader_def renewing_def)
  qed
next
  case (RenewTick j f e r e' w')
  show ?thesis
  proof (cases "j = i")
    case True
    have ok: "node_ok key i owner e (cu_world s)" using cluster_node [OF inv] RenewTick True by blast
    have "el_renewalTimer e \<noteq> None" using RenewTick by (simp add: renewing_def)
    from renew_ok [OF laws ok this] show ?thesis
      using RenewTick True z by (auto simp: zombie_def is_leader_def renewing_def)
  next
    case False
    then show ?thesis using RenewTick z by (simp add: zombie_def is_leader_def renewing_def)
  qed
next
  case (Shutdown j f e r e' w')
  then show ?thesis using z l by (auto simp: zombie_def is_leader_def renewing_def)
qed

lemma zombie_run:
  "cluster_run store cb s ls t \<Longrightarrow> lease_laws store cb key owner \<Longrightarrow> cluster_inv key owner s \<Longrightarrow> zombie s i \<Longrightarrow>
    ShutdownOf i \<notin> set ls \<Longrightarrow> zombie t i"
proof (induction rule: cluster_run.induct)
  case (RunSnoc s ls t l u)
  then have "cluster_inv key owner t" "zombie t i" using cluster_inv_run by fastforce+
  with zombie_step [OF RunSnoc.prems(1) RunSnoc.hyps(2)] RunSnoc.prems(4) show ?case by auto
qed


lemma demo_failed_renewal:
  "is_leader s i \<Longrightarrow> renewing s i \<Longrightarrow> cu_world s = (True # plan, v) \<Longrightarrow>
   \<exists>t. cluster_step plan_store quiet_takeover (RenewBy i) s t \<and> \<not> is_leader t i \<and> renewing t i"
  by (cases "cu_node s i", rule exI, rule conjI, rule RenewTick)
    (auto simp: el_renew_def plan_store_def plan_call_def is_leader_def renewing_def)


text \<open>A renewal does not look at the owner: a leader whose lease expired and was taken by another coordinator writes its own id over the new lease, gets ok(true) and stays leader beside the new one.\<close>

theorem renewal_steals_lease:
  assumes "lease_laws store onBecameLeader (le_leaseKey (el_config e)) owner"
    and "owner w = Some other" and "other \<noteq> le_coordinatorId (el_config e)" and "el_leader e"
    and "el_renew store e w = ((r, e'), w')"
  shows "case r of
      Ok renewed \<Rightarrow> renewed \<and> el_leader e' \<and> owner w' = Some (le_coordinatorId (el_config e))
    | Err _ \<Rightarrow> \<not> el_leader e'"
  using lease_laws_facts(2) [OF assms(1), of "le_coordinatorId (el_config e)" w "le_leaseTtlMs (el_config e)"] assms(2-5)
  by (auto simp: el_renew_def Let_def law_defs split: prod.splits completion.splits)

theorem renewal_steals_lease_witness:
  "let a = (createLeaderElection (DEFAULT_ELECTION_CONFIG ''a''))\<lparr>el_leader := True\<rparr>;
       ((_, b), w1) = el_tryAcquire plan_store (createLeaderElection (DEFAULT_ELECTION_CONFIG ''b'')) ([], None);
       ((_, a'), w2) = el_renew plan_store a w1
   in el_leader a' \<and> el_leader b \<and> snd w2 = Some ''a''"
proof -
  let ?a = "(createLeaderElection (DEFAULT_ELECTION_CONFIG ''a''))\<lparr>el_leader := True\<rparr>"
  obtain r a' w' where run: "el_renew plan_store ?a ([], Some ''b'') = ((r, a'), w')" by (metis prod.collapse)
  then have "r = Ok True"
    by (auto simp: el_renew_def plan_store_def plan_call_def split: if_splits)
  with renewal_steals_lease [OF plan_store_laws _ _ _ run, of "''b''"] run show ?thesis
    by (simp add: el_tryAcquire_def plan_store_def plan_call_def createLeaderElection_def
        DEFAULT_ELECTION_CONFIG_def el_log_def Let_def)
qed

end
