(* ===== verification/IpRange.thy ===== *)
theory IpRange
  imports JsString "HOL-Library.Word"
begin

text \<open>
  packages/ssrf-guard/src/ip-range-checker.ts and the block reasons of ssrf-types.ts: the
  pure functions that decide whether an IP literal lies in a reserved range. The numbers of
  the 32-bit JavaScript operators are \<open>32 word\<close>s; \<open>>>> 0\<close> is their unsigned reading.
\<close>

unbundle bit_operations_syntax

datatype SsrfBlockReason =
    Private_ipv4 | Private_ipv6 | Ipv4_mapped | Loopback | Link_local | Cgnat | Multicast
  | Broadcast | Unspecified | Scheme_disallowed | Dns_failed | Dns_timeout

section \<open>IPv4 helpers\<close>

text \<open>\<open>ToUint32\<close>, the conversion of the operands of the bitwise operators.\<close>

definition to_uint32 :: "jsnum \<Rightarrow> 32 word" where
  "to_uint32 n = (case n of Num q \<Rightarrow> word_of_int (if 0 \<le> q then floor q else ceiling q) | _ \<Rightarrow> 0)"

text \<open>\<open>IPV4_RE.exec(address)\<close>: the four groups of one to three digits.\<close>

definition octet_text :: "string \<Rightarrow> bool" where
  "octet_text w = (w \<noteq> [] \<and> length w \<le> 3 \<and> list_all is_digit w)"

definition match_ipv4 :: "string \<Rightarrow> (string \<times> string \<times> string \<times> string) option" where
  "match_ipv4 s =
     (case split_on CHR ''.'' s of
        [a, b, c, d] \<Rightarrow>
          if octet_text a \<and> octet_text b \<and> octet_text c \<and> octet_text d then Some (a, b, c, d) else None
      | _ \<Rightarrow> None)"

definition isIpv4 :: "string \<Rightarrow> bool" where
  "isIpv4 s = (match_ipv4 s \<noteq> None)"

definition ipv4ToNumber :: "string \<Rightarrow> 32 word" where
  "ipv4ToNumber s =
     (case match_ipv4 s of
        None \<Rightarrow> 0
      | Some (a, b, c, d) \<Rightarrow>
          push_bit 24 (to_uint32 (js_Number a)) OR push_bit 16 (to_uint32 (js_Number b))
            OR push_bit 8 (to_uint32 (js_Number c)) OR to_uint32 (js_Number d))"

section \<open>CIDR ranges\<close>

record Ipv4Range =
  v4_network :: "32 word"
  v4_mask :: "32 word"
  v4_reason :: SsrfBlockReason

definition cidr :: "string \<Rightarrow> SsrfBlockReason \<Rightarrow> Ipv4Range" where
  "cidr notation r =
     (let parts = split_on CHR ''/'' notation;
          network = ipv4ToNumber (hd parts);
          bits = (case tl parts of [] \<Rightarrow> None | b # _ \<Rightarrow> Some b);
          count = (case bits of None \<Rightarrow> 0 | Some b \<Rightarrow> unat (to_uint32 (js_Number b) AND 31));
          mask = (if bits = Some ''32'' then 0xFFFFFFFF else NOT (drop_bit count 0xFFFFFFFF))
      in \<lparr>v4_network = network AND mask, v4_mask = mask, v4_reason = r\<rparr>)"

definition BLOCKED_IPV4_RANGES :: "Ipv4Range list" where
  "BLOCKED_IPV4_RANGES =
     [cidr ''10.0.0.0/8'' Private_ipv4,
      cidr ''172.16.0.0/12'' Private_ipv4,
      cidr ''192.168.0.0/16'' Private_ipv4,
      cidr ''127.0.0.0/8'' Loopback,
      cidr ''169.254.0.0/16'' Link_local,
      cidr ''0.0.0.0/8'' Unspecified,
      cidr ''100.64.0.0/10'' Cgnat,
      cidr ''224.0.0.0/4'' Multicast,
      cidr ''255.255.255.255/32'' Broadcast]"

record Ipv6Range =
  v6_address :: string
  v6_prefixLen :: int
  v6_reason :: SsrfBlockReason

definition BLOCKED_IPV6_RANGES :: "Ipv6Range list" where
  "BLOCKED_IPV6_RANGES =
     [\<lparr>v6_address = ''::1'', v6_prefixLen = 128, v6_reason = Loopback\<rparr>,
      \<lparr>v6_address = ''::'', v6_prefixLen = 128, v6_reason = Unspecified\<rparr>,
      \<lparr>v6_address = ''fc00::'', v6_prefixLen = 7, v6_reason = Private_ipv6\<rparr>,
      \<lparr>v6_address = ''fe80::'', v6_prefixLen = 10, v6_reason = Link_local\<rparr>]"

datatype IpCheckResult = NotBlocked | BlockedBy SsrfBlockReason

text \<open>The loop over the IPv4 ranges: the first range that holds the number decides.\<close>

fun check_ranges4 :: "32 word \<Rightarrow> Ipv4Range list \<Rightarrow> IpCheckResult" where
  "check_ranges4 num [] = NotBlocked"
| "check_ranges4 num (r # rs) =
     (if num AND v4_mask r = v4_network r then BlockedBy (v4_reason r) else check_ranges4 num rs)"

definition checkIpv4 :: "string \<Rightarrow> IpCheckResult" where
  "checkIpv4 address = check_ranges4 (ipv4ToNumber address) BLOCKED_IPV4_RANGES"

section \<open>IPv6\<close>

text \<open>\<open>IPV4_MAPPED_RE\<close> matches \<open>::ffff:\<close>, in any case, before a dotted quad only.\<close>

definition normalizeIpv4Mapped :: "string \<Rightarrow> string" where
  "normalizeIpv4Mapped address =
     (if to_lower (take 7 address) = ''::ffff:'' \<and> isIpv4 (drop 7 address) then drop 7 address
      else address)"

definition isIpv6Address :: "string \<Rightarrow> bool" where
  "isIpv6Address address = (CHR '':'' \<in> set address)"

definition strip_brackets :: "string \<Rightarrow> string" where
  "strip_brackets address =
     (if starts_with address ''['' then
        (if CHR '']'' \<in> set address then tl (takeWhile (\<lambda>c. c \<noteq> CHR '']'') address)
         else tl (butlast address))
      else address)"

definition expandIpv6 :: "string \<Rightarrow> string" where
  "expandIpv6 address =
     (let addr = strip_brackets address
      in case cut_at ''::'' addr of
           Some (left, rest) \<Rightarrow>
             (let right = (case cut_at ''::'' rest of None \<Rightarrow> rest | Some (r, _) \<Rightarrow> r);
                  leftParts = (if left = [] then [] else split_on CHR '':'' left);
                  rightParts = (if right = [] then [] else split_on CHR '':'' right);
                  missing = 8 - length leftParts - length rightParts
              in join_with '':''
                   (map (pad_start 4 CHR ''0'') leftParts @ replicate missing ''0000''
                      @ map (pad_start 4 CHR ''0'') rightParts))
         | None \<Rightarrow> join_with '':'' (map (pad_start 4 CHR ''0'') (split_on CHR '':'' addr)))"

definition group_bytes :: "string \<Rightarrow> 32 word list" where
  "group_bytes g =
     (let val = (case parseInt16 g of None \<Rightarrow> 0 | Some v \<Rightarrow> word_of_int v)
      in [drop_bit 8 val AND 0xFF, val AND 0xFF])"

definition ipv6ToBytes :: "string \<Rightarrow> 32 word list" where
  "ipv6ToBytes expanded = concat (map group_bytes (split_on CHR '':'' expanded))"

definition byte_at :: "32 word list \<Rightarrow> nat \<Rightarrow> 32 word" where
  "byte_at bs i = (if i < length bs then bs ! i else 0)"

text \<open>The comparison loop, on the byte index \<open>i\<close> and the bits still to compare.\<close>

function prefix_loop :: "32 word list \<Rightarrow> 32 word list \<Rightarrow> nat \<Rightarrow> int \<Rightarrow> bool" where
  "prefix_loop addr net i remaining =
     (if i < 16 \<and> 0 < remaining then
        (if 8 \<le> remaining then
           (if byte_at addr i \<noteq> byte_at net i then False
            else prefix_loop addr net (Suc i) (remaining - 8))
         else
           (let mask = push_bit (nat (8 - remaining)) 0xFF AND 0xFF
            in if byte_at addr i AND mask \<noteq> byte_at net i AND mask then False
               else prefix_loop addr net (Suc i) 0))
      else True)"
  by pat_completeness auto
termination
  by (relation "measure (\<lambda>(_, _, i, _). 16 - i)") auto

declare prefix_loop.simps [simp del]

definition ipv6MatchesPrefix :: "string \<Rightarrow> string \<Rightarrow> int \<Rightarrow> bool" where
  "ipv6MatchesPrefix address network prefixLen =
     prefix_loop (ipv6ToBytes address) (ipv6ToBytes network) 0 prefixLen"

fun check_ranges6 :: "string \<Rightarrow> Ipv6Range list \<Rightarrow> IpCheckResult" where
  "check_ranges6 expanded [] = NotBlocked"
| "check_ranges6 expanded (r # rs) =
     (if ipv6MatchesPrefix expanded (expandIpv6 (v6_address r)) (v6_prefixLen r)
      then BlockedBy (v6_reason r) else check_ranges6 expanded rs)"

definition checkIpv6 :: "string \<Rightarrow> IpCheckResult" where
  "checkIpv6 address = check_ranges6 (expandIpv6 (to_lower address)) BLOCKED_IPV6_RANGES"

section \<open>Public API\<close>

definition checkIp :: "string \<Rightarrow> IpCheckResult" where
  "checkIp address =
     (let normalized = normalizeIpv4Mapped address
      in if isIpv4 normalized then checkIpv4 normalized else checkIpv6 normalized)"

definition isLiteralIp :: "string \<Rightarrow> bool" where
  "isLiteralIp host = (isIpv4 host \<or> isIpv6Address host)"


section \<open>The address classes of a dotted quad\<close>

text \<open>The text of an address, the range of its numbers, and the table of the reserved blocks.\<close>

definition dotted :: "int \<Rightarrow> int \<Rightarrow> int \<Rightarrow> int \<Rightarrow> string" where
  "dotted a b c d = join_with ''.'' (map string_of_int [a, b, c, d])"

definition octet :: "int \<Rightarrow> bool" where
  "octet a = (0 \<le> a \<and> a \<le> 255)"

lemma string_of_octet:
  assumes "octet a"
  shows "list_all is_digit (string_of_int a)" "length (string_of_int a) \<le> 3" "digits_val (string_of_int a) = a"
  using assms by (simp_all add: octet_def string_of_int_def string_of_nonneg_digits string_of_nonneg_length3 digits_val_string_of_nonneg)

lemma octet_text_string: "octet a \<Longrightarrow> octet_text (string_of_int a)"
  by (simp add: octet_text_def string_of_octet)

lemma match_ipv4_dotted:
  assumes "octet a" "octet b" "octet c" "octet d"
  shows "match_ipv4 (dotted a b c d) = Some (string_of_int a, string_of_int b, string_of_int c, string_of_int d)"
proof -
  have t: "octet_text (string_of_int a)" "octet_text (string_of_int b)" "octet_text (string_of_int c)" "octet_text (string_of_int d)"
    using assms by (simp_all add: octet_text_string)
  have "CHR ''.'' \<notin> set w" if "octet_text w" for w
    using that by (auto simp: octet_text_def list_all_iff dest: is_digit_neq)
  with t have "split_on CHR ''.'' (dotted a b c d) = [string_of_int a, string_of_int b, string_of_int c, string_of_int d]"
    by (simp add: dotted_def split_on_append split_on_no_sep)
  with t show ?thesis by (simp add: match_ipv4_def)
qed


lemma to_uint32_octet: "octet a \<Longrightarrow> to_uint32 (js_Number (string_of_int a)) = word_of_int a"
  by (auto simp: js_Number_digits string_of_octet to_uint32_def octet_def)

lemma octets_word:
  assumes "octet a" "octet b" "octet c" "octet d"
  shows "push_bit 24 (word_of_int a) OR push_bit 16 (word_of_int b) OR push_bit 8 (word_of_int c) OR word_of_int d
    = (word_of_int (a * 16777216 + b * 65536 + c * 256 + d) :: 32 word)"
proof -
  have disj: "push_bit n (word_of_int x) OR word_of_int y = (word_of_int (x * 2 ^ n + y) :: 32 word)"
    if "0 \<le> y" "y < 2 ^ n" for x y :: int and n
  proof -
    have "push_bit n x AND y = 0"
    proof (rule bit_eqI)
      fix i
      have "\<not> bit y i" if "n \<le> i"
      proof -
        have "y div 2 ^ i = 0" using \<open>0 \<le> y\<close> \<open>y < 2 ^ n\<close> that
          by (metis div_pos_pos_trivial less_le_trans one_less_numeral_iff power_increasing_iff semiring_norm(76))
        then show ?thesis by (simp add: bit_iff_odd)
      qed
      then show "bit (push_bit n x AND y) i = bit (0 :: int) i"
        by (auto simp: bit_and_iff bit_push_bit_iff)
    qed
    then have "push_bit n x OR y = push_bit n x + y"
      by (simp add: disjunctive_add_eq_or)
    then have "of_int (push_bit n x OR y) = (of_int (x * 2 ^ n + y) :: 32 word)"
      by (simp add: push_bit_eq_mult)
    then show ?thesis
      by (simp add: of_int_or_eq flip: push_bit_of_int)
  qed
  let ?w = "\<lambda>k. word_of_int k :: 32 word"
  have "push_bit 8 (?w c) OR ?w d = ?w (c * 2 ^ 8 + d)"
    using assms by (intro disj) (simp_all add: octet_def)
  moreover have "push_bit 16 (?w b) OR ?w (c * 2 ^ 8 + d) = ?w (b * 2 ^ 16 + (c * 2 ^ 8 + d))"
    using assms by (intro disj) (simp_all add: octet_def)
  moreover have "push_bit 24 (?w a) OR ?w (b * 2 ^ 16 + (c * 2 ^ 8 + d))
      = ?w (a * 2 ^ 24 + (b * 2 ^ 16 + (c * 2 ^ 8 + d)))"
    using assms by (intro disj) (simp_all add: octet_def)
  moreover have "a * 2 ^ 24 + (b * 2 ^ 16 + (c * 2 ^ 8 + d)) = a * 16777216 + b * 65536 + c * 256 + d"
    by simp
  ultimately show ?thesis by metis
qed

lemma uint_octets:
  assumes "octet a" "octet b" "octet c" "octet d"
  shows "uint (ipv4ToNumber (dotted a b c d)) = a * 16777216 + b * 65536 + c * 256 + d"
proof -
  have "ipv4ToNumber (dotted a b c d) = word_of_int (a * 16777216 + b * 65536 + c * 256 + d)"
    using assms by (simp add: ipv4ToNumber_def match_ipv4_dotted to_uint32_octet octets_word)
  then have "uint (ipv4ToNumber (dotted a b c d)) = (a * 16777216 + b * 65536 + c * 256 + d) mod 2 ^ 32"
    by (simp only: uint_word_of_int len_bit0 len_num1 len_num0) simp
  then show ?thesis
    using assms by (simp add: octet_def)
qed


lemma uint_drop_bit32: "uint (drop_bit n z) = uint z div 2 ^ n" for z :: "32 word"
proof -
  have "int (unat (drop_bit n z)) = drop_bit n (int (unat z))"
    unfolding unat_drop_bit_eq by (simp only: drop_bit_of_nat)
  also have "\<dots> = uint z div 2 ^ n"
    by (simp add: drop_bit_eq_div)
  finally show ?thesis by simp
qed

lemma high_bits_test:
  fixes x :: "32 word"
  assumes "n < 32"
  shows "x AND NOT (mask n) = push_bit n (drop_bit n y) \<longleftrightarrow> uint x div 2 ^ n = uint y div 2 ^ n"
proof -
  have "x AND NOT (mask n) = push_bit n (drop_bit n x)"
    by (rule bit_eqI) (auto simp: bit_simps not_less)
  moreover have "push_bit n (drop_bit n x) = push_bit n (drop_bit n y) \<longleftrightarrow> drop_bit n x = drop_bit n y"
  proof
    assume "push_bit n (drop_bit n x) = push_bit n (drop_bit n y)"
    then have "bit (push_bit n (drop_bit n x)) (n + i) = bit (push_bit n (drop_bit n y)) (n + i)" for i by simp
    then show "drop_bit n x = drop_bit n y"
      by (intro bit_eqI) (force simp: bit_simps dest: bit_imp_le_length)
  qed simp
  moreover have "drop_bit n x = drop_bit n y \<longleftrightarrow> uint x div 2 ^ n = uint y div 2 ^ n"
    by (simp add: word_uint_eq_iff uint_drop_bit32 del: drop_bit_word_beyond)
  ultimately show ?thesis by simp
qed

lemma high_masks:
  "NOT (mask 24) = (0xFF000000 :: 32 word)" "NOT (mask 20) = (0xFFF00000 :: 32 word)"
  "NOT (mask 16) = (0xFFFF0000 :: 32 word)" "NOT (mask 22) = (0xFFC00000 :: 32 word)"
  "NOT (mask 28) = (0xF0000000 :: 32 word)"
  by code_simp+

lemma range_tests:
  fixes x :: "32 word"
  shows "x AND 0xFF000000 = 0xA000000 \<longleftrightarrow> uint x div 16777216 = 10"
    "x AND 0xFFF00000 = 0xAC100000 \<longleftrightarrow> uint x div 1048576 = 2753"
    "x AND 0xFFFF0000 = 0xC0A80000 \<longleftrightarrow> uint x div 65536 = 49320"
    "x AND 0xFF000000 = 0x7F000000 \<longleftrightarrow> uint x div 16777216 = 127"
    "x AND 0xFFFF0000 = 0xA9FE0000 \<longleftrightarrow> uint x div 65536 = 43518"
    "x AND 0xFF000000 = 0 \<longleftrightarrow> uint x div 16777216 = 0"
    "x AND 0xFFC00000 = 0x64400000 \<longleftrightarrow> uint x div 4194304 = 401"
    "x AND 0xF0000000 = 0xE0000000 \<longleftrightarrow> uint x div 268435456 = 14"
  using high_bits_test [of 24 x "0xA000000"] high_bits_test [of 20 x "0xAC100000"]
    high_bits_test [of 16 x "0xC0A80000"] high_bits_test [of 24 x "0x7F000000"]
    high_bits_test [of 16 x "0xA9FE0000"] high_bits_test [of 24 x "0"]
    high_bits_test [of 22 x "0x64400000"] high_bits_test [of 28 x "0xE0000000"]
  by (simp_all add: high_masks)

lemma broadcast_test: "(x :: 32 word) AND 0xFFFFFFFF = 0xFFFFFFFF \<longleftrightarrow> uint x = 4294967295"
proof -
  have "(0xFFFFFFFF :: 32 word) = - 1" by code_simp
  then have "x AND 0xFFFFFFFF = x" by (metis and.right_neutral)
  moreover have "uint (0xFFFFFFFF :: 32 word) = 4294967295" by code_simp
  ultimately show ?thesis by (metis word_uint_eq_iff)
qed

lemma BLOCKED_IPV4_RANGES_eval:
  "BLOCKED_IPV4_RANGES =
    [\<lparr>v4_network = 0x0A000000, v4_mask = 0xFF000000, v4_reason = Private_ipv4\<rparr>,
     \<lparr>v4_network = 0xAC100000, v4_mask = 0xFFF00000, v4_reason = Private_ipv4\<rparr>,
     \<lparr>v4_network = 0xC0A80000, v4_mask = 0xFFFF0000, v4_reason = Private_ipv4\<rparr>,
     \<lparr>v4_network = 0x7F000000, v4_mask = 0xFF000000, v4_reason = Loopback\<rparr>,
     \<lparr>v4_network = 0xA9FE0000, v4_mask = 0xFFFF0000, v4_reason = Link_local\<rparr>,
     \<lparr>v4_network = 0, v4_mask = 0xFF000000, v4_reason = Unspecified\<rparr>,
     \<lparr>v4_network = 0x64400000, v4_mask = 0xFFC00000, v4_reason = Cgnat\<rparr>,
     \<lparr>v4_network = 0xE0000000, v4_mask = 0xF0000000, v4_reason = Multicast\<rparr>,
     \<lparr>v4_network = 0xFFFFFFFF, v4_mask = 0xFFFFFFFF, v4_reason = Broadcast\<rparr>]"
  by code_simp

fun ipv4_class :: "int \<Rightarrow> int \<Rightarrow> int \<Rightarrow> int \<Rightarrow> IpCheckResult" where
  "ipv4_class a b c d =
     (if a = 10 then BlockedBy Private_ipv4
      else if a = 172 \<and> 16 \<le> b \<and> b \<le> 31 then BlockedBy Private_ipv4
      else if a = 192 \<and> b = 168 then BlockedBy Private_ipv4
      else if a = 127 then BlockedBy Loopback
      else if a = 169 \<and> b = 254 then BlockedBy Link_local
      else if a = 0 then BlockedBy Unspecified
      else if a = 100 \<and> 64 \<le> b \<and> b \<le> 127 then BlockedBy Cgnat
      else if 224 \<le> a \<and> a \<le> 239 then BlockedBy Multicast
      else if a = 255 \<and> b = 255 \<and> c = 255 \<and> d = 255 then BlockedBy Broadcast
      else NotBlocked)"

lemma div_iff_range:
  fixes n k q :: int
  assumes "0 < k"
  shows "n div k = q \<longleftrightarrow> k * q \<le> n \<and> n < k * q + k"
proof
  assume "n div k = q"
  then show "k * q \<le> n \<and> n < k * q + k"
    using mult_div_mod_eq [of k n] pos_mod_bound [OF assms, of n] pos_mod_sign [OF assms, of n] by auto
next
  assume "k * q \<le> n \<and> n < k * q + k"
  then show "n div k = q"
    using int_div_pos_eq [of n k q "n - k * q"] by auto
qed

lemma byte_pair_range:
  fixes a b k lo hi :: int
  assumes "0 \<le> b" "b \<le> 255" "0 \<le> lo" "hi \<le> 255"
  shows "k * 256 + lo \<le> a * 256 + b \<and> a * 256 + b \<le> k * 256 + hi
    \<longleftrightarrow> a = k \<and> lo \<le> b \<and> b \<le> hi"
proof
  assume r: "k * 256 + lo \<le> a * 256 + b \<and> a * 256 + b \<le> k * 256 + hi"
  then have "\<not> a < k" and "\<not> k < a" using assms by linarith+
  with r show "a = k \<and> lo \<le> b \<and> b \<le> hi" by simp
qed auto

lemma checkIpv4_dotted:
  assumes "octet a" "octet b" "octet c" "octet d"
  shows "checkIpv4 (dotted a b c d) = ipv4_class a b c d"
proof -
  let ?n = "a * 16777216 + b * 65536 + c * 256 + d"
  have o: "0 \<le> a" "a \<le> 255" "0 \<le> b" "b \<le> 255" "0 \<le> c" "c \<le> 255" "0 \<le> d" "d \<le> 255"
    using assms by (auto simp: octet_def)
  note range = byte_pair_range [OF o(3,4), of _ _ _ a]
  have "?n div 16777216 = k \<longleftrightarrow> a = k" for k
    unfolding div_iff_range [of 16777216, simplified] using o by auto
  moreover have "?n div 65536 = 49320 \<longleftrightarrow> a = 192 \<and> b = 168"
    unfolding div_iff_range [of 65536, simplified] using o range [of 168 168 192] by auto
  moreover have "?n div 65536 = 43518 \<longleftrightarrow> a = 169 \<and> b = 254"
    unfolding div_iff_range [of 65536, simplified] using o range [of 254 254 169] by auto
  moreover have "?n div 1048576 = 2753 \<longleftrightarrow> a = 172 \<and> 16 \<le> b \<and> b \<le> 31"
    unfolding div_iff_range [of 1048576, simplified] using o range [of 16 31 172] by auto
  moreover have "?n div 4194304 = 401 \<longleftrightarrow> a = 100 \<and> 64 \<le> b \<and> b \<le> 127"
    unfolding div_iff_range [of 4194304, simplified] using o range [of 64 127 100] by auto
  moreover have "?n div 268435456 = 14 \<longleftrightarrow> 224 \<le> a \<and> a \<le> 239"
    unfolding div_iff_range [of 268435456, simplified] using o by auto
  moreover have "?n = 4294967295 \<longleftrightarrow> a = 255 \<and> b = 255 \<and> c = 255 \<and> d = 255"
  proof
    assume e: "?n = 4294967295"
    from e o have "\<not> a < 255" by linarith
    with o have a: "a = 255" by simp
    with e o have "\<not> b < 255" by linarith
    with o have b: "b = 255" by simp
    with a e o have "\<not> c < 255" by linarith
    with o have "c = 255" by simp
    with a b e show "a = 255 \<and> b = 255 \<and> c = 255 \<and> d = 255" by simp
  qed simp
  ultimately show ?thesis
    by (simp only: checkIpv4_def BLOCKED_IPV4_RANGES_eval check_ranges4.simps Ipv4Range.simps
        range_tests broadcast_test uint_octets [OF assms] ipv4_class.simps)
qed

lemma dotted_hd: "octet a \<Longrightarrow> \<exists>x xs. dotted a b c d = x # xs \<and> is_digit x"
proof (cases "string_of_int a")
  case (Cons x xs)
  assume "octet a"
  with string_of_octet(1) [of a] Cons have "is_digit x" by simp
  moreover have "dotted a b c d = x # xs @ ''.'' @ join_with ''.'' (map string_of_int [b, c, d])"
    using Cons by (simp add: dotted_def)
  ultimately show ?thesis by blast
qed simp

lemma normalize_digit_first: "is_digit x \<Longrightarrow> normalizeIpv4Mapped (x # xs) = x # xs"
  using is_digit_neq [of x] by (auto simp: normalizeIpv4Mapped_def to_lower_def lower_digit)

lemma isIpv4_hd: "isIpv4 s \<Longrightarrow> \<exists>x xs. s = x # xs \<and> is_digit x"
proof -
  assume "isIpv4 s"
  then obtain a ws where "split_on CHR ''.'' s = a # ws" "octet_text a"
    by (auto simp: isIpv4_def match_ipv4_def split: list.splits if_splits)
  then show ?thesis by (cases s) (auto simp: octet_text_def split: if_splits list.splits)
qed

lemma normalize_isIpv4: "isIpv4 s \<Longrightarrow> normalizeIpv4Mapped s = s"
  using isIpv4_hd [of s] by (auto simp: normalize_digit_first)

lemma checkIp_of_dotted:
  assumes "octet a" "octet b" "octet c" "octet d"
  shows "checkIp (dotted a b c d) = ipv4_class a b c d"
proof -
  have "normalizeIpv4Mapped (dotted a b c d) = dotted a b c d"
    using dotted_hd [OF assms(1), of b c d] by (auto simp: normalize_digit_first)
  moreover have "isIpv4 (dotted a b c d)"
    using assms by (simp add: isIpv4_def match_ipv4_dotted)
  ultimately show ?thesis
    using assms by (simp add: checkIp_def checkIpv4_dotted)
qed

section \<open>What the check decides\<close>

text \<open>C2: For every dotted quad with octets from 0 to 255 the check of an IP literal returns exactly the
  class of the address: the RFC 1918 blocks, loopback, link-local, the zero network, CGNAT, multicast and
  the broadcast address are blocked with their reason, and every other address passes.\<close>

lemma checkIp_dotted:
  assumes "octet a" "octet b" "octet c" "octet d"
  shows "checkIp (dotted a b c d) = ipv4_class a b c d"
  by (rule checkIp_of_dotted [OF assms])

lemma checkIp_dotted_witness:
  "checkIp (dotted 169 254 169 254) = BlockedBy Link_local \<and> checkIp (dotted 172 32 0 1) = NotBlocked"
  using checkIp_dotted [of 169 254 169 254] checkIp_dotted [of 172 32 0 1] by (simp add: octet_def)

text \<open>An IPv4-mapped IPv6 literal in its dotted form, the prefix in any case, gets the verdict of the
  IPv4 address it embeds.\<close>

lemma checkIp_mapped:
  assumes "isIpv4 s" and "to_lower p = ''::ffff:''"
  shows "checkIp (p @ s) = checkIp s"
proof -
  have "length p = 7" using arg_cong [OF assms(2), of length] by simp
  with assms have "normalizeIpv4Mapped (p @ s) = s"
    by (simp add: normalizeIpv4Mapped_def)
  with assms show ?thesis by (simp add: checkIp_def normalize_isIpv4)
qed

lemma checkIp_mapped_witness: "checkIp (''::FFFF:'' @ ''10.1.2.3'') = BlockedBy Private_ipv4"
proof -
  have "isIpv4 ''10.1.2.3''" and "to_lower ''::FFFF:'' = ''::ffff:''" by code_simp+
  from checkIp_mapped [OF this] have "checkIp (''::FFFF:'' @ ''10.1.2.3'') = checkIp ''10.1.2.3''" .
  also have "\<dots> = BlockedBy Private_ipv4" by code_simp
  finally show ?thesis .
qed

text \<open>The mapped form is recognised in its dotted spelling only: the hexadecimal spelling of a mapped
  loopback address, the one a URL parser produces, passes the check that blocks the two other spellings.\<close>

lemma hex_mapped_not_blocked: "checkIp ''::ffff:7f00:1'' = NotBlocked \<and> checkIp ''127.0.0.1'' = BlockedBy Loopback \<and> checkIp ''::ffff:127.0.0.1'' = BlockedBy Loopback"
  by code_simp
end
