(* ===== verification/Ipv6Check.thy ===== *)
theory Ipv6Check
  imports IpRange
begin

text \<open>
  The IPv6 side of packages/ssrf-guard/src/ip-range-checker.ts: what \<open>checkIpv6\<close> decides on an
  address written in full, that is eight groups of one to four hexadecimal digits. The lemmas follow
  the code: the groups survive lowering and padding, each gives two bytes, and the prefix loop compares
  the bytes with the four blocked networks.
\<close>

unbundle bit_operations_syntax

section \<open>Groups of hexadecimal digits\<close>

definition hex_group :: "string \<Rightarrow> bool" where
  "hex_group g = (g \<noteq> [] \<and> length g \<le> 4 \<and> list_all (radix_digit 16) g)"

lemma byte_tests:
  "list_all (\<lambda>b. ((word_of_int b :: 32 word) AND 0xFE = 0xFC) = (b div 2 = 126)) [0..255]"
  "list_all (\<lambda>b. ((word_of_int b :: 32 word) AND 0xC0 = 0x80) = (b div 64 = 2)) [0..255]"
  by code_simp+

lemma radix_digit_cases: "radix_digit 16 c \<longleftrightarrow>
   (let n = char_code c in (48 \<le> n \<and> n \<le> 57) \<or> (97 \<le> n \<and> n \<le> 102) \<or> (65 \<le> n \<and> n \<le> 70))"
  by (auto simp: radix_digit_def hex_val_def Let_def)

lemma radix_digit_neq:
  "radix_digit 16 c \<Longrightarrow> c \<noteq> CHR '':'' \<and> c \<noteq> CHR ''-'' \<and> c \<noteq> CHR ''+'' \<and> c \<noteq> CHR ''x'' \<and> c \<noteq> CHR ''X'' \<and> c \<noteq> CHR ''['' \<and> c \<noteq> CHR ''.''"
  by (auto simp: radix_digit_cases Let_def)

lemma js_space_radix: "radix_digit 16 c \<Longrightarrow> \<not> js_space c"
  by (auto simp: radix_digit_cases js_space_def Let_def)

lemma hex_val_lower: "radix_digit 16 c \<Longrightarrow> hex_val (lower_char c) = hex_val c"
proof -
  have "list_all (\<lambda>n. (let c = char_of n :: char in radix_digit 16 c \<longrightarrow> hex_val (lower_char c) = hex_val c)) [0..255::int]"
    by code_simp
  moreover have "char_code c mod 256 = char_code c" by (rule of_char_mod_256)
  then have "char_code c \<in> set [0..255]" using pos_mod_bound [of 256 "char_code c"] pos_mod_sign [of 256 "char_code c"] by simp
  ultimately show "radix_digit 16 c \<Longrightarrow> ?thesis" by (auto simp: list_all_iff Let_def dest!: bspec [of _ _ "char_code c"])
qed

lemma radix_val_Cons0: "radix_val 16 (CHR ''0'' # g) = radix_val 16 g"
  by (simp add: radix_val_def hex_val_def)

lemma radix_val_pad: "radix_val 16 (pad_start n CHR ''0'' g) = radix_val 16 g"
proof -
  have "radix_val 16 (replicate k CHR ''0'' @ g) = radix_val 16 g" for k
    by (induction k) (simp_all add: radix_val_Cons0)
  then show ?thesis by (simp add: pad_start_def)
qed

lemma hex_group_pad: "hex_group g \<Longrightarrow> hex_group (pad_start 4 CHR ''0'' g)"
  by (auto simp: hex_group_def pad_start_def list_all_iff radix_digit_cases Let_def)

lemma hex_group_lower: "hex_group g \<Longrightarrow> hex_group (to_lower g) \<and> radix_val 16 (to_lower g) = radix_val 16 g"
proof -
  assume g: "hex_group g"
  then have "list_all (radix_digit 16) g" by (simp add: hex_group_def)
  then have "radix_val 16 (to_lower g) = radix_val 16 g \<and> list_all (radix_digit 16) (to_lower g)"
    unfolding radix_val_def to_lower_def
    by (induction g rule: rev_induct) (auto simp: hex_val_lower radix_digit_def)
  with g show ?thesis by (auto simp: hex_group_def to_lower_def)
qed

lemma parseInt16_hex: "hex_group g \<Longrightarrow> parseInt16 g = Some (radix_val 16 g)"
proof -
  assume g: "hex_group g"
  then obtain c r where c: "g = c # r" "radix_digit 16 c" by (cases g) (auto simp: hex_group_def)
  have "signed_rest g = (False, g)" "dropWhile js_space g = g"
    using c radix_digit_neq [of c] js_space_radix [of c] by (auto simp: signed_rest_def)
  moreover have "to_lower (take 2 g) \<noteq> ''0x''"
  proof
    assume "to_lower (take 2 g) = ''0x''"
    moreover have "hex_group (to_lower g)" using g hex_group_lower by blast
    ultimately have "radix_digit 16 CHR ''x''"
      by (cases g; cases "tl g") (auto simp: to_lower_def hex_group_def)
    then show False using radix_digit_neq by blast
  qed
  moreover have "takeWhile (radix_digit 16) g = g"
    using g takeWhile_all [of "radix_digit 16" g] by (simp only: hex_group_def)
  ultimately show ?thesis
    using c(1) by (simp only: parseInt16_def Let_def split if_False list.distinct refl)
qed

lemma radix_val_bound: "list_all (radix_digit 16) g \<Longrightarrow> 0 \<le> radix_val 16 g \<and> radix_val 16 g < 16 ^ length g"
proof (induction g rule: rev_induct)
  case Nil
  then show ?case by (simp add: radix_val_def)
next
  case (snoc c g)
  then obtain d where "hex_val c = Some d" "d < 16" "0 \<le> d"
    by (auto simp: radix_digit_def hex_val_def Let_def split: if_splits)
  with snoc show ?case by (simp add: radix_val_def)
qed

lemma hex_group_bound: "hex_group g \<Longrightarrow> 0 \<le> radix_val 16 g \<and> radix_val 16 g < 65536"
proof -
  assume g: "hex_group g"
  then have "radix_val 16 g < 16 ^ length g" "0 \<le> radix_val 16 g" "(16 :: int) ^ length g \<le> 16 ^ 4"
    using radix_val_bound [of g] power_increasing [of "length g" 4 "16 :: int"] by (auto simp: hex_group_def)
  then show ?thesis by simp
qed

lemma group_bytes_hex:
  assumes "hex_group g"
  shows "group_bytes g = [word_of_int (radix_val 16 g div 256), word_of_int (radix_val 16 g mod 256)]"
proof -
  let ?v = "radix_val 16 g"
  have b: "0 \<le> ?v" "?v < 65536" using hex_group_bound [OF assms] by auto
  have m: "(0xFF :: 32 word) = mask 8" by code_simp
  have lo: "(word_of_int ?v :: 32 word) AND 0xFF = word_of_int (?v mod 256)"
    unfolding m and_mask_wi by (simp add: take_bit_eq_mod)
  have "uint (drop_bit 8 (word_of_int ?v :: 32 word)) = ?v div 256"
    unfolding uint_drop_bit32 using b by (simp add: uint_word_of_int)
  then have "drop_bit 8 (word_of_int ?v :: 32 word) = word_of_int (?v div 256)"
    by (metis word_of_int_uint)
  moreover have "(word_of_int (?v div 256) :: 32 word) AND 0xFF = word_of_int (?v div 256)"
    unfolding m and_mask_wi using b by (simp add: take_bit_eq_mod)
  ultimately show ?thesis using lo assms by (simp add: group_bytes_def parseInt16_hex)
qed

lemma cut_dcolon_word:
  "CHR '':'' \<notin> set w \<Longrightarrow> cut_at ''::'' (w @ s) = map_option (\<lambda>(a, b). (w @ a, b)) (cut_at ''::'' s)"
proof (induction w)
  case Nil
  then show ?case by (cases "cut_at ''::'' s") auto
next
  case (Cons x w)
  then show ?case by (cases "cut_at ''::'' s") (auto simp: starts_with_def)
qed

lemma hex_group_no_colon: "hex_group w \<Longrightarrow> CHR '':'' \<notin> set w"
  by (auto simp: hex_group_def list_all_iff dest: radix_digit_neq)

lemma cut_dcolon_groups:
  "hex_group w \<Longrightarrow> list_all hex_group ws \<Longrightarrow> cut_at ''::'' (join_with '':'' (w # ws)) = None"
proof (induction ws arbitrary: w)
  case Nil
  then show ?case using cut_dcolon_word [of w "[]"] hex_group_no_colon [of w] by simp
next
  case (Cons v ws)
  then have "cut_at ''::'' (join_with '':'' (v # ws)) = None" by simp
  moreover from Cons.prems obtain c r where v: "v = c # r" "c \<noteq> CHR '':''"
    by (cases v) (auto simp: hex_group_def dest: radix_digit_neq)
  then obtain r' where "join_with '':'' (v # ws) = c # r'"
    by (cases ws) auto
  ultimately show ?case
    using Cons.prems v cut_dcolon_word [of w "CHR '':'' # join_with '':'' (v # ws)"] hex_group_no_colon [of w]
    by (simp add: starts_with_def)
qed

lemma to_lower_join: "to_lower (join_with '':'' ws) = join_with '':'' (map to_lower ws)"
proof -
  have "lower_char CHR '':'' = CHR '':''" by (simp add: lower_char_def upper_code_def)
  then show ?thesis
    by (induction "'':''" ws rule: join_with.induct) (simp_all add: to_lower_def)
qed

lemma split_join_groups:
  assumes "\<forall>w \<in> set (w # ws). d \<notin> set w"
  shows "split_on d (join_with [d] (w # ws)) = w # ws"
  using assms by (induction ws arbitrary: w) (auto simp: split_on_append split_on_no_sep)

lemma ipv6_bytes_full:
  assumes "gs \<noteq> []" "list_all hex_group gs"
  shows "ipv6ToBytes (expandIpv6 (to_lower (join_with '':'' gs))) =
    concat (map (\<lambda>v. [word_of_int (v div 256), word_of_int (v mod 256)]) (map (radix_val 16) gs))"
proof -
  let ?ls = "map to_lower gs" and ?pad = "pad_start 4 CHR ''0''"
  have ls: "list_all hex_group ?ls" "list_all hex_group (map ?pad ?ls)"
    using assms by (auto simp: list_all_iff hex_group_lower hex_group_pad)
  from assms(1) obtain w ws where ws: "?ls = w # ws" by (cases gs) auto
  have sp: "split_on CHR '':'' (join_with '':'' vs) = vs" if "vs \<noteq> []" "list_all hex_group vs" for vs
    using that hex_group_no_colon split_join_groups [of "hd vs" "tl vs" "CHR '':''"]
    by (cases vs) (auto simp: list_all_iff)
  have "strip_brackets (join_with '':'' ?ls) = join_with '':'' ?ls"
  proof -
    from ls ws obtain c r where "w = c # r" "c \<noteq> CHR ''[''"
      by (cases w) (auto simp: hex_group_def dest: radix_digit_neq)
    then show ?thesis unfolding ws by (cases ws) (auto simp: strip_brackets_def starts_with_def)
  qed
  moreover have "cut_at ''::'' (join_with '':'' ?ls) = None"
    using ls ws cut_dcolon_groups [of w ws] by simp
  ultimately have "expandIpv6 (to_lower (join_with '':'' gs)) = join_with '':'' (map ?pad ?ls)"
    using assms ls sp [of ?ls] by (simp add: expandIpv6_def to_lower_join)
  then have "ipv6ToBytes (expandIpv6 (to_lower (join_with '':'' gs))) = concat (map group_bytes (map ?pad ?ls))"
    using assms ls sp [of "map ?pad ?ls"] by (simp add: ipv6ToBytes_def)
  also have "map group_bytes (map ?pad ?ls)
      = map (\<lambda>v. [word_of_int (v div 256), word_of_int (v mod 256)]) (map (radix_val 16) gs)"
    using assms(2) by (auto simp: list_all_iff group_bytes_hex hex_group_pad radix_val_pad hex_group_lower)
  finally show ?thesis .
qed

fun ipv6_class :: "int list \<Rightarrow> IpCheckResult" where
  "ipv6_class vs =
     (if vs = [0, 0, 0, 0, 0, 0, 0, 1] then BlockedBy Loopback
      else if vs = [0, 0, 0, 0, 0, 0, 0, 0] then BlockedBy Unspecified
      else if hd vs div 512 = 126 then BlockedBy Private_ipv6
      else if hd vs div 64 = 1018 then BlockedBy Link_local
      else NotBlocked)"

lemma byte_word_eq:
  "0 \<le> x \<Longrightarrow> x < 256 \<Longrightarrow> 0 \<le> y \<Longrightarrow> y < 256 \<Longrightarrow> (word_of_int x = (word_of_int y :: 32 word)) \<longleftrightarrow> x = y"
  by (simp add: word_of_int_eq_iff take_bit_eq_mod)

lemma prefix_loop_bytes:
  "i \<le> 16 \<Longrightarrow> prefix_loop a b i (8 * int (16 - i)) \<longleftrightarrow> (\<forall>j. i \<le> j \<and> j < 16 \<longrightarrow> byte_at a j = byte_at b j)"
proof (induction "16 - i" arbitrary: i)
  case 0
  then show ?case by (subst prefix_loop.simps) auto
next
  case (Suc n)
  then have i: "n = 16 - Suc i" "Suc i \<le> 16" by auto
  have e: "8 * int (16 - i) - 8 = 8 * int (16 - Suc i)" "0 < 8 * int (16 - i)" "8 \<le> 8 * int (16 - i)"
    using i by auto
  have "prefix_loop a b i (8 * int (16 - i)) \<longleftrightarrow>
      byte_at a i = byte_at b i \<and> prefix_loop a b (Suc i) (8 * int (16 - Suc i))"
    using i e by (subst prefix_loop.simps) (simp only: if_True simp_thms Suc_le_eq, auto)
  also have "\<dots> \<longleftrightarrow> byte_at a i = byte_at b i \<and> (\<forall>j. Suc i \<le> j \<and> j < 16 \<longrightarrow> byte_at a j = byte_at b j)"
    by (simp only: Suc.hyps(1) [OF i])
  also have "\<dots> \<longleftrightarrow> (\<forall>j. i \<le> j \<and> j < 16 \<longrightarrow> byte_at a j = byte_at b j)"
    using i(2) by (metis Suc_le_eq le_eq_less_or_eq)
  finally show ?case .
qed

lemma prefix_loop_all:
  assumes "length a = 16" "length b = 16"
  shows "prefix_loop a b 0 128 \<longleftrightarrow> a = b"
  using prefix_loop_bytes [of 0 a b] assms by (auto simp: byte_at_def nth_equalityI)

lemma prefix_loop_7: "prefix_loop a b 0 7 \<longleftrightarrow> byte_at a 0 AND 0xFE = byte_at b 0 AND 0xFE"
  by (subst prefix_loop.simps, subst prefix_loop.simps) (simp add: Let_def push_bit_eq_mult)

lemma prefix_loop_10:
  "prefix_loop a b 0 10 \<longleftrightarrow> byte_at a 0 = byte_at b 0 \<and> byte_at a 1 AND 0xC0 = byte_at b 1 AND 0xC0"
  by (subst prefix_loop.simps, subst prefix_loop.simps, subst prefix_loop.simps)
    (simp add: Let_def push_bit_eq_mult)

lemma byte_test_at:
  assumes "0 \<le> b" "b < 256"
  shows "(word_of_int b :: 32 word) AND 0xFE = 0xFC \<longleftrightarrow> b div 2 = 126"
    and "(word_of_int b :: 32 word) AND 0xC0 = 0x80 \<longleftrightarrow> b div 64 = 2"
  using byte_tests assms by (auto simp only: list_all_iff atLeastAtMost_iff set_upto, fastforce+)

definition word_pair :: "int \<Rightarrow> 32 word list" where
  "word_pair v = [word_of_int (v div 256), word_of_int (v mod 256)]"

lemma word_pair_eq:
  assumes "0 \<le> v" "v < 65536" "0 \<le> u" "u < 65536"
  shows "word_pair v = word_pair u \<longleftrightarrow> v = u"
proof -
  have "word_pair v = word_pair u \<longleftrightarrow> v div 256 = u div 256 \<and> v mod 256 = u mod 256"
  proof -
    have "v div 256 < 256" "u div 256 < 256" using assms by linarith+
    then show ?thesis using assms by (simp add: word_pair_def byte_word_eq)
  qed
  then show ?thesis by (metis div_mult_mod_eq)
qed

lemma concat_word_pair_eq:
  assumes "length vs = length us" "list_all (\<lambda>v. 0 \<le> v \<and> v < 65536) vs" "list_all (\<lambda>v. 0 \<le> v \<and> v < 65536) us"
  shows "concat (map word_pair vs) = concat (map word_pair us) \<longleftrightarrow> vs = us"
  using assms
proof (induction vs us rule: list_induct2)
  case (Cons v vs u us)
  have "length (word_pair v) = length (word_pair u)" by (simp add: word_pair_def)
  with Cons show ?case by (simp add: word_pair_eq)
qed simp

lemma net_bytes:
  "ipv6ToBytes (expandIpv6 ''::1'') = concat (map word_pair [0, 0, 0, 0, 0, 0, 0, 1])"
  "ipv6ToBytes (expandIpv6 ''::'') = concat (map word_pair [0, 0, 0, 0, 0, 0, 0, 0])"
  "ipv6ToBytes (expandIpv6 ''fc00::'') = concat (map word_pair [0xFC00, 0, 0, 0, 0, 0, 0, 0])"
  "ipv6ToBytes (expandIpv6 ''fe80::'') = concat (map word_pair [0xFE80, 0, 0, 0, 0, 0, 0, 0])"
  by code_simp+

lemma top_bits:
  fixes v :: int
  shows "v div 256 div 2 = v div 512" "v div 256 = 254 \<and> v mod 256 div 64 = 2 \<longleftrightarrow> v div 64 = 1018"
proof -
  show "v div 256 div 2 = v div 512" by (simp add: zdiv_zmult2_eq)
  have "v div 64 = (v mod 256 + 64 * (4 * (v div 256))) div 64" by simp
  also have "\<dots> = 4 * (v div 256) + v mod 256 div 64" by (simp only: div_mult_self2)
  finally have "v div 64 = 4 * (v div 256) + v mod 256 div 64" .
  moreover have "0 \<le> v mod 256" "v mod 256 < 256" by simp_all
  then have "0 \<le> v mod 256 div 64" "v mod 256 div 64 < 4" by linarith+
  moreover have "a = 4 * b + c \<Longrightarrow> 0 \<le> c \<Longrightarrow> c < 4 \<Longrightarrow> b = 254 \<and> c = 2 \<longleftrightarrow> a = 1018" for a b c :: int
    by arith
  ultimately show "v div 256 = 254 \<and> v mod 256 div 64 = 2 \<longleftrightarrow> v div 64 = 1018" by blast
qed

lemma checkIpv6_full:
  assumes "length gs = 8" "list_all hex_group gs"
  shows "checkIpv6 (join_with '':'' gs) = ipv6_class (map (radix_val 16) gs)"
proof -
  let ?vs = "map (radix_val 16) gs"
  let ?e = "expandIpv6 (to_lower (join_with '':'' gs))"
  obtain g0 g1 g2 g3 g4 g5 g6 g7 where gs: "gs = [g0, g1, g2, g3, g4, g5, g6, g7]"
    using assms(1) by (auto simp: numeral_eq_Suc length_Suc_conv)
  have bnd: "list_all (\<lambda>v. 0 \<le> v \<and> v < 65536) ?vs"
    using assms(2) hex_group_bound by (auto simp: list_all_iff)
  have bytes: "ipv6ToBytes ?e = concat (map word_pair ?vs)"
    using ipv6_bytes_full [of gs] assms unfolding word_pair_def by force
  have len: "length (concat (map word_pair ws)) = 2 * length ws" for ws
    by (induction ws) (simp_all add: word_pair_def)
  have all: "ipv6MatchesPrefix ?e (expandIpv6 n) 128 \<longleftrightarrow> ?vs = us"
    if "ipv6ToBytes (expandIpv6 n) = concat (map word_pair us)" "length us = 8"
      "list_all (\<lambda>v. 0 \<le> v \<and> v < 65536) us" for n us
    using that assms bnd
    by (simp add: ipv6MatchesPrefix_def bytes prefix_loop_all len concat_word_pair_eq del: map_map)
  have b: "0 \<le> radix_val 16 g0 div 256" "radix_val 16 g0 div 256 < 256"
    "0 \<le> radix_val 16 g0 mod 256" "radix_val 16 g0 mod 256 < 256"
    using bnd by (auto simp: gs)
  have "(0xFC :: 32 word) AND 0xFE = 0xFC" "(0x80 :: 32 word) AND 0xC0 = 0x80" by code_simp+
  with b have "ipv6MatchesPrefix ?e (expandIpv6 ''fc00::'') 7 \<longleftrightarrow> hd ?vs div 512 = 126"
    "ipv6MatchesPrefix ?e (expandIpv6 ''fe80::'') 10 \<longleftrightarrow> hd ?vs div 64 = 1018"
    using byte_test_at [OF b(1,2)] byte_test_at [OF b(3,4)] byte_word_eq [of "radix_val 16 g0 div 256" 254]
    unfolding ipv6MatchesPrefix_def prefix_loop_7 prefix_loop_10 bytes net_bytes
    by (simp_all add: gs byte_at_def word_pair_def top_bits flip: top_bits(2))
  then show ?thesis
    by (simp add: checkIpv6_def BLOCKED_IPV6_RANGES_def all [OF net_bytes(1)] all [OF net_bytes(2)])
qed

lemma isIpv4_dot: "isIpv4 s \<Longrightarrow> CHR ''.'' \<in> set s"
  by (rule ccontr) (simp add: isIpv4_def match_ipv4_def split_on_no_sep)

lemma hex_group_no_dot: "hex_group w \<Longrightarrow> CHR ''.'' \<notin> set w"
  by (auto simp: hex_group_def list_all_iff dest: radix_digit_neq)

lemma join_no_dot: "list_all hex_group gs \<Longrightarrow> CHR ''.'' \<notin> set (join_with '':'' gs)"
proof (induction gs)
  case (Cons w ws)
  then show ?case by (cases ws) (simp_all add: hex_group_no_dot)
qed simp

text \<open>On an IPv6 literal written in full the check returns the class of its eight numbers: the loopback
  and the unspecified address, the unique-local block fc00::/7 and the link-local block fe80::/10 are blocked
  with their reason and every other address passes.\<close>

theorem checkIp_ipv6_full:
  assumes "length gs = 8" "list_all hex_group gs"
  shows "checkIp (join_with '':'' gs) = ipv6_class (map (radix_val 16) gs)"
proof -
  have "\<not> isIpv4 (join_with '':'' gs)" "\<not> isIpv4 (drop 7 (join_with '':'' gs))"
    using join_no_dot [OF assms(2)] isIpv4_dot in_set_dropD by metis+
  then show ?thesis
    by (simp add: checkIp_def normalizeIpv4Mapped_def checkIpv6_full [OF assms])
qed

lemma checkIp_ipv6_full_witness:
  "checkIp (join_with '':'' [''FE80'', ''0'', ''0'', ''0'', ''1'', ''02'', ''003'', ''0004'']) = BlockedBy Link_local"
proof -
  let ?gs = "[''FE80'', ''0'', ''0'', ''0'', ''1'', ''02'', ''003'', ''0004'']"
  have "list_all hex_group ?gs" by code_simp
  moreover have "ipv6_class (map (radix_val 16) ?gs) = BlockedBy Link_local" by code_simp
  ultimately show ?thesis using checkIp_ipv6_full [of ?gs] by simp
qed

end
