(* ===== verification/SsrfValidator.thy ===== *)
theory SsrfValidator
  imports IpRange CoreErrors
begin

text \<open>
  packages/ssrf-guard/src/ssrf-validator.ts and ssrf-types.ts: the verdict on a URL, from its
  scheme, its literal address or the addresses DNS returns. The resolver is a parameter over the
  world \<open>'w\<close>; each lookup settles after a number of milliseconds, and the race with the
  timeout timer is decided by that number. The metrics calls are recorded in order.
\<close>

section \<open>ssrf-types.ts\<close>

datatype SsrfValidationResult =
    SsrfAllowed (ssrf_pinnedIp: string) (ssrf_originalHost: string)
  | SsrfBlocked (ssrf_originalHost: string) (ssrf_reason: SsrfBlockReason)

datatype DnsFailPolicy = FailOpen | FailClosed

record SsrfConfig =
  allowPrivateIps :: bool
  dnsFailPolicy :: DnsFailPolicy
  dnsTimeoutMs :: int

definition DEFAULT_SSRF_CONFIG :: SsrfConfig where
  "DEFAULT_SSRF_CONFIG = \<lparr>allowPrivateIps = False, dnsFailPolicy = FailOpen, dnsTimeoutMs = 5000\<rparr>"

datatype SsrfCheckResult = CheckAllowed | CheckBlocked | CheckDnsFailed

datatype ssrf_metric =
    RecordCheck SsrfCheckResult "SsrfBlockReason option"
  | RecordDnsResolution rat

fun reason_text :: "SsrfBlockReason \<Rightarrow> string" where
  "reason_text Private_ipv4 = ''private_ipv4''"
| "reason_text Private_ipv6 = ''private_ipv6''"
| "reason_text Ipv4_mapped = ''ipv4_mapped''"
| "reason_text Loopback = ''loopback''"
| "reason_text Link_local = ''link_local''"
| "reason_text Cgnat = ''cgnat''"
| "reason_text Multicast = ''multicast''"
| "reason_text Broadcast = ''broadcast''"
| "reason_text Unspecified = ''unspecified''"
| "reason_text Scheme_disallowed = ''scheme_disallowed''"
| "reason_text Dns_failed = ''dns_failed''"
| "reason_text Dns_timeout = ''dns_timeout''"

section \<open>ssrf-validator.ts\<close>

text \<open>A lookup's outcome, the milliseconds it took, and the next world; \<open>rs_now\<close> is \<open>performance.now()\<close>.\<close>

record 'w DnsResolver =
  rs_resolve4 :: "string \<Rightarrow> 'w \<Rightarrow> (string list completion \<times> int) \<times> 'w"
  rs_resolve6 :: "string \<Rightarrow> 'w \<Rightarrow> (string list completion \<times> int) \<times> 'w"
  rs_now :: "'w \<Rightarrow> rat"

record SsrfError =
  se_message :: string
  se_cause :: "thrown option"

definition DnsTimeoutError :: js_error where
  "DnsTimeoutError = \<lparr>err_dom = False, err_name = ''DnsTimeoutError'',
     err_message = ''DNS resolution timed out'', err_code = None\<rparr>"

definition isTimeoutError :: "thrown \<Rightarrow> bool" where
  "isTimeoutError cause =
     (case cause of ThrownError e \<Rightarrow> err_name e = ''DnsTimeoutError'' | ThrownOther _ \<Rightarrow> False)"

text \<open>\<open>.catch(() => [])\<close> on each lookup.\<close>

fun lookup_or_empty :: "string list completion \<Rightarrow> string list" where
  "lookup_or_empty (Return ips) = ips"
| "lookup_or_empty (Throw _) = []"

text \<open>\<open>Promise.all\<close> settles with the slower lookup; the timer was armed first and wins a tie.\<close>

definition resolveWithTimeout ::
  "string \<Rightarrow> 'w DnsResolver \<Rightarrow> int \<Rightarrow> 'w \<Rightarrow> string list completion \<times> 'w" where
  "resolveWithTimeout hostname resolver timeoutMs w =
     (let ((a4, t4), w1) = rs_resolve4 resolver hostname w;
          ((a6, t6), w2) = rs_resolve6 resolver hostname w1
      in if timeoutMs \<le> max t4 t6 then (Throw (ThrownError DnsTimeoutError), w2)
         else (Return (lookup_or_empty a4 @ lookup_or_empty a6), w2))"

text \<open>The hostname without the brackets of an IPv6 literal.\<close>

definition bare_host :: "string \<Rightarrow> string" where
  "bare_host h =
     (let h1 = (if starts_with h ''['' then drop 1 h else h)
      in if ends_with h1 '']'' then butlast h1 else h1)"

type_synonym ssrf_outcome = "(SsrfError, SsrfValidationResult) result"

definition validateLiteralIp :: "string \<Rightarrow> SsrfConfig \<Rightarrow> ssrf_outcome \<times> ssrf_metric list" where
  "validateLiteralIp host config =
     (case checkIp host of
        BlockedBy reason \<Rightarrow>
          if allowPrivateIps config then (Ok (SsrfAllowed host host), [RecordCheck CheckAllowed None])
          else (Ok (SsrfBlocked host reason), [RecordCheck CheckBlocked (Some reason)])
      | NotBlocked \<Rightarrow> (Ok (SsrfAllowed host host), [RecordCheck CheckAllowed None]))"

text \<open>The loop over the resolved addresses: the reason of the first blocked one.\<close>

fun first_blocked :: "SsrfConfig \<Rightarrow> string list \<Rightarrow> SsrfBlockReason option" where
  "first_blocked config [] = None"
| "first_blocked config (ip # ips) =
     (case checkIp ip of
        BlockedBy reason \<Rightarrow> if allowPrivateIps config then first_blocked config ips else Some reason
      | NotBlocked \<Rightarrow> first_blocked config ips)"

definition validate_addresses :: "string \<Rightarrow> SsrfConfig \<Rightarrow> string list \<Rightarrow> ssrf_outcome \<times> ssrf_metric list" where
  "validate_addresses hostname config ips =
     (if ips = [] then
        (if dnsFailPolicy config = FailClosed
         then (Ok (SsrfBlocked hostname Dns_failed), [RecordCheck CheckBlocked (Some Dns_failed)])
         else (Err \<lparr>se_message = ''DNS resolution returned no addresses for '' @ hostname, se_cause = None\<rparr>,
               [RecordCheck CheckDnsFailed None]))
      else case first_blocked config ips of
        Some reason \<Rightarrow> (Ok (SsrfBlocked hostname reason), [RecordCheck CheckBlocked (Some reason)])
      | None \<Rightarrow>
          (let pinnedIp = hd ips
           in if pinnedIp = []
              then (Err \<lparr>se_message = ''No valid IPs after DNS resolution for '' @ hostname, se_cause = None\<rparr>, [])
              else (Ok (SsrfAllowed pinnedIp hostname), [RecordCheck CheckAllowed None])))"

definition validateViaDns ::
  "string \<Rightarrow> 'w DnsResolver \<Rightarrow> SsrfConfig \<Rightarrow> 'w \<Rightarrow> (ssrf_outcome \<times> ssrf_metric list) \<times> 'w" where
  "validateViaDns hostname resolver config w =
     (let startTime = rs_now resolver w;
          (resolved, w') = resolveWithTimeout hostname resolver (dnsTimeoutMs config) w;
          durationSec = (rs_now resolver w' - startTime) / 1000
      in case resolved of
           Throw cause \<Rightarrow>
             (if dnsFailPolicy config = FailOpen
              then ((Err \<lparr>se_message = ''DNS resolution failed for '' @ hostname, se_cause = Some cause\<rparr>,
                     [RecordDnsResolution durationSec, RecordCheck CheckDnsFailed None]), w')
              else (let reason = (if isTimeoutError cause then Dns_timeout else Dns_failed)
                    in ((Ok (SsrfBlocked hostname reason),
                         [RecordDnsResolution durationSec, RecordCheck CheckBlocked (Some reason)]), w')))
         | Return ips \<Rightarrow>
             (let (outcome, ms) = validate_addresses hostname config ips
              in ((outcome, RecordDnsResolution durationSec # ms), w')))"

definition validateUrl ::
  "url_obj \<Rightarrow> 'w DnsResolver \<Rightarrow> SsrfConfig \<Rightarrow> 'w \<Rightarrow> (ssrf_outcome \<times> ssrf_metric list) \<times> 'w" where
  "validateUrl url resolver config w =
     (let host = bare_host (u_hostname url)
      in if u_protocol url \<noteq> ''http:'' \<and> u_protocol url \<noteq> ''https:''
         then ((Ok (SsrfBlocked host Scheme_disallowed), [RecordCheck CheckBlocked (Some Scheme_disallowed)]), w)
         else if isLiteralIp host then (validateLiteralIp host config, w)
         else validateViaDns host resolver config w)"

section \<open>What an allowed verdict guarantees\<close>

lemma first_blocked_None:
  "first_blocked config ips = None \<longleftrightarrow> allowPrivateIps config \<or> (\<forall>ip \<in> set ips. checkIp ip = NotBlocked)"
  by (induction config ips rule: first_blocked.induct) (auto split: IpCheckResult.splits)

lemma first_blocked_Some:
  "first_blocked config ips = Some reason \<Longrightarrow> \<not> allowPrivateIps config \<and> (\<exists>ip \<in> set ips. checkIp ip = BlockedBy reason)"
  by (induction config ips rule: first_blocked.induct) (auto split: IpCheckResult.splits if_splits)

lemma validate_addresses_allowed:
  "fst (validate_addresses h config ips) = Ok (SsrfAllowed pinned orig) \<Longrightarrow>
    orig = h \<and> ips \<noteq> [] \<and> pinned = hd ips \<and> first_blocked config ips = None"
  by (auto simp: validate_addresses_def Let_def split: if_splits option.splits)

lemma validateLiteralIp_allowed:
  "fst (validateLiteralIp h config) = Ok (SsrfAllowed pinned orig) \<Longrightarrow>
    pinned = h \<and> orig = h \<and> (allowPrivateIps config \<or> checkIp h = NotBlocked)"
  by (auto simp: validateLiteralIp_def split: if_splits IpCheckResult.splits)

lemma validateUrl_allowed_hop:
  assumes "validateUrl url resolver config w = ((Ok (SsrfAllowed pinned orig), ms), w')"
    and "\<not> allowPrivateIps config"
  shows "checkIp pinned = NotBlocked \<and> u_protocol url \<in> {''http:'', ''https:''} \<and> orig = bare_host (u_hostname url)
    \<and> (isLiteralIp orig \<or>
       (\<exists>ips w2. resolveWithTimeout orig resolver (dnsTimeoutMs config) w = (Return ips, w2)
          \<and> pinned \<in> set ips \<and> (\<forall>ip \<in> set ips. checkIp ip = NotBlocked)))"
proof (cases "isLiteralIp (bare_host (u_hostname url))")
  case True
  with assms have "fst (validateLiteralIp (bare_host (u_hostname url)) config) = Ok (SsrfAllowed pinned orig)"
    and p: "u_protocol url \<in> {''http:'', ''https:''}"
    by (auto simp: validateUrl_def Let_def split: if_splits)
  then show ?thesis using True assms(2) validateLiteralIp_allowed by fastforce
next
  case False
  let ?h = "bare_host (u_hostname url)"
  obtain r w2 where r: "resolveWithTimeout ?h resolver (dnsTimeoutMs config) w = (r, w2)"
    by (cases "resolveWithTimeout ?h resolver (dnsTimeoutMs config) w")
  from False assms(1) have p: "u_protocol url \<in> {''http:'', ''https:''}"
    and v: "validateViaDns ?h resolver config w = ((Ok (SsrfAllowed pinned orig), ms), w')"
    by (auto simp: validateUrl_def Let_def split: if_splits)
  from v r obtain ips where ips: "r = Return ips"
    "fst (validate_addresses ?h config ips) = Ok (SsrfAllowed pinned orig)"
    by (auto simp: validateViaDns_def Let_def split: completion.splits if_splits prod.splits)
  from validate_addresses_allowed [OF ips(2)] assms(2)
  have "orig = ?h" "pinned \<in> set ips" "\<forall>ip \<in> set ips. checkIp ip = NotBlocked"
    by (auto simp: first_blocked_None)
  with p r ips(1) show ?thesis by auto
qed


text \<open>A resolver that answers at once with two public addresses.\<close>

definition two_addresses :: "nat DnsResolver" where
  "two_addresses = \<lparr>rs_resolve4 = (\<lambda>h w. ((Return [''93.184.216.34''], 1), w)),
     rs_resolve6 = (\<lambda>h w. ((Return [''2606:2800:220:1:248:1893:25c8:1946''], 2), w)), rs_now = (\<lambda>w. 0)\<rparr>"


lemma checkIp_empty: "checkIp '''' = BlockedBy Unspecified"
  by code_simp

lemma validate_addresses_closed:
  assumes "dnsFailPolicy config = FailClosed" "\<not> allowPrivateIps config"
  shows "\<exists>v. fst (validate_addresses h config ips) = Ok v"
proof (cases "first_blocked config ips")
  case None
  with assms(2) have "ips \<noteq> [] \<Longrightarrow> hd ips \<noteq> []"
    by (metis IpCheckResult.distinct(1) checkIp_empty first_blocked_None hd_in_set None)
  with None assms show ?thesis by (auto simp: validate_addresses_def Let_def)
qed (use assms in \<open>auto simp: validate_addresses_def\<close>)

text \<open>Under the closed policy with private addresses disallowed the validator always gives a verdict and
  never an error, and a resolution that times out blocks the URL.\<close>

theorem validateUrl_closed_policy:
  assumes "dnsFailPolicy config = FailClosed" "\<not> allowPrivateIps config"
  shows "\<exists>v ms w'. validateUrl url resolver config w = ((Ok v, ms), w')
    \<and> (\<forall>cause w2. \<not> isLiteralIp (bare_host (u_hostname url)) \<longrightarrow>
         resolveWithTimeout (bare_host (u_hostname url)) resolver (dnsTimeoutMs config) w = (Throw cause, w2) \<longrightarrow>
         (\<exists>reason. v = SsrfBlocked (bare_host (u_hostname url)) reason))"
proof -
  let ?h = "bare_host (u_hostname url)"
  obtain r w2 where r: "resolveWithTimeout ?h resolver (dnsTimeoutMs config) w = (r, w2)"
    by (cases "resolveWithTimeout ?h resolver (dnsTimeoutMs config) w")
  have lit: "\<exists>v. fst (validateLiteralIp ?h config) = Ok v"
    by (auto simp: validateLiteralIp_def split: IpCheckResult.splits)
  obtain v2 where "\<And>ips. r = Return ips \<Longrightarrow> fst (validate_addresses ?h config ips) = Ok v2"
    using validate_addresses_closed [OF assms] by (metis completion.inject(1))
  then show ?thesis
    using r lit assms(1)
    by (cases r) (auto simp: validateUrl_def validateViaDns_def Let_def prod_eq_iff split: prod.splits)
qed

definition slow_resolver :: "nat DnsResolver" where
  "slow_resolver = two_addresses\<lparr>rs_resolve4 := (\<lambda>h w. ((Return [''93.184.216.34''], 9000), w))\<rparr>"

lemma validateUrl_closed_policy_witness:
  "\<exists>reason ms w'. validateUrl (witness_url [] []) slow_resolver (DEFAULT_SSRF_CONFIG\<lparr>dnsFailPolicy := FailClosed\<rparr>) 0
     = ((Ok (SsrfBlocked ''example.com'' reason), ms), w')"
proof -
  let ?c = "DEFAULT_SSRF_CONFIG\<lparr>dnsFailPolicy := FailClosed\<rparr>"
  have h: "bare_host ''example.com'' = ''example.com''" "\<not> isLiteralIp ''example.com''" by code_simp+
  have "resolveWithTimeout ''example.com'' slow_resolver 5000 0 = (Throw (ThrownError DnsTimeoutError), 0)"
    by (simp add: resolveWithTimeout_def slow_resolver_def two_addresses_def)
  with validateUrl_closed_policy [of ?c "witness_url [] []" slow_resolver 0] h show ?thesis
    by (auto simp: DEFAULT_SSRF_CONFIG_def witness_url_def)
qed

end
