(* ===== verification/HardenedFetch.thy ===== *)
theory HardenedFetch
  imports SsrfValidator
begin

text \<open>
  packages/ssrf-guard/src/fetch-hardening.ts and hardened-fetch.ts: the redirect tracker, the body
  size limiter, the Content-Length check, and the fetch loop that validates every hop. The platform
  is the record \<open>fetch_env\<close>: the fetch function, the URL parser, the \<open>hostname\<close> setter, the
  cancelling of a response body and whether the timeout signal has fired in a world.
\<close>

section \<open>fetch-hardening.ts\<close>

record FetchHardeningConfig =
  fh_maxRedirects :: int
  fh_maxResponseBytes :: int
  fh_timeoutMs :: int

definition DEFAULT_FETCH_HARDENING_CONFIG :: FetchHardeningConfig where
  "DEFAULT_FETCH_HARDENING_CONFIG =
     \<lparr>fh_maxRedirects = 5, fh_maxResponseBytes = 10 * 1024 * 1024, fh_timeoutMs = 30000\<rparr>"

datatype FetchHardeningError =
    FhTooManyRedirects int int
  | FhBodyTooLarge jsnum int
  | FhTimeout int int
  | FhSsrfBlocked string string
  | FhFetchError string "thrown option"

record RedirectTracker =
  rt_count :: int
  rt_limit :: int

definition rt_canRedirect :: "RedirectTracker \<Rightarrow> bool" where
  "rt_canRedirect t = (rt_count t < rt_limit t)"

definition rt_follow :: "RedirectTracker \<Rightarrow> (FetchHardeningError, RedirectTracker) result" where
  "rt_follow t =
     (let nxt = rt_count t + 1
      in if rt_limit t < nxt then Err (FhTooManyRedirects nxt (rt_limit t))
         else Ok \<lparr>rt_count = nxt, rt_limit = rt_limit t\<rparr>)"

definition createRedirectTracker :: "int \<Rightarrow> RedirectTracker" where
  "createRedirectTracker maxRedirects = \<lparr>rt_count = 0, rt_limit = maxRedirects\<rparr>"

text \<open>The transform stream: the bytes so far, what was enqueued, and the error that ended it.\<close>

record body_limiter =
  bl_max :: int
  bl_bytesRead :: int
  bl_passed :: "nat list list"
  bl_error :: "FetchHardeningError option"

definition createBodySizeLimiter :: "int \<Rightarrow> body_limiter" where
  "createBodySizeLimiter maxBytes = \<lparr>bl_max = maxBytes, bl_bytesRead = 0, bl_passed = [], bl_error = None\<rparr>"

text \<open>\<open>transform(chunk, controller)\<close>; an errored stream takes no further chunk.\<close>

definition limiter_transform :: "body_limiter \<Rightarrow> nat list \<Rightarrow> body_limiter" where
  "limiter_transform b chunk =
     (if bl_error b \<noteq> None then b
      else let n = bl_bytesRead b + int (length chunk)
           in if bl_max b < n
              then b\<lparr>bl_bytesRead := n, bl_error := Some (FhBodyTooLarge (Num (of_int n)) (bl_max b))\<rparr>
              else b\<lparr>bl_bytesRead := n, bl_passed := bl_passed b @ [chunk]\<rparr>)"

definition hardened_checkContentLength :: "string option \<Rightarrow> int \<Rightarrow> (FetchHardeningError, unit) result" where
  "hardened_checkContentLength headerValue maxBytes =
     (case headerValue of
        None \<Rightarrow> Ok ()
      | Some v \<Rightarrow>
          (let n = js_Number v
           in if n = NaN then Ok ()
              else if jsnum_gt n (of_int maxBytes) then Err (FhBodyTooLarge n maxBytes)
              else Ok ()))"

definition isRedirect :: "int \<Rightarrow> bool" where
  "isRedirect status = (status = 301 \<or> status = 302 \<or> status = 303 \<or> status = 307 \<or> status = 308)"

section \<open>hardened-fetch.ts\<close>

text \<open>Header names are in lower case, the way \<open>Headers.get\<close> compares them.\<close>

record Response =
  rp_status :: int
  rp_headers :: "(string \<times> string) list"

record 'w fetch_env =
  env_resolver :: "'w DnsResolver"
  env_fetch :: "string \<Rightarrow> string \<Rightarrow> 'w \<Rightarrow> Response completion \<times> 'w"
  env_aborted :: "'w \<Rightarrow> bool"
  env_cancel :: "Response \<Rightarrow> 'w \<Rightarrow> unit completion \<times> 'w"
  env_parse :: url_parser
  env_parse_base :: "string \<Rightarrow> url_obj \<Rightarrow> url_obj option"
  env_set_hostname :: "url_obj \<Rightarrow> string \<Rightarrow> url_obj"

text \<open>What the fetch does, in order: metrics calls and requests (current URL, request URL, Host, pinned address).\<close>

datatype hf_event =
    HfMetric ssrf_metric
  | HfRequest (hf_url: url_obj) (hf_target: string) (hf_host: string) (hf_pinned: string)

record HardenedFetchResult =
  hr_response :: Response
  hr_pinnedIp :: string
  hr_originalHost :: string
  hr_redirectCount :: int

type_synonym 'w hf_outcome =
  "((FetchHardeningError, HardenedFetchResult) result completion \<times> hf_event list) \<times> 'w"

definition validateRedirectTarget ::
  "url_obj \<Rightarrow> 'w DnsResolver \<Rightarrow> SsrfConfig \<Rightarrow> 'w
     \<Rightarrow> ((FetchHardeningError, SsrfValidationResult) result \<times> ssrf_metric list) \<times> 'w" where
  "validateRedirectTarget redirectUrl resolver ssrfConfig w =
     (case validateUrl redirectUrl resolver ssrfConfig w of
        ((Err e, ms), w') \<Rightarrow> ((Err (FhFetchError (se_message e) (se_cause e)), ms), w')
      | ((Ok (SsrfBlocked _ reason), ms), w') \<Rightarrow>
          ((Err (FhSsrfBlocked (reason_text reason) (url_href redirectUrl)), ms), w')
      | ((Ok v, ms), w') \<Rightarrow> ((Ok v, ms), w'))"

definition is_abort_exception :: "thrown \<Rightarrow> bool" where
  "is_abort_exception cause =
     (case cause of ThrownError e \<Rightarrow> err_dom e \<and> err_name e = ''AbortError'' | ThrownOther _ \<Rightarrow> False)"

definition invalid_url_error :: thrown where
  "invalid_url_error = ThrownError
     \<lparr>err_dom = False, err_name = ''TypeError'', err_message = ''Invalid URL'', err_code = Some ''ERR_INVALID_URL''\<rparr>"

definition hf_timeout :: "FetchHardeningConfig \<Rightarrow> FetchHardeningError" where
  "hf_timeout config = FhTimeout (fh_timeoutMs config) (fh_timeoutMs config)"

text \<open>The pinned request of one hop: the current URL with its hostname replaced.\<close>

definition pinned_request ::
  "'w fetch_env \<Rightarrow> url_obj \<Rightarrow> string \<Rightarrow> string \<Rightarrow> 'w \<Rightarrow> (Response completion \<times> hf_event list) \<times> 'w" where
  "pinned_request env currentUrl pinned host w =
     (case env_parse env (url_href currentUrl) of
        None \<Rightarrow> ((Throw invalid_url_error, []), w)
      | Some fetchUrl \<Rightarrow>
          (let target = url_href (env_set_hostname env fetchUrl pinned);
               (res, w') = env_fetch env target host w
           in ((res, [HfRequest currentUrl target host pinned]), w')))"

datatype hf_next =
    HfDone "(FetchHardeningError, HardenedFetchResult) result completion"
  | HfContinue RedirectTracker url_obj string string

text \<open>The redirect branch: count the hop, cancel the body, resolve the location and validate it.\<close>

definition follow_redirect ::
  "'w fetch_env \<Rightarrow> SsrfConfig \<Rightarrow> FetchHardeningConfig \<Rightarrow> RedirectTracker \<Rightarrow> url_obj \<Rightarrow> Response \<Rightarrow> 'w
     \<Rightarrow> (hf_next \<times> hf_event list) \<times> 'w" where
  "follow_redirect env ssrfConfig config tracker currentUrl response w =
     (case rt_follow tracker of
        Err e \<Rightarrow> ((HfDone (Return (Err e)), []), w)
      | Ok tracker' \<Rightarrow>
          (case env_cancel env response w of
             (Throw t, w2) \<Rightarrow> ((HfDone (Throw t), []), w2)
           | (Return _, w2) \<Rightarrow>
               (case map_of (rp_headers response) ''location'' of
                  None \<Rightarrow> ((HfDone (Return (Err (FhFetchError ''Redirect with no Location header'' None))), []), w2)
                | Some location \<Rightarrow>
                    if location = []
                    then ((HfDone (Return (Err (FhFetchError ''Redirect with no Location header'' None))), []), w2)
                    else (case env_parse_base env location currentUrl of
                       None \<Rightarrow> ((HfDone (Throw invalid_url_error), []), w2)
                     | Some nextUrl \<Rightarrow>
                         (case validateRedirectTarget nextUrl (env_resolver env) ssrfConfig w2 of
                            ((Err e, ms), w3) \<Rightarrow> ((HfDone (Return (Err e)), map HfMetric ms), w3)
                          | ((Ok v, ms), w3) \<Rightarrow>
                              if env_aborted env w3
                              then ((HfDone (Return (Err (hf_timeout config))), map HfMetric ms), w3)
                              else (case v of
                                 SsrfBlocked _ _ \<Rightarrow>
                                   ((HfDone (Return (Err (FhSsrfBlocked ''unknown'' (url_href nextUrl)))),
                                     map HfMetric ms), w3)
                               | SsrfAllowed pinned' host' \<Rightarrow>
                                   ((HfContinue tracker' nextUrl pinned' host', map HfMetric ms), w3)))))))"

text \<open>One round of the \<open>for (;;)\<close> of \<open>executeHardenedFetch\<close>.\<close>

definition fetch_round ::
  "'w fetch_env \<Rightarrow> SsrfConfig \<Rightarrow> FetchHardeningConfig \<Rightarrow> RedirectTracker \<Rightarrow> url_obj \<Rightarrow> string \<Rightarrow> string \<Rightarrow> 'w
     \<Rightarrow> (hf_next \<times> hf_event list) \<times> 'w" where
  "fetch_round env ssrfConfig config tracker currentUrl pinned host w =
     (if env_aborted env w then ((HfDone (Return (Err (hf_timeout config))), []), w)
      else case pinned_request env currentUrl pinned host w of
        ((Throw cause, ev), w1) \<Rightarrow>
          ((HfDone (Return (if is_abort_exception cause then Err (hf_timeout config)
                            else Err (FhFetchError ''Fetch failed'' (Some cause)))), ev), w1)
      | ((Return response, ev), w1) \<Rightarrow>
          if \<not> isRedirect (rp_status response) then
            (case hardened_checkContentLength (map_of (rp_headers response) ''content-length'')
                    (fh_maxResponseBytes config) of
               Err e \<Rightarrow> ((HfDone (Return (Err e)), ev), w1)
             | Ok _ \<Rightarrow>
                 ((HfDone (Return (Ok \<lparr>hr_response = response, hr_pinnedIp = pinned, hr_originalHost = host,
                                         hr_redirectCount = rt_count tracker\<rparr>)), ev), w1))
          else (let ((nxt, ms), w2) = follow_redirect env ssrfConfig config tracker currentUrl response w1
                in ((nxt, ev @ ms), w2)))"

lemma rt_follow_Ok: "rt_follow t = Ok t' \<Longrightarrow> rt_limit t' = rt_limit t \<and> rt_count t' = rt_count t + 1 \<and> rt_count t < rt_limit t"
  by (auto simp: rt_follow_def Let_def split: if_splits)

lemma follow_redirect_Continue:
  assumes "follow_redirect env sc config tracker u response w = ((HfContinue tracker' u' p' h', ev), w')"
  shows "rt_follow tracker = Ok tracker'"
    and "\<exists>ms w2 w3. validateRedirectTarget u' (env_resolver env) sc w2 = ((Ok (SsrfAllowed p' h'), ms), w3)"
  using assms
  by (auto simp: follow_redirect_def split: sum.splits prod.splits completion.splits option.splits if_splits
      SsrfValidationResult.splits)

lemma fetch_round_Continue:
  assumes "fetch_round env sc config tracker u p h w = ((HfContinue tracker' u' p' h', ev), w')"
  shows "rt_follow tracker = Ok tracker'"
    and "\<exists>ms w2 w3. validateRedirectTarget u' (env_resolver env) sc w2 = ((Ok (SsrfAllowed p' h'), ms), w3)"
proof -
  obtain response w1 ms w2 where "follow_redirect env sc config tracker u response w1 = ((HfContinue tracker' u' p' h', ms), w2)"
    using assms by (auto simp: fetch_round_def split: prod.splits completion.splits if_splits sum.splits)
  then show "rt_follow tracker = Ok tracker'"
    and "\<exists>ms w2 w3. validateRedirectTarget u' (env_resolver env) sc w2 = ((Ok (SsrfAllowed p' h'), ms), w3)"
    by (rule follow_redirect_Continue)+
qed

text \<open>The whole loop; the tracker bounds the number of rounds.\<close>

function fetch_loop ::
  "'w fetch_env \<Rightarrow> SsrfConfig \<Rightarrow> FetchHardeningConfig \<Rightarrow> RedirectTracker \<Rightarrow> url_obj \<Rightarrow> string \<Rightarrow> string
     \<Rightarrow> hf_event list \<Rightarrow> 'w \<Rightarrow> 'w hf_outcome" where
  "fetch_loop env ssrfConfig config tracker currentUrl pinned host tr w =
     (case fetch_round env ssrfConfig config tracker currentUrl pinned host w of
        ((HfDone r, ev), w') \<Rightarrow> ((r, tr @ ev), w')
      | ((HfContinue tracker' nextUrl pinned' host', ev), w') \<Rightarrow>
          fetch_loop env ssrfConfig config tracker' nextUrl pinned' host' (tr @ ev) w')"
  by pat_completeness auto
termination
proof (relation "measure (\<lambda>(_, _, _, tracker, _). nat (rt_limit tracker - rt_count tracker))")
qed (auto dest!: fetch_round_Continue(1) sym [of _ "fetch_round _ _ _ _ _ _ _ _"] rt_follow_Ok)

declare fetch_loop.simps [simp del]

definition executeHardenedFetch ::
  "'w fetch_env \<Rightarrow> url_obj \<Rightarrow> SsrfConfig \<Rightarrow> FetchHardeningConfig \<Rightarrow> 'w \<Rightarrow> 'w hf_outcome" where
  "executeHardenedFetch env initialUrl ssrfConfig config w =
     (let tracker = createRedirectTracker (fh_maxRedirects config)
      in case validateRedirectTarget initialUrl (env_resolver env) ssrfConfig w of
           ((Err e, ms), w1) \<Rightarrow> ((Return (Err e), map HfMetric ms), w1)
         | ((Ok (SsrfBlocked _ _), ms), w1) \<Rightarrow>
             ((Return (Err (FhSsrfBlocked ''unknown'' (url_href initialUrl))), map HfMetric ms), w1)
         | ((Ok (SsrfAllowed pinned host), ms), w1) \<Rightarrow>
             fetch_loop env ssrfConfig config tracker initialUrl pinned host (map HfMetric ms) w1)"

text \<open>
  \<open>hardenedFetch\<close> arms the timer, runs the loop and clears the timer in a \<open>finally\<close>; \<open>arm\<close> and
  \<open>disarm\<close> are the timer calls on the world (the signal of the loop is \<open>env_aborted\<close>).
\<close>

definition hardenedFetch ::
  "(int \<Rightarrow> 'w \<Rightarrow> 'w) \<Rightarrow> ('w \<Rightarrow> 'w) \<Rightarrow> 'w fetch_env \<Rightarrow> url_obj \<Rightarrow> SsrfConfig \<Rightarrow> FetchHardeningConfig \<Rightarrow> 'w
     \<Rightarrow> 'w hf_outcome" where
  "hardenedFetch arm disarm env initialUrl ssrfConfig config w =
     (let (r, w') = executeHardenedFetch env initialUrl ssrfConfig config (arm (fh_timeoutMs config) w)
      in (r, disarm w'))"

section \<open>Every hop is validated and bounded\<close>

fun is_request :: "hf_event \<Rightarrow> bool" where
  "is_request (HfRequest _ _ _ _) = True"
| "is_request (HfMetric _) = False"

definition requests :: "hf_event list \<Rightarrow> hf_event list" where
  "requests tr = filter is_request tr"

lemma requests_simps [simp]: "requests [] = []" "requests (a @ b) = requests a @ requests b"
  "requests (map HfMetric ms) = []"
  by (simp_all add: requests_def filter_empty_conv)

text \<open>The request a hop makes, for a URL validated with the pinned address and the host.\<close>

definition request_for :: "'w fetch_env \<Rightarrow> url_obj \<Rightarrow> string \<Rightarrow> string \<Rightarrow> hf_event \<Rightarrow> bool" where
  "request_for env u pinned host e =
     (\<exists>parsed. env_parse env (url_href u) = Some parsed
        \<and> e = HfRequest u (url_href (env_set_hostname env parsed pinned)) host pinned)"

lemma pinned_request_events:
  "pinned_request env u p h w = ((c, ev), w') \<Longrightarrow> requests ev = ev \<and> length ev \<le> 1 \<and> list_all (request_for env u p h) ev
     \<and> (\<forall>response. c = Return response \<longrightarrow> length ev = 1)"
  by (auto simp: pinned_request_def requests_def request_for_def Let_def split: option.splits prod.splits)

lemma follow_redirect_events:
  "follow_redirect env sc config tracker u response w = ((n, ev), w') \<Longrightarrow> requests ev = []"
  by (auto simp: follow_redirect_def split: sum.splits prod.splits completion.splits option.splits if_splits
      SsrfValidationResult.splits)

lemma fetch_round_events:
  assumes "fetch_round env sc config tracker u p h w = ((n, ev), w')"
  shows "length (requests ev) \<le> 1 \<and> list_all (request_for env u p h) (requests ev)
    \<and> ((\<exists>t' u' p' h'. n = HfContinue t' u' p' h') \<longrightarrow> length (requests ev) = 1)
    \<and> (\<forall>hr. n = HfDone (Return (Ok hr)) \<longrightarrow> length (requests ev) = 1 \<and> hr_redirectCount hr = rt_count tracker)"
proof (cases "env_aborted env w")
  case True
  with assms show ?thesis by (auto simp: fetch_round_def)
next
  case False
  obtain c ev1 w1 where p: "pinned_request env u p h w = ((c, ev1), w1)"
    by (metis prod.collapse)
  note ev1 = pinned_request_events [OF p]
  show ?thesis
  proof (cases c)
    case (Throw t)
    with False p assms ev1 show ?thesis by (auto simp: fetch_round_def split: if_splits)
  next
    case (Return response)
    obtain n2 ms w2 where f: "follow_redirect env sc config tracker u response w1 = ((n2, ms), w2)"
      by (metis prod.collapse)
    have nd: "\<forall>hr. n2 \<noteq> HfDone (Return (Ok hr))"
      using f by (auto simp: follow_redirect_def split: sum.splits prod.splits completion.splits option.splits
          if_splits SsrfValidationResult.splits)
    from False p Return f follow_redirect_events [OF f] nd assms ev1 show ?thesis
      by (auto simp: fetch_round_def split: if_splits sum.splits)
  qed
qed

lemma validateRedirectTarget_allowed:
  "validateRedirectTarget u r sc w = ((Ok (SsrfAllowed p h), ms), w') \<Longrightarrow> validateUrl u r sc w = ((Ok (SsrfAllowed p h), ms), w')"
  by (auto simp: validateRedirectTarget_def split: prod.splits sum.splits SsrfValidationResult.splits)

definition hop_safe :: "url_obj \<Rightarrow> string \<Rightarrow> string \<Rightarrow> bool" where
  "hop_safe u p h = (checkIp p = NotBlocked \<and> u_protocol u \<in> {''http:'', ''https:''} \<and> h = bare_host (u_hostname u))"

lemma fetch_loop_safe:
  assumes "fetch_loop env sc config tracker u p h tr w = ((r, tr'), w')" "ok u p h"
    and "\<And>u p h ms w1 w2. validateRedirectTarget u (env_resolver env) sc w1 = ((Ok (SsrfAllowed p h), ms), w2) \<Longrightarrow> ok u p h"
  shows "\<exists>ev. tr' = tr @ ev \<and> (\<forall>e \<in> set (requests ev). \<exists>u p h. ok u p h \<and> request_for env u p h e)"
  using assms
proof (induction env sc config tracker u p h tr w arbitrary: r tr' w' rule: fetch_loop.induct)
  case (1 env sc config tracker u p h tr w)
  obtain n ev w1 where f: "fetch_round env sc config tracker u p h w = ((n, ev), w1)"
    by (metis prod.collapse)
  have here: "\<forall>e \<in> set (requests ev). \<exists>u p h. ok u p h \<and> request_for env u p h e"
    using fetch_round_events [OF f] "1.prems"(2) by (auto simp: list_all_iff)
  show ?case
  proof (cases n)
    case (HfDone r')
    with "1.prems"(1) f here show ?thesis by (subst (asm) fetch_loop.simps) auto
  next
    case (HfContinue t' u' p' h')
    with "1.prems"(1) f have "fetch_loop env sc config t' u' p' h' (tr @ ev) w1 = ((r, tr'), w')"
      by (subst (asm) fetch_loop.simps) auto
    moreover have "ok u' p' h'" using fetch_round_Continue(2) [OF f [unfolded HfContinue]] "1.prems"(3) by blast
    ultimately have "\<exists>ev2. tr' = (tr @ ev) @ ev2 \<and> (\<forall>e \<in> set (requests ev2). \<exists>u p h. ok u p h \<and> request_for env u p h e)"
      by (intro "1.IH" [OF f [symmetric] refl HfContinue]) (simp_all add: "1.prems"(3))
    then obtain ev2 where "tr' = (tr @ ev) @ ev2" "\<forall>e \<in> set (requests ev2). \<exists>u p h. ok u p h \<and> request_for env u p h e"
      by blast
    with here show ?thesis by (intro exI [of _ "ev @ ev2"]) auto
  qed
qed

lemma fetch_loop_bounded:
  assumes "fetch_loop env sc config tracker u p h tr w = ((r, tr'), w')"
  shows "\<exists>ev. tr' = tr @ ev \<and> length (requests ev) \<le> Suc (nat (rt_limit tracker - rt_count tracker))
    \<and> (\<forall>hr. r = Return (Ok hr) \<longrightarrow> hr_redirectCount hr = rt_count tracker + int (length (requests ev)) - 1)"
  using assms
proof (induction env sc config tracker u p h tr w arbitrary: r tr' w' rule: fetch_loop.induct)
  case (1 env sc config tracker u p h tr w)
  obtain n ev w1 where f: "fetch_round env sc config tracker u p h w = ((n, ev), w1)"
    by (metis prod.collapse)
  note here = fetch_round_events [OF f]
  show ?case
  proof (cases n)
    case (HfDone r')
    with "1.prems" f here show ?thesis by (subst (asm) fetch_loop.simps) auto
  next
    case (HfContinue t' u' p' h')
    with "1.prems" f have "fetch_loop env sc config t' u' p' h' (tr @ ev) w1 = ((r, tr'), w')"
      by (subst (asm) fetch_loop.simps) auto
    then have "\<exists>ev2. tr' = (tr @ ev) @ ev2 \<and> length (requests ev2) \<le> Suc (nat (rt_limit t' - rt_count t'))
        \<and> (\<forall>hr. r = Return (Ok hr) \<longrightarrow> hr_redirectCount hr = rt_count t' + int (length (requests ev2)) - 1)"
      by (rule "1.IH" [OF f [symmetric] refl HfContinue])
    then obtain ev2 where "tr' = (tr @ ev) @ ev2" "length (requests ev2) \<le> Suc (nat (rt_limit t' - rt_count t'))"
      "\<forall>hr. r = Return (Ok hr) \<longrightarrow> hr_redirectCount hr = rt_count t' + int (length (requests ev2)) - 1"
      by (elim exE conjE)
    moreover have "rt_limit t' = rt_limit tracker" "rt_count t' = rt_count tracker + 1" "rt_count tracker < rt_limit tracker"
      using rt_follow_Ok [OF fetch_round_Continue(1) [OF f [unfolded HfContinue]]] by simp_all
    moreover have "length (requests ev) = 1" using here HfContinue by blast
    ultimately show ?thesis by (intro exI [of _ "ev @ ev2"] conjI) simp_all
  qed
qed

lemma executeHardenedFetch_cases:
  assumes "executeHardenedFetch env u sc config w = ((r, tr), w')"
  obtains "requests tr = []" "\<forall>hr. r \<noteq> Return (Ok hr)"
  | p h ms w1 where "validateRedirectTarget u (env_resolver env) sc w = ((Ok (SsrfAllowed p h), ms), w1)"
      "fetch_loop env sc config (createRedirectTracker (fh_maxRedirects config)) u p h (map HfMetric ms) w1 = ((r, tr), w')"
  using assms
  by (auto simp: executeHardenedFetch_def split: prod.splits sum.splits SsrfValidationResult.splits)

lemma validateRedirectTarget_hop_safe:
  "validateRedirectTarget u r sc w = ((Ok (SsrfAllowed p h), ms), w') \<Longrightarrow> \<not> allowPrivateIps sc \<Longrightarrow> hop_safe u p h"
  by (drule validateRedirectTarget_allowed, drule validateUrl_allowed_hop) (auto simp: hop_safe_def)

section \<open>The body limiter\<close>

lemma limiter_run:
  assumes "0 \<le> maxBytes"
  shows "let b = foldl limiter_transform (createBodySizeLimiter maxBytes) chunks;
             n = int (sum_list (map length chunks))
         in bl_max b = maxBytes \<and> int (sum_list (map length (bl_passed b))) \<le> maxBytes
            \<and> (bl_error b = None \<longrightarrow> bl_passed b = chunks \<and> bl_bytesRead b = n \<and> n \<le> maxBytes)
            \<and> (bl_error b \<noteq> None \<longrightarrow> maxBytes < n)"
proof (induction chunks rule: rev_induct)
  case Nil
  with assms show ?case by (simp add: createBodySizeLimiter_def)
next
  case (snoc c chunks)
  then show ?case by (auto simp: limiter_transform_def Let_def)
qed


text \<open>
  A run on a concrete environment: the world counts the requests, the first answer redirects to a
  relative location and the second is a page; the resolver answers with public addresses.
\<close>

definition demo_env :: "nat fetch_env" where
  "demo_env =
     \<lparr>env_resolver = two_addresses,
      env_fetch = (\<lambda>target host w. (Return \<lparr>rp_status = (if w = 0 then 302 else 200), rp_headers = [(''location'', ''/b'')]\<rparr>, w + 1)),
      env_aborted = (\<lambda>w. False), env_cancel = (\<lambda>res w. (Return (), w)),
      env_parse = (\<lambda>s. Some (witness_url [] [])),
      env_parse_base = (\<lambda>s u. Some (u\<lparr>u_pathname := s\<rparr>)),
      env_set_hostname = (\<lambda>u v. u\<lparr>u_hostname := v\<rparr>)\<rparr>"

definition demo_outcome :: "nat hf_outcome" where
  "demo_outcome = executeHardenedFetch demo_env (witness_url [] []) DEFAULT_SSRF_CONFIG DEFAULT_FETCH_HARDENING_CONFIG 0"

lemma demo_requests:
  "map hf_pinned (requests (snd (fst demo_outcome))) = [''93.184.216.34'', ''93.184.216.34'']
   \<and> hf_target (requests (snd (fst demo_outcome)) ! 0) = ''https://93.184.216.34/a''
   \<and> (case fst (fst demo_outcome) of Return (Ok hr) \<Rightarrow> hr_redirectCount hr = 1 | _ \<Rightarrow> False)"
  by code_simp


text \<open>The hardened fetch always ends after at most one request more than the redirect limit, and the
  redirect count of a response it returns is the number of hops it followed, never above the limit.\<close>

theorem hardened_fetch_bounded:
  assumes "executeHardenedFetch env u sc config w = ((r, tr), w')"
  shows "length (requests tr) \<le> Suc (nat (fh_maxRedirects config))
    \<and> (\<forall>hr. r = Return (Ok hr) \<longrightarrow> hr_redirectCount hr = int (length (requests tr)) - 1)"
  using assms
proof (cases rule: executeHardenedFetch_cases)
  case (2 p h ms w1)
  from fetch_loop_bounded [OF 2(2)] show ?thesis by (auto simp: createRedirectTracker_def)
qed auto

lemma hardened_fetch_bounded_witness: "length (requests (snd (fst demo_outcome))) \<le> 6"
proof -
  obtain r tr w' where o: "demo_outcome = ((r, tr), w')" by (metis prod.collapse)
  from hardened_fetch_bounded [OF o [unfolded demo_outcome_def]] show ?thesis
    unfolding o by (simp add: DEFAULT_FETCH_HARDENING_CONFIG_def)
qed

text \<open>A redirect whose Location does not parse makes the fetch reject with a TypeError, where every other
  failure is an error value of its result type.\<close>

theorem hardened_fetch_invalid_location_rejects:
  assumes "\<not> env_aborted env w" "pinned_request env u p h w = ((Return response, ev), w1)"
    and "isRedirect (rp_status response)" "rt_count tracker < rt_limit tracker"
    and "env_cancel env response w1 = (Return (), w2)"
    and "map_of (rp_headers response) ''location'' = Some location" "location \<noteq> []"
    and "env_parse_base env location u = None"
  shows "fetch_loop env sc config tracker u p h tr w = ((Throw invalid_url_error, tr @ ev), w2)"
proof -
  have "follow_redirect env sc config tracker u response w1 = ((HfDone (Throw invalid_url_error), []), w2)"
    using assms(4-) by (simp add: follow_redirect_def rt_follow_def Let_def)
  with assms(1-3) show ?thesis
    by (subst fetch_loop.simps) (simp add: fetch_round_def)
qed

lemma hardened_fetch_invalid_location_rejects_witness:
  "\<exists>tr. fetch_loop (demo_env\<lparr>env_parse_base := (\<lambda>s u. None)\<rparr>) DEFAULT_SSRF_CONFIG DEFAULT_FETCH_HARDENING_CONFIG
     (createRedirectTracker 5) (witness_url [] []) ''93.184.216.34'' ''example.com'' [] 0 = ((Throw invalid_url_error, tr), 1)"
proof -
  let ?env = "demo_env\<lparr>env_parse_base := (\<lambda>s u. None)\<rparr>"
  obtain ev where "pinned_request ?env (witness_url [] []) ''93.184.216.34'' ''example.com'' 0
      = ((Return \<lparr>rp_status = 302, rp_headers = [(''location'', ''/b'')]\<rparr>, ev), 1)"
    by (simp add: pinned_request_def demo_env_def)
  from hardened_fetch_invalid_location_rejects [OF _ this, of "createRedirectTracker 5" 1 "''/b''"]
  show ?thesis by (simp add: demo_env_def isRedirect_def createRedirectTracker_def)
qed

text \<open>The body limiter passes on exactly the chunks before the byte count first exceeds the limit, so the
  bytes it passed never exceed the limit, and it errors exactly when the whole body is longer.\<close>

theorem body_limiter_bound:
  assumes "0 \<le> maxBytes"
  shows "int (sum_list (map length (bl_passed (foldl limiter_transform (createBodySizeLimiter maxBytes) chunks)))) \<le> maxBytes
    \<and> (bl_error (foldl limiter_transform (createBodySizeLimiter maxBytes) chunks) \<noteq> None
         \<longleftrightarrow> maxBytes < int (sum_list (map length chunks)))
    \<and> (bl_error (foldl limiter_transform (createBodySizeLimiter maxBytes) chunks) = None
         \<longrightarrow> bl_passed (foldl limiter_transform (createBodySizeLimiter maxBytes) chunks) = chunks)"
  using limiter_run [OF assms, of chunks] by (auto simp: Let_def)

lemma body_limiter_bound_witness:
  "bl_passed (foldl limiter_transform (createBodySizeLimiter 3) [[1, 2], [3]]) = [[1, 2], [3]]"
proof -
  have "bl_error (foldl limiter_transform (createBodySizeLimiter 3) [[1, 2], [3]]) = None"
    using body_limiter_bound [of 3 "[[1, 2], [3]]"] by auto
  then show ?thesis using body_limiter_bound [of 3 "[[1, 2], [3]]"] by auto
qed

end
