(* ===== verification/CompositionRoot.thy ===== *)
theory CompositionRoot
  imports Prelude
begin

text \<open>
  packages/core/src/application: the composition root (composition-root.ts) and the signal
  handlers (signal-handlers.ts). A factory and a \<open>close\<close> are functions of the world that may
  throw. The locale \<open>reverse_cleanup\<close> is the contract of a shutdown that closes resources last
  to first and swallows what a close throws; the start-up orchestrator interprets it too.
\<close>

section \<open>The contract of a reverse cleanup\<close>

locale reverse_cleanup =
  fixes close_one :: "'d \<Rightarrow> 'w \<Rightarrow> 'w"
    and cleanup :: "'d list \<Rightarrow> 'w \<Rightarrow> 'w"
  assumes cleanup_Nil: "cleanup [] w = w"
    and cleanup_snoc: "cleanup (ds @ [d]) w = cleanup ds (close_one d w)"
begin

lemma cleanup_fold: "cleanup ds w = fold close_one (rev ds) w"
  by (induction ds arbitrary: w rule: rev_induct) (simp_all add: cleanup_Nil cleanup_snoc)

lemma cleanup_append: "cleanup (ds @ es) w = cleanup ds (cleanup es w)"
  by (simp add: cleanup_fold)

text \<open>Every resource is closed exactly once, in reverse order of its creation.\<close>

lemma cleanup_order:
  assumes "\<And>d w. log_of (close_one d w) = log_of w @ [d]"
  shows "log_of (cleanup ds w) = log_of w @ rev ds"
proof -
  have "log_of (fold close_one es w) = log_of w @ es" for es
    by (induction es arbitrary: w) (simp_all add: assms)
  then show ?thesis by (simp add: cleanup_fold)
qed

end

section \<open>composition-root.ts\<close>

record 'w DisposableEntry =
  de_name :: string
  de_close :: "'w \<Rightarrow> unit completion \<times> 'w"

type_synonym 'w entry_factory = "'w \<Rightarrow> 'w DisposableEntry completion \<times> 'w"

text \<open>\<open>await entry.close()\<close> inside a catch that swallows; the index counts down from the last entry.\<close>

definition close_swallow :: "'w DisposableEntry \<Rightarrow> 'w \<Rightarrow> 'w" where
  "close_swallow entry w = (case de_close entry w of (Return _, w') \<Rightarrow> w' | (Throw _, w') \<Rightarrow> w')"

fun cleanup_from :: "'w DisposableEntry list \<Rightarrow> nat \<Rightarrow> 'w \<Rightarrow> 'w" where
  "cleanup_from disposables 0 w = w"
| "cleanup_from disposables (Suc i) w =
     cleanup_from disposables i (if i < length disposables then close_swallow (disposables ! i) w else w)"

definition cleanupReverse :: "'w DisposableEntry list \<Rightarrow> 'w \<Rightarrow> 'w" where
  "cleanupReverse disposables w = cleanup_from disposables (length disposables) w"

text \<open>The loop over the factories: what was built, and the error that stopped it, if any.\<close>

fun run_factories ::
  "'w entry_factory list \<Rightarrow> 'w DisposableEntry list \<Rightarrow> 'w \<Rightarrow> ('w DisposableEntry list \<times> thrown option) \<times> 'w" where
  "run_factories [] disposables w = ((disposables, None), w)"
| "run_factories (factory # fs) disposables w =
     (case factory w of
        (Return entry, w') \<Rightarrow> run_factories fs (disposables @ [entry]) w'
      | (Throw t, w') \<Rightarrow> ((disposables, Some t), w'))"

text \<open>The root object: its disposables, and the closure's flag \<open>shutdownCalled\<close>.\<close>

record 'w CompositionRoot =
  cr_disposables :: "'w DisposableEntry list"
  cr_shutdownCalled :: bool

definition singleton_error :: thrown where
  "singleton_error = ThrownError (new_Error ''Composition root already initialized - singleton violation (REQ-ARCH-016)'')"

text \<open>The module flag \<open>initialized\<close> is the first component of the state.\<close>

definition createCompositionRoot ::
  "'w entry_factory list \<Rightarrow> bool \<Rightarrow> 'w \<Rightarrow> 'w CompositionRoot completion \<times> bool \<times> 'w" where
  "createCompositionRoot factories initialized w =
     (if initialized then (Throw singleton_error, initialized, w)
      else case run_factories factories [] w of
        ((disposables, Some t), w') \<Rightarrow> (Throw t, False, cleanupReverse disposables w')
      | ((disposables, None), w') \<Rightarrow>
          (Return \<lparr>cr_disposables = disposables, cr_shutdownCalled = False\<rparr>, True, w'))"

definition resetCompositionRoot :: "bool \<Rightarrow> bool" where
  "resetCompositionRoot initialized = False"

definition root_shutdown :: "'w CompositionRoot \<Rightarrow> 'w \<Rightarrow> 'w CompositionRoot \<times> 'w" where
  "root_shutdown cr w =
     (if cr_shutdownCalled cr then (cr, w)
      else (cr\<lparr>cr_shutdownCalled := True\<rparr>, cleanupReverse (cr_disposables cr) w))"

section \<open>Reverse order\<close>

lemma cleanup_from_append: "i \<le> length ds \<Longrightarrow> cleanup_from (ds @ es) i w = cleanup_from ds i w"
  by (induction i arbitrary: w) (auto simp: nth_append)

lemma cleanupReverse_snoc: "cleanupReverse (ds @ [d]) w = cleanupReverse ds (close_swallow d w)"
  by (simp add: cleanupReverse_def cleanup_from_append)

interpretation root_cleanup: reverse_cleanup close_swallow cleanupReverse
  by unfold_locales (simp_all add: cleanupReverse_snoc, simp add: cleanupReverse_def)

lemma run_factories_ok:
  "run_factories fs ds w = ((ds', None), w') \<Longrightarrow> \<exists>built. ds' = ds @ built \<and> length built = length fs"
proof (induction fs arbitrary: ds w)
  case (Cons f fs)
  then obtain e w1 where "f w = (Return e, w1)" "run_factories fs (ds @ [e]) w1 = ((ds', None), w')"
    by (auto split: completion.splits prod.splits)
  with Cons.IH show ?case by fastforce
qed simp

lemma run_factories_append:
  "run_factories (fs @ gs) ds w =
     (case run_factories fs ds w of
        ((built, None), w') \<Rightarrow> run_factories gs built w'
      | r \<Rightarrow> r)"
  by (induction fs arbitrary: ds w) (auto split: completion.splits prod.splits option.splits)

text \<open>When the factory after a prefix of successful ones throws, the root rethrows its error, resets
  the singleton flag, and closes exactly the resources the prefix built, in reverse order; no later
  factory runs.\<close>

theorem composition_partial_failure:
  assumes "run_factories before [] w = ((built, None), w1)" and "failing w1 = (Throw t, w2)"
  shows "createCompositionRoot (before @ failing # later) False w
    = (Throw t, False, fold close_swallow (rev built) w2)"
  using assms by (simp add: createCompositionRoot_def run_factories_append root_cleanup.cleanup_fold)

text \<open>A factory whose resource writes its name to a log when it is closed; the close of \<open>bad\<close> throws.\<close>

definition logging_entry :: "string \<Rightarrow> string list DisposableEntry" where
  "logging_entry name =
     \<lparr>de_name = name, de_close = (\<lambda>w. (if name = ''bad'' then Throw (ThrownOther name) else Return (), w @ [name]))\<rparr>"

definition logging_factory :: "string \<Rightarrow> string list entry_factory" where
  "logging_factory name w = (Return (logging_entry name), w)"

definition failing_factory :: "string list entry_factory" where
  "failing_factory w = (Throw (ThrownOther ''down''), w)"

lemma composition_partial_failure_witness:
  "createCompositionRoot ([logging_factory ''a'', logging_factory ''bad''] @ failing_factory # [logging_factory ''c''])
     False [] = (Throw (ThrownOther ''down''), False, [''bad'', ''a''])"
proof -
  have "run_factories [logging_factory ''a'', logging_factory ''bad''] [] []
      = (([logging_entry ''a'', logging_entry ''bad''], None), [])"
    by (simp add: logging_factory_def)
  moreover have "failing_factory [] = (Throw (ThrownOther ''down''), [])"
    by (simp add: failing_factory_def)
  ultimately show ?thesis
    by (subst composition_partial_failure) (auto simp: close_swallow_def logging_entry_def)
qed

section \<open>signal-handlers.ts\<close>

datatype Signal = SIGTERM | SIGINT

datatype signal_event = SignalFired Signal | HandlersRemoved

record SignalState =
  sg_triggered :: bool
  sg_listeners :: "Signal list"
  sg_shutdowns :: nat

definition registerSignalHandlers :: SignalState where
  "registerSignalHandlers = \<lparr>sg_triggered = False, sg_listeners = [SIGTERM, SIGINT], sg_shutdowns = 0\<rparr>"

definition signal_handler :: "SignalState \<Rightarrow> SignalState" where
  "signal_handler s =
     (if sg_triggered s then s
      else s\<lparr>sg_triggered := True, sg_shutdowns := Suc (sg_shutdowns s)\<rparr>)"

fun signal_step :: "SignalState \<Rightarrow> signal_event \<Rightarrow> SignalState" where
  "signal_step s (SignalFired sig) = (if sig \<in> set (sg_listeners s) then signal_handler s else s)"
| "signal_step s HandlersRemoved = s\<lparr>sg_listeners := remove1 SIGINT (remove1 SIGTERM (sg_listeners s))\<rparr>"

definition signal_inv :: "SignalState \<Rightarrow> bool" where
  "signal_inv s = (sg_shutdowns s = (if sg_triggered s then 1 else 0))"

interpretation signals: step_system signal_step signal_inv
proof
  fix s e
  show "signal_inv s \<Longrightarrow> signal_inv (signal_step s e)"
    by (cases e) (auto simp: signal_inv_def signal_handler_def)
qed

lemma removed_stays: "sg_listeners s = [] \<Longrightarrow> foldl signal_step s es = s"
proof (induction es arbitrary: s)
  case (Cons e es)
  then have "signal_step s e = s" by (cases e) simp_all
  with Cons show ?case by simp
qed simp

text \<open>Over every sequence of signals and of calls of the returned clean-up function, shutdown is
  triggered at most once, and never by a signal that arrives after the handlers were removed.\<close>

theorem signals_shut_down_once:
  "sg_shutdowns (foldl signal_step registerSignalHandlers es) \<le> 1
   \<and> foldl signal_step registerSignalHandlers (HandlersRemoved # fs) = registerSignalHandlers\<lparr>sg_listeners := []\<rparr>"
proof -
  have "signal_inv (foldl signal_step registerSignalHandlers es)"
    by (rule signals.run_inv) (simp add: signal_inv_def registerSignalHandlers_def)
  then have "sg_shutdowns (foldl signal_step registerSignalHandlers es) \<le> 1"
    by (simp add: signal_inv_def split: if_splits)
  moreover have "signal_step registerSignalHandlers HandlersRemoved = registerSignalHandlers\<lparr>sg_listeners := []\<rparr>"
    by (simp add: registerSignalHandlers_def)
  ultimately show ?thesis by (simp add: removed_stays)
qed

end
