(* ===== verification/ErrorClassifier.thy ===== *)
theory ErrorClassifier
  imports CoreErrors
begin

text \<open>packages/http-fetching/src/error-classifier.ts: from what was thrown to a \<open>FetchError\<close>.\<close>

definition SSL_ERROR_CODES :: "string list" where
  "SSL_ERROR_CODES =
     [''UNABLE_TO_VERIFY_LEAF_SIGNATURE'', ''CERT_HAS_EXPIRED'', ''DEPTH_ZERO_SELF_SIGNED_CERT'',
      ''SELF_SIGNED_CERT_IN_CHAIN'', ''ERR_TLS_CERT_ALTNAME_INVALID'', ''ERR_SSL_WRONG_VERSION_NUMBER'',
      ''CERT_NOT_YET_VALID'']"

definition DNS_ERROR_CODES :: "string list" where
  "DNS_ERROR_CODES = [''ENOTFOUND'', ''EAI_AGAIN'', ''SERVFAIL'', ''ENODATA'']"

definition isAbortError :: "thrown \<Rightarrow> bool" where
  "isAbortError cause =
     (case cause of
        ThrownError e \<Rightarrow>
          (err_dom e \<and> err_name e = ''AbortError'') \<or> (err_dom e \<and> err_name e = ''TimeoutError'')
            \<or> err_name e = ''AbortError''
      | ThrownOther _ \<Rightarrow> False)"

definition classifyAbortError :: "url_parser \<Rightarrow> thrown \<Rightarrow> string \<Rightarrow> FetchError" where
  "classifyAbortError parse cause url = createTimeoutError parse url 0"

definition extractHostname :: "url_parser \<Rightarrow> string \<Rightarrow> string" where
  "extractHostname parse url = (case parse url of Some u \<Rightarrow> u_hostname u | None \<Rightarrow> url)"

text \<open>The port of a parsed URL is empty or a run of digits.\<close>

definition parseHostPort :: "url_parser \<Rightarrow> string \<Rightarrow> string \<times> int" where
  "parseHostPort parse url =
     (case parse url of
        Some parsed \<Rightarrow>
          (let defaultPort = (if u_protocol parsed = ''https:'' then 443 else 80)
           in (u_hostname parsed,
               if u_port parsed \<noteq> [] then (case js_Number (u_port parsed) of Num q \<Rightarrow> floor q | _ \<Rightarrow> 0)
               else defaultPort))
      | None \<Rightarrow> (url, 0))"

definition classifyError :: "url_parser \<Rightarrow> thrown \<Rightarrow> string \<Rightarrow> FetchError" where
  "classifyError parse cause url =
     (if isAbortError cause then classifyAbortError parse cause url
      else case cause of
        ThrownError e \<Rightarrow>
          (case err_code e of
             Some c \<Rightarrow>
               if c = ''ECONNREFUSED'' then
                 (let (host, port) = parseHostPort parse url in createConnectionRefusedError url host port)
               else if c \<in> set SSL_ERROR_CODES then createSslError parse url c
               else if c \<in> set DNS_ERROR_CODES
                 then createDnsResolutionFailedError url (extractHostname parse url)
               else createNetworkError parse url e
           | None \<Rightarrow> createNetworkError parse url e)
      | ThrownOther s \<Rightarrow> createNetworkError parse url (new_Error s))"

definition classifyHttpStatus :: "url_parser \<Rightarrow> int \<Rightarrow> string \<Rightarrow> FetchError" where
  "classifyHttpStatus parse statusCode url = createHttpError parse url statusCode"

definition classifySsrfBlocked :: "url_parser \<Rightarrow> string \<Rightarrow> string \<Rightarrow> FetchError" where
  "classifySsrfBlocked parse reason url = createSsrfBlockedError parse url reason"

definition classifyTooManyRedirects :: "url_parser \<Rightarrow> int \<Rightarrow> string \<Rightarrow> FetchError" where
  "classifyTooManyRedirects parse maxRedirects url = createTooManyRedirectsError parse url maxRedirects"

definition classifyBodyTooLarge :: "url_parser \<Rightarrow> int \<Rightarrow> jsnum \<Rightarrow> string \<Rightarrow> FetchError" where
  "classifyBodyTooLarge parse maxBytes actualBytes url = createBodyTooLargeError parse url maxBytes actualBytes"

definition classifyTimeout :: "url_parser \<Rightarrow> thrown \<Rightarrow> string \<Rightarrow> int \<Rightarrow> FetchError" where
  "classifyTimeout parse cause url timeoutMs =
     (if isAbortError cause then createTimeoutError parse url timeoutMs else classifyError parse cause url)"

lemmas classifier_defs = classifyHttpStatus_def classifySsrfBlocked_def classifyTooManyRedirects_def
  classifyBodyTooLarge_def classifyTimeout_def classifyError_def classifyAbortError_def
  createTimeoutError_def createNetworkError_def createHttpError_def createSsrfBlockedError_def
  createTooManyRedirectsError_def createBodyTooLargeError_def createDnsResolutionFailedError_def
  createSslError_def createConnectionRefusedError_def

text \<open>The classifier is total and precise: whatever is thrown, the error carries the requested URL, is a
  timeout exactly for abort and timeout exceptions, and otherwise is decided by the error code alone.\<close>

theorem classifyTimeout_kind:
  "fe_url (classifyTimeout parse cause url ms) = url
   \<and> fetch_error_kind (classifyTimeout parse cause url ms) =
      (if isAbortError cause then ''timeout''
       else case cause of
         ThrownOther _ \<Rightarrow> ''network''
       | ThrownError e \<Rightarrow>
           (case err_code e of
              None \<Rightarrow> ''network''
            | Some c \<Rightarrow> if c = ''ECONNREFUSED'' then ''connection_refused''
                        else if c \<in> set SSL_ERROR_CODES then ''ssl_error''
                        else if c \<in> set DNS_ERROR_CODES then ''dns_resolution_failed'' else ''network''))"
  by (auto simp: classifier_defs Let_def split: thrown.splits option.splits prod.splits)

lemma classifyTimeout_url: "fe_url (classifyTimeout parse cause url ms) = url"
  by (auto simp: classifier_defs Let_def split: thrown.splits option.splits prod.splits)

end
