(* ===== verification/StreamProcessor.thy ===== *)
theory StreamProcessor
  imports JsString
begin

text \<open>
  packages/http-fetching/src/stream-processor.ts: the Content-Length check, the reading of a body
  under a byte limit and its draining. A body is what its iterator delivers: chunks of bytes, and
  at most one failure; the decoder of the platform is the parameter \<open>decode\<close>.
\<close>

datatype header_value = HvText string | HvList "string list"

type_synonym headers = "(string \<times> header_value) list"

datatype stream_item = Chunk "nat list" | StreamFailure thrown

record StreamResult =
  sr_body :: string
  sr_byteCount :: int

datatype StreamError = BodyTooLarge int | StreamFailed js_error

datatype content_length_check = ContentLength bool "jsnum option"

definition checkContentLength :: "headers \<Rightarrow> int \<Rightarrow> content_length_check" where
  "checkContentLength hs maxBytes =
     (case map_of hs ''content-length'' of
        None \<Rightarrow> ContentLength False None
      | Some raw \<Rightarrow>
          (let value = (case raw of HvText s \<Rightarrow> Some s | HvList vs \<Rightarrow> (case vs of [] \<Rightarrow> None | v # _ \<Rightarrow> Some v))
           in case value of
                None \<Rightarrow> ContentLength False None
              | Some v \<Rightarrow>
                  (let contentLength = js_Number v
                   in if contentLength = NaN then ContentLength False None
                      else ContentLength (jsnum_gt contentLength (of_int maxBytes)) (Some contentLength))))"

text \<open>The \<open>for await\<close>: the chunks kept so far and their bytes; the result says if the stream was destroyed.\<close>

fun read_items :: "int \<Rightarrow> stream_item list \<Rightarrow> nat list \<Rightarrow> int \<Rightarrow> (StreamError, nat list \<times> int) result" where
  "read_items maxBytes [] chunks byteCount = Ok (chunks, byteCount)"
| "read_items maxBytes (StreamFailure t # items) chunks byteCount = Err (StreamFailed (thrown_error t))"
| "read_items maxBytes (Chunk buf # items) chunks byteCount =
     (let byteCount' = byteCount + int (length buf)
      in if maxBytes < byteCount' then Err (BodyTooLarge byteCount')
         else read_items maxBytes items (chunks @ buf) byteCount')"

definition readBodyStream ::
  "(nat list \<Rightarrow> string) \<Rightarrow> stream_item list \<Rightarrow> int \<Rightarrow> (StreamError, StreamResult) result" where
  "readBodyStream decode body maxBytes =
     (case read_items maxBytes body [] 0 of
        Err e \<Rightarrow> Err e
      | Ok (bytes, byteCount) \<Rightarrow> Ok \<lparr>sr_body = decode bytes, sr_byteCount = byteCount\<rparr>)"

text \<open>Draining discards the chunks up to the end or a failure, which it swallows; the value is their number.\<close>

fun drainBody :: "stream_item list \<Rightarrow> nat" where
  "drainBody [] = 0"
| "drainBody (Chunk _ # items) = Suc (drainBody items)"
| "drainBody (StreamFailure _ # items) = 0"

section \<open>What a read returns\<close>

fun all_bytes :: "stream_item list \<Rightarrow> nat list" where
  "all_bytes [] = []"
| "all_bytes (Chunk buf # items) = buf @ all_bytes items"
| "all_bytes (StreamFailure _ # items) = all_bytes items"

fun fails :: "stream_item list \<Rightarrow> bool" where
  "fails [] = False"
| "fails (Chunk _ # items) = fails items"
| "fails (StreamFailure _ # items) = True"

lemma read_items_Ok:
  "n \<le> maxBytes \<Longrightarrow> n = int (length acc) \<Longrightarrow>
    read_items maxBytes items acc n = Ok (bytes, c) \<longleftrightarrow>
      \<not> fails items \<and> bytes = acc @ all_bytes items \<and> c = n + int (length (all_bytes items)) \<and> c \<le> maxBytes"
  by (induction maxBytes items acc n rule: read_items.induct) (auto simp: Let_def)

lemma read_items_too_large:
  "read_items maxBytes items acc n = Err (BodyTooLarge c) \<Longrightarrow> n \<le> maxBytes \<Longrightarrow>
     maxBytes < c \<and> c \<le> n + int (length (all_bytes items))"
  by (induction maxBytes items acc n rule: read_items.induct) (auto simp: Let_def split: if_splits)

text \<open>Reading a body succeeds exactly when its stream does not fail and its bytes fit the limit, and then
  returns the decoding of all its bytes with their number; a body reported as too large is too large, and the
  count in the report is above the limit.\<close>

theorem readBodyStream_correct:
  assumes "0 \<le> maxBytes"
  shows "(readBodyStream decode body maxBytes = Ok r \<longleftrightarrow>
           \<not> fails body \<and> int (length (all_bytes body)) \<le> maxBytes
           \<and> r = \<lparr>sr_body = decode (all_bytes body), sr_byteCount = int (length (all_bytes body))\<rparr>)
    \<and> (readBodyStream decode body maxBytes = Err (BodyTooLarge c) \<longrightarrow>
           maxBytes < c \<and> c \<le> int (length (all_bytes body)))"
proof -
  have "readBodyStream decode body maxBytes = Ok r \<longleftrightarrow>
      (\<exists>bytes n. read_items maxBytes body [] 0 = Ok (bytes, n) \<and> r = \<lparr>sr_body = decode bytes, sr_byteCount = n\<rparr>)"
    by (auto simp: readBodyStream_def split: sum.splits)
  moreover have "readBodyStream decode body maxBytes = Err (BodyTooLarge c) \<longrightarrow>
      read_items maxBytes body [] 0 = Err (BodyTooLarge c)"
    by (auto simp: readBodyStream_def split: sum.splits)
  ultimately show ?thesis
    using assms read_items_too_large [of maxBytes body "[]" 0 c] by (auto simp: read_items_Ok)
qed

lemma readBodyStream_correct_witness:
  "readBodyStream (map char_of) [Chunk [104, 105], Chunk [33]] 3 = Ok \<lparr>sr_body = ''hi!'', sr_byteCount = 3\<rparr>"
proof -
  have "map char_of [104, 105, 33 :: nat] = ''hi!''" by code_simp
  then show ?thesis
    using readBodyStream_correct [of 3 "map char_of" "[Chunk [104, 105], Chunk [33]]"
        "\<lparr>sr_body = ''hi!'', sr_byteCount = 3\<rparr>"] by simp
qed

end
