(* ===== verification/HttpFetcher.thy ===== *)
theory HttpFetcher
  imports ErrorClassifier StreamProcessor SsrfValidator
begin

text \<open>
  packages/http-fetching/src/http-fetcher.ts: the fetch of a page with its redirect loop. The
  injected client and SSRF validator, the clock, the URL parser and the \<open>hostname\<close> setter are the
  fields of \<open>http_env\<close>; what the fetch does is recorded as a list of events.
\<close>

record HttpResponse =
  hp_statusCode :: int
  hp_headers :: headers
  hp_body :: "stream_item list"

record FetcherConfig =
  hf_userAgent :: string
  hf_timeoutMs :: int
  hf_maxRedirects :: int
  hf_maxBodyBytes :: int

record FetchResultData =
  fd_statusCode :: int
  fd_body :: string
  fd_headers :: "(string \<times> string) list"
  fd_requestedUrl :: string
  fd_finalUrl :: string
  fd_durationMs :: rat
  fd_bodyBytes :: int

datatype ht_event =
    MFetch string "string option"
  | MDuration rat
  | MRedirect
  | MBodyBytes int
  | HtRequest string "(string \<times> string) list"
  | HtDrain
  | HtDestroy

record 'w http_env =
  he_request :: "string \<Rightarrow> (string \<times> string) list \<Rightarrow> 'w \<Rightarrow> HttpResponse completion \<times> 'w"
  he_validate :: "url_obj \<Rightarrow> 'w \<Rightarrow> SsrfValidationResult option completion \<times> 'w"
  he_now :: "'w \<Rightarrow> rat"
  he_parse :: url_parser
  he_parse_base :: "string \<Rightarrow> string \<Rightarrow> url_obj option"
  he_set_hostname :: "url_obj \<Rightarrow> string \<Rightarrow> url_obj"
  he_decode :: "nat list \<Rightarrow> string"

definition REDIRECT_CODES :: "int list" where
  "REDIRECT_CODES = [301, 302, 303, 307, 308]"

definition getHeader :: "headers \<Rightarrow> string \<Rightarrow> string option" where
  "getHeader hs name =
     (case map_of hs name of
        Some (HvText v) \<Rightarrow> Some v
      | Some (HvList (v # _)) \<Rightarrow> Some v
      | _ \<Rightarrow> None)"

fun flattenHeaders :: "headers \<Rightarrow> (string \<times> string) list" where
  "flattenHeaders [] = []"
| "flattenHeaders ((key, HvText v) # hs) = (key, v) # flattenHeaders hs"
| "flattenHeaders ((key, HvList (v # vs)) # hs) = (key, v) # flattenHeaders hs"
| "flattenHeaders ((key, HvList []) # hs) = flattenHeaders hs"

text \<open>\<open>fail\<close>: the two metrics calls of an error, then the error.\<close>

definition ht_fail ::
  "'w http_env \<Rightarrow> FetchError \<Rightarrow> rat \<Rightarrow> 'w \<Rightarrow> (FetchError, FetchResultData) result \<times> ht_event list" where
  "ht_fail env e startMs w =
     (Err e, [MFetch ''error'' (Some (fetch_error_kind e)), MDuration ((he_now env w - startMs) / 1000)])"

definition readResponse ::
  "'w http_env \<Rightarrow> HttpResponse \<Rightarrow> string \<Rightarrow> string \<Rightarrow> rat \<Rightarrow> FetcherConfig \<Rightarrow> 'w
     \<Rightarrow> (FetchError, FetchResultData) result \<times> ht_event list" where
  "readResponse env res requestedUrl finalUrl startMs config w =
     (case checkContentLength (hp_headers res) (hf_maxBodyBytes config) of
        ContentLength exceeded contentLength \<Rightarrow>
          if exceeded then
            (let (r, ev) = ht_fail env (classifyBodyTooLarge (he_parse env) (hf_maxBodyBytes config)
                              (case contentLength of Some n \<Rightarrow> n | None \<Rightarrow> Num 0) requestedUrl) startMs w
             in (r, HtDestroy # ev))
          else (case readBodyStream (he_decode env) (hp_body res) (hf_maxBodyBytes config) of
             Err (BodyTooLarge byteCount) \<Rightarrow>
               (let (r, ev) = ht_fail env (classifyBodyTooLarge (he_parse env) (hf_maxBodyBytes config)
                                 (Num (of_int byteCount)) requestedUrl) startMs w
                in (r, HtDestroy # ev))
           | Err (StreamFailed cause) \<Rightarrow>
               ht_fail env (classifyError (he_parse env) (ThrownError cause) requestedUrl) startMs w
           | Ok stream \<Rightarrow>
               (let durationMs = he_now env w - startMs
                in (Ok \<lparr>fd_statusCode = hp_statusCode res, fd_body = sr_body stream,
                        fd_headers = flattenHeaders (hp_headers res), fd_requestedUrl = requestedUrl,
                        fd_finalUrl = finalUrl, fd_durationMs = durationMs, fd_bodyBytes = sr_byteCount stream\<rparr>,
                    [MFetch ''success'' None, MDuration (durationMs / 1000), MBodyBytes (sr_byteCount stream)]))))"

datatype ht_next =
    HtDone "(FetchError, FetchResultData) result"
  | HtThrown thrown
  | HtContinue string int

definition type_error_invalid_url :: thrown where
  "type_error_invalid_url = ThrownError
     \<lparr>err_dom = False, err_name = ''TypeError'', err_message = ''Invalid URL'', err_code = Some ''ERR_INVALID_URL''\<rparr>"

text \<open>The response of one hop: redirect, error status, or the page.\<close>

definition handle_response ::
  "'w http_env \<Rightarrow> FetcherConfig \<Rightarrow> string \<Rightarrow> rat \<Rightarrow> string \<Rightarrow> int \<Rightarrow> HttpResponse \<Rightarrow> 'w \<Rightarrow> ht_next \<times> ht_event list" where
  "handle_response env config url startMs currentUrl redirectCount res w =
     (if hp_statusCode res \<in> set REDIRECT_CODES then
        (let redirectCount' = redirectCount + 1
         in if hf_maxRedirects config < redirectCount' then
              (let (r, ev) = ht_fail env (classifyTooManyRedirects (he_parse env) (hf_maxRedirects config) url) startMs w
               in (HtDone r, [MRedirect, HtDrain] @ ev))
            else case getHeader (hp_headers res) ''location'' of
              None \<Rightarrow>
                (let (r, ev) = ht_fail env (classifyHttpStatus (he_parse env) (hp_statusCode res) url) startMs w
                 in (HtDone r, [MRedirect, HtDrain] @ ev))
            | Some location \<Rightarrow>
                (case he_parse_base env location currentUrl of
                   None \<Rightarrow> (HtThrown type_error_invalid_url, [MRedirect])
                 | Some nextUrl \<Rightarrow> (HtContinue (url_href nextUrl) redirectCount', [MRedirect, HtDrain])))
      else if hp_statusCode res < 200 \<or> 300 \<le> hp_statusCode res then
        (let (r, ev) = ht_fail env (classifyHttpStatus (he_parse env) (hp_statusCode res) url) startMs w
         in (HtDone r, HtDrain # ev))
      else
        (let (r, ev) = readResponse env res url currentUrl startMs config w in (HtDone r, ev)))"

text \<open>The request of a hop after its validation: headers and target.\<close>

definition hop_request ::
  "'w http_env \<Rightarrow> FetcherConfig \<Rightarrow> url_obj \<Rightarrow> string \<Rightarrow> SsrfValidationResult option
     \<Rightarrow> string \<times> (string \<times> string) list" where
  "hop_request env config parsed currentUrl ssrf =
     (case ssrf of
        Some v \<Rightarrow>
          (url_href (he_set_hostname env parsed (ssrf_pinnedIp v)),
           [(''User-Agent'', hf_userAgent config), (''Host'', ssrf_originalHost v)])
      | None \<Rightarrow> (currentUrl, [(''User-Agent'', hf_userAgent config)]))"

definition http_round ::
  "'w http_env \<Rightarrow> FetcherConfig \<Rightarrow> string \<Rightarrow> rat \<Rightarrow> string \<Rightarrow> int \<Rightarrow> 'w \<Rightarrow> (ht_next \<times> ht_event list) \<times> 'w" where
  "http_round env config url startMs currentUrl redirectCount w =
     (case he_parse env currentUrl of
        None \<Rightarrow> ((HtThrown type_error_invalid_url, []), w)
      | Some parsed \<Rightarrow>
          (case he_validate env parsed w of
             (Throw t, w1) \<Rightarrow> ((HtThrown t, []), w1)
           | (Return (Some (SsrfBlocked _ reason)), w1) \<Rightarrow>
               (let (r, ev) = ht_fail env (classifySsrfBlocked (he_parse env) (reason_text reason) url) startMs w1
                in ((HtDone r, ev), w1))
           | (Return ssrf, w1) \<Rightarrow>
               (let (targetUrl, hs) = hop_request env config parsed currentUrl ssrf
                in case he_request env targetUrl hs w1 of
                     (Throw t, w2) \<Rightarrow> ((HtThrown t, [HtRequest targetUrl hs]), w2)
                   | (Return res, w2) \<Rightarrow>
                       (let (n, ev) = handle_response env config url startMs currentUrl redirectCount res w2
                        in ((n, HtRequest targetUrl hs # ev), w2)))))"

lemma handle_response_Continue:
  "handle_response env config url s c n res w = (HtContinue c' n', ev) \<Longrightarrow> n' = n + 1 \<and> n' \<le> hf_maxRedirects config"
  by (auto simp: handle_response_def Let_def split: if_splits option.splits prod.splits)

lemma http_round_Continue:
  "http_round env config url s c n w = ((HtContinue c' n', ev), w') \<Longrightarrow> n' = n + 1 \<and> n' \<le> hf_maxRedirects config"
  by (auto simp: http_round_def Let_def split: option.splits prod.splits completion.splits SsrfValidationResult.splits
      dest: handle_response_Continue)

text \<open>The loop, under the \<open>catch\<close> of \<open>httpFetch\<close>; a hop can only continue below the redirect limit.\<close>

function http_loop ::
  "'w http_env \<Rightarrow> FetcherConfig \<Rightarrow> string \<Rightarrow> rat \<Rightarrow> string \<Rightarrow> int \<Rightarrow> ht_event list \<Rightarrow> 'w
     \<Rightarrow> ((FetchError, FetchResultData) result \<times> ht_event list) \<times> 'w" where
  "http_loop env config url startMs currentUrl redirectCount tr w =
     (case http_round env config url startMs currentUrl redirectCount w of
        ((HtDone r, ev), w') \<Rightarrow> ((r, tr @ ev), w')
      | ((HtThrown t, ev), w') \<Rightarrow>
          (let (r, fev) = ht_fail env (classifyTimeout (he_parse env) t url (hf_timeoutMs config)) startMs w'
           in ((r, tr @ ev @ fev), w'))
      | ((HtContinue nextUrl redirectCount', ev), w') \<Rightarrow>
          http_loop env config url startMs nextUrl redirectCount' (tr @ ev) w')"
  by pat_completeness auto
termination
  by (relation "measure (\<lambda>(_, config, _, _, _, n, _). nat (hf_maxRedirects config - n))")
    (auto dest!: http_round_Continue [OF sym])

declare http_loop.simps [simp del]

definition httpFetch ::
  "'w http_env \<Rightarrow> string \<Rightarrow> FetcherConfig \<Rightarrow> 'w \<Rightarrow> ((FetchError, FetchResultData) result \<times> ht_event list) \<times> 'w" where
  "httpFetch env url config w = http_loop env config url (he_now env w) url 0 [] w"

section \<open>What a fetch does\<close>

text \<open>How often an outcome is recorded, and the requests that were sent.\<close>

fun is_outcome :: "ht_event \<Rightarrow> bool" where
  "is_outcome (MFetch _ _) = True"
| "is_outcome _ = False"

fun is_http_request :: "ht_event \<Rightarrow> bool" where
  "is_http_request (HtRequest _ _) = True"
| "is_http_request _ = False"

definition outcome_event :: "(FetchError, FetchResultData) result \<Rightarrow> ht_event" where
  "outcome_event r = (case r of Ok _ \<Rightarrow> MFetch ''success'' None | Err e \<Rightarrow> MFetch ''error'' (Some (fetch_error_kind e)))"

definition good_result :: "string \<Rightarrow> (FetchError, FetchResultData) result \<Rightarrow> bool" where
  "good_result url r =
     (case r of Ok d \<Rightarrow> fd_requestedUrl d = url \<and> 200 \<le> fd_statusCode d \<and> fd_statusCode d < 300
      | Err e \<Rightarrow> fe_url e = url)"

definition ended_with :: "(FetchError, FetchResultData) result \<Rightarrow> string \<Rightarrow> ht_event list \<Rightarrow> bool" where
  "ended_with r url ev =
     (filter is_outcome ev = [outcome_event r] \<and> filter is_http_request ev = [] \<and> good_result url r)"

lemma ht_fail_ended: "ht_fail env e s w = (r, ev) \<Longrightarrow> fe_url e = url \<Longrightarrow> ended_with r url ev"
  by (auto simp: ht_fail_def ended_with_def outcome_event_def good_result_def)

lemma classified_url [simp]:
  "fe_url (classifyHttpStatus p c url) = url" "fe_url (classifySsrfBlocked p r url) = url"
  "fe_url (classifyTooManyRedirects p n url) = url" "fe_url (classifyBodyTooLarge p n b url) = url"
  "fe_url (classifyError p t url) = url" "fe_url (classifyTimeout p t url n) = url"
  by (auto simp: classifier_defs Let_def split: thrown.splits option.splits prod.splits)

lemma ended_with_silent:
  "ended_with r url ev \<Longrightarrow> \<not> is_outcome e \<Longrightarrow> \<not> is_http_request e \<Longrightarrow> ended_with r url (e # ev)"
  by (simp add: ended_with_def)

lemma readResponse_ended:
  assumes "readResponse env res url final s config w = (r, ev)" "200 \<le> hp_statusCode res" "hp_statusCode res < 300"
  shows "ended_with r url ev"
  using assms
  by (auto simp: readResponse_def Let_def ended_with_def outcome_event_def ht_fail_def good_result_def
      split: content_length_check.splits if_splits sum.splits StreamError.splits)

lemma handle_response_ended:
  assumes "handle_response env config url s c n res w = (nxt, ev)"
  shows "(case nxt of HtDone r \<Rightarrow> ended_with r url ev
          | _ \<Rightarrow> filter is_outcome ev = [] \<and> filter is_http_request ev = [])"
proof (cases "hp_statusCode res \<notin> set REDIRECT_CODES \<and> 200 \<le> hp_statusCode res \<and> hp_statusCode res < 300")
  case True
  obtain r ev2 where r: "readResponse env res url c s config w = (r, ev2)" by fastforce
  with True assms readResponse_ended [OF r] show ?thesis by (auto simp: handle_response_def)
next
  case False
  with assms show ?thesis
    by (auto simp: handle_response_def Let_def ht_fail_def ended_with_def outcome_event_def good_result_def
        split: if_splits option.splits)
qed

lemma http_round_ended:
  assumes "http_round env config url s c n w = ((nxt, ev), w')"
  shows "length (filter is_http_request ev) \<le> 1
    \<and> (case nxt of HtDone r \<Rightarrow> filter is_outcome ev = [outcome_event r] \<and> good_result url r
       | _ \<Rightarrow> filter is_outcome ev = [])"
proof (cases "\<exists>parsed ssrf w1 res w2. he_parse env c = Some parsed \<and> he_validate env parsed w = (Return ssrf, w1)
     \<and> (\<nexists>h r. ssrf = Some (SsrfBlocked h r)) \<and>
     (case hop_request env config parsed c ssrf of (t, hs) \<Rightarrow> he_request env t hs w1) = (Return res, w2)")
  case True
  then obtain parsed ssrf w1 res w2 t hs where a: "he_parse env c = Some parsed" "he_validate env parsed w = (Return ssrf, w1)"
    "\<nexists>h r. ssrf = Some (SsrfBlocked h r)" "hop_request env config parsed c ssrf = (t, hs)"
    "he_request env t hs w1 = (Return res, w2)" by (fastforce simp: split_def prod_eq_iff)
  obtain n2 ev2 where h: "handle_response env config url s c n res w2 = (n2, ev2)" by fastforce
  from a h assms have "nxt = n2" "ev = HtRequest t hs # ev2"
    by (auto simp: http_round_def split: option.splits SsrfValidationResult.splits)
  with handle_response_ended [OF h] show ?thesis
    by (auto simp: ended_with_def split: ht_next.splits)
next
  case False
  with assms show ?thesis
    by (auto simp: http_round_def Let_def ht_fail_def outcome_event_def good_result_def
        split: option.splits prod.splits completion.splits SsrfValidationResult.splits)
qed

lemma http_loop_outcome:
  assumes "http_loop env config url s c n tr w = ((r, tr'), w')"
  shows "\<exists>ev. tr' = tr @ ev \<and> filter is_outcome ev = [outcome_event r] \<and> good_result url r
    \<and> length (filter is_http_request ev) \<le> Suc (nat (hf_maxRedirects config - n))"
  using assms
proof (induction env config url s c n tr w arbitrary: r tr' w' rule: http_loop.induct)
  case (1 env config url s c n tr w)
  obtain nxt ev w1 where f: "http_round env config url s c n w = ((nxt, ev), w1)"
    by (metis prod.collapse)
  note here = http_round_ended [OF f]
  show ?case
  proof (cases nxt)
    case (HtDone r')
    with "1.prems" f here show ?thesis by (subst (asm) http_loop.simps) auto
  next
    case (HtThrown t)
    with "1.prems" f here show ?thesis
      by (subst (asm) http_loop.simps) (auto simp: ht_fail_def outcome_event_def good_result_def)
  next
    case (HtContinue c' n')
    with "1.prems" f have "http_loop env config url s c' n' (tr @ ev) w1 = ((r, tr'), w')"
      by (subst (asm) http_loop.simps) auto
    then have "\<exists>ev2. tr' = (tr @ ev) @ ev2 \<and> filter is_outcome ev2 = [outcome_event r] \<and> good_result url r
        \<and> length (filter is_http_request ev2) \<le> Suc (nat (hf_maxRedirects config - n'))"
      by (rule "1.IH" [OF f [symmetric] refl HtContinue])
    then obtain ev2 where "tr' = (tr @ ev) @ ev2" "filter is_outcome ev2 = [outcome_event r]" "good_result url r"
      "length (filter is_http_request ev2) \<le> Suc (nat (hf_maxRedirects config - n'))"
      by (elim exE conjE)
    moreover have "Suc (nat (hf_maxRedirects config - n')) = nat (hf_maxRedirects config - n)"
      using http_round_Continue [OF f [unfolded HtContinue]] by (auto simp: Suc_nat_eq_nat_zadd1)
    moreover have "length (filter is_http_request ev) \<le> 1" "filter is_outcome ev = []"
      using here HtContinue by simp_all
    ultimately show ?thesis by (intro exI [of _ "ev @ ev2"]) simp
  qed
qed

text \<open>C15: Whatever the client, the validator and the server do, a fetch ends with a result and never throws:
  it sends at most one request more than the redirect limit, records exactly one outcome, the one it
  returns, under the error's own kind, and reports the URL that was asked for; success means a 2xx status.\<close>

theorem httpFetch_outcome:
  assumes "httpFetch env url config w = ((r, tr), w')"
  shows "filter is_outcome tr = [outcome_event r] \<and> good_result url r
    \<and> length (filter is_http_request tr) \<le> Suc (nat (hf_maxRedirects config))"
  using http_loop_outcome [OF assms [unfolded httpFetch_def]] by auto

text \<open>A client that answers 302 to the first request and a page of two bytes to the next.\<close>

definition demo_http :: "nat http_env" where
  "demo_http =
     \<lparr>he_request = (\<lambda>t hs w. (Return \<lparr>hp_statusCode = (if w = 0 then 302 else 200),
          hp_headers = [(''location'', HvText ''/b'')], hp_body = [Chunk [104, 105]]\<rparr>, w + 1)),
      he_validate = (\<lambda>u w. (Return (Some (SsrfAllowed ''93.184.216.34'' ''example.com'')), w)),
      he_now = (\<lambda>w. of_nat w), he_parse = (\<lambda>s. Some (witness_url [] [])),
      he_parse_base = (\<lambda>s b. Some ((witness_url [] [])\<lparr>u_pathname := s\<rparr>)),
      he_set_hostname = (\<lambda>u v. u\<lparr>u_hostname := v\<rparr>), he_decode = map char_of\<rparr>"

definition demo_config :: FetcherConfig where
  "demo_config = \<lparr>hf_userAgent = ''bot'', hf_timeoutMs = 1000, hf_maxRedirects = 5, hf_maxBodyBytes = 100\<rparr>"

lemma httpFetch_outcome_witness:
  "\<exists>r tr w'. httpFetch demo_http ''https://example.com/a'' demo_config 0 = ((r, tr), w')
     \<and> filter is_outcome tr = [MFetch ''success'' None] \<and> length (filter is_http_request tr) = 2"
proof -
  obtain r tr w' where o: "httpFetch demo_http ''https://example.com/a'' demo_config 0 = ((r, tr), w')"
    by (metis prod.collapse)
  have e: "isOk (fst (fst (httpFetch demo_http ''https://example.com/a'' demo_config 0)))
     \<and> length (filter is_http_request (snd (fst (httpFetch demo_http ''https://example.com/a'' demo_config 0)))) = 2"
    by code_simp
  then obtain d where "r = Ok d" "length (filter is_http_request tr) = 2"
    unfolding o by (auto simp: isOk_iff)
  with httpFetch_outcome [OF o] o show ?thesis by (auto simp: outcome_event_def)
qed

end
