(* ===== verification/LruMap.thy ===== *)
theory LruMap
  imports JsMap
begin

text \<open>
  packages/http-fetching/src/lru-map.ts: a bounded map that evicts the least recently used key. The
  locale \<open>bounded_cache\<close> is the contract of a bounded registry; \<open>LruMap\<close> interprets it here
  and the registry of circuit breakers in its own theory.
\<close>

section \<open>The contract of a bounded cache\<close>

locale bounded_cache =
  fixes touch :: "'s \<Rightarrow> 'k \<Rightarrow> 'v \<Rightarrow> 's"
    and keys_of :: "'s \<Rightarrow> 'k set"
    and size_of :: "'s \<Rightarrow> nat"
    and cap :: nat
    and wf :: "'s \<Rightarrow> bool"
  assumes touch_wf: "wf s \<Longrightarrow> wf (touch s k v)"
    and touch_bound: "wf s \<Longrightarrow> size_of s \<le> cap \<Longrightarrow> size_of (touch s k v) \<le> cap"
    and touch_present: "wf s \<Longrightarrow> k \<in> keys_of (touch s k v)"
    and touch_frame: "wf s \<Longrightarrow> keys_of (touch s k v) \<subseteq> insert k (keys_of s)"
begin

lemma touches_bound:
  "wf s \<Longrightarrow> size_of s \<le> cap \<Longrightarrow>
     wf (foldl (\<lambda>s (k, v). touch s k v) s kvs) \<and> size_of (foldl (\<lambda>s (k, v). touch s k v) s kvs) \<le> cap"
  by (induction kvs arbitrary: s) (auto simp: touch_wf touch_bound)

lemma touches_frame:
  "wf s \<Longrightarrow> keys_of (foldl (\<lambda>s (k, v). touch s k v) s kvs) \<subseteq> fst ` set kvs \<union> keys_of s"
proof (induction kvs arbitrary: s)
  case (Cons kv kvs)
  obtain k v where kv: "kv = (k, v)" by force
  have "keys_of (foldl (\<lambda>s (k, v). touch s k v) (touch s k v) kvs) \<subseteq> fst ` set kvs \<union> keys_of (touch s k v)"
    using Cons by (simp add: touch_wf)
  then show ?case using touch_frame [OF Cons.prems, of k v] kv by auto
qed simp

lemma last_touch_present:
  "wf s \<Longrightarrow> k \<in> keys_of (foldl (\<lambda>s (k, v). touch s k v) s (kvs @ [(k, v)]))"
proof -
  assume "wf s"
  then have "wf (foldl (\<lambda>s (k, v). touch s k v) s kvs)"
    by (induction kvs arbitrary: s) (auto simp: touch_wf)
  then show ?thesis by (simp add: touch_present)
qed

end

section \<open>lru-map.ts\<close>

record ('k, 'v) LruMap =
  lru_map :: "('k, 'v) js_map"
  lru_maxSize :: int

definition lru_range_error :: thrown where
  "lru_range_error = ThrownError
     \<lparr>err_dom = False, err_name = ''RangeError'', err_message = ''LruMap maxSize must be >= 1'', err_code = None\<rparr>"

definition lru_new :: "int \<Rightarrow> ('k, 'v) LruMap completion" where
  "lru_new maxSize =
     (if maxSize < 1 then Throw lru_range_error else Return \<lparr>lru_map = [], lru_maxSize = maxSize\<rparr>)"

definition lru_get :: "('k, 'v) LruMap \<Rightarrow> 'k \<Rightarrow> 'v option \<times> ('k, 'v) LruMap" where
  "lru_get l key =
     (let value = jsmap_get (lru_map l) key
      in case value of
           Some v \<Rightarrow> (value, l\<lparr>lru_map := jsmap_set (jsmap_delete (lru_map l) key) key v\<rparr>)
         | None \<Rightarrow> (value, l))"

text \<open>
  The eviction loop: while the map is full, its first key is deleted. On an empty map with a
  capacity below one the loop of the code never ends (\<open>None\<close>); the constructor excludes it.
\<close>

fun evict_loop :: "int \<Rightarrow> ('k, 'v) js_map \<Rightarrow> ('k, 'v) js_map option" where
  "evict_loop maxSize [] = (if maxSize \<le> 0 then None else Some [])"
| "evict_loop maxSize (p # m) =
     (if maxSize \<le> int (length (p # m)) then evict_loop maxSize m else Some (p # m))"

definition lru_set :: "('k, 'v) LruMap \<Rightarrow> 'k \<Rightarrow> 'v \<Rightarrow> ('k, 'v) LruMap option" where
  "lru_set l key v =
     (let m = (if jsmap_has (lru_map l) key then jsmap_delete (lru_map l) key else lru_map l)
      in map_option (\<lambda>m'. l\<lparr>lru_map := jsmap_set m' key v\<rparr>) (evict_loop (lru_maxSize l) m))"

definition lru_has :: "('k, 'v) LruMap \<Rightarrow> 'k \<Rightarrow> bool" where
  "lru_has l key = jsmap_has (lru_map l) key"

definition lru_delete :: "('k, 'v) LruMap \<Rightarrow> 'k \<Rightarrow> bool \<times> ('k, 'v) LruMap" where
  "lru_delete l key = (jsmap_has (lru_map l) key, l\<lparr>lru_map := jsmap_delete (lru_map l) key\<rparr>)"

definition lru_size :: "('k, 'v) LruMap \<Rightarrow> nat" where
  "lru_size l = jsmap_size (lru_map l)"

definition lru_clear :: "('k, 'v) LruMap \<Rightarrow> ('k, 'v) LruMap" where
  "lru_clear l = l\<lparr>lru_map := []\<rparr>"

section \<open>Least recently used\<close>

lemma evict_loop_eq:
  "0 < maxSize \<Longrightarrow> evict_loop maxSize m = Some (drop (Suc (length m) - nat maxSize) m)"
  by (induction maxSize m rule: evict_loop.induct) (auto simp: Suc_diff_le nat_le_iff)

definition lru_ok :: "('k, 'v) LruMap \<Rightarrow> bool" where
  "lru_ok l = (0 < lru_maxSize l \<and> jsmap_wf (lru_map l))"

lemma jsmap_delete_absent: "\<not> jsmap_has m k \<Longrightarrow> jsmap_delete m k = m"
  by (auto simp: jsmap_has_def jsmap_get_None_iff jsmap_delete_def filter_fst_absent)

lemma lru_set_Some:
  assumes "lru_ok l"
  shows "lru_set l k v = Some (l\<lparr>lru_map :=
    drop (Suc (length (jsmap_delete (lru_map l) k)) - nat (lru_maxSize l)) (jsmap_delete (lru_map l) k) @ [(k, v)]\<rparr>)"
proof -
  let ?m = "jsmap_delete (lru_map l) k" and ?n = "Suc (length (jsmap_delete (lru_map l) k)) - nat (lru_maxSize l)"
  have "(if jsmap_has (lru_map l) k then ?m else lru_map l) = ?m"
    by (simp add: jsmap_delete_absent)
  moreover have "k \<notin> fst ` set (drop ?n ?m)"
    by (auto simp: jsmap_delete_def dest!: in_set_dropD)
  then have "jsmap_set (drop ?n ?m) k v = drop ?n ?m @ [(k, v)]"
    by (intro jsmap_set_new) (simp add: jsmap_get_None_iff)
  ultimately show ?thesis
    using assms by (simp add: lru_set_def lru_ok_def evict_loop_eq Let_def)
qed

lemma lru_set_ok:
  assumes "lru_ok l" "lru_set l k v = Some l'"
  shows "lru_ok l' \<and> lru_maxSize l' = lru_maxSize l"
proof -
  have "distinct (map fst (jsmap_delete (lru_map l) k))"
    using assms(1) by (simp add: lru_ok_def jsmap_wf_def jsmap_delete_def distinct_fst_filter)
  moreover have "k \<notin> fst ` set (jsmap_delete (lru_map l) k)" by (auto simp: jsmap_delete_def)
  ultimately show ?thesis
    using assms by (auto simp: lru_set_Some lru_ok_def jsmap_wf_def drop_map [symmetric] dest!: in_set_dropD)
qed

lemma lru_get_ok: "lru_ok l \<Longrightarrow> lru_ok (snd (lru_get l k)) \<and> lru_maxSize (snd (lru_get l k)) = lru_maxSize l"
  by (auto simp: lru_get_def lru_ok_def Let_def jsmap_laws split: option.splits)

text \<open>Setting never fails on a map the constructor built, so the total reading is used from here on.\<close>

definition lru_put :: "('k, 'v) LruMap \<Rightarrow> 'k \<Rightarrow> 'v \<Rightarrow> ('k, 'v) LruMap" where
  "lru_put l k v = (case lru_set l k v of Some l' \<Rightarrow> l' | None \<Rightarrow> l)"

lemma lru_put_ok: "lru_ok l \<Longrightarrow> lru_ok (lru_put l k v) \<and> lru_maxSize (lru_put l k v) = lru_maxSize l"
  using lru_set_ok [of l k v] by (auto simp: lru_put_def split: option.splits)

lemma lru_put_map:
  "lru_ok l \<Longrightarrow> lru_map (lru_put l k v) =
     drop (Suc (length (jsmap_delete (lru_map l) k)) - nat (lru_maxSize l)) (jsmap_delete (lru_map l) k) @ [(k, v)]"
  by (simp add: lru_put_def lru_set_Some)

interpretation lru: bounded_cache lru_put "\<lambda>l. fst ` set (lru_map l)" lru_size n "\<lambda>l. lru_ok l \<and> lru_maxSize l = int n" for n
proof
  fix l :: "('a, 'b) LruMap" and k v
  assume l: "lru_ok l \<and> lru_maxSize l = int n"
  then show "lru_ok (lru_put l k v) \<and> lru_maxSize (lru_put l k v) = int n" by (simp add: lru_put_ok)
  show "lru_size (lru_put l k v) \<le> n"
    using l by (auto simp: lru_size_def lru_put_map lru_ok_def)
  show "k \<in> fst ` set (lru_map (lru_put l k v))" using l by (simp add: lru_put_map)
  show "fst ` set (lru_map (lru_put l k v)) \<subseteq> insert k (fst ` set (lru_map l))"
    using l by (auto simp: lru_put_map jsmap_delete_def dest!: in_set_dropD)
qed

lemma remdups_snoc: "remdups (xs @ [x]) = removeAll x (remdups xs) @ [x]"
  by (induction xs) auto

lemma take_removeAll:
  "distinct xs \<Longrightarrow> take n (removeAll k (take (Suc n) xs)) = take n (removeAll k xs)"
proof (induction xs arbitrary: n)
  case (Cons x xs)
  show ?case
  proof (cases "x = k")
    case True
    then have "removeAll k xs = xs" "removeAll k (take n xs) = take n xs"
      using Cons.prems by (auto intro!: removeAll_id dest: in_set_takeD)
    with True show ?thesis by simp
  next
    case False
    with Cons show ?thesis by (cases n) simp_all
  qed
qed simp

lemma keys_delete: "map fst (jsmap_delete m k) = removeAll k (map fst m)"
  by (induction m) (auto simp: jsmap_delete_def)

lemma drop_rev_take: "drop (Suc (length xs) - Suc n) xs = rev (take n (rev xs))"
  by (simp add: take_rev)

lemma removeAll_rev: "removeAll k (rev xs) = rev (removeAll k xs)"
  by (simp add: removeAll_filter_not_eq rev_filter)

lemma lru_put_keys:
  assumes "lru_ok l" "lru_maxSize l = int (Suc n)"
  shows "rev (map fst (lru_map (lru_put l k v))) = k # take n (removeAll k (rev (map fst (lru_map l))))"
proof -
  have "nat (lru_maxSize l) = Suc n" using assms by simp
  then have "map fst (lru_map (lru_put l k v)) = rev (take n (rev (removeAll k (map fst (lru_map l))))) @ [k]"
    using assms
    by (simp add: lru_put_map keys_delete drop_map [symmetric] drop_rev_take [symmetric]
        length_map [of fst "jsmap_delete (lru_map l) k", symmetric] del: length_map)
  then show ?thesis by (simp add: removeAll_rev)
qed

text \<open>C33: After any sequence of insertions into a fresh map the keys are exactly the \<open>maxSize\<close> most recently
  inserted distinct keys, oldest first: the eviction policy is least-recently-used and nothing else.\<close>

theorem lru_keeps_most_recent:
  assumes "lru_new (int (Suc n)) = Return l"
  shows "map fst (lru_map (foldl (\<lambda>l (k, v). lru_put l k v) l kvs))
    = rev (take (Suc n) (rev (remdups (map fst kvs))))"
proof -
  let ?run = "\<lambda>kvs. foldl (\<lambda>l (k, v). lru_put l k v) l kvs"
  have l: "lru_ok l" "lru_maxSize l = int (Suc n)" "lru_map l = []"
    using assms by (auto simp: lru_new_def lru_ok_def jsmap_wf_def split: if_splits)
  have ok: "lru_ok (?run kvs) \<and> lru_maxSize (?run kvs) = int (Suc n)" for kvs
    using lru.touches_bound [of l "Suc n" kvs] l by (auto simp: lru_size_def)
  have "rev (map fst (lru_map (?run kvs))) = take (Suc n) (rev (remdups (map fst kvs)))"
  proof (induction kvs rule: rev_induct)
    case (snoc kv kvs)
    obtain k v where kv: "kv = (k, v)" by force
    have "rev (map fst (lru_map (?run (kvs @ [kv])))) = k # take n (removeAll k (rev (map fst (lru_map (?run kvs)))))"
      using ok [of kvs] kv by (simp add: lru_put_keys)
    also have "\<dots> = k # take n (removeAll k (take (Suc n) (rev (remdups (map fst kvs)))))"
      by (simp only: snoc)
    also have "\<dots> = k # take n (removeAll k (rev (remdups (map fst kvs))))"
      by (simp only: take_removeAll [of "rev (remdups (map fst kvs))"] distinct_rev distinct_remdups)
    finally show ?case using kv by (simp add: remdups_snoc removeAll_rev)
  qed (simp add: l)
  then show ?thesis by (metis rev_rev_ident)
qed

lemma lru_keeps_most_recent_witness:
  "\<exists>l. lru_new 2 = Return l \<and>
     map fst (lru_map (foldl (\<lambda>l (k, v). lru_put l k v) l [(1::nat, ''a''), (2, ''b''), (1, ''c''), (3, ''d'')])) = [1, 3]"
proof -
  have l: "lru_new (int (Suc 1)) = Return (\<lparr>lru_map = [], lru_maxSize = 2\<rparr> :: (nat, string) LruMap)"
    by (simp add: lru_new_def)
  from lru_keeps_most_recent [OF l, of "[(1, ''a''), (2, ''b''), (1, ''c''), (3, ''d'')]"]
  show ?thesis using l by simp
qed

end
