(* ===== verification/Politeness.thy ===== *)
theory Politeness
  imports LruMap JsString
begin

text \<open>
  packages/http-fetching/src/politeness-controller.ts: the per-domain delay. A promise chain is
  the time at which its last promise settles, so \<open>prev.then(() => delay(d))\<close> awaited at time
  \<open>now\<close> settles at \<open>max now prev + d\<close>. The public-suffix lookup of \<open>tldts\<close> is the parameter
  \<open>get_domain\<close>.
\<close>

record PolitenessConfig =
  pc_delayMs :: int
  pc_maxDomains :: int
  pc_staleThresholdMs :: int

definition DEFAULT_POLITENESS_CONFIG :: PolitenessConfig where
  "DEFAULT_POLITENESS_CONFIG = \<lparr>pc_delayMs = 2000, pc_maxDomains = 10000, pc_staleThresholdMs = 600000\<rparr>"

record DomainEntry =
  dn_chain :: int
  dn_lastAccessMs :: int

record PolitenessController =
  po_domains :: "(string, DomainEntry) LruMap"
  po_config :: PolitenessConfig
  po_pruneTimer :: bool

definition po_new :: "PolitenessConfig \<Rightarrow> PolitenessController completion" where
  "po_new config =
     (case lru_new (pc_maxDomains config) of
        Throw t \<Rightarrow> Throw t
      | Return m \<Rightarrow> Return \<lparr>po_domains = m, po_config = config, po_pruneTimer = (0 < pc_staleThresholdMs config)\<rparr>)"

definition getRegistrableDomain :: "(string \<Rightarrow> string option) \<Rightarrow> string \<Rightarrow> string" where
  "getRegistrableDomain get_domain hostname =
     to_lower (case get_domain hostname of Some d \<Rightarrow> d | None \<Rightarrow> hostname)"

text \<open>The value is the time at which the awaiting caller goes on.\<close>

definition po_acquire ::
  "(string \<Rightarrow> string option) \<Rightarrow> string \<Rightarrow> int \<Rightarrow> PolitenessController \<Rightarrow> int \<times> PolitenessController" where
  "po_acquire get_domain hostname now c =
     (let domain = getRegistrableDomain get_domain hostname;
          (existing, m) = lru_get (po_domains c) domain
      in case existing of
           None \<Rightarrow> (now, c\<lparr>po_domains := lru_put m domain \<lparr>dn_chain = now, dn_lastAccessMs = now\<rparr>\<rparr>)
         | Some e \<Rightarrow>
             (let nxt = max now (dn_chain e) + pc_delayMs (po_config c)
              in (nxt, c\<lparr>po_domains := lru_put m domain \<lparr>dn_chain = nxt, dn_lastAccessMs = now\<rparr>\<rparr>)))"

definition po_release ::
  "(string \<Rightarrow> string option) \<Rightarrow> string \<Rightarrow> int \<Rightarrow> PolitenessController \<Rightarrow> PolitenessController" where
  "po_release get_domain hostname now c =
     (let domain = getRegistrableDomain get_domain hostname;
          (entry, m) = lru_get (po_domains c) domain
      in case entry of
           None \<Rightarrow> c\<lparr>po_domains := m\<rparr>
         | Some e \<Rightarrow> c\<lparr>po_domains := m\<lparr>lru_map := jsmap_set (lru_map m) domain (e\<lparr>dn_lastAccessMs := now\<rparr>)\<rparr>\<rparr>)"

text \<open>Deleting the current entry while iterating a \<open>Map\<close> does not disturb the iteration.\<close>

definition po_pruneStale :: "int \<Rightarrow> PolitenessController \<Rightarrow> nat \<times> PolitenessController" where
  "po_pruneStale now c =
     (let cutoff = now - pc_staleThresholdMs (po_config c);
          m = lru_map (po_domains c);
          kept = filter (\<lambda>(d, e). \<not> dn_lastAccessMs e < cutoff) m
      in (length m - length kept, c\<lparr>po_domains := (po_domains c)\<lparr>lru_map := kept\<rparr>\<rparr>))"

definition po_trackedDomains :: "PolitenessController \<Rightarrow> nat" where
  "po_trackedDomains c = lru_size (po_domains c)"

definition po_dispose :: "PolitenessController \<Rightarrow> PolitenessController" where
  "po_dispose c = c\<lparr>po_pruneTimer := False, po_domains := lru_clear (po_domains c)\<rparr>"

section \<open>The delay between two grants\<close>

datatype po_op = OpAcquire string int | OpRelease string int | OpPrune int

fun po_step :: "(string \<Rightarrow> string option) \<Rightarrow> PolitenessController \<Rightarrow> po_op \<Rightarrow> PolitenessController" where
  "po_step gd c (OpAcquire h now) = snd (po_acquire gd h now c)"
| "po_step gd c (OpRelease h now) = po_release gd h now c"
| "po_step gd c (OpPrune now) = snd (po_pruneStale now c)"

definition po_chain :: "PolitenessController \<Rightarrow> string \<Rightarrow> int option" where
  "po_chain c d = map_option dn_chain (jsmap_get (lru_map (po_domains c)) d)"

definition po_inv :: "PolitenessController \<Rightarrow> bool" where
  "po_inv c = (lru_ok (po_domains c) \<and> 0 \<le> pc_delayMs (po_config c)
     \<and> lru_maxSize (po_domains c) = pc_maxDomains (po_config c)
     \<and> int (lru_size (po_domains c)) \<le> pc_maxDomains (po_config c))"

lemma filter_get: "jsmap_wf m \<Longrightarrow> jsmap_get (filter P m) k = Some v \<Longrightarrow> jsmap_get m k = Some v"
  by (auto simp: jsmap_get_def jsmap_wf_def distinct_map_filter)

lemma lru_put_get:
  "lru_ok l \<Longrightarrow> jsmap_get (lru_map (lru_put l k v)) k' = Some x \<Longrightarrow>
    (if k' = k then x = v else jsmap_get (lru_map l) k' = Some x)"
proof -
  assume l: "lru_ok l" and g: "jsmap_get (lru_map (lru_put l k v)) k' = Some x"
  let ?m = "jsmap_delete (lru_map l) k"
  let ?d = "drop (Suc (length ?m) - nat (lru_maxSize l)) ?m"
  have wf: "jsmap_wf ?m" using l by (simp add: lru_ok_def jsmap_laws)
  then have "distinct (map fst ?d)" by (simp add: jsmap_wf_def drop_map [symmetric])
  then have "jsmap_get ?m k' = Some x" if "jsmap_get ?d k' = Some x"
    using that wf by (auto simp: jsmap_get_def jsmap_wf_def dest: in_set_dropD)
  moreover have "k \<notin> fst ` set ?d" by (auto simp: jsmap_delete_def dest!: in_set_dropD)
  ultimately show ?thesis
    using g l by (auto simp: lru_put_map jsmap_get_def map_add_def jsmap_get_delete [unfolded jsmap_get_def]
        split: option.splits if_splits)
qed

lemma lru_get_get:
  assumes "lru_ok l"
  shows "fst (lru_get l k) = jsmap_get (lru_map l) k \<and> jsmap_get (lru_map (snd (lru_get l k))) k' = jsmap_get (lru_map l) k'
    \<and> lru_size (snd (lru_get l k)) = lru_size l"
proof (cases "jsmap_get (lru_map l) k")
  case (Some v)
  have "jsmap_wf (lru_map l)" using assms by (simp add: lru_ok_def)
  then have "length (jsmap_delete (lru_map l) k) = length (lru_map l) - 1" "0 < length (lru_map l)"
    using Some by (auto simp: length_jsmap_delete jsmap_get_def)
  with Some show ?thesis
    by (auto simp: lru_get_def jsmap_laws lru_size_def length_jsmap_set)
qed (simp add: lru_get_def)

lemma po_put_inv:
  assumes "po_inv c"
  shows "po_inv (c\<lparr>po_domains := lru_put (snd (lru_get (po_domains c) d)) d e\<rparr>)"
proof -
  let ?l = "snd (lru_get (po_domains c) d)"
  have l: "lru_ok ?l" "lru_maxSize ?l = lru_maxSize (po_domains c)" "lru_size ?l = lru_size (po_domains c)"
    using assms lru_get_ok [of "po_domains c" d] lru_get_get [of "po_domains c" d] by (auto simp: po_inv_def)
  moreover have "0 < lru_maxSize ?l" using l(1) by (simp add: lru_ok_def)
  ultimately have "lru_size (lru_put ?l d e) \<le> nat (lru_maxSize ?l)"
    using assms lru.touch_bound [of ?l "nat (lru_maxSize ?l)" d e] by (auto simp: po_inv_def)
  with assms l \<open>0 < lru_maxSize ?l\<close> lru_put_ok [OF l(1), of d e] show ?thesis
    by (auto simp: po_inv_def)
qed

interpretation politeness: step_system "po_step gd" po_inv for gd
proof
  fix c e
  assume c: "po_inv c"
  show "po_inv (po_step gd c e)"
  proof (cases e)
    case (OpAcquire h now)
    with po_put_inv [OF c] show ?thesis
      by (auto simp: po_acquire_def Let_def split_def split: option.splits)
  next
    case (OpRelease h now)
    let ?d = "getRegistrableDomain gd h"
    have "lru_ok (snd (lru_get (po_domains c) ?d))" "lru_maxSize (snd (lru_get (po_domains c) ?d)) = lru_maxSize (po_domains c)"
      "lru_size (snd (lru_get (po_domains c) ?d)) = lru_size (po_domains c)"
      using c lru_get_ok [of "po_domains c" ?d] lru_get_get [of "po_domains c" ?d] by (auto simp: po_inv_def)
    moreover have "jsmap_get (lru_map (snd (lru_get (po_domains c) ?d))) ?d = fst (lru_get (po_domains c) ?d)"
      using c lru_get_get [of "po_domains c" ?d ?d] by (auto simp: po_inv_def)
    ultimately show ?thesis using c OpRelease
      by (auto simp: po_release_def Let_def split_def po_inv_def lru_ok_def lru_size_def jsmap_laws length_jsmap_set
          split: option.splits)
  next
    case (OpPrune now)
    with c show ?thesis
      by (auto simp: po_pruneStale_def Let_def po_inv_def lru_ok_def lru_size_def jsmap_wf_def distinct_fst_filter
          intro!: order_trans [OF of_nat_mono [OF length_filter_le]])
  qed
qed

interpretation politeness_config: step_frame "po_step gd" po_config for gd
proof
  fix c e
  show "po_config (po_step gd c e) = po_config c"
    by (cases e) (auto simp: po_acquire_def po_release_def po_pruneStale_def Let_def split_def split: option.splits)
qed

lemma po_acquire_grant:
  assumes "po_inv c" "po_acquire gd h now c = (g, c')"
  shows "po_chain c' (getRegistrableDomain gd h) = Some g \<and> po_config c' = po_config c
    \<and> (case po_chain c (getRegistrableDomain gd h) of None \<Rightarrow> g = now
       | Some prev \<Rightarrow> g = max now prev + pc_delayMs (po_config c))"
proof -
  let ?d = "getRegistrableDomain gd h" and ?l = "snd (lru_get (po_domains c) (getRegistrableDomain gd h))"
  have l: "lru_ok ?l" "fst (lru_get (po_domains c) ?d) = jsmap_get (lru_map (po_domains c)) ?d"
    using assms lru_get_ok [of "po_domains c" ?d] lru_get_get [of "po_domains c" ?d] by (auto simp: po_inv_def)
  have "jsmap_get (lru_map (lru_put ?l ?d e)) ?d = Some e" for e
  proof -
    have "jsmap_has (lru_map (lru_put ?l ?d e)) ?d"
      using l(1) by (simp add: lru_put_map jsmap_has_def jsmap_get_None_iff)
    then show ?thesis using lru_put_get [OF l(1), of ?d e ?d] by (auto simp: jsmap_has_def)
  qed
  with assms l(2) show ?thesis
    by (auto simp: po_acquire_def Let_def split_def po_chain_def split: option.splits)
qed

lemma po_acquire_chain:
  assumes "po_inv c" "po_acquire gd h now c = (g, c')" "po_chain c' d = Some x"
  shows "if d = getRegistrableDomain gd h then x = g else po_chain c d = Some x"
proof -
  let ?d = "getRegistrableDomain gd h" and ?l = "snd (lru_get (po_domains c) (getRegistrableDomain gd h))"
  have l: "lru_ok ?l" "jsmap_get (lru_map ?l) d = jsmap_get (lru_map (po_domains c)) d"
    using assms lru_get_ok [of "po_domains c" ?d] lru_get_get [of "po_domains c" ?d d] by (auto simp: po_inv_def)
  obtain e where c': "c' = c\<lparr>po_domains := lru_put ?l ?d e\<rparr>"
    using assms(2) by (auto simp: po_acquire_def Let_def split_def split: option.splits)
  have "po_chain c' ?d = Some g" using po_acquire_grant [OF assms(1,2)] by simp
  with assms(3) lru_put_get [OF l(1), of ?d e d] l(2) show ?thesis
    by (auto simp: c' po_chain_def)
qed

lemma po_step_chain:
  assumes "po_inv c" "po_chain (po_step gd c e) d = Some x" "po_chain c d = Some y"
  shows "y \<le> x"
proof (cases e)
  case (OpAcquire h now)
  obtain g c' where a: "po_acquire gd h now c = (g, c')" by fastforce
  have "0 \<le> pc_delayMs (po_config c)" using assms(1) by (simp add: po_inv_def)
  with assms OpAcquire a po_acquire_chain [OF assms(1) a, of d x] po_acquire_grant [OF assms(1) a]
  show ?thesis by (auto split: if_splits)
next
  case (OpRelease h now)
  let ?d = "getRegistrableDomain gd h"
  have g: "jsmap_get (lru_map (snd (lru_get (po_domains c) ?d))) d = jsmap_get (lru_map (po_domains c)) d"
    "fst (lru_get (po_domains c) ?d) = jsmap_get (lru_map (po_domains c)) ?d"
    using assms(1) lru_get_get [of "po_domains c" ?d d] by (auto simp: po_inv_def)
  with assms OpRelease show ?thesis
    by (auto simp: po_release_def Let_def split_def po_chain_def jsmap_laws split: option.splits if_splits)
next
  case (OpPrune now)
  have "jsmap_wf (lru_map (po_domains c))" using assms(1) by (simp add: po_inv_def lru_ok_def)
  from filter_get [OF this] assms OpPrune show ?thesis
    by (auto simp: po_pruneStale_def Let_def po_chain_def)
qed

lemma po_run_chain:
  "po_inv c \<Longrightarrow> po_chain c d = Some y \<Longrightarrow> \<forall>n. po_chain (foldl (po_step gd) c (take n ops)) d \<noteq> None \<Longrightarrow>
     \<exists>x. po_chain (foldl (po_step gd) c ops) d = Some x \<and> y \<le> x"
proof (induction ops arbitrary: c y)
  case (Cons e ops)
  obtain x where x: "po_chain (po_step gd c e) d = Some x"
    using Cons.prems(3) [rule_format, of 1] by auto
  have "\<forall>n. po_chain (foldl (po_step gd) (po_step gd c e) (take n ops)) d \<noteq> None"
    using Cons.prems(3) by (metis foldl_Cons take_Suc_Cons)
  with Cons.IH [OF politeness.step_inv [OF Cons.prems(1)] x] obtain z where
    "po_chain (foldl (po_step gd) (po_step gd c e) ops) d = Some z" "x \<le> z" by blast
  with po_step_chain [OF Cons.prems(1) x Cons.prems(2)] show ?case by auto
qed simp

text \<open>C34: Two grants to the same registrable domain are at least the configured delay apart, however many
  acquisitions, releases and prunings of any domains lie between them, as long as the domain stays tracked.\<close>

theorem politeness_gap:
  assumes "po_inv c" "po_acquire gd h now c = (g, c1)"
    and "\<forall>n. po_chain (foldl (po_step gd) c1 (take n ops)) (getRegistrableDomain gd h) \<noteq> None"
    and "po_acquire gd h' now' (foldl (po_step gd) c1 ops) = (g', c2)"
    and "getRegistrableDomain gd h' = getRegistrableDomain gd h"
  shows "g + pc_delayMs (po_config c) \<le> g'"
proof -
  have c1: "po_inv c1" using politeness.step_inv [OF assms(1), of gd "OpAcquire h now"] assms(2) by simp
  have "po_chain c1 (getRegistrableDomain gd h) = Some g" using po_acquire_grant [OF assms(1,2)] by simp
  from po_run_chain [OF c1 this assms(3)] obtain x where
    "po_chain (foldl (po_step gd) c1 ops) (getRegistrableDomain gd h) = Some x" "g \<le> x" by blast
  moreover have "po_config (foldl (po_step gd) c1 ops) = po_config c"
    using po_acquire_grant [OF assms(1,2)] by (simp add: politeness_config.run_view)
  ultimately show ?thesis using po_acquire_grant [OF politeness.run_inv [OF c1] assms(4)] assms(5) by auto
qed

lemma politeness_gap_witness:
  "\<exists>c c1 c2 g g'. po_new \<lparr>pc_delayMs = 2000, pc_maxDomains = 2, pc_staleThresholdMs = 0\<rparr> = Return c
     \<and> po_acquire Some ''a.org'' 100 c = (g, c1)
     \<and> po_acquire Some ''A.org'' 300 (foldl (po_step Some) c1 [OpAcquire ''b.org'' 200]) = (g', c2) \<and> g + 2000 \<le> g'"
proof -
  define c :: PolitenessController where "c = \<lparr>po_domains = \<lparr>lru_map = [], lru_maxSize = 2\<rparr>,
    po_config = \<lparr>pc_delayMs = 2000, pc_maxDomains = 2, pc_staleThresholdMs = 0\<rparr>, po_pruneTimer = False\<rparr>"
  define c1 where "c1 = snd (po_acquire Some ''a.org'' 100 c)"
  let ?b = "foldl (po_step Some) c1 [OpAcquire ''b.org'' 200]"
  have new: "po_new \<lparr>pc_delayMs = 2000, pc_maxDomains = 2, pc_staleThresholdMs = 0\<rparr> = Return c"
    by (simp add: po_new_def lru_new_def c_def)
  have inv: "po_inv c" by (simp add: c_def po_inv_def lru_ok_def jsmap_wf_def lru_size_def)
  have d: "getRegistrableDomain Some ''a.org'' = ''a.org''" "getRegistrableDomain Some ''A.org'' = ''a.org''" by code_simp+
  have "po_chain c1 ''a.org'' = Some 100 \<and> po_chain ?b ''a.org'' = Some 100" unfolding c1_def c_def by code_simp
  then have "po_chain (foldl (po_step Some) c1 (take n [OpAcquire ''b.org'' 200])) ''a.org'' \<noteq> None" for n
    by (cases n) auto
  moreover have "po_acquire Some ''a.org'' 100 c = (fst (po_acquire Some ''a.org'' 100 c), c1)"
    "po_acquire Some ''A.org'' 300 ?b = (fst (po_acquire Some ''A.org'' 300 ?b), snd (po_acquire Some ''A.org'' 300 ?b))"
    by (simp_all add: c1_def)
  ultimately have "fst (po_acquire Some ''a.org'' 100 c) + pc_delayMs (po_config c) \<le> fst (po_acquire Some ''A.org'' 300 ?b)"
    using politeness_gap [OF inv, of Some "''a.org''" 100 _ c1 "[OpAcquire ''b.org'' 200]" "''A.org''" 300] d by metis
  moreover have "pc_delayMs (po_config c) = 2000" by (simp add: c_def)
  ultimately show ?thesis using new
    by (intro exI [of _ c] exI [of _ c1] exI [of _ "snd (po_acquire Some ''A.org'' 300 ?b)"]
          exI [of _ "fst (po_acquire Some ''a.org'' 100 c)"] exI [of _ "fst (po_acquire Some ''A.org'' 300 ?b)"])
      (simp add: c1_def)
qed

end
