(* ===== verification/ResilientFetcher.thy ===== *)
theory ResilientFetcher
  imports HttpFetcher
begin

text \<open>
  packages/http-fetching/src/resilient-fetcher.ts: the fetch behind the rate limit and the policy
  of its domain. The port is a record of functions of the world; running a policy on a function is
  the library's \<open>execute\<close>.
\<close>

type_synonym fetch_outcome = "(FetchError, FetchResultData) result \<times> ht_event list"

record 'w FetchPolicyPort =
  pp_checkRateLimit :: "string \<Rightarrow> 'w \<Rightarrow> bool \<times> 'w"
  pp_execute :: "string \<Rightarrow> ('w \<Rightarrow> fetch_outcome completion \<times> 'w) \<Rightarrow> 'w \<Rightarrow> fetch_outcome completion \<times> 'w"

datatype ResilientFetchError = RfFetch FetchError | RfRateLimited string string

definition resilientFetch ::
  "'w http_env \<Rightarrow> string \<Rightarrow> string \<Rightarrow> FetcherConfig \<Rightarrow> 'w FetchPolicyPort \<Rightarrow> 'w
     \<Rightarrow> (ResilientFetchError, FetchResultData) result \<times> 'w" where
  "resilientFetch env url domain config stack w =
     (case pp_checkRateLimit stack domain w of
        (False, w1) \<Rightarrow> (Err (RfRateLimited domain (''Rate limit exceeded for domain '' @ domain)), w1)
      | (True, w1) \<Rightarrow>
          (case pp_execute stack domain
                  (\<lambda>v. case httpFetch env url config v of (r, v') \<Rightarrow> (Return r, v')) w1 of
             (Return (Ok d, _), w2) \<Rightarrow> (Ok d, w2)
           | (Return (Err e, _), w2) \<Rightarrow> (Err (RfFetch e), w2)
           | (Throw cause, w2) \<Rightarrow>
               (let m = thrown_message cause;
                    c = (case cause of ThrownError e \<Rightarrow> e | ThrownOther _ \<Rightarrow> new_Error m)
                in (Err (RfFetch (FeNetwork url c (''Resilience policy rejected: '' @ m))), w2))))"

text \<open>
  What the library documents of a policy that handles thrown errors, on a function that returns: the
  value is passed on and the function is not run again.
\<close>

definition passes_values :: "(('w \<Rightarrow> 'a completion \<times> 'w) \<Rightarrow> 'w \<Rightarrow> 'a completion \<times> 'w) \<Rightarrow> 'w \<Rightarrow> bool" where
  "passes_values execute w = (\<forall>fn v w'. fn w = (Return v, w') \<longrightarrow> execute fn w = (Return v, w'))"

text \<open>A failed fetch reaches the caller after a single attempt: the fetch reports failures as values and
  never throws, so a policy that reacts to thrown errors neither retries it nor counts it.\<close>

theorem resilient_fetch_single_attempt:
  assumes "pp_checkRateLimit stack domain w = (True, w1)" "passes_values (pp_execute stack domain) w1"
    and "httpFetch env url config w1 = ((Err e, tr), w2)"
  shows "resilientFetch env url domain config stack w = (Err (RfFetch e), w2)"
proof -
  have "pp_execute stack domain (\<lambda>v. case httpFetch env url config v of (r, v') \<Rightarrow> (Return r, v')) w1
      = (Return (Err e, tr), w2)"
    using assms(2,3) unfolding passes_values_def by simp
  with assms(1) show ?thesis by (simp add: resilientFetch_def)
qed

text \<open>A policy that runs the function up to three times while it throws; a client that answers 503.\<close>

definition retry_on_throw :: "nat FetchPolicyPort" where
  "retry_on_throw =
     \<lparr>pp_checkRateLimit = (\<lambda>d w. (True, w)),
      pp_execute = (\<lambda>d fn w. case fn w of (Return v, w') \<Rightarrow> (Return v, w')
         | (Throw _, w') \<Rightarrow> (case fn w' of (Return v, w'') \<Rightarrow> (Return v, w'') | (Throw _, w'') \<Rightarrow> fn w''))\<rparr>"

definition failing_http :: "nat http_env" where
  "failing_http = demo_http\<lparr>he_request := (\<lambda>t hs w. (Return \<lparr>hp_statusCode = 503, hp_headers = [], hp_body = []\<rparr>, w + 1))\<rparr>"

lemma resilient_fetch_single_attempt_witness:
  "\<exists>e. resilientFetch failing_http ''https://example.com/a'' ''example.com'' demo_config retry_on_throw 0 = (Err (RfFetch e), 1)
     \<and> fetch_error_kind e = ''http''"
proof -
  have "(case httpFetch failing_http ''https://example.com/a'' demo_config 0 of ((Err e, _), w2) \<Rightarrow> fetch_error_kind e = ''http'' \<and> w2 = 1
      | _ \<Rightarrow> False)"
    by code_simp
  then obtain e tr where f: "httpFetch failing_http ''https://example.com/a'' demo_config 0 = ((Err e, tr), 1)"
    "fetch_error_kind e = ''http''"
    by (auto split: prod.splits sum.splits)
  have "passes_values (pp_execute retry_on_throw ''example.com'') 0" "pp_checkRateLimit retry_on_throw ''example.com'' 0 = (True, 0)"
    by (simp_all add: passes_values_def retry_on_throw_def)
  from resilient_fetch_single_attempt [OF this(2,1) f(1)] f(2) show ?thesis by blast
qed

text \<open>Without a token nothing is fetched: the caller gets the rate-limit error and no policy runs; and whatever
  the policy throws comes back as a network error of the same URL.\<close>

theorem resilient_fetch_rejections:
  "(pp_checkRateLimit stack domain w = (False, w1) \<longrightarrow>
      resilientFetch env url domain config stack w
        = (Err (RfRateLimited domain (''Rate limit exceeded for domain '' @ domain)), w1))
   \<and> (pp_checkRateLimit stack domain w = (True, w1) \<and>
      pp_execute stack domain (\<lambda>v. case httpFetch env url config v of (r, v') \<Rightarrow> (Return r, v')) w1 = (Throw t, w2) \<longrightarrow>
      (\<exists>e. resilientFetch env url domain config stack w = (Err (RfFetch e), w2) \<and> fe_url e = url
         \<and> fetch_error_kind e = ''network'' \<and> fe_message e = ''Resilience policy rejected: '' @ thrown_message t))"
  by (auto simp: resilientFetch_def Let_def)

lemma resilient_fetch_rejections_witness:
  "resilientFetch failing_http ''u'' ''d'' demo_config (retry_on_throw\<lparr>pp_checkRateLimit := (\<lambda>d w. (False, w))\<rparr>) 7
     = (Err (RfRateLimited ''d'' ''Rate limit exceeded for domain d''), 7)"
  using resilient_fetch_rejections [of "retry_on_throw\<lparr>pp_checkRateLimit := (\<lambda>d w. (False, w))\<rparr>" "''d''" 7 7 failing_http "''u''" demo_config]
  by simp

end
