(* ===== verification/BreakerRegistry.thy ===== *)
theory BreakerRegistry
  imports LruMap JsString
begin

text \<open>
  packages/resilience/src/resilience-types.ts and circuit-breaker-registry.ts: the shared types and
  the per-domain registry of circuit breakers. A policy of the resilience library is recorded by
  the call that built it; the breakers and bulkheads, which have state of their own, carry the
  number of their creation as identity.
\<close>

section \<open>resilience-types.ts\<close>

record ResilienceConfig =
  rc_circuitBreakerThreshold :: int
  rc_circuitBreakerHalfOpenAfterMs :: int
  rc_retryMaxAttempts :: int
  rc_retryInitialDelayMs :: int
  rc_retryMaxDelayMs :: int
  rc_timeoutFetchMs :: int
  rc_timeoutDbMs :: int
  rc_timeoutRedisMs :: int
  rc_bulkheadMaxConcurrentPerDomain :: int
  rc_circuitBreakerMaxDomains :: int

definition DEFAULT_RESILIENCE_CONFIG :: ResilienceConfig where
  "DEFAULT_RESILIENCE_CONFIG =
     \<lparr>rc_circuitBreakerThreshold = 5, rc_circuitBreakerHalfOpenAfterMs = 30000, rc_retryMaxAttempts = 3,
      rc_retryInitialDelayMs = 1000, rc_retryMaxDelayMs = 30000, rc_timeoutFetchMs = 30000,
      rc_timeoutDbMs = 10000, rc_timeoutRedisMs = 5000, rc_bulkheadMaxConcurrentPerDomain = 2,
      rc_circuitBreakerMaxDomains = 10000\<rparr>"

text \<open>\<open>Partial<ResilienceConfig>\<close>: a field that is absent is \<open>None\<close>.\<close>

record PartialConfig =
  pt_circuitBreakerThreshold :: "int option"
  pt_circuitBreakerHalfOpenAfterMs :: "int option"
  pt_retryMaxAttempts :: "int option"
  pt_retryInitialDelayMs :: "int option"
  pt_retryMaxDelayMs :: "int option"
  pt_timeoutFetchMs :: "int option"
  pt_timeoutDbMs :: "int option"
  pt_timeoutRedisMs :: "int option"
  pt_bulkheadMaxConcurrentPerDomain :: "int option"
  pt_circuitBreakerMaxDomains :: "int option"

definition or_default :: "'a option \<Rightarrow> 'a \<Rightarrow> 'a" where
  "or_default v d = (case v of Some x \<Rightarrow> x | None \<Rightarrow> d)"

datatype ResilienceError =
    CircuitOpen string string
  | ReTimeout string int string
  | BulkheadRejected string string
  | RetriesExhausted string int string

definition createCircuitOpenError :: "string \<Rightarrow> ResilienceError" where
  "createCircuitOpenError domain = CircuitOpen domain (''Circuit open for domain '' @ domain)"

definition createTimeoutResilienceError :: "string \<Rightarrow> int \<Rightarrow> ResilienceError" where
  "createTimeoutResilienceError domain durationMs =
     ReTimeout domain durationMs (''Timeout after '' @ string_of_int durationMs @ ''ms for '' @ domain)"

definition createBulkheadRejectedError :: "string \<Rightarrow> ResilienceError" where
  "createBulkheadRejectedError domain = BulkheadRejected domain (''Bulkhead rejected for domain '' @ domain)"

definition createRetriesExhaustedError :: "string \<Rightarrow> int \<Rightarrow> ResilienceError" where
  "createRetriesExhaustedError domain attempts =
     RetriesExhausted domain attempts (''All '' @ string_of_int attempts @ '' retries exhausted for '' @ domain)"

section \<open>circuit-breaker-registry.ts\<close>

datatype policy =
    TimeoutPolicy int
  | RetryPolicy int int int
  | BreakerPolicy nat int int
  | BulkheadPolicy nat int
  | WrapPolicy "policy list"

record RegistryEntry =
  en_policy :: policy
  en_lastUsed :: int

record BreakerRegistry =
  br_threshold :: int
  br_halfOpenAfter :: int
  br_maxDomains :: int
  br_hasHandler :: bool
  br_entries :: "(string, RegistryEntry) js_map"
  br_disposables :: "nat list"
  br_created :: nat

definition createCircuitBreakerRegistry :: "PartialConfig \<Rightarrow> bool \<Rightarrow> BreakerRegistry" where
  "createCircuitBreakerRegistry config hasHandler =
     \<lparr>br_threshold = or_default (pt_circuitBreakerThreshold config) (rc_circuitBreakerThreshold DEFAULT_RESILIENCE_CONFIG),
      br_halfOpenAfter =
        or_default (pt_circuitBreakerHalfOpenAfterMs config) (rc_circuitBreakerHalfOpenAfterMs DEFAULT_RESILIENCE_CONFIG),
      br_maxDomains = or_default (pt_circuitBreakerMaxDomains config) (rc_circuitBreakerMaxDomains DEFAULT_RESILIENCE_CONFIG),
      br_hasHandler = hasHandler, br_entries = [], br_disposables = [], br_created = 0\<rparr>"

text \<open>The scan for the oldest entry; \<open>None\<close> stands for \<open>oldestTime = Infinity\<close>.\<close>

fun oldest_entry :: "(string, RegistryEntry) js_map \<Rightarrow> (string \<times> int) option \<Rightarrow> (string \<times> int) option" where
  "oldest_entry [] oldest = oldest"
| "oldest_entry ((domain, entry) # m) oldest =
     oldest_entry m
       (case oldest of
          None \<Rightarrow> Some (domain, en_lastUsed entry)
        | Some (d, oldestTime) \<Rightarrow>
            if en_lastUsed entry < oldestTime then Some (domain, en_lastUsed entry) else oldest)"

definition evictLRU :: "(string, RegistryEntry) js_map \<Rightarrow> (string, RegistryEntry) js_map" where
  "evictLRU entries =
     (case oldest_entry entries None of
        None \<Rightarrow> entries
      | Some (oldest, _) \<Rightarrow> jsmap_delete entries oldest)"

text \<open>A new breaker; with a handler its subscription is pushed on \<open>disposables\<close>.\<close>

definition createBreaker :: "BreakerRegistry \<Rightarrow> policy \<times> BreakerRegistry" where
  "createBreaker r =
     (let i = br_created r
      in (BreakerPolicy i (br_threshold r) (br_halfOpenAfter r),
          r\<lparr>br_created := Suc i,
            br_disposables := (if br_hasHandler r then br_disposables r @ [i] else br_disposables r)\<rparr>))"

definition br_get :: "BreakerRegistry \<Rightarrow> string \<Rightarrow> int \<Rightarrow> policy \<times> BreakerRegistry" where
  "br_get r domain now =
     (case jsmap_get (br_entries r) domain of
        Some existing \<Rightarrow>
          (en_policy existing, r\<lparr>br_entries := jsmap_set (br_entries r) domain (existing\<lparr>en_lastUsed := now\<rparr>)\<rparr>)
      | None \<Rightarrow>
          (let entries = (if br_maxDomains r \<le> int (length (br_entries r)) then evictLRU (br_entries r) else br_entries r);
               (p, r') = createBreaker r
           in (p, r'\<lparr>br_entries := jsmap_set entries domain \<lparr>en_policy = p, en_lastUsed = now\<rparr>\<rparr>)))"

text \<open>The state of a breaker is the library's, a function of its identity.\<close>

definition br_getState :: "(policy \<Rightarrow> 's) \<Rightarrow> BreakerRegistry \<Rightarrow> string \<Rightarrow> 's option" where
  "br_getState state_of r domain = map_option (\<lambda>e. state_of (en_policy e)) (jsmap_get (br_entries r) domain)"

definition br_size :: "BreakerRegistry \<Rightarrow> nat" where
  "br_size r = jsmap_size (br_entries r)"

definition br_clear :: "BreakerRegistry \<Rightarrow> BreakerRegistry" where
  "br_clear r = r\<lparr>br_disposables := [], br_entries := []\<rparr>"

section \<open>Eviction\<close>

lemma oldest_entry_acc: "oldest_entry m (Some p) \<noteq> None"
  by (induction m "Some p" arbitrary: p rule: oldest_entry.induct) auto

lemma oldest_entry_min:
  "oldest_entry m acc = Some (d, t) \<Longrightarrow>
     (acc = Some (d, t) \<or> (\<exists>e. (d, e) \<in> set m \<and> en_lastUsed e = t))
     \<and> (\<forall>(d', e') \<in> set m. t \<le> en_lastUsed e') \<and> (\<forall>d' t'. acc = Some (d', t') \<longrightarrow> t \<le> t')"
proof (induction m acc rule: oldest_entry.induct)
  case (2 domain entry m oldest)
  show ?case
  proof (cases oldest)
    case None
    with "2.prems" have "oldest_entry m (Some (domain, en_lastUsed entry)) = Some (d, t)" by simp
    with "2.IH" None show ?thesis by auto
  next
    case (Some p)
    obtain d0 t0 where p: "p = (d0, t0)" by force
    show ?thesis
    proof (cases "en_lastUsed entry < t0")
      case True
      with "2.prems" Some p have "oldest_entry m (Some (domain, en_lastUsed entry)) = Some (d, t)" by simp
      with "2.IH" Some p True show ?thesis by auto
    next
      case False
      with "2.prems" Some p have "oldest_entry m (Some (d0, t0)) = Some (d, t)" by simp
      with "2.IH" Some p False show ?thesis by auto
    qed
  qed
qed simp

lemma oldest_entry_found: "m \<noteq> [] \<Longrightarrow> \<exists>d e. oldest_entry m None = Some (d, en_lastUsed e) \<and> (d, e) \<in> set m"
proof -
  assume "m \<noteq> []"
  then obtain p m' where m: "m = p # m'" by (cases m) auto
  then have "oldest_entry m None \<noteq> None" by (cases p) (simp add: oldest_entry_acc)
  then obtain d t where "oldest_entry m None = Some (d, t)" by (metis old.prod.exhaust option.exhaust)
  with oldest_entry_min [OF this] show ?thesis by auto
qed

lemma evictLRU_props:
  assumes "jsmap_wf m"
  shows "jsmap_wf (evictLRU m)" "fst ` set (evictLRU m) \<subseteq> fst ` set m"
    "m \<noteq> [] \<Longrightarrow> Suc (length (evictLRU m)) = length m"
proof -
  show "jsmap_wf (evictLRU m)"
    using assms by (auto simp: evictLRU_def jsmap_laws split: option.splits)
  show "fst ` set (evictLRU m) \<subseteq> fst ` set m"
    by (auto simp: evictLRU_def jsmap_delete_def split: option.splits)
  assume "m \<noteq> []"
  then obtain d e where "oldest_entry m None = Some (d, en_lastUsed e)" "(d, e) \<in> set m"
    using oldest_entry_found by blast
  moreover from this(2) have "d \<in> fst ` set m" by force
  ultimately show "Suc (length (evictLRU m)) = length m"
    using assms length_filter_fst_present [of m d] by (simp add: evictLRU_def jsmap_delete_def jsmap_wf_def)
qed

definition br_wf :: "BreakerRegistry \<Rightarrow> bool" where
  "br_wf r = jsmap_wf (br_entries r)"

lemma br_get_entries:
  "br_entries (snd (br_get r d now)) =
     (case jsmap_get (br_entries r) d of
        Some e \<Rightarrow> jsmap_set (br_entries r) d (e\<lparr>en_lastUsed := now\<rparr>)
      | None \<Rightarrow> jsmap_set (if br_maxDomains r \<le> int (length (br_entries r)) then evictLRU (br_entries r) else br_entries r)
                  d \<lparr>en_policy = fst (br_get r d now), en_lastUsed = now\<rparr>)"
  "br_maxDomains (snd (br_get r d now)) = br_maxDomains r"
  "br_hasHandler (snd (br_get r d now)) = br_hasHandler r"
  by (auto simp: br_get_def createBreaker_def Let_def split: option.splits)

interpretation breakers: bounded_cache "\<lambda>r d now. snd (br_get r d now)" "\<lambda>r. fst ` set (br_entries r)" br_size "Suc n"
  "\<lambda>r. br_wf r \<and> br_maxDomains r = int (Suc n)" for n
proof
  fix r :: BreakerRegistry and d now
  assume r: "br_wf r \<and> br_maxDomains r = int (Suc n)"
  then have wf: "jsmap_wf (br_entries r)" by (simp add: br_wf_def)
  note ev = evictLRU_props [OF wf]
  show "br_wf (snd (br_get r d now)) \<and> br_maxDomains (snd (br_get r d now)) = int (Suc n)"
    using r wf ev(1) by (auto simp: br_wf_def br_get_entries jsmap_wf_set split: option.splits)
  show "d \<in> fst ` set (br_entries (snd (br_get r d now)))"
    by (auto simp: br_get_entries fst_set_jsmap_set split: option.splits)
  show "fst ` set (br_entries (snd (br_get r d now))) \<subseteq> insert d (fst ` set (br_entries r))"
    using ev(2) by (auto simp: br_get_entries fst_set_jsmap_set split: option.splits)
  show "br_size (snd (br_get r d now)) \<le> Suc n" if "br_size r \<le> Suc n"
  proof (cases "int (Suc n) \<le> int (length (br_entries r))")
    case True
    then have "Suc (length (evictLRU (br_entries r))) = length (br_entries r)" using ev(3) by fastforce
    with that True r show ?thesis
      by (auto simp: br_size_def br_get_entries length_jsmap_set split: option.splits)
  next
    case False
    with that r show ?thesis by (auto simp: br_size_def br_get_entries length_jsmap_set split: option.splits)
  qed
qed

text \<open>Getting a domain's breaker returns the same breaker as long as the domain is tracked; a get of a new
  domain on a full registry drops exactly one other domain, one used no later than every domain that stays.\<close>

theorem registry_evicts_least_recent:
  assumes "jsmap_wf (br_entries r)"
  shows "(\<forall>e. jsmap_get (br_entries r) d = Some e \<longrightarrow>
            fst (br_get r d now) = en_policy e \<and> map fst (br_entries (snd (br_get r d now))) = map fst (br_entries r))
    \<and> (jsmap_get (br_entries r) d = None \<and> br_maxDomains r \<le> int (length (br_entries r)) \<and> br_entries r \<noteq> [] \<longrightarrow>
         (\<exists>out e. (out, e) \<in> set (br_entries r)
            \<and> map fst (br_entries (snd (br_get r d now))) = removeAll out (map fst (br_entries r)) @ [d]
            \<and> (\<forall>(d', e') \<in> set (br_entries r). en_lastUsed e \<le> en_lastUsed e')))"
proof (intro conjI impI allI)
  fix e assume e: "jsmap_get (br_entries r) d = Some e"
  then show "fst (br_get r d now) = en_policy e" by (simp add: br_get_def)
  from e show "map fst (br_entries (snd (br_get r d now))) = map fst (br_entries r)"
    by (simp add: br_get_entries keys_jsmap_set_present)
next
  assume a: "jsmap_get (br_entries r) d = None \<and> br_maxDomains r \<le> int (length (br_entries r)) \<and> br_entries r \<noteq> []"
  then obtain out e where o: "oldest_entry (br_entries r) None = Some (out, en_lastUsed e)" "(out, e) \<in> set (br_entries r)"
    using oldest_entry_found by blast
  have "jsmap_get (jsmap_delete (br_entries r) out) d = None" using a by (simp add: jsmap_laws)
  with a o oldest_entry_min [OF o(1)] show "\<exists>out e. (out, e) \<in> set (br_entries r)
      \<and> map fst (br_entries (snd (br_get r d now))) = removeAll out (map fst (br_entries r)) @ [d]
      \<and> (\<forall>(d', e') \<in> set (br_entries r). en_lastUsed e \<le> en_lastUsed e')"
    by (intro exI [of _ out] exI [of _ e])
      (simp add: br_get_entries evictLRU_def jsmap_set_new keys_delete del: fun_upd_apply)
qed

lemma registry_evicts_least_recent_witness:
  "\<exists>r. map fst (br_entries r) = [''a'', ''b''] \<and> map fst (br_entries (snd (br_get r ''c'' 9))) = [''a'', ''c'']"
proof -
  let ?e = "\<lambda>i t. \<lparr>en_policy = BreakerPolicy i 5 30000, en_lastUsed = t\<rparr>"
  let ?r = "\<lparr>br_threshold = 5, br_halfOpenAfter = 30000, br_maxDomains = 2, br_hasHandler = False,
     br_entries = [(''a'', ?e 0 7), (''b'', ?e 1 3)], br_disposables = [], br_created = 2\<rparr>"
  have "jsmap_wf (br_entries ?r)" by (simp add: jsmap_wf_def)
  from registry_evicts_least_recent [OF this, of "''c''" 9] obtain out e where
    "(out, e) \<in> set (br_entries ?r)" "map fst (br_entries (snd (br_get ?r ''c'' 9))) = removeAll out [''a'', ''b''] @ [''c'']"
    "\<forall>(d', e') \<in> set (br_entries ?r). en_lastUsed e \<le> en_lastUsed e'"
    by (auto simp: jsmap_get_def)
  then have "map fst (br_entries (snd (br_get ?r ''c'' 9))) = [''a'', ''c'']" by auto
  then show ?thesis by (intro exI [of _ ?r]) simp
qed

lemma get_new_disposables:
  "jsmap_get (br_entries r) d = None \<Longrightarrow> br_hasHandler r \<Longrightarrow>
     length (br_disposables (snd (br_get r d now))) = Suc (length (br_disposables r))"
  by (simp add: br_get_def createBreaker_def Let_def)

text \<open>With a state-change handler the registry keeps the subscription of every breaker it ever made: after
  gets of distinct domains the entries are bounded by the capacity and the subscriptions are not.\<close>

theorem registry_keeps_subscriptions:
  assumes "r = createCircuitBreakerRegistry config True" "pt_circuitBreakerMaxDomains config = Some (int (Suc n))"
    and "distinct (map fst kvs)"
  shows "br_size (foldl (\<lambda>r (d, now). snd (br_get r d now)) r kvs) \<le> Suc n
    \<and> length (br_disposables (foldl (\<lambda>r (d, now). snd (br_get r d now)) r kvs)) = length kvs"
proof -
  let ?run = "foldl (\<lambda>r (d, now). snd (br_get r d now)) r"
  have r: "br_wf r \<and> br_maxDomains r = int (Suc n)" "br_size r \<le> Suc n" "br_entries r = []" "br_hasHandler r" "br_disposables r = []"
    using assms(1,2) by (simp_all add: createCircuitBreakerRegistry_def br_wf_def jsmap_wf_def br_size_def or_default_def)
  have h: "br_hasHandler (?run kvs)" for kvs
    using r(4) by (induction kvs rule: rev_induct) (auto simp: br_get_entries)
  have "length (br_disposables (?run kvs)) = length kvs"
    using assms(3)
  proof (induction kvs rule: rev_induct)
    case (snoc kv kvs)
    obtain d now where kv: "kv = (d, now)" by force
    have "fst ` set (br_entries (?run kvs)) \<subseteq> fst ` set kvs"
      using breakers.touches_frame [OF r(1), of kvs] r(3) by simp
    then have "jsmap_get (br_entries (?run kvs)) d = None"
      using snoc.prems kv by (auto simp: jsmap_get_None_iff)
    with snoc kv h get_new_disposables show ?case by simp
  qed (simp add: r)
  with breakers.touches_bound [OF r(1,2), of kvs] show ?thesis by simp
qed

definition no_config :: PartialConfig where
  "no_config = \<lparr>pt_circuitBreakerThreshold = None, pt_circuitBreakerHalfOpenAfterMs = None, pt_retryMaxAttempts = None,
     pt_retryInitialDelayMs = None, pt_retryMaxDelayMs = None, pt_timeoutFetchMs = None, pt_timeoutDbMs = None,
     pt_timeoutRedisMs = None, pt_bulkheadMaxConcurrentPerDomain = None, pt_circuitBreakerMaxDomains = None\<rparr>"

lemma registry_keeps_subscriptions_witness:
  "let r = foldl (\<lambda>r (d, now). snd (br_get r d now))
        (createCircuitBreakerRegistry (no_config\<lparr>pt_circuitBreakerMaxDomains := Some 1\<rparr>) True) [(''a'', 1), (''b'', 2), (''c'', 3)]
   in br_size r \<le> 1 \<and> length (br_disposables r) = 3"
  using registry_keeps_subscriptions [OF refl, of "no_config\<lparr>pt_circuitBreakerMaxDomains := Some 1\<rparr>" 0
      "[(''a'', 1), (''b'', 2), (''c'', 3)]"]
  by simp

end
