(* ===== verification/TokenBucket.thy ===== *)
theory TokenBucket
  imports JsMap
begin

text \<open>
  packages/resilience/src/token-bucket.ts: the per-domain rate limiter. Tokens and rates are exact
  rationals. The injected clock is read by each call: \<open>t0\<close> where a bucket is created, \<open>t\<close> where
  it is refilled.
\<close>

record TokenBucketConfig =
  tb_maxTokens :: rat
  tb_refillRate :: rat

definition DEFAULT_TOKEN_BUCKET_CONFIG :: TokenBucketConfig where
  "DEFAULT_TOKEN_BUCKET_CONFIG = \<lparr>tb_maxTokens = 2, tb_refillRate = 1\<rparr>"

record BucketEntry =
  be_tokens :: rat
  be_lastRefill :: int

type_synonym buckets = "(string, BucketEntry) js_map"

definition tb_getOrCreate :: "TokenBucketConfig \<Rightarrow> buckets \<Rightarrow> string \<Rightarrow> int \<Rightarrow> BucketEntry \<times> buckets" where
  "tb_getOrCreate config buckets domain t0 =
     (case jsmap_get buckets domain of
        Some existing \<Rightarrow> (existing, buckets)
      | None \<Rightarrow>
          (let entry = \<lparr>be_tokens = tb_maxTokens config, be_lastRefill = t0\<rparr>
           in (entry, jsmap_set buckets domain entry)))"

definition tb_refill :: "TokenBucketConfig \<Rightarrow> BucketEntry \<Rightarrow> int \<Rightarrow> BucketEntry" where
  "tb_refill config entry currentTime =
     (let elapsed = of_int (currentTime - be_lastRefill entry) / 1000;
          newTokens = elapsed * tb_refillRate config
      in \<lparr>be_tokens = min (tb_maxTokens config) (be_tokens entry + newTokens), be_lastRefill = currentTime\<rparr>)"

text \<open>The entry is shared with the map, so a change of it is a change of the map.\<close>

definition tb_tryAcquire :: "TokenBucketConfig \<Rightarrow> buckets \<Rightarrow> string \<Rightarrow> int \<Rightarrow> int \<Rightarrow> bool \<times> buckets" where
  "tb_tryAcquire config buckets domain t0 t =
     (let (entry, buckets') = tb_getOrCreate config buckets domain t0;
          entry' = tb_refill config entry t
      in if 1 \<le> be_tokens entry'
         then (True, jsmap_set buckets' domain (entry'\<lparr>be_tokens := be_tokens entry' - 1\<rparr>))
         else (False, jsmap_set buckets' domain entry'))"

definition tb_getTokens :: "TokenBucketConfig \<Rightarrow> buckets \<Rightarrow> string \<Rightarrow> int \<Rightarrow> rat \<times> buckets" where
  "tb_getTokens config buckets domain t =
     (case jsmap_get buckets domain of
        None \<Rightarrow> (tb_maxTokens config, buckets)
      | Some entry \<Rightarrow>
          (let entry' = tb_refill config entry t
           in (be_tokens entry', jsmap_set buckets domain entry')))"

definition tb_reset :: "buckets \<Rightarrow> string \<Rightarrow> buckets" where
  "tb_reset buckets domain = jsmap_delete buckets domain"

definition tb_clear :: "buckets \<Rightarrow> buckets" where
  "tb_clear buckets = []"

definition tb_size :: "buckets \<Rightarrow> nat" where
  "tb_size buckets = jsmap_size buckets"

section \<open>The rate bound\<close>

text \<open>Calls with the clock readings they make; the value counts the grants to domain \<open>d\<close>.\<close>

datatype tb_call = TryAcquire string int int | GetTokens string int

fun call_time :: "tb_call \<Rightarrow> int" where
  "call_time (TryAcquire _ _ t) = t"
| "call_time (GetTokens _ t) = t"

fun tb_call_step :: "TokenBucketConfig \<Rightarrow> string \<Rightarrow> nat \<times> buckets \<Rightarrow> tb_call \<Rightarrow> nat \<times> buckets" where
  "tb_call_step config d (n, b) (TryAcquire domain t0 t) =
     (let (allowed, b') = tb_tryAcquire config b domain t0 t
      in (if allowed \<and> domain = d then Suc n else n, b'))"
| "tb_call_step config d (n, b) (GetTokens domain t) = (n, snd (tb_getTokens config b domain t))"

text \<open>
  The potential argument: the tokens left plus the grants so far never exceed the burst plus what
  was refilled since the start.
\<close>

definition tb_potential :: "TokenBucketConfig \<Rightarrow> string \<Rightarrow> int \<Rightarrow> int \<Rightarrow> nat \<times> buckets \<Rightarrow> bool" where
  "tb_potential config d start t s =
     (case jsmap_get (snd s) d of
        None \<Rightarrow> fst s = 0
      | Some e \<Rightarrow> start \<le> be_lastRefill e \<and> be_lastRefill e \<le> t \<and> 0 \<le> be_tokens e \<and> be_tokens e \<le> tb_maxTokens config
          \<and> of_nat (fst s) + be_tokens e
              \<le> tb_maxTokens config + of_int (be_lastRefill e - start) / 1000 * tb_refillRate config)"

lemma refill_bounds:
  assumes "0 \<le> tb_refillRate config" "0 \<le> tb_maxTokens config" "0 \<le> be_tokens e" "be_lastRefill e \<le> t"
  shows "0 \<le> be_tokens (tb_refill config e t)" "be_tokens (tb_refill config e t) \<le> tb_maxTokens config"
    "be_tokens (tb_refill config e t) \<le> be_tokens e + of_int (t - be_lastRefill e) / 1000 * tb_refillRate config"
    "be_lastRefill (tb_refill config e t) = t"
  using assms by (auto simp: tb_refill_def Let_def)

lemma refill_telescope:
  fixes r :: rat
  shows "of_int (a - s) / 1000 * r + of_int (t - a) / 1000 * r = of_int (t - s) / 1000 * r"
  by (simp add: field_simps)

lemma tb_step_potential:
  assumes "0 \<le> tb_refillRate config" "0 \<le> tb_maxTokens config" "tb_potential config d start t s" "start \<le> t"
    and "t \<le> call_time c" "\<And>dom t0 t1. c = TryAcquire dom t0 t1 \<Longrightarrow> start \<le> t0 \<and> t0 \<le> t1"
  shows "tb_potential config d start (call_time c) (tb_call_step config d s c)"
proof (cases c)
  case (TryAcquire dom t0 t1)
  show ?thesis
  proof (cases "dom = d")
    case True
    obtain e b where gc: "tb_getOrCreate config (snd s) d t0 = (e, b)" by fastforce
    have e: "start \<le> be_lastRefill e" "be_lastRefill e \<le> t1" "0 \<le> be_tokens e"
      "of_nat (fst s) + be_tokens e \<le> tb_maxTokens config + of_int (be_lastRefill e - start) / 1000 * tb_refillRate config"
      using gc assms TryAcquire
      by (auto simp: tb_getOrCreate_def Let_def tb_potential_def split: option.splits)
    note r = refill_bounds [OF assms(1,2) e(3,2)]
    have "of_nat (fst s) + be_tokens (tb_refill config e t1)
        \<le> tb_maxTokens config + of_int (t1 - start) / 1000 * tb_refillRate config"
      using e(4) r(3) refill_telescope [of "be_lastRefill e" start "tb_refillRate config" t1] by linarith
    with True TryAcquire gc r e(1,2) assms(4,5) show ?thesis
      by (cases s) (auto simp: tb_tryAcquire_def Let_def tb_potential_def jsmap_laws)
  next
    case False
    with TryAcquire assms show ?thesis
      by (cases s) (auto simp: tb_tryAcquire_def tb_getOrCreate_def Let_def tb_potential_def jsmap_laws split: option.splits)
  qed
next
  case (GetTokens dom t1)
  show ?thesis
  proof (cases "dom = d \<and> jsmap_get (snd s) d \<noteq> None")
    case True
    then obtain e where g: "dom = d" "jsmap_get (snd s) d = Some e" by auto
    then have e: "start \<le> be_lastRefill e" "be_lastRefill e \<le> t1" "0 \<le> be_tokens e"
      "of_nat (fst s) + be_tokens e \<le> tb_maxTokens config + of_int (be_lastRefill e - start) / 1000 * tb_refillRate config"
      using assms GetTokens by (auto simp: tb_potential_def)
    note r = refill_bounds [OF assms(1,2) e(3,2)]
    have "of_nat (fst s) + be_tokens (tb_refill config e t1)
        \<le> tb_maxTokens config + of_int (t1 - start) / 1000 * tb_refillRate config"
      using e(4) r(3) refill_telescope [of "be_lastRefill e" start "tb_refillRate config" t1] by linarith
    with g GetTokens r e(1,2) show ?thesis
      by (cases s) (auto simp: tb_getTokens_def Let_def tb_potential_def jsmap_laws)
  next
    case False
    with GetTokens assms show ?thesis
      by (cases s) (auto simp: tb_getTokens_def Let_def tb_potential_def jsmap_laws split: option.splits)
  qed
qed

text \<open>The clock readings of a list of calls never go back.\<close>

fun monotone_calls :: "int \<Rightarrow> tb_call list \<Rightarrow> bool" where
  "monotone_calls t [] = True"
| "monotone_calls t (TryAcquire d t0 t1 # cs) = (t \<le> t0 \<and> t0 \<le> t1 \<and> monotone_calls t1 cs)"
| "monotone_calls t (GetTokens d t1 # cs) = (t \<le> t1 \<and> monotone_calls t1 cs)"

fun last_time :: "int \<Rightarrow> tb_call list \<Rightarrow> int" where
  "last_time t [] = t"
| "last_time t (c # cs) = last_time (call_time c) cs"

lemma tb_run_potential:
  assumes "0 \<le> tb_refillRate config" "0 \<le> tb_maxTokens config"
  shows "tb_potential config d start t s \<Longrightarrow> start \<le> t \<Longrightarrow> monotone_calls t cs \<Longrightarrow>
    tb_potential config d start (last_time t cs) (foldl (tb_call_step config d) s cs) \<and> t \<le> last_time t cs"
proof (induction cs arbitrary: t s)
  case (Cons c cs)
  have c: "t \<le> call_time c" "monotone_calls (call_time c) cs"
    "\<And>dom t0 t1. c = TryAcquire dom t0 t1 \<Longrightarrow> start \<le> t0 \<and> t0 \<le> t1"
    using Cons.prems by (cases c; auto)+
  have "tb_potential config d start (call_time c) (tb_call_step config d s c)"
    by (rule tb_step_potential [OF assms Cons.prems(1,2) c(1)]) (rule c(3))
  with Cons.IH [OF this _ c(2)] Cons.prems(2) c(1) show ?case by auto
qed simp



end
