(* ===== verification/PolicyStack.thy ===== *)
theory PolicyStack
  imports BreakerRegistry TokenBucket
begin

text \<open>
  packages/resilience/src: the retry and timeout policies, the bulkhead registry, the fallback
  handler, the two policy factories and the degraded-mode metrics. Policies are the constructor
  calls that make them (datatype \<open>policy\<close>); running them is the library's.
\<close>

section \<open>retry-policy.ts, timeout-policy.ts\<close>

definition createRetryPolicy :: "PartialConfig \<Rightarrow> policy" where
  "createRetryPolicy config =
     (let maxAttempts = or_default (pt_retryMaxAttempts config) (rc_retryMaxAttempts DEFAULT_RESILIENCE_CONFIG);
          initialDelay = or_default (pt_retryInitialDelayMs config) (rc_retryInitialDelayMs DEFAULT_RESILIENCE_CONFIG);
          maxDelay = or_default (pt_retryMaxDelayMs config) (rc_retryMaxDelayMs DEFAULT_RESILIENCE_CONFIG)
      in RetryPolicy maxAttempts initialDelay maxDelay)"

text \<open>
  The guard: a non-idempotent operation runs once, outside the policy. A promise the operation
  returns is adopted, so its rejection is passed on as it is; a synchronous throw becomes an \<open>Error\<close>.
\<close>

datatype 'a op_outcome = Settles "'a completion" | ThrowsSync thrown

definition withIdempotencyGuard ::
  "(('w \<Rightarrow> 'a op_outcome \<times> 'w) \<Rightarrow> 'w \<Rightarrow> 'a completion \<times> 'w) \<Rightarrow> ('w \<Rightarrow> 'a op_outcome \<times> 'w) \<Rightarrow> bool \<Rightarrow> 'w
     \<Rightarrow> 'a completion \<times> 'w" where
  "withIdempotencyGuard execute fn isIdempotent w =
     (if \<not> isIdempotent then
        (case fn w of
           (Settles c, w') \<Rightarrow> (c, w')
         | (ThrowsSync t, w') \<Rightarrow> (Throw (ThrownError (thrown_error t)), w'))
      else execute fn w)"

datatype TimeoutTarget = TargetFetch | TargetDb | TargetRedis

fun getTimeoutDuration :: "TimeoutTarget \<Rightarrow> PartialConfig \<Rightarrow> int" where
  "getTimeoutDuration TargetFetch config = or_default (pt_timeoutFetchMs config) (rc_timeoutFetchMs DEFAULT_RESILIENCE_CONFIG)"
| "getTimeoutDuration TargetDb config = or_default (pt_timeoutDbMs config) (rc_timeoutDbMs DEFAULT_RESILIENCE_CONFIG)"
| "getTimeoutDuration TargetRedis config = or_default (pt_timeoutRedisMs config) (rc_timeoutRedisMs DEFAULT_RESILIENCE_CONFIG)"

definition createTimeoutPolicy :: "TimeoutTarget \<Rightarrow> PartialConfig \<Rightarrow> policy" where
  "createTimeoutPolicy target config = TimeoutPolicy (getTimeoutDuration target config)"

section \<open>bulkhead-registry.ts\<close>

record BulkheadRegistry =
  bh_maxConcurrent :: int
  bh_entries :: "(string, policy) js_map"
  bh_created :: nat

definition createBulkheadRegistry :: "PartialConfig \<Rightarrow> BulkheadRegistry" where
  "createBulkheadRegistry config =
     \<lparr>bh_maxConcurrent = or_default (pt_bulkheadMaxConcurrentPerDomain config)
                           (rc_bulkheadMaxConcurrentPerDomain DEFAULT_RESILIENCE_CONFIG),
      bh_entries = [], bh_created = 0\<rparr>"

definition bh_get :: "BulkheadRegistry \<Rightarrow> string \<Rightarrow> policy \<times> BulkheadRegistry" where
  "bh_get b domain =
     (case jsmap_get (bh_entries b) domain of
        Some existing \<Rightarrow> (existing, b)
      | None \<Rightarrow>
          (let p = BulkheadPolicy (bh_created b) (bh_maxConcurrent b)
           in (p, b\<lparr>bh_entries := jsmap_set (bh_entries b) domain p, bh_created := Suc (bh_created b)\<rparr>)))"

definition bh_size :: "BulkheadRegistry \<Rightarrow> nat" where
  "bh_size b = jsmap_size (bh_entries b)"

definition bh_clear :: "BulkheadRegistry \<Rightarrow> BulkheadRegistry" where
  "bh_clear b = b\<lparr>bh_entries := []\<rparr>"

section \<open>fallback-handler.ts\<close>

text \<open>The cache, and the calls of \<open>onDegradedMode\<close> (domain and error), when there is a handler.\<close>

record 'a FallbackHandler =
  fb_entries :: "(string, 'a) js_map"
  fb_hasHandler :: bool
  fb_degraded :: "(string \<times> thrown) list"

definition createFallbackHandler :: "bool \<Rightarrow> 'a FallbackHandler" where
  "createFallbackHandler hasHandler = \<lparr>fb_entries = [], fb_hasHandler = hasHandler, fb_degraded = []\<rparr>"

definition fb_set :: "'a FallbackHandler \<Rightarrow> string \<Rightarrow> 'a \<Rightarrow> 'a FallbackHandler" where
  "fb_set f domain v = f\<lparr>fb_entries := jsmap_set (fb_entries f) domain v\<rparr>"

definition fb_get :: "'a FallbackHandler \<Rightarrow> string \<Rightarrow> 'a option" where
  "fb_get f domain = jsmap_get (fb_entries f) domain"

definition fb_clear :: "'a FallbackHandler \<Rightarrow> 'a FallbackHandler" where
  "fb_clear f = f\<lparr>fb_entries := []\<rparr>"

definition fb_execute ::
  "'a FallbackHandler \<Rightarrow> string \<Rightarrow> ('w \<Rightarrow> 'a completion \<times> 'w) \<Rightarrow> 'w \<Rightarrow> ('a completion \<times> 'a FallbackHandler) \<times> 'w" where
  "fb_execute f domain primary w =
     (case primary w of
        (Return r, w') \<Rightarrow> ((Return r, fb_set f domain r), w')
      | (Throw e, w') \<Rightarrow>
          (case fb_get f domain of
             Some cached \<Rightarrow>
               ((Return cached, f\<lparr>fb_degraded := (if fb_hasHandler f then fb_degraded f @ [(domain, e)] else fb_degraded f)\<rparr>), w')
           | None \<Rightarrow> ((Throw e, f), w')))"

section \<open>policy-composer.ts, fetch-policy-stack.ts\<close>

record FetchPolicyStack =
  st_config :: PartialConfig
  st_bucketConfig :: TokenBucketConfig
  st_circuitBreakers :: BreakerRegistry
  st_bulkheads :: BulkheadRegistry
  st_rateLimiter :: buckets
  st_fallback :: "string FallbackHandler"

definition createFetchPolicyStack ::
  "PartialConfig \<Rightarrow> rat option \<Rightarrow> rat option \<Rightarrow> bool \<Rightarrow> bool \<Rightarrow> FetchPolicyStack" where
  "createFetchPolicyStack config maxTokens refillRate onStateChange onDegraded =
     \<lparr>st_config = config,
      st_bucketConfig = \<lparr>tb_maxTokens = or_default maxTokens (tb_maxTokens DEFAULT_TOKEN_BUCKET_CONFIG),
                         tb_refillRate = or_default refillRate (tb_refillRate DEFAULT_TOKEN_BUCKET_CONFIG)\<rparr>,
      st_circuitBreakers = createCircuitBreakerRegistry config onStateChange,
      st_bulkheads = createBulkheadRegistry config, st_rateLimiter = [], st_fallback = createFallbackHandler onDegraded\<rparr>"

definition st_getPolicy :: "FetchPolicyStack \<Rightarrow> string \<Rightarrow> int \<Rightarrow> policy \<times> FetchPolicyStack" where
  "st_getPolicy s domain now =
     (let timeoutPolicy = createTimeoutPolicy TargetFetch (st_config s);
          retryPolicy = createRetryPolicy (st_config s);
          (breakerPolicy, cb) = br_get (st_circuitBreakers s) domain now;
          (bulkheadPolicy, bh) = bh_get (st_bulkheads s) domain
      in (WrapPolicy [timeoutPolicy, retryPolicy, breakerPolicy, bulkheadPolicy],
          s\<lparr>st_circuitBreakers := cb, st_bulkheads := bh\<rparr>))"

definition st_checkRateLimit :: "FetchPolicyStack \<Rightarrow> string \<Rightarrow> int \<Rightarrow> int \<Rightarrow> bool \<times> FetchPolicyStack" where
  "st_checkRateLimit s domain t0 t =
     (let (ok, b) = tb_tryAcquire (st_bucketConfig s) (st_rateLimiter s) domain t0 t
      in (ok, s\<lparr>st_rateLimiter := b\<rparr>))"

definition st_executeWithFallback ::
  "FetchPolicyStack \<Rightarrow> string \<Rightarrow> ('w \<Rightarrow> string completion \<times> 'w) \<Rightarrow> 'w \<Rightarrow> (string completion \<times> FetchPolicyStack) \<times> 'w" where
  "st_executeWithFallback s domain fn w =
     (let ((r, f), w') = fb_execute (st_fallback s) domain fn w in ((r, s\<lparr>st_fallback := f\<rparr>), w'))"

definition st_dispose :: "FetchPolicyStack \<Rightarrow> FetchPolicyStack" where
  "st_dispose s = s\<lparr>st_circuitBreakers := br_clear (st_circuitBreakers s), st_bulkheads := bh_clear (st_bulkheads s),
     st_rateLimiter := tb_clear (st_rateLimiter s), st_fallback := fb_clear (st_fallback s)\<rparr>"

record PolicyComposer =
  co_config :: PartialConfig
  co_registry :: BreakerRegistry

definition createPolicyComposer :: "PartialConfig \<Rightarrow> bool \<Rightarrow> PolicyComposer" where
  "createPolicyComposer config onStateChange =
     \<lparr>co_config = config, co_registry = createCircuitBreakerRegistry config onStateChange\<rparr>"

definition co_getPolicy :: "PolicyComposer \<Rightarrow> string \<Rightarrow> int \<Rightarrow> policy \<times> PolicyComposer" where
  "co_getPolicy c domain now =
     (let timeoutPolicy = createTimeoutPolicy TargetFetch (co_config c);
          retryPolicy = createRetryPolicy (co_config c);
          (breakerPolicy, r) = br_get (co_registry c) domain now
      in (WrapPolicy [timeoutPolicy, retryPolicy, breakerPolicy], c\<lparr>co_registry := r\<rparr>))"

definition co_dispose :: "PolicyComposer \<Rightarrow> PolicyComposer" where
  "co_dispose c = c\<lparr>co_registry := br_clear (co_registry c)\<rparr>"

section \<open>degraded-mode-metrics.ts\<close>

datatype CircuitState = StClosed | StOpen | StHalfOpen | StIsolated

fun CIRCUIT_STATE_NAMES :: "CircuitState \<Rightarrow> string" where
  "CIRCUIT_STATE_NAMES StClosed = ''closed''"
| "CIRCUIT_STATE_NAMES StOpen = ''open''"
| "CIRCUIT_STATE_NAMES StHalfOpen = ''half_open''"
| "CIRCUIT_STATE_NAMES StIsolated = ''isolated''"

datatype sink_call =
    IncrementCounter string "(string \<times> string) list"
  | LogCall log_level string "(string \<times> string) list"

fun dm_calls :: "bool \<Rightarrow> bool \<Rightarrow> sink_call \<Rightarrow> sink_call \<Rightarrow> sink_call list" where
  "dm_calls metricsSink logSink m l = (if metricsSink then [m] else []) @ (if logSink then [l] else [])"

definition dm_onDegradedMode :: "bool \<Rightarrow> bool \<Rightarrow> string \<Rightarrow> thrown \<Rightarrow> sink_call list" where
  "dm_onDegradedMode ms ls domain error =
     dm_calls ms ls (IncrementCounter ''degraded_mode_total'' [(''domain'', domain)])
       (LogCall LogWarn ''Degraded mode activated'' [(''domain'', domain), (''error'', thrown_message error)])"

definition dm_onCircuitStateChange :: "bool \<Rightarrow> bool \<Rightarrow> string \<Rightarrow> CircuitState \<Rightarrow> sink_call list" where
  "dm_onCircuitStateChange ms ls domain state =
     (let stateStr = CIRCUIT_STATE_NAMES state
      in dm_calls ms ls (IncrementCounter (''circuit_breaker_'' @ stateStr) [(''domain'', domain)])
           (LogCall (if state = StOpen then LogWarn else LogInfo) ''Circuit breaker state change''
              [(''domain'', domain), (''state'', stateStr)]))"

definition dm_onRetry :: "bool \<Rightarrow> bool \<Rightarrow> string \<Rightarrow> int \<Rightarrow> int \<Rightarrow> sink_call list" where
  "dm_onRetry ms ls domain attempt delay =
     dm_calls ms ls (IncrementCounter ''retry_attempt_total'' [(''domain'', domain), (''attempt'', string_of_int attempt)])
       (LogCall LogDebug ''Retry attempt''
          [(''domain'', domain), (''attempt'', string_of_int attempt), (''delay'', string_of_int delay)])"

definition dm_onTimeout :: "bool \<Rightarrow> bool \<Rightarrow> string \<Rightarrow> int \<Rightarrow> sink_call list" where
  "dm_onTimeout ms ls domain durationMs =
     dm_calls ms ls (IncrementCounter ''timeout_fired_total'' [(''domain'', domain)])
       (LogCall LogWarn ''Timeout fired'' [(''domain'', domain), (''durationMs'', string_of_int durationMs)])"

section \<open>Lemmas\<close>

text \<open>A history of primary calls: the fallback answers with the last success of the same domain.\<close>

fun fb_step :: "'a FallbackHandler \<Rightarrow> string \<times> 'a completion \<Rightarrow> 'a FallbackHandler" where
  "fb_step f (domain, c) = snd (fst (fb_execute f domain (\<lambda>w. (c, w)) ()))"

fun last_success :: "(string \<times> 'a completion) list \<Rightarrow> string \<Rightarrow> 'a option" where
  "last_success [] d = None"
| "last_success ((d', c) # h) d =
     (case last_success h d of
        Some v \<Rightarrow> Some v
      | None \<Rightarrow> (case c of Return v \<Rightarrow> if d' = d then Some v else None | Throw _ \<Rightarrow> None))"

lemma last_success_snoc:
  "last_success (h @ [(d', c)]) d = (case c of Return v \<Rightarrow> if d' = d then Some v else last_success h d
     | Throw _ \<Rightarrow> last_success h d)"
  by (induction h d rule: last_success.induct) (auto split: option.splits completion.splits)

lemma fb_run_cache: "fb_get (foldl fb_step (createFallbackHandler b) h) d = last_success h d"
proof (induction h rule: rev_induct)
  case Nil
  then show ?case by (simp add: createFallbackHandler_def fb_get_def jsmap_laws)
next
  case (snoc p h)
  obtain d' c where p: "p = (d', c)" by force
  with snoc show ?case
    by (cases c) (auto simp: fb_execute_def fb_set_def fb_get_def jsmap_laws last_success_snoc split: option.splits)
qed

text \<open>After any history of calls, a call whose primary fails answers with the value of the last successful
  call for the same domain, and with the primary's own error exactly when there was none; a success answers
  with its own value.\<close>

theorem fallback_serves_last_success:
  "fst (fst (fb_execute (foldl fb_step (createFallbackHandler b) h) d primary w)) =
     (case fst (primary w) of
        Return v \<Rightarrow> Return v
      | Throw e \<Rightarrow> (case last_success h d of Some v \<Rightarrow> Return v | None \<Rightarrow> Throw e))"
  by (auto simp: fb_execute_def fb_run_cache split: completion.splits option.splits prod.splits)

definition stack_policies :: "FetchPolicyStack \<Rightarrow> string \<Rightarrow> int \<Rightarrow> policy list" where
  "stack_policies s d now = (case fst (st_getPolicy s d now) of WrapPolicy ps \<Rightarrow> ps | p \<Rightarrow> [p])"

lemma stack_policies_eq:
  "stack_policies s d now =
     [TimeoutPolicy (getTimeoutDuration TargetFetch (st_config s)), createRetryPolicy (st_config s),
      fst (br_get (st_circuitBreakers s) d now), fst (bh_get (st_bulkheads s) d)]"
  by (simp add: stack_policies_def st_getPolicy_def Let_def split_def createTimeoutPolicy_def)

text \<open>The stack wraps timeout, retry, circuit breaker and bulkhead in this order, and asking again for the
  policy of a domain gives the same breaker and the same bulkhead, so their state carries over.\<close>

theorem stack_policy_order_and_identity:
  "stack_policies s d now =
     [TimeoutPolicy (getTimeoutDuration TargetFetch (st_config s)), createRetryPolicy (st_config s),
      fst (br_get (st_circuitBreakers s) d now), fst (bh_get (st_bulkheads s) d)]
   \<and> stack_policies (snd (st_getPolicy s d now)) d now' = stack_policies s d now"
proof -
  let ?r = "st_circuitBreakers s" and ?b = "st_bulkheads s"
  have "fst (br_get (snd (br_get ?r d now)) d now') = fst (br_get ?r d now)"
    by (auto simp: br_get_def [of "snd (br_get ?r d now)"] br_get_entries jsmap_laws split: option.splits)
      (auto simp: br_get_def)
  moreover have "fst (bh_get (snd (bh_get ?b d)) d) = fst (bh_get ?b d)"
    by (auto simp: bh_get_def Let_def jsmap_laws split: option.splits)
  ultimately show ?thesis
    by (simp add: stack_policies_eq) (simp add: st_getPolicy_def Let_def split_def)
qed

end
