(* ===== verification/SlidingWindow.thy ===== *)
theory SlidingWindow
  imports JsMap JsString
begin

text \<open>
  packages/resilience/src/sliding-window-rate-limiter.ts. The Redis client is a record of functions
  over the world, \<open>Date.now()\<close> and the random suffix of a member are arguments of each call.
\<close>

section \<open>The limiter\<close>

record SlidingWindowConfig =
  sw_maxRequests :: int
  sw_windowMs :: int
  sw_keyPrefix :: string

definition DEFAULT_SLIDING_WINDOW_CONFIG :: SlidingWindowConfig where
  "DEFAULT_SLIDING_WINDOW_CONFIG = \<lparr>sw_maxRequests = 100, sw_windowMs = 60000, sw_keyPrefix = ''rate''\<rparr>"

record RateLimitResult =
  rl_allowed :: bool
  rl_remaining :: int
  rl_resetMs :: int

datatype RateLimitError = RlConnectionError string | RlScriptError string

text \<open>The commands of a pipeline, and what each answers: a number, or an error as text.\<close>

datatype zcommand =
    ZRemRangeByScore string int int
  | ZCard string
  | ZAdd string int string
  | PExpire string int

datatype zreply = ZReply int | ZError string

record 'w redis_client =
  rc_pipeline_exec :: "zcommand list \<Rightarrow> 'w \<Rightarrow> zreply list option completion \<times> 'w"
  rc_zrem :: "string \<Rightarrow> string \<Rightarrow> 'w \<Rightarrow> int completion \<times> 'w"
  rc_del :: "string \<Rightarrow> 'w \<Rightarrow> int completion \<times> 'w"

text \<open>The partial configuration of the constructor, with its defaults.\<close>

definition createSlidingWindowRateLimiter :: "int option \<Rightarrow> int option \<Rightarrow> string option \<Rightarrow> SlidingWindowConfig" where
  "createSlidingWindowRateLimiter maxRequests windowMs keyPrefix =
     (let orElse = (\<lambda>x d. case x of Some v \<Rightarrow> v | None \<Rightarrow> d)
      in \<lparr>sw_maxRequests = orElse maxRequests (sw_maxRequests DEFAULT_SLIDING_WINDOW_CONFIG),
          sw_windowMs = orElse windowMs (sw_windowMs DEFAULT_SLIDING_WINDOW_CONFIG),
          sw_keyPrefix = (case keyPrefix of Some v \<Rightarrow> v | None \<Rightarrow> sw_keyPrefix DEFAULT_SLIDING_WINDOW_CONFIG)\<rparr>)"

definition buildKey :: "SlidingWindowConfig \<Rightarrow> string \<Rightarrow> string" where
  "buildKey c key = sw_keyPrefix c @ '':'' @ key"

text \<open>The answer of the \<open>zcard\<close> at position 1 of the replies.\<close>

definition zcard_result :: "zreply list option \<Rightarrow> (RateLimitError, int) result" where
  "zcard_result results =
     (case results of
        None \<Rightarrow> Err (RlConnectionError ''Pipeline returned null'')
      | Some rs \<Rightarrow>
          if length rs < 2 then Err (RlScriptError ''Missing zcard result'')
          else case rs ! 1 of
                 ZError e \<Rightarrow> Err (RlScriptError e)
               | ZReply n \<Rightarrow> Ok n)"

definition sw_member :: "int \<Rightarrow> string \<Rightarrow> string" where
  "sw_member now rnd = string_of_int now @ '':'' @ rnd"

definition check_pipeline :: "SlidingWindowConfig \<Rightarrow> string \<Rightarrow> int \<Rightarrow> string \<Rightarrow> zcommand list" where
  "check_pipeline c redisKey now member =
     [ZRemRangeByScore redisKey 0 (now - sw_windowMs c), ZCard redisKey, ZAdd redisKey now member,
      PExpire redisKey (sw_windowMs c)]"

definition sw_check ::
  "'w redis_client \<Rightarrow> SlidingWindowConfig \<Rightarrow> string \<Rightarrow> int \<Rightarrow> string \<Rightarrow> 'w
     \<Rightarrow> (RateLimitError, RateLimitResult) result \<times> 'w" where
  "sw_check redis c key now rnd w =
     (let redisKey = buildKey c key; member = sw_member now rnd
      in case rc_pipeline_exec redis (check_pipeline c redisKey now member) w of
           (Throw e, w1) \<Rightarrow> (Err (RlConnectionError (thrown_message e)), w1)
         | (Return results, w1) \<Rightarrow>
             (case zcard_result results of
                Err e \<Rightarrow> (Err e, w1)
              | Ok count \<Rightarrow>
                  if sw_maxRequests c \<le> count
                  then case rc_zrem redis redisKey member w1 of
                         (Throw e, w2) \<Rightarrow> (Err (RlConnectionError (thrown_message e)), w2)
                       | (Return _, w2) \<Rightarrow> (Ok \<lparr>rl_allowed = False, rl_remaining = 0, rl_resetMs = sw_windowMs c\<rparr>, w2)
                  else (Ok \<lparr>rl_allowed = True, rl_remaining = sw_maxRequests c - count - 1, rl_resetMs = sw_windowMs c\<rparr>, w1)))"

definition sw_peek ::
  "'w redis_client \<Rightarrow> SlidingWindowConfig \<Rightarrow> string \<Rightarrow> int \<Rightarrow> 'w \<Rightarrow> (RateLimitError, int) result \<times> 'w" where
  "sw_peek redis c key now w =
     (let redisKey = buildKey c key
      in case rc_pipeline_exec redis [ZRemRangeByScore redisKey 0 (now - sw_windowMs c), ZCard redisKey] w of
           (Throw e, w1) \<Rightarrow> (Err (RlConnectionError (thrown_message e)), w1)
         | (Return results, w1) \<Rightarrow> (zcard_result results, w1))"

definition sw_reset ::
  "'w redis_client \<Rightarrow> SlidingWindowConfig \<Rightarrow> string \<Rightarrow> 'w \<Rightarrow> (RateLimitError, unit) result \<times> 'w" where
  "sw_reset redis c key w =
     (case rc_del redis (buildKey c key) w of
        (Throw e, w1) \<Rightarrow> (Err (RlConnectionError (thrown_message e)), w1)
      | (Return _, w1) \<Rightarrow> (Ok (), w1))"

section \<open>What Redis documents of sorted sets\<close>

text \<open>
  The sorted set of one key: member and score. A pipeline that nobody interleaves applies its
  commands in order. The expiry of the key is not part of the law: it removes a set only when all
  its scores are outside of the window, which the first command of the next pipeline removes anyway.
\<close>

type_synonym zset = "(string, int) js_map"

fun zcommand_run :: "string \<Rightarrow> zcommand \<Rightarrow> zset \<Rightarrow> zreply \<times> zset" where
  "zcommand_run k (ZRemRangeByScore k' lo hi) z =
     (if k' = k then let z' = filter (\<lambda>(m, s). \<not> (lo \<le> s \<and> s \<le> hi)) z in (ZReply (int (length z) - int (length z')), z')
      else (ZReply 0, z))"
| "zcommand_run k (ZCard k') z = (ZReply (if k' = k then int (length z) else 0), z)"
| "zcommand_run k (ZAdd k' score member) z =
     (if k' = k then (ZReply (if jsmap_has z member then 0 else 1), jsmap_set z member score) else (ZReply 1, z))"
| "zcommand_run k (PExpire k' ms) z = (ZReply 1, z)"

fun zpipeline_run :: "string \<Rightarrow> zcommand list \<Rightarrow> zset \<Rightarrow> zreply list \<times> zset" where
  "zpipeline_run k [] z = ([], z)"
| "zpipeline_run k (c # cs) z =
     (case zcommand_run k c z of (r, z1) \<Rightarrow> (case zpipeline_run k cs z1 of (rs, z2) \<Rightarrow> (r # rs, z2)))"

text \<open>For the key \<open>k\<close>; a failed call may or may not have had its effect.\<close>

definition pipeline_law :: "string \<Rightarrow> ('w \<Rightarrow> zset) \<Rightarrow> zcommand list \<Rightarrow> 'w \<Rightarrow> zreply list option completion \<times> 'w \<Rightarrow> bool" where
  "pipeline_law k view cs w res = (case res of
     (Return (Some rs), w') \<Rightarrow> (rs, view w') = zpipeline_run k cs (view w)
   | (_, w') \<Rightarrow> view w' = view w \<or> view w' = snd (zpipeline_run k cs (view w)))"

definition zrem_law :: "('w \<Rightarrow> zset) \<Rightarrow> string \<Rightarrow> 'w \<Rightarrow> int completion \<times> 'w \<Rightarrow> bool" where
  "zrem_law view m w res = (case res of
     (Return _, w') \<Rightarrow> view w' = jsmap_delete (view w) m
   | (Throw _, w') \<Rightarrow> view w' = view w \<or> view w' = jsmap_delete (view w) m)"

definition zset_laws :: "'w redis_client \<Rightarrow> string \<Rightarrow> ('w \<Rightarrow> zset) \<Rightarrow> bool" where
  "zset_laws redis k view \<longleftrightarrow>
     (\<forall>cs w. pipeline_law k view cs w (rc_pipeline_exec redis cs w))
   \<and> (\<forall>m w. zrem_law view m w (rc_zrem redis k m w))"

section \<open>Runs of checks\<close>

text \<open>One key, a sequence of checks (time and random suffix), and for each whether it was allowed.\<close>

definition was_allowed :: "(RateLimitError, RateLimitResult) result \<Rightarrow> bool" where
  "was_allowed r = (case r of Ok x \<Rightarrow> rl_allowed x | Err _ \<Rightarrow> False)"

fun run_checks ::
  "'w redis_client \<Rightarrow> SlidingWindowConfig \<Rightarrow> string \<Rightarrow> (int \<times> string) list \<Rightarrow> 'w \<Rightarrow> (int \<times> bool) list \<times> 'w" where
  "run_checks redis c key [] w = ([], w)"
| "run_checks redis c key ((now, rnd) # cs) w =
     (case sw_check redis c key now rnd w of
        (r, w1) \<Rightarrow> (case run_checks redis c key cs w1 of (rs, w2) \<Rightarrow> ((now, was_allowed r) # rs, w2)))"

text \<open>The times of the allowed checks in the window that ends at \<open>t\<close>.\<close>

definition allowed_in :: "int \<Rightarrow> int \<Rightarrow> (int \<times> bool) list \<Rightarrow> int" where
  "allowed_in t windowMs rs = int (length (filter (\<lambda>(s, a). a \<and> t - windowMs < s \<and> s \<le> t) rs))"

section \<open>The allowed checks of a window stay in the sorted set\<close>

definition sw_clean :: "int \<Rightarrow> int \<Rightarrow> zset \<Rightarrow> zset" where
  "sw_clean W now z = filter (\<lambda>(m, s). \<not> (0 \<le> s \<and> s \<le> now - W)) z"

lemma check_pipeline_run:
  "zpipeline_run redisKey (check_pipeline c redisKey now m) z =
     ([ZReply (int (length z) - int (length (sw_clean (sw_windowMs c) now z))),
       ZReply (int (length (sw_clean (sw_windowMs c) now z))),
       ZReply (if jsmap_has (sw_clean (sw_windowMs c) now z) m then 0 else 1), ZReply 1],
      jsmap_set (sw_clean (sw_windowMs c) now z) m now)"
  by (simp add: check_pipeline_def sw_clean_def Let_def)

text \<open>\<open>A\<close>: member and time of the allowed checks so far; \<open>t\<close>: the time of the last check.\<close>

definition window_inv :: "int \<Rightarrow> (string \<times> int) list \<Rightarrow> int \<Rightarrow> zset \<Rightarrow> bool" where
  "window_inv W A t z \<longleftrightarrow> distinct (map fst A) \<and> jsmap_wf z
     \<and> (\<forall>(m, s)\<in>set A. s \<le> t \<and> (t - W < s \<longrightarrow> jsmap_get z m = Some s))"

lemma jsmap_get_filter:
  "jsmap_wf z \<Longrightarrow> jsmap_get z m = Some s \<Longrightarrow> P (m, s) \<Longrightarrow> jsmap_get (filter P z) m = Some s"
  by (induction z) (auto simp: jsmap_get_def jsmap_wf_def split: if_splits)

lemma jsmap_wf_filter: "jsmap_wf z \<Longrightarrow> jsmap_wf (filter P z)"
  by (simp add: jsmap_wf_def distinct_fst_filter)

lemma window_inv_clean:
  "window_inv W A t z \<Longrightarrow> t \<le> now \<Longrightarrow> window_inv W A now (sw_clean W now z)"
  by (fastforce simp: window_inv_def sw_clean_def jsmap_wf_filter intro!: jsmap_get_filter)

lemma window_inv_set:
  "window_inv W A now z \<Longrightarrow> m \<notin> fst ` set A \<Longrightarrow> window_inv W A now (jsmap_set z m now)"
  by (force simp: window_inv_def jsmap_laws)

lemma window_inv_delete:
  "window_inv W A now z \<Longrightarrow> m \<notin> fst ` set A \<Longrightarrow> window_inv W A now (jsmap_delete z m)"
  by (force simp: window_inv_def jsmap_laws)

lemma window_inv_later: "window_inv W A t z \<Longrightarrow> t \<le> now \<Longrightarrow> window_inv W A now z"
  by (fastforce simp: window_inv_def)

lemma window_inv_allow:
  "window_inv W A now (jsmap_set z m now) \<Longrightarrow> m \<notin> fst ` set A \<Longrightarrow> window_inv W (A @ [(m, now)]) now (jsmap_set z m now)"
  by (auto simp: window_inv_def jsmap_laws)

lemma window_count:
  assumes "window_inv W A now z"
  shows "length (filter (\<lambda>(m, s). now - W < s) A) \<le> length z"
proof -
  let ?B = "filter (\<lambda>(m, s). now - W < s) A"
  have d: "distinct ?B" using assms by (auto simp: window_inv_def distinct_map)
  have "set ?B \<subseteq> set z" using assms
    by (auto simp: window_inv_def jsmap_get_def dest: map_of_SomeD)
  then have "card (set ?B) \<le> card (set z)" by (simp add: card_mono)
  also have "card (set z) \<le> length z" by (rule card_length)
  finally show ?thesis using distinct_card [OF d] by simp
qed

text \<open>One check under the laws.\<close>

lemma sw_check_step:
  assumes laws: "zset_laws redis (buildKey c key) view"
    and inv: "window_inv (sw_windowMs c) A t (view w)" and "t \<le> now"
    and fresh: "sw_member now rnd \<notin> fst ` set A"
    and step: "sw_check redis c key now rnd w = (r, w')"
  shows "window_inv (sw_windowMs c) (if was_allowed r then A @ [(sw_member now rnd, now)] else A) now (view w')
    \<and> (was_allowed r \<longrightarrow> int (length (filter (\<lambda>(m, s). now - sw_windowMs c < s) A)) < sw_maxRequests c)"
proof -
  let ?k = "buildKey c key" and ?m = "sw_member now rnd" and ?W = "sw_windowMs c"
  let ?z = "sw_clean ?W now (view w)"
  obtain x w1 where ex: "rc_pipeline_exec redis (check_pipeline c ?k now ?m) w = (x, w1)" by fastforce
  obtain y w2 where rem: "rc_zrem redis ?k ?m w1 = (y, w2)" by fastforce
  have law1: "pipeline_law ?k view (check_pipeline c ?k now ?m) w (x, w1)"
    using laws by (simp add: zset_laws_def flip: ex)
  have "zrem_law view ?m w1 (y, w2)" using laws by (simp add: zset_laws_def flip: rem)
  then have law2: "view w2 = view w1 \<or> view w2 = jsmap_delete (view w1) ?m"
    by (cases y) (auto simp: zrem_law_def)
  have clean: "window_inv ?W A now ?z" using window_inv_clean [OF inv \<open>t \<le> now\<close>] .
  have set: "window_inv ?W A now (jsmap_set ?z ?m now)" by (rule window_inv_set [OF clean fresh])
  have old: "window_inv ?W A now (view w)" by (rule window_inv_later [OF inv \<open>t \<le> now\<close>])
  have v1: "window_inv ?W A now (view w1)"
    using law1 set old by (auto simp: pipeline_law_def check_pipeline_run split: completion.splits option.splits)
  then have v2: "window_inv ?W A now (view w2)" using law2 window_inv_delete [OF v1 fresh] by auto
  show ?thesis
  proof (cases "x = Return (Some (fst (zpipeline_run ?k (check_pipeline c ?k now ?m) (view w))))")
    case True
    then have "view w1 = jsmap_set ?z ?m now" using law1 by (simp add: pipeline_law_def check_pipeline_run)
    with True show ?thesis
      using step ex rem v1 v2 window_inv_allow [OF set fresh] window_count [OF clean]
      by (auto simp: sw_check_def Let_def zcard_result_def check_pipeline_run was_allowed_def
          split: completion.splits if_splits)
  next
    case False
    then have "(\<exists>e. x = Throw e) \<or> x = Return None"
      using law1 by (auto simp: pipeline_law_def check_pipeline_run split: completion.splits option.splits)
    then show ?thesis using step ex v1
      by (auto simp: sw_check_def Let_def zcard_result_def was_allowed_def)
  qed
qed

definition in_window :: "int \<Rightarrow> int \<Rightarrow> (string \<times> int) list \<Rightarrow> int" where
  "in_window t W A = int (length (filter (\<lambda>(m, s). t - W < s \<and> s \<le> t) A))"

lemma in_window_snoc: "in_window t W (A @ [(m, s)]) = in_window t W A + (if t - W < s \<and> s \<le> t then 1 else 0)"
  by (simp add: in_window_def)

lemma in_window_le: "now \<le> t \<Longrightarrow> in_window t W A \<le> int (length (filter (\<lambda>(m, s). now - W < s) A))"
  unfolding in_window_def by (induction A) auto

lemma run_checks_bound:
  assumes laws: "zset_laws redis (buildKey c key) view" and "0 \<le> sw_maxRequests c"
  shows "window_inv (sw_windowMs c) A t (view w) \<Longrightarrow> sorted (t # map fst cs) \<Longrightarrow>
    distinct (map fst A @ map (\<lambda>(n, r). sw_member n r) cs) \<Longrightarrow>
    (\<And>u. in_window u (sw_windowMs c) A \<le> sw_maxRequests c) \<Longrightarrow>
    in_window u (sw_windowMs c) A + allowed_in u (sw_windowMs c) (fst (run_checks redis c key cs w)) \<le> sw_maxRequests c"
proof (induction cs arbitrary: A t w)
  case Nil
  then show ?case by (simp add: allowed_in_def)
next
  case (Cons nr cs)
  obtain now rnd where nr: "nr = (now, rnd)" by fastforce
  obtain r w1 where ck: "sw_check redis c key now rnd w = (r, w1)" by fastforce
  let ?A = "if was_allowed r then A @ [(sw_member now rnd, now)] else A"
  have "t \<le> now" and "sw_member now rnd \<notin> fst ` set A" using Cons.prems nr by auto
  note st = sw_check_step [OF laws Cons.prems(1) this ck]
  have bound: "in_window v (sw_windowMs c) ?A \<le> sw_maxRequests c" for v
    using st Cons.prems(4) [of v] in_window_le [of now v "sw_windowMs c" A] by (auto simp: in_window_snoc)
  have "in_window u (sw_windowMs c) ?A + allowed_in u (sw_windowMs c) (fst (run_checks redis c key cs w1)) \<le> sw_maxRequests c"
    by (rule Cons.IH [OF conjunct1 [OF st] _ _ bound]) (use Cons.prems nr in auto)
  then show ?case using nr ck
    by (auto simp: split_beta allowed_in_def in_window_snoc split: if_splits)
qed


text \<open>A Redis that holds the one key, never fails and is never interleaved.\<close>

definition memory_redis :: "string \<Rightarrow> zset redis_client" where
  "memory_redis k = \<lparr>
     rc_pipeline_exec = (\<lambda>cs z. (Return (Some (fst (zpipeline_run k cs z))), snd (zpipeline_run k cs z))),
     rc_zrem = (\<lambda>k' m z. if k' = k then (Return (if jsmap_has z m then 1 else 0), jsmap_delete z m) else (Return 0, z)),
     rc_del = (\<lambda>k' z. if k' = k then (Return 1, []) else (Return 0, z))\<rparr>"

lemma memory_redis_laws: "zset_laws (memory_redis k) k (\<lambda>z. z)"
  by (simp add: zset_laws_def memory_redis_def pipeline_law_def zrem_law_def)

definition one_per_second :: SlidingWindowConfig where
  "one_per_second = \<lparr>sw_maxRequests = 1, sw_windowMs = 1000, sw_keyPrefix = ''rate''\<rparr>"

definition demo_checks :: "(int \<times> string) list" where
  "demo_checks = [(100, ''abc''), (600, ''abd''), (1200, ''abe'')]"

lemma demo_checks_run:
  "fst (run_checks (memory_redis ''rate:ip'') one_per_second ''ip'' demo_checks []) = [(100, True), (600, False), (1200, True)]"
  by code_simp


text \<open>
  A pipeline is not a transaction: when the commands of two checks interleave after their \<open>zcard\<close>, both
  see the count before either add, and both are allowed.
\<close>

lemma interleaved_checks_exceed:
  "let a = check_pipeline one_per_second ''rate:ip'' 100 ''a''; b = check_pipeline one_per_second ''rate:ip'' 100 ''b'';
       (ra, z1) = zpipeline_run ''rate:ip'' (take 2 a) [];
       (rb, z2) = zpipeline_run ''rate:ip'' (take 2 b) z1
   in zcard_result (Some ra) = Ok 0 \<and> zcard_result (Some rb) = Ok 0
      \<and> length (snd (zpipeline_run ''rate:ip'' (drop 2 a @ drop 2 b) z2)) = 2"
  by code_simp

end
