(* ===== verification/PromMetrics.thy ===== *)
theory PromMetrics
  imports JsMap
begin

text \<open>
  packages/core/src/contracts/crawl-metrics.ts and packages/observability/src/prom-metrics.ts: the
  calls of the metrics contract as data, and the Prometheus adapter as the state of its registry.
  The counters, gauges and the histogram of prom-client are their values.
\<close>

datatype metrics_call =
    RecordFetch string "string option"
  | RecordFetchDuration rat
  | RecordUrlsDiscovered int
  | SetFrontierSize int
  | SetStalledJobs int
  | SetActiveJobs int
  | SetWorkerUtilization rat
  | IncrementCoordinatorRestarts

definition ALLOWED_FETCH_STATUSES :: "string list" where
  "ALLOWED_FETCH_STATUSES = [''success'', ''error'', ''timeout'', ''blocked'', ''skipped'']"

definition FALLBACK_STATUS :: string where
  "FALLBACK_STATUS = ''unknown''"

record prom_registry =
  pm_fetchesTotal :: "(string \<times> string option, int) js_map"
  pm_fetchDuration :: "rat list"
  pm_urlsDiscovered :: int
  pm_frontierSize :: int
  pm_activeJobs :: int
  pm_workerUtilization :: rat
  pm_stalledJobs :: int
  pm_coordinatorRestarts :: int

definition createPromMetrics :: prom_registry where
  "createPromMetrics =
     \<lparr>pm_fetchesTotal = [], pm_fetchDuration = [], pm_urlsDiscovered = 0, pm_frontierSize = 0, pm_activeJobs = 0,
      pm_workerUtilization = 0, pm_stalledJobs = 0, pm_coordinatorRestarts = 0\<rparr>"

definition counter_of :: "(string \<times> string option, int) js_map \<Rightarrow> string \<times> string option \<Rightarrow> int" where
  "counter_of m k = (case jsmap_get m k of Some n \<Rightarrow> n | None \<Rightarrow> 0)"

fun prom_call :: "prom_registry \<Rightarrow> metrics_call \<Rightarrow> prom_registry" where
  "prom_call p (RecordFetch status errorKind) =
     (let safeStatus = (if status \<in> set ALLOWED_FETCH_STATUSES then status else FALLBACK_STATUS);
          labels = (safeStatus, errorKind)
      in p\<lparr>pm_fetchesTotal := jsmap_set (pm_fetchesTotal p) labels (counter_of (pm_fetchesTotal p) labels + 1)\<rparr>)"
| "prom_call p (RecordFetchDuration seconds) =
     (if 0 < seconds then p\<lparr>pm_fetchDuration := pm_fetchDuration p @ [seconds]\<rparr> else p)"
| "prom_call p (RecordUrlsDiscovered count) =
     (if 0 < count then p\<lparr>pm_urlsDiscovered := pm_urlsDiscovered p + count\<rparr> else p)"
| "prom_call p (SetFrontierSize n) = p\<lparr>pm_frontierSize := n\<rparr>"
| "prom_call p (SetStalledJobs count) = p\<lparr>pm_stalledJobs := pm_stalledJobs p + count\<rparr>"
| "prom_call p (SetActiveJobs count) = p\<lparr>pm_activeJobs := count\<rparr>"
| "prom_call p (SetWorkerUtilization ratio) = p\<lparr>pm_workerUtilization := ratio\<rparr>"
| "prom_call p IncrementCoordinatorRestarts = p\<lparr>pm_coordinatorRestarts := pm_coordinatorRestarts p + 1\<rparr>"

definition prom_run :: "prom_registry \<Rightarrow> metrics_call list \<Rightarrow> prom_registry" where
  "prom_run p calls = foldl prom_call p calls"

lemma prom_run_simps [simp]:
  "prom_run p [] = p" "prom_run p (c # cs) = prom_run (prom_call p c) cs"
  "prom_run p (cs @ ds) = prom_run (prom_run p cs) ds"
  by (simp_all add: prom_run_def)

section \<open>Labels stay bounded and fetches are counted\<close>

definition known_status :: "string \<Rightarrow> bool" where
  "known_status s \<longleftrightarrow> s \<in> set (FALLBACK_STATUS # ALLOWED_FETCH_STATUSES)"

definition prom_labels_ok :: "prom_registry \<Rightarrow> bool" where
  "prom_labels_ok p \<longleftrightarrow> (\<forall>((s, k), n)\<in>set (pm_fetchesTotal p). known_status s)"

lemma set_jsmap_set_subset: "set (jsmap_set m k v) \<subseteq> insert (k, v) (set m)"
  by (induction m k v rule: jsmap_set.induct) auto

lemma prom_labels_call: "prom_labels_ok p \<Longrightarrow> prom_labels_ok (prom_call p c)"
proof (cases c)
  case (RecordFetch status k)
  assume ok: "prom_labels_ok p"
  show ?thesis using RecordFetch ok
    by (auto simp: prom_labels_ok_def known_status_def Let_def
        dest!: subsetD [OF set_jsmap_set_subset] split: if_splits)
qed (auto simp: prom_labels_ok_def)

interpretation prom: step_system prom_call prom_labels_ok
  by unfold_locales (rule prom_labels_call)

definition fetch_total :: "prom_registry \<Rightarrow> int" where
  "fetch_total p = sum_list (map snd (pm_fetchesTotal p))"

definition is_fetch :: "metrics_call \<Rightarrow> bool" where
  "is_fetch c = (case c of RecordFetch _ _ \<Rightarrow> True | _ \<Rightarrow> False)"

lemma sum_jsmap_set_inc:
  "sum_list (map snd (jsmap_set m k (counter_of m k + 1))) = sum_list (map snd m) + 1"
proof -
  have "sum_list (map snd (jsmap_set m k v)) = sum_list (map snd m) + v - counter_of m k" for v
    by (induction m k v rule: jsmap_set.induct) (auto simp: counter_of_def jsmap_get_def)
  then show ?thesis by simp
qed

lemma fetch_total_call: "fetch_total (prom_call p c) = fetch_total p + (if is_fetch c then 1 else 0)"
  by (cases c) (auto simp: fetch_total_def is_fetch_def Let_def sum_jsmap_set_inc)

lemma fetch_total_run: "fetch_total (prom_run p calls) = fetch_total p + int (length (filter is_fetch calls))"
  by (induction calls arbitrary: p) (auto simp: fetch_total_call)

text \<open>Whatever statuses the callers report, the fetch counter only has series for the five allowed statuses and the fallback, and its series add up to the number of fetches recorded.\<close>

theorem prom_fetch_series:
  "let p = prom_run createPromMetrics calls
   in list_all (\<lambda>((s, k), n). s \<in> set (FALLBACK_STATUS # ALLOWED_FETCH_STATUSES)) (pm_fetchesTotal p)
      \<and> fetch_total p = int (length (filter is_fetch calls))"
proof -
  have "prom_labels_ok (prom_run createPromMetrics calls)"
    unfolding prom_run_def by (rule prom.run_inv) (simp add: prom_labels_ok_def createPromMetrics_def)
  then show ?thesis
    using fetch_total_run [of createPromMetrics calls]
    by (auto simp: prom_labels_ok_def known_status_def list_all_iff Let_def fetch_total_def createPromMetrics_def)
qed

end
