(* ===== verification/WorkerManagement.thy ===== *)
theory WorkerManagement
  imports PromMetrics JsString
begin

text \<open>
  packages/worker-management/src: the utilization tracker, the job consumer adapter driven by the
  events of the queue, the configuration of stalled jobs and the periodic metrics reporter. The
  consumer, the event source and the count provider are functions over the world.
\<close>

section \<open>utilization-tracker.ts\<close>

record UtilizationTracker =
  ut_activeJobs :: int
  ut_maxConcurrency :: int

definition new_UtilizationTracker :: "rat \<Rightarrow> UtilizationTracker completion" where
  "new_UtilizationTracker maxConcurrency =
     (if maxConcurrency < 1 \<or> of_int (floor maxConcurrency) \<noteq> maxConcurrency
      then Throw (ThrownError (new_Error (''maxConcurrency must be a positive integer, got '' @ jsnum_text (Num maxConcurrency))))
      else Return \<lparr>ut_activeJobs = 0, ut_maxConcurrency = floor maxConcurrency\<rparr>)"

definition ut_ratio :: "UtilizationTracker \<Rightarrow> rat" where
  "ut_ratio t = of_int (ut_activeJobs t) / of_int (ut_maxConcurrency t)"

definition onJobStarted :: "UtilizationTracker \<Rightarrow> UtilizationTracker" where
  "onJobStarted t = t\<lparr>ut_activeJobs := ut_activeJobs t + 1\<rparr>"

definition onJobCompleted :: "UtilizationTracker \<Rightarrow> UtilizationTracker" where
  "onJobCompleted t = t\<lparr>ut_activeJobs := max 0 (ut_activeJobs t - 1)\<rparr>"

definition onJobFailed :: "UtilizationTracker \<Rightarrow> UtilizationTracker" where
  "onJobFailed t = t\<lparr>ut_activeJobs := max 0 (ut_activeJobs t - 1)\<rparr>"

definition onJobStalled :: "UtilizationTracker \<Rightarrow> UtilizationTracker" where
  "onJobStalled t = t\<lparr>ut_activeJobs := max 0 (ut_activeJobs t - 1)\<rparr>"

definition ut_reset :: "int \<Rightarrow> UtilizationTracker \<Rightarrow> UtilizationTracker" where
  "ut_reset actualActiveCount t = t\<lparr>ut_activeJobs := max 0 actualActiveCount\<rparr>"

definition isInconsistent :: "UtilizationTracker \<Rightarrow> bool" where
  "isInconsistent t = (ut_maxConcurrency t < ut_activeJobs t)"

section \<open>stalled-job-config.ts\<close>

record StalledJobConfig =
  sj_checkInterval :: rat
  sj_lockDuration :: rat
  sj_maxStalledCount :: rat

definition createStalledJobConfig :: "rat option \<Rightarrow> rat option \<Rightarrow> rat option \<Rightarrow> StalledJobConfig completion" where
  "createStalledJobConfig check lock stalled =
     (let checkInterval = (case check of Some x \<Rightarrow> x | None \<Rightarrow> 30000);
          lockDuration = (case lock of Some x \<Rightarrow> x | None \<Rightarrow> checkInterval * 2);
          maxStalledCount = (case stalled of Some x \<Rightarrow> x | None \<Rightarrow> 3);
          fail = (\<lambda>m. Throw (ThrownError (new_Error m)))
      in if checkInterval \<le> 0
         then fail (''checkInterval must be positive, got '' @ jsnum_text (Num checkInterval))
         else if lockDuration < 2 * checkInterval
         then fail (''lockDuration ('' @ jsnum_text (Num lockDuration) @ '') must be >= 2 * checkInterval ('' @
                    jsnum_text (Num (2 * checkInterval)) @ '')'')
         else if maxStalledCount < 1
         then fail (''maxStalledCount must be >= 1, got '' @ jsnum_text (Num maxStalledCount))
         else Return \<lparr>sj_checkInterval = checkInterval, sj_lockDuration = lockDuration, sj_maxStalledCount = maxStalledCount\<rparr>)"

section \<open>job-consumer-adapter.ts\<close>

datatype ConsumerState = ConsumerCreated | ConsumerStarted | ConsumerClosed

datatype job_event = JobActive string | JobCompleted string | JobFailed string thrown | JobStalled string

text \<open>The fields of the object, and the calls it made on the metrics.\<close>

record JobConsumerAdapter =
  ja_tracker :: UtilizationTracker
  ja_state :: ConsumerState
  ja_processedTotal :: nat
  ja_failedTotal :: nat
  ja_stalledTotal :: nat
  ja_metrics :: "metrics_call list"

definition new_JobConsumerAdapter :: "rat \<Rightarrow> JobConsumerAdapter completion" where
  "new_JobConsumerAdapter maxConcurrency =
     (case new_UtilizationTracker maxConcurrency of
        Throw e \<Rightarrow> Throw e
      | Return t \<Rightarrow> Return \<lparr>ja_tracker = t, ja_state = ConsumerCreated, ja_processedTotal = 0, ja_failedTotal = 0,
                            ja_stalledTotal = 0, ja_metrics = []\<rparr>)"

definition ja_start :: "('w \<Rightarrow> unit completion \<times> 'w) \<Rightarrow> JobConsumerAdapter \<Rightarrow> 'w \<Rightarrow> (unit completion \<times> JobConsumerAdapter) \<times> 'w" where
  "ja_start consumer_start a w =
     (case ja_state a of
        ConsumerStarted \<Rightarrow> ((Throw (ThrownError (new_Error ''JobConsumerAdapter already started - start() is callable exactly once'')), a), w)
      | ConsumerClosed \<Rightarrow> ((Throw (ThrownError (new_Error ''JobConsumerAdapter is closed - cannot restart'')), a), w)
      | ConsumerCreated \<Rightarrow>
          (case consumer_start w of (r, w') \<Rightarrow> ((r, a\<lparr>ja_state := ConsumerStarted\<rparr>), w')))"

definition ja_close ::
  "(int option \<Rightarrow> 'w \<Rightarrow> unit completion \<times> 'w) \<Rightarrow> ('w \<Rightarrow> unit completion \<times> 'w) \<Rightarrow> int option \<Rightarrow> JobConsumerAdapter \<Rightarrow> 'w
     \<Rightarrow> (unit completion \<times> JobConsumerAdapter) \<times> 'w" where
  "ja_close consumer_close events_close timeout a w =
     (if ja_state a = ConsumerClosed then ((Return (), a), w)
      else let a' = a\<lparr>ja_state := ConsumerClosed\<rparr>
           in case consumer_close timeout w of
                (Throw e, w1) \<Rightarrow> ((Throw e, a'), w1)
              | (Return _, w1) \<Rightarrow> (case events_close w1 of (r, w2) \<Rightarrow> ((r, a'), w2)))"

definition reportMetrics :: "JobConsumerAdapter \<Rightarrow> JobConsumerAdapter" where
  "reportMetrics a = a\<lparr>ja_metrics := ja_metrics a @
     [SetActiveJobs (ut_activeJobs (ja_tracker a)), SetWorkerUtilization (ut_ratio (ja_tracker a))]\<rparr>"

fun on_job_event :: "JobConsumerAdapter \<Rightarrow> job_event \<Rightarrow> JobConsumerAdapter" where
  "on_job_event a (JobActive jobId) = reportMetrics (a\<lparr>ja_tracker := onJobStarted (ja_tracker a)\<rparr>)"
| "on_job_event a (JobCompleted jobId) =
     reportMetrics (a\<lparr>ja_tracker := onJobCompleted (ja_tracker a), ja_processedTotal := ja_processedTotal a + 1\<rparr>)"
| "on_job_event a (JobFailed jobId error) =
     reportMetrics (a\<lparr>ja_tracker := onJobFailed (ja_tracker a), ja_failedTotal := ja_failedTotal a + 1\<rparr>)"
| "on_job_event a (JobStalled jobId) =
     (let a' = a\<lparr>ja_tracker := onJobStalled (ja_tracker a), ja_stalledTotal := ja_stalledTotal a + 1\<rparr>
      in reportMetrics (a'\<lparr>ja_metrics := ja_metrics a' @ [SetStalledJobs (int (ja_stalledTotal a'))]\<rparr>))"

section \<open>worker-metrics.ts\<close>

text \<open>\<open>_timer\<close> is the handle of an interval; \<open>wr_live\<close> are the intervals that are running.\<close>

record WorkerMetricsReporter =
  wr_tracker :: UtilizationTracker
  wr_intervalMs :: int
  wr_timer :: "nat option"
  wr_resetCount :: nat
  wr_live :: "nat list"
  wr_nextHandle :: nat
  wr_calls :: "metrics_call list"
  wr_logs :: "log_line list"

definition new_WorkerMetricsReporter :: "UtilizationTracker \<Rightarrow> int option \<Rightarrow> WorkerMetricsReporter" where
  "new_WorkerMetricsReporter tracker checkIntervalMs =
     \<lparr>wr_tracker = tracker, wr_intervalMs = (case checkIntervalMs of Some x \<Rightarrow> x | None \<Rightarrow> 10000), wr_timer = None,
      wr_resetCount = 0, wr_live = [], wr_nextHandle = 0, wr_calls = [], wr_logs = []\<rparr>"

definition wr_start :: "WorkerMetricsReporter \<Rightarrow> WorkerMetricsReporter" where
  "wr_start r = r\<lparr>wr_timer := Some (wr_nextHandle r), wr_live := wr_live r @ [wr_nextHandle r], wr_nextHandle := wr_nextHandle r + 1\<rparr>"

definition wr_stop :: "WorkerMetricsReporter \<Rightarrow> WorkerMetricsReporter" where
  "wr_stop r =
     (case wr_timer r of
        Some h \<Rightarrow> r\<lparr>wr_live := filter (\<lambda>x. x \<noteq> h) (wr_live r), wr_timer := None\<rparr>
      | None \<Rightarrow> r)"

definition wr_tick ::
  "('w \<Rightarrow> int completion \<times> 'w) \<Rightarrow> WorkerMetricsReporter \<Rightarrow> 'w \<Rightarrow> (unit completion \<times> WorkerMetricsReporter) \<times> 'w" where
  "wr_tick getActiveCount r w =
     (let t = wr_tracker r;
          r1 = r\<lparr>wr_calls := wr_calls r @ [SetActiveJobs (ut_activeJobs t), SetWorkerUtilization (ut_ratio t)]\<rparr>
      in if isInconsistent t
         then (case getActiveCount w of
                 (Throw e, w') \<Rightarrow> ((Throw e, r1), w')
               | (Return actual, w') \<Rightarrow>
                   ((Return (), r1\<lparr>wr_logs := wr_logs r1 @ [(LogWarn, ''Counter inconsistency detected - resetting to actual queue count'',
                         [(''expected'', string_of_int (ut_activeJobs t)), (''actual'', string_of_int actual),
                          (''max'', string_of_int (ut_maxConcurrency t))])],
                       wr_tracker := ut_reset actual t, wr_resetCount := wr_resetCount r1 + 1,
                       wr_calls := wr_calls r1 @ [IncrementCoordinatorRestarts]\<rparr>), w'))
         else ((Return (), r1), w))"

section \<open>The tracker counts the running jobs\<close>

text \<open>
  The abstract worker: the set of running jobs. An event is legal when a job becomes active that is not
  running, or a running job completes, fails or stalls.
\<close>

fun running_step :: "string set \<Rightarrow> job_event \<Rightarrow> string set option" where
  "running_step R (JobActive j) = (if j \<in> R then None else Some (insert j R))"
| "running_step R (JobCompleted j) = (if j \<in> R then Some (R - {j}) else None)"
| "running_step R (JobFailed j e) = (if j \<in> R then Some (R - {j}) else None)"
| "running_step R (JobStalled j) = (if j \<in> R then Some (R - {j}) else None)"

fun running_jobs :: "string set \<Rightarrow> job_event list \<Rightarrow> string set option" where
  "running_jobs R [] = Some R"
| "running_jobs R (e # es) = (case running_step R e of None \<Rightarrow> None | Some R' \<Rightarrow> running_jobs R' es)"

definition is_completed :: "job_event \<Rightarrow> bool" where
  "is_completed e = (case e of JobCompleted _ \<Rightarrow> True | _ \<Rightarrow> False)"

definition is_failed :: "job_event \<Rightarrow> bool" where
  "is_failed e = (case e of JobFailed _ _ \<Rightarrow> True | _ \<Rightarrow> False)"

lemmas tracker_defs = onJobStarted_def onJobCompleted_def onJobFailed_def onJobStalled_def reportMetrics_def
lemmas event_kind_defs = is_completed_def is_failed_def

text \<open>The simulation: the counter is the number of running jobs.\<close>

definition tracks :: "JobConsumerAdapter \<Rightarrow> string set \<Rightarrow> bool" where
  "tracks a R \<longleftrightarrow> finite R \<and> ut_activeJobs (ja_tracker a) = int (card R)"

lemma tracks_step:
  assumes "tracks a R" and "running_step R e = Some R'"
  shows "tracks (on_job_event a e) R'"
proof (cases e)
  case (JobActive j)
  then show ?thesis using assms by (auto simp: tracks_def tracker_defs split: if_splits)
qed (use assms in \<open>auto simp: tracks_def tracker_defs Let_def card_Diff_singleton of_nat_diff
       Suc_leI card_gt_0_iff split: if_splits\<close>)

lemma tracks_run: "tracks a R \<Longrightarrow> running_jobs R es = Some R' \<Longrightarrow> tracks (foldl on_job_event a es) R'"
proof (induction es arbitrary: a R)
  case (Cons e es)
  then show ?case using tracks_step [of a R e] by (auto split: option.splits)
qed simp

lemma totals_step:
  "ja_processedTotal (on_job_event a e) = ja_processedTotal a + (if is_completed e then 1 else 0)"
  "ja_failedTotal (on_job_event a e) = ja_failedTotal a + (if is_failed e then 1 else 0)"
  by (cases e; simp add: tracker_defs event_kind_defs Let_def)+

lemma processed_run:
  "ja_processedTotal (foldl on_job_event a es) = ja_processedTotal a + length (filter is_completed es)"
  "ja_failedTotal (foldl on_job_event a es) = ja_failedTotal a + length (filter is_failed es)"
  by (induction es arbitrary: a) (simp_all add: totals_step)

lemma new_adapter:
  "new_JobConsumerAdapter maxConcurrency = Return a \<Longrightarrow>
    tracks a {} \<and> ja_processedTotal a = 0 \<and> ja_failedTotal a = 0 \<and> ja_stalledTotal a = 0 \<and> ja_metrics a = []
    \<and> ja_state a = ConsumerCreated \<and> 1 \<le> ut_maxConcurrency (ja_tracker a)"
  by (auto simp: new_JobConsumerAdapter_def new_UtilizationTracker_def tracks_def le_floor_iff
      split: completion.splits if_splits)

text \<open>C18: For every legal sequence of queue events the adapter's counter of active jobs is exactly the number of running jobs, and its totals are the numbers of completed and failed events: the integer with its floor guard implements the set of running jobs.\<close>

theorem tracker_refines_running:
  assumes "new_JobConsumerAdapter maxConcurrency = Return a" and "running_jobs {} events = Some R"
  shows "ut_activeJobs (ja_tracker (foldl on_job_event a events)) = int (card R)
    \<and> ja_processedTotal (foldl on_job_event a events) = length (filter is_completed events)
    \<and> ja_failedTotal (foldl on_job_event a events) = length (filter is_failed events)"
  using tracks_run [of a "{}", OF _ assms(2)] new_adapter [OF assms(1)]
  by (simp add: processed_run tracks_def)

definition demo_events :: "job_event list" where
  "demo_events = [JobActive ''a'', JobActive ''b'', JobCompleted ''a'', JobActive ''c'', JobStalled ''b'']"

theorem tracker_refines_running_witness:
  "\<exists>a. new_JobConsumerAdapter 2 = Return a \<and> ut_activeJobs (ja_tracker (foldl on_job_event a demo_events)) = 1
     \<and> ja_processedTotal (foldl on_job_event a demo_events) = 1"
proof -
  obtain a where a: "new_JobConsumerAdapter 2 = Return a"
    by (simp add: new_JobConsumerAdapter_def new_UtilizationTracker_def)
  have "running_jobs {} demo_events = Some {''c''}" by (auto simp: demo_events_def)
  from tracker_refines_running [OF a this] a show ?thesis
    by (simp add: demo_events_def is_completed_def)
qed

section \<open>The stalled counter\<close>

lemma stalled_metric_run:
  "2 * pm_stalledJobs (prom_run p (ja_metrics (foldl on_job_event a es))) =
     2 * pm_stalledJobs (prom_run p (ja_metrics a))
     + int (ja_stalledTotal (foldl on_job_event a es)) * (int (ja_stalledTotal (foldl on_job_event a es)) + 1)
     - int (ja_stalledTotal a) * (int (ja_stalledTotal a) + 1)"
proof (induction es rule: rev_induct)
  case (snoc e es)
  let ?a = "foldl on_job_event a es"
  have step: "2 * pm_stalledJobs (prom_run p (ja_metrics (on_job_event ?a e)))
      = 2 * pm_stalledJobs (prom_run p (ja_metrics ?a))
        + int (ja_stalledTotal (on_job_event ?a e)) * (int (ja_stalledTotal (on_job_event ?a e)) + 1)
        - int (ja_stalledTotal ?a) * (int (ja_stalledTotal ?a) + 1)"
    by (cases e) (simp_all add: tracker_defs Let_def algebra_simps)
  show ?case using snoc step by simp
qed simp

text \<open>The adapter reports its running total of stalled jobs, and the Prometheus adapter adds every report to its counter: after n stalled jobs the exported total is n (n + 1) / 2 and not n.\<close>

theorem stalled_jobs_overcounted:
  assumes "new_JobConsumerAdapter maxConcurrency = Return a"
    and "n = int (ja_stalledTotal (foldl on_job_event a events))"
  shows "2 * pm_stalledJobs (prom_run createPromMetrics (ja_metrics (foldl on_job_event a events))) = n * (n + 1)"
  using stalled_metric_run [of createPromMetrics a events] new_adapter [OF assms(1)] assms(2)
  by (simp add: createPromMetrics_def)

theorem stalled_jobs_overcounted_witness:
  "\<exists>a. new_JobConsumerAdapter 1 = Return a \<and>
     pm_stalledJobs (prom_run createPromMetrics (ja_metrics (foldl on_job_event a [JobStalled ''a'', JobStalled ''b'']))) = 3"
proof -
  obtain a where a: "new_JobConsumerAdapter 1 = Return a"
    by (simp add: new_JobConsumerAdapter_def new_UtilizationTracker_def)
  have "2 = int (ja_stalledTotal (foldl on_job_event a [JobStalled ''a'', JobStalled ''b'']))"
    using new_adapter [OF a] by (simp add: tracker_defs Let_def)
  from stalled_jobs_overcounted [OF a this] a show ?thesis by simp
qed

section \<open>The life of the consumer\<close>

datatype consumer_call = CallStart | CallClose "int option"

text \<open>The world of these runs counts the starts that reach the consumer.\<close>

fun consumer_step ::
  "('w \<Rightarrow> unit completion \<times> 'w) \<Rightarrow> (int option \<Rightarrow> 'w \<Rightarrow> unit completion \<times> 'w) \<Rightarrow> ('w \<Rightarrow> unit completion \<times> 'w) \<Rightarrow>
     JobConsumerAdapter \<times> 'w \<Rightarrow> consumer_call \<Rightarrow> JobConsumerAdapter \<times> 'w" where
  "consumer_step st cl ev (a, w) CallStart = (case ja_start st a w of ((_, a'), w') \<Rightarrow> (a', w'))"
| "consumer_step st cl ev (a, w) (CallClose t) = (case ja_close cl ev t a w of ((_, a'), w') \<Rightarrow> (a', w'))"

text \<open>Consumer calls that leave a trace and end as \<open>outcome\<close> says for their position.\<close>

definition traced :: "(nat \<Rightarrow> unit completion) \<Rightarrow> string \<Rightarrow> string list \<Rightarrow> unit completion \<times> string list" where
  "traced outcome name w = (outcome (length w), w @ [name])"

definition traced_step :: "(nat \<Rightarrow> unit completion) \<Rightarrow> JobConsumerAdapter \<times> string list \<Rightarrow> consumer_call \<Rightarrow> JobConsumerAdapter \<times> string list" where
  "traced_step outcome = consumer_step (traced outcome ''start'') (\<lambda>_. traced outcome ''close'') (traced outcome ''events'')"

definition consumer_inv :: "JobConsumerAdapter \<times> string list \<Rightarrow> bool" where
  "consumer_inv s \<longleftrightarrow> (case ja_state (fst s) of
     ConsumerCreated \<Rightarrow> snd s = []
   | ConsumerStarted \<Rightarrow> snd s = [''start'']
   | ConsumerClosed \<Rightarrow> snd s \<in> {[''close''], [''close'', ''events''], [''start'', ''close''], [''start'', ''close'', ''events'']})"

lemma consumer_inv_step: "consumer_inv s \<Longrightarrow> consumer_inv (traced_step outcome s e)"
  by (cases s; cases e; cases "ja_state (fst s)")
    (auto simp: consumer_inv_def traced_step_def ja_start_def ja_close_def traced_def Let_def split: completion.splits)

interpretation consumer: step_system "traced_step outcome" consumer_inv for outcome
  by unfold_locales (rule consumer_inv_step)

text \<open>Over any sequence of start and close calls, whether the calls they make fail or not, the consumer is started at most once and never after a close, closed at most once, and the event source is closed at most once and only after the consumer.\<close>

theorem consumer_started_once:
  "snd (foldl (traced_step outcome)
       (\<lparr>ja_tracker = t, ja_state = ConsumerCreated, ja_processedTotal = 0, ja_failedTotal = 0, ja_stalledTotal = 0,
         ja_metrics = []\<rparr>, []) calls)
   \<in> {[], [''start''], [''close''], [''close'', ''events''], [''start'', ''close''], [''start'', ''close'', ''events'']}"
  using consumer.run_inv [of "(\<lparr>ja_tracker = t, ja_state = ConsumerCreated, ja_processedTotal = 0,
      ja_failedTotal = 0, ja_stalledTotal = 0, ja_metrics = []\<rparr>, [])" outcome calls]
  by (auto simp: consumer_inv_def split: ConsumerState.splits)

section \<open>The reporter\<close>

text \<open>A second start forgets the handle of the first interval, which then outlives every stop.\<close>

lemma reporter_double_start_leaks:
  "wr_live (wr_stop (wr_stop (wr_start (wr_start (new_WorkerMetricsReporter t ms))))) = [0]"
  by (simp add: new_WorkerMetricsReporter_def wr_start_def wr_stop_def)

lemma reporter_tick_bounds:
  assumes "wr_tick getActiveCount r w = ((Return (), r'), w')"
  shows "(if isInconsistent (wr_tracker r)
      then \<exists>n. getActiveCount w = (Return n, w') \<and> ut_activeJobs (wr_tracker r') = max 0 n
        \<and> wr_resetCount r' = wr_resetCount r + 1
      else wr_tracker r' = wr_tracker r \<and> wr_resetCount r' = wr_resetCount r)"
  using assms by (auto simp: wr_tick_def ut_reset_def Let_def split: if_splits prod.splits completion.splits)

end
