(* ===== verification/ZodSchema.thy ===== *)
theory ZodSchema
  imports Prelude JsString
begin

text \<open>
  The vocabulary of the schemas the program writes with zod: checks of parsed JSON values, of numbers
  and of environment variables. Each definition is the documented meaning of one combinator; which
  strings are URLs and the wording of the issues are parameters of the definitions that use them.
\<close>

section \<open>JSON values and the schemas over them\<close>

datatype json = JNull | JBool bool | JNum rat | JStr string | JArr "json list" | JObj "(string \<times> json) list"

fun member :: "json \<Rightarrow> string \<Rightarrow> json option" where
  "member (JObj o') k = map_of o' k"
| "member _ k = None"

fun json_str :: "json option \<Rightarrow> string option" where
  "json_str (Some (JStr s)) = Some s"
| "json_str _ = None"

text \<open>\<open>z.string().min(1)\<close>, \<open>z.string().url()\<close>, \<open>z.number().int().min(lo).max(hi)\<close>.\<close>

definition z_nonempty :: "json option \<Rightarrow> bool" where
  "z_nonempty v = (case json_str v of Some s \<Rightarrow> s \<noteq> [] | None \<Rightarrow> False)"

definition z_url :: "(string \<Rightarrow> bool) \<Rightarrow> json option \<Rightarrow> bool" where
  "z_url is_url v = (case json_str v of Some s \<Rightarrow> is_url s | None \<Rightarrow> False)"

fun z_int :: "int \<Rightarrow> int option \<Rightarrow> json option \<Rightarrow> int option" where
  "z_int lo hi (Some (JNum q)) =
     (if q = of_int (floor q) \<and> lo \<le> floor q \<and> (case hi of None \<Rightarrow> True | Some h \<Rightarrow> floor q \<le> h) then Some (floor q) else None)"
| "z_int lo hi _ = None"

definition MAX_SAFE_INTEGER :: int where
  "MAX_SAFE_INTEGER = 9007199254740991"

text \<open>\<open>z.string().min(n)\<close>, \<open>z.boolean()\<close>, \<open>z.enum(options)\<close>, \<open>.default(d)\<close>; a schema with defaults only still asks for an object.\<close>

definition j_string :: "nat \<Rightarrow> json option \<Rightarrow> string option" where
  "j_string n v = (case json_str v of Some s \<Rightarrow> if n \<le> length s then Some s else None | None \<Rightarrow> None)"

fun j_bool :: "json option \<Rightarrow> bool option" where
  "j_bool (Some (JBool b)) = Some b"
| "j_bool _ = None"

definition j_enum :: "string list \<Rightarrow> json option \<Rightarrow> string option" where
  "j_enum options v = (case json_str v of Some s \<Rightarrow> if s \<in> set options then Some s else None | None \<Rightarrow> None)"

definition j_default :: "'a \<Rightarrow> (json option \<Rightarrow> 'a option) \<Rightarrow> json option \<Rightarrow> 'a option" where
  "j_default d p v = (case v of None \<Rightarrow> Some d | Some _ \<Rightarrow> p v)"

fun is_object :: "json \<Rightarrow> bool" where
  "is_object (JObj _) = True"
| "is_object _ = False"

lemma z_int_Some:
  "z_int lo hi v = Some n \<Longrightarrow> v = Some (JNum (of_int n)) \<and> lo \<le> n \<and> (case hi of None \<Rightarrow> True | Some h \<Rightarrow> n \<le> h)"
  by (cases "(lo, hi, v)" rule: z_int.cases; cases hi) (auto split: if_splits)

lemma z_int_of_int [simp]:
  "z_int lo hi (Some (JNum (of_int n))) = (if lo \<le> n \<and> (case hi of None \<Rightarrow> True | Some h \<Rightarrow> n \<le> h) then Some n else None)"
  by (cases hi) simp_all

lemma j_default_int: "j_default d (z_int lo hi) v = Some n \<Longrightarrow> lo \<le> d \<Longrightarrow> lo \<le> n"
  by (auto simp: j_default_def dest: z_int_Some split: option.splits)

lemma j_string_Some: "j_string n v = Some s \<Longrightarrow> n \<le> length s"
  by (auto simp: j_string_def split: option.splits if_splits)

lemma j_default_string: "j_default d (j_string n) v = Some s \<Longrightarrow> n \<le> length d \<Longrightarrow> n \<le> length s"
  by (auto simp: j_default_def dest: j_string_Some split: option.splits)

lemma j_default_None [simp]: "j_default d p None = Some d"
  by (simp add: j_default_def)

lemma j_default_Some [simp]: "j_default d p (Some v) = p (Some v)"
  by (simp add: j_default_def)

section \<open>Numbers\<close>

text \<open>\<open>z.number().int()\<close> with a range: a safe integer within it.\<close>

definition zod_int :: "int \<Rightarrow> int \<Rightarrow> jsnum \<Rightarrow> int option" where
  "zod_int lo hi n =
     (case n of
        Num q \<Rightarrow> (if of_int (floor q) = q \<and> lo \<le> floor q \<and> floor q \<le> hi then Some (floor q) else None)
      | _ \<Rightarrow> None)"

section \<open>Environment variables\<close>

text \<open>
  What the library decides: the URL a text denotes (as \<open>z.url()\<close> passes it on), and the messages for a
  variable it rejects, given its name and its value.
\<close>

record zod_lib =
  zod_url :: "string \<Rightarrow> string option"
  zod_messages :: "string \<Rightarrow> string option \<Rightarrow> string list"

type_synonym env_vars = "string \<Rightarrow> string option"
type_synonym zod_issue = "string list \<times> string"
type_synonym 'a zod_field = "zod_lib \<Rightarrow> string \<Rightarrow> string option \<Rightarrow> string list + 'a"

definition accept_or :: "zod_lib \<Rightarrow> string \<Rightarrow> string option \<Rightarrow> 'a option \<Rightarrow> string list + 'a" where
  "accept_or lib name v r = (case r of Some x \<Rightarrow> Inr x | None \<Rightarrow> Inl (zod_messages lib name v))"

text \<open>\<open>z.string()\<close> with the least length \<open>n\<close>, \<open>z.enum(options)\<close>, \<open>z.url()\<close>.\<close>

definition f_string :: "nat \<Rightarrow> string zod_field" where
  "f_string n lib name v = accept_or lib name v (case v of Some s \<Rightarrow> if n \<le> length s then Some s else None | None \<Rightarrow> None)"

definition f_enum :: "string list \<Rightarrow> string zod_field" where
  "f_enum options lib name v = accept_or lib name v (case v of Some s \<Rightarrow> if s \<in> set options then Some s else None | None \<Rightarrow> None)"

definition f_url :: "string zod_field" where
  "f_url lib name v = accept_or lib name v (Option.bind v (zod_url lib))"

text \<open>\<open>z.url().refine(v => v.startsWith(p1) || v.startsWith(p2), { message })\<close>.\<close>

definition f_url_scheme :: "string \<Rightarrow> string \<Rightarrow> string \<Rightarrow> string zod_field" where
  "f_url_scheme p1 p2 message lib name v =
     (case f_url lib name v of
        Inl ms \<Rightarrow> Inl ms
      | Inr u \<Rightarrow> if starts_with u p1 \<or> starts_with u p2 then Inr u else Inl [message])"

text \<open>
  \<open>z.coerce.number()\<close> is \<open>Number(v)\<close>, finite; \<open>.int()\<close> admits the safe integers only; \<open>.min\<close> and \<open>.max\<close>
  are inclusive.
\<close>

definition coerced :: "string option \<Rightarrow> jsnum" where
  "coerced v = (case v of Some s \<Rightarrow> js_Number s | None \<Rightarrow> NaN)"

definition f_int :: "int \<Rightarrow> int option \<Rightarrow> int zod_field" where
  "f_int lo hi lib name v =
     accept_or lib name v
       (Option.bind (zod_int (- MAX_SAFE_INTEGER) MAX_SAFE_INTEGER (coerced v))
          (\<lambda>n. if lo \<le> n \<and> (case hi of None \<Rightarrow> True | Some h \<Rightarrow> n \<le> h) then Some n else None))"

definition f_number :: "rat \<Rightarrow> rat \<Rightarrow> rat zod_field" where
  "f_number lo hi lib name v =
     accept_or lib name v (case coerced v of Num q \<Rightarrow> if lo \<le> q \<and> q \<le> hi then Some q else None | _ \<Rightarrow> None)"

text \<open>\<open>.default(d)\<close>, \<open>.optional()\<close>, \<open>.transform(f)\<close>.\<close>

definition f_default :: "'a \<Rightarrow> 'a zod_field \<Rightarrow> 'a zod_field" where
  "f_default d p lib name v = (case v of None \<Rightarrow> Inr d | Some _ \<Rightarrow> p lib name v)"

definition f_optional :: "'a zod_field \<Rightarrow> 'a option zod_field" where
  "f_optional p lib name v = (case v of None \<Rightarrow> Inr None | Some _ \<Rightarrow> map_sum id Some (p lib name v))"

definition f_transform :: "('a \<Rightarrow> 'b) \<Rightarrow> 'a zod_field \<Rightarrow> 'b zod_field" where
  "f_transform f p lib name v = map_sum id f (p lib name v)"

text \<open>\<open>z.object\<close> parses every member and collects the issues of all, under the member's name.\<close>

definition z_field :: "zod_lib \<Rightarrow> env_vars \<Rightarrow> string \<Rightarrow> 'a zod_field \<Rightarrow> zod_issue list + 'a" where
  "z_field lib env name p = map_sum (map (\<lambda>m. ([name], m))) id (p lib name (env name))"

fun z_app :: "zod_issue list + ('a \<Rightarrow> 'b) \<Rightarrow> zod_issue list + 'a \<Rightarrow> zod_issue list + 'b" where
  "z_app (Inr f) (Inr x) = Inr (f x)"
| "z_app (Inr f) (Inl es) = Inl es"
| "z_app (Inl es) (Inr x) = Inl es"
| "z_app (Inl es) (Inl fs) = Inl (es @ fs)"

section \<open>What a field accepts\<close>

fun_cases z_app_InrE: "z_app f x = Inr y"

named_theorems zod_accepts

text \<open>The parse \<open>r\<close> succeeds with a value that satisfies \<open>P\<close>.\<close>

definition yields :: "'e + 'a \<Rightarrow> ('a \<Rightarrow> bool) \<Rightarrow> bool" where
  "yields r P = (\<exists>a. r = Inr a \<and> P a)"

lemma yields_Inr: "yields (Inr a) P = P a"
  by (simp add: yields_def)

lemma yields_app: "yields (z_app f x) P = yields f (\<lambda>g. \<exists>a. x = Inr a \<and> P (g a))"
  by (fastforce simp: yields_def elim: z_app_InrE)

lemma yields_id: "yields r (\<lambda>a. a = c) \<longleftrightarrow> r = Inr c"
  by (auto simp: yields_def)

lemma z_field_Inr [zod_accepts]: "z_field lib env name p = Inr a \<longleftrightarrow> p lib name (env name) = Inr a"
  by (cases "p lib name (env name)") (auto simp: z_field_def)

lemma accept_or_Inr [zod_accepts]: "accept_or lib name v r = Inr a \<longleftrightarrow> r = Some a"
  by (auto simp: accept_or_def split: option.splits)

lemma f_string_Inr [zod_accepts]: "f_string n lib name v = Inr s \<longleftrightarrow> v = Some s \<and> n \<le> length s"
  by (auto simp: f_string_def zod_accepts split: option.splits if_splits)

lemma f_enum_Inr [zod_accepts]: "f_enum opts lib name v = Inr s \<longleftrightarrow> v = Some s \<and> s \<in> set opts"
  by (auto simp: f_enum_def zod_accepts split: option.splits if_splits)

lemma f_url_Inr [zod_accepts]: "f_url lib name v = Inr u \<longleftrightarrow> (\<exists>s. v = Some s \<and> zod_url lib s = Some u)"
  by (cases v) (auto simp: f_url_def zod_accepts)

lemma f_url_scheme_Inr [zod_accepts]:
  "f_url_scheme p q m lib name v = Inr u \<longleftrightarrow> f_url lib name v = Inr u \<and> (starts_with u p \<or> starts_with u q)"
  by (auto simp: f_url_scheme_def split: sum.splits)

lemma zod_int_Some: "zod_int lo hi x = Some n \<longleftrightarrow> x = Num (of_int n) \<and> lo \<le> n \<and> n \<le> hi"
  by (auto simp: zod_int_def split: jsnum.splits)

lemma f_int_Inr [zod_accepts]:
  "f_int lo hi lib name v = Inr n \<longleftrightarrow>
     coerced v = Num (of_int n) \<and> \<bar>n\<bar> \<le> MAX_SAFE_INTEGER \<and> lo \<le> n \<and> (case hi of None \<Rightarrow> True | Some h \<Rightarrow> n \<le> h)"
  by (auto simp: f_int_def zod_accepts Option.bind_eq_Some_conv zod_int_Some split: if_splits)

lemma f_number_Inr [zod_accepts]: "f_number lo hi lib name v = Inr q \<longleftrightarrow> coerced v = Num q \<and> lo \<le> q \<and> q \<le> hi"
  by (auto simp: f_number_def zod_accepts split: jsnum.splits if_splits)

lemma f_default_Inr [zod_accepts]:
  "f_default d p lib name v = Inr a \<longleftrightarrow> (v = None \<and> a = d) \<or> (v \<noteq> None \<and> p lib name v = Inr a)"
  by (auto simp: f_default_def split: option.splits)

lemma f_optional_Inr [zod_accepts]:
  "f_optional p lib name v = Inr a \<longleftrightarrow>
     (v = None \<and> a = None) \<or> (\<exists>x. v \<noteq> None \<and> a = Some x \<and> p lib name v = Inr x)"
  by (cases "p lib name v") (auto simp: f_optional_def split: option.splits)

lemma f_transform_Inr [zod_accepts]:
  "f_transform f p lib name v = Inr a \<longleftrightarrow> (\<exists>x. p lib name v = Inr x \<and> a = f x)"
  by (cases "p lib name v") (auto simp: f_transform_def)

lemma coerced_None [simp]: "coerced None = NaN"
  by (simp add: coerced_def)

text \<open>A value of nothing but white space is the number 0.\<close>

lemma coerced_blank: "list_all js_space s \<Longrightarrow> coerced (Some s) = Num 0"
  by (simp add: coerced_def js_Number_def js_trim_def list_all_iff dropWhile_eq_Nil_conv [THEN iffD2])

lemma js_Number_string_of_int: "0 \<le> n \<Longrightarrow> js_Number (string_of_int n) = Num (of_int n)"
  using js_Number_digits [of "string_of_nonneg n"] string_of_nonneg_digits [of n] digits_val_string_of_nonneg [of n]
    string_of_int_not_Nil [of n]
  by (simp add: string_of_int_def)

lemma coerced_int [simp]: "0 \<le> n \<Longrightarrow> coerced (Some (string_of_int n)) = Num (of_int n)"
  by (simp add: coerced_def js_Number_string_of_int)

end
