(* ===== verification/Connections.thy ===== *)
theory Connections
  imports UrlNormalizer ZodSchema
begin

text \<open>
  packages/completion-detection/src/state-store-connection.ts,
  packages/job-queue/src/connection-config.ts and packages/redis/src/connection.ts: connection
  settings and their URL. The URL parser is a parameter; a failed validation of the schema throws
  \<open>zod_error\<close>. \<open>decodeURIComponent\<close> is the part whose code points are below 256.
\<close>

section \<open>decodeURIComponent\<close>

fun uri_escape :: "string \<Rightarrow> (int \<times> string) option" where
  "uri_escape (p # a # b # r) =
     (if p = CHR ''%''
      then case (hex_val a, hex_val b) of (Some x, Some y) \<Rightarrow> Some (16 * x + y, r) | _ \<Rightarrow> None
      else None)"
| "uri_escape _ = None"

lemma uri_escape_shorter: "uri_escape s = Some (b, r) \<Longrightarrow> length r < length s"
  by (cases s rule: uri_escape.cases) (auto split: if_splits option.splits)

text \<open>\<open>None\<close>: a \<open>URIError\<close> is thrown.\<close>

function decodeURIComponent :: "string \<Rightarrow> string option" where
  "decodeURIComponent [] = Some []"
| "decodeURIComponent (c # s) =
     (if c \<noteq> CHR ''%'' then map_option (Cons c) (decodeURIComponent s)
      else case uri_escape (c # s) of
        None \<Rightarrow> None
      | Some (b, r) \<Rightarrow>
          if b < 128 then map_option (Cons (char_of b)) (decodeURIComponent r)
          else if b = 194 \<or> b = 195 then
            (case uri_escape r of
               None \<Rightarrow> None
             | Some (b2, r2) \<Rightarrow>
                 if 128 \<le> b2 \<and> b2 < 192
                 then map_option (Cons (char_of (64 * (b - 192) + (b2 - 128)))) (decodeURIComponent r2)
                 else None)
          else None)"
  by pat_completeness auto
termination
  by (relation "measure length") (auto dest!: uri_escape_shorter)

lemma hex_val_digit: "0 \<le> d \<Longrightarrow> d < 16 \<Longrightarrow> hex_val (hex_digit d) = Some d"
proof -
  assume d: "0 \<le> d" "d < 16"
  have "list_all (\<lambda>d. hex_val (hex_digit d) = Some d) [0, 1, 2, 3, 4, 5, 6, 7, 8, 9, 10, 11, 12, 13, 14, 15]"
    by code_simp
  moreover have "d = 0 \<or> d = 1 \<or> d = 2 \<or> d = 3 \<or> d = 4 \<or> d = 5 \<or> d = 6 \<or> d = 7 \<or> d = 8 \<or> d = 9 \<or> d = 10
      \<or> d = 11 \<or> d = 12 \<or> d = 13 \<or> d = 14 \<or> d = 15"
    using d by presburger
  ultimately show ?thesis by auto
qed

lemma uri_escape_byte:
  assumes "0 \<le> b" "b < 256"
  shows "uri_escape (CHR ''%'' # hex_digit (b div 16) # hex_digit (b mod 16) # r) = Some (b, r)"
proof -
  have "hex_val (hex_digit (b div 16)) = Some (b div 16)" and "hex_val (hex_digit (b mod 16)) = Some (b mod 16)"
    using assms by (auto intro!: hex_val_digit)
  then show ?thesis by simp
qed

lemma char_code_bounds: "0 \<le> char_code c" "char_code c < 256"
proof -
  have "char_code c = char_code c mod 256" by simp
  then show "0 \<le> char_code c" "char_code c < 256" by presburger+
qed

lemma decode_encode_char:
  "decodeURIComponent ((if uri_unreserved c then [c]
      else concat (map (\<lambda>b. [CHR ''%'', hex_digit (b div 16), hex_digit (b mod 16)]) (utf8_bytes c))) @ r)
    = map_option (Cons c) (decodeURIComponent r)"
proof (cases "uri_unreserved c")
  case True
  then have "c \<noteq> CHR ''%''" by (auto simp: uri_unreserved_def)
  with True show ?thesis by simp
next
  case False
  define n where "n = char_code c"
  have n: "0 \<le> n" "n < 256" using char_code_bounds [of c] by (simp_all add: n_def)
  have c: "char_of n = c" by (simp add: n_def)
  show ?thesis
  proof (cases "n < 128")
    case True
    then have "utf8_bytes c = [n]" by (simp add: utf8_bytes_def n_def Let_def)
    with False n True c uri_escape_byte [of n] show ?thesis by simp
  next
    case big: False
    then have u: "utf8_bytes c = [192 + n div 64, 128 + n mod 64]" by (simp add: utf8_bytes_def n_def Let_def)
    have b1: "192 + n div 64 = 194 \<or> 192 + n div 64 = 195" using big n by auto
    have b2: "128 \<le> 128 + n mod 64" "128 + n mod 64 < 192" by auto
    have e1: "uri_escape (CHR ''%'' # hex_digit ((192 + n div 64) div 16) # hex_digit ((192 + n div 64) mod 16) # s)
        = Some (192 + n div 64, s)" for s
      by (rule uri_escape_byte) (use b1 in auto)
    have e2: "uri_escape (CHR ''%'' # hex_digit ((128 + n mod 64) div 16) # hex_digit ((128 + n mod 64) mod 16) # s)
        = Some (128 + n mod 64, s)" for s
      by (rule uri_escape_byte) (use b2 in auto)
    have "\<not> 192 + n div 64 < 128" using n by auto
    moreover have "64 * (192 + n div 64 - 192) + (128 + n mod 64 - 128) = n" by simp
    ultimately show ?thesis
      using False u b1 b2 c by (simp del: uri_escape.simps add: e1 e2)
  qed
qed

lemma decode_encode: "decodeURIComponent (encodeURIComponent s) = Some s"
proof (induction s)
  case (Cons c s)
  then show ?case using decode_encode_char [of c "encodeURIComponent s"] by (simp add: encodeURIComponent_def)
qed (simp add: encodeURIComponent_def)

section \<open>state-store-connection.ts\<close>

record StateStoreConnection =
  ss_host :: string
  ss_port :: int
  ss_password :: "string option"
  ss_username :: "string option"
  ss_database :: int
  ss_tls :: bool

definition StateStoreConnectionSchema ::
  "thrown \<Rightarrow> string \<Rightarrow> jsnum \<Rightarrow> string option \<Rightarrow> string option \<Rightarrow> jsnum \<Rightarrow> bool \<Rightarrow> StateStoreConnection completion" where
  "StateStoreConnectionSchema zod_error host port password username database tls =
     (case (zod_int 1 65535 port, zod_int 0 15 database) of
        (Some p, Some d) \<Rightarrow>
          if host \<noteq> []
          then Return \<lparr>ss_host = host, ss_port = p, ss_password = password, ss_username = username, ss_database = d, ss_tls = tls\<rparr>
          else Throw zod_error
      | _ \<Rightarrow> Throw zod_error)"

definition buildAuthPart :: "StateStoreConnection \<Rightarrow> string" where
  "buildAuthPart c =
     (case (ss_username c, ss_password c) of
        (Some u, Some p) \<Rightarrow> encodeURIComponent u @ '':'' @ encodeURIComponent p @ ''@''
      | (None, Some p) \<Rightarrow> '':'' @ encodeURIComponent p @ ''@''
      | (_, None) \<Rightarrow> [])"

definition buildConnectionUrl :: "StateStoreConnection \<Rightarrow> string" where
  "buildConnectionUrl c =
     (let scheme = (if ss_tls c then ''rediss'' else ''redis'');
          auth = buildAuthPart c;
          db = (if 0 < ss_database c then ''/'' @ string_of_int (ss_database c) else [])
      in scheme @ ''://'' @ auth @ ss_host c @ '':'' @ string_of_int (ss_port c) @ db)"

text \<open>An optional component: absent when empty, otherwise decoded.\<close>

definition decoded_part :: "string \<Rightarrow> string option completion" where
  "decoded_part s =
     (if s = [] then Return None
      else case decodeURIComponent s of
             Some x \<Rightarrow> Return (Some x)
           | None \<Rightarrow> Throw (ThrownError ((new_Error ''URI malformed'')\<lparr>err_name := ''URIError''\<rparr>)))"

definition url_port :: "url_obj \<Rightarrow> jsnum" where
  "url_port parsed = (if u_port parsed \<noteq> [] then js_Number (u_port parsed) else Num 6379)"

definition url_database :: "url_obj \<Rightarrow> jsnum" where
  "url_database parsed = (if 1 < length (u_pathname parsed) then js_Number (drop 1 (u_pathname parsed)) else Num 0)"

definition invalid_url :: thrown where
  "invalid_url = ThrownError ((new_Error ''Invalid URL'')\<lparr>err_name := ''TypeError'', err_code := Some ''ERR_INVALID_URL''\<rparr>)"

definition parseConnectionUrl :: "url_parser \<Rightarrow> thrown \<Rightarrow> string \<Rightarrow> StateStoreConnection completion" where
  "parseConnectionUrl parse zod_error url =
     (case parse url of
        None \<Rightarrow> Throw invalid_url
      | Some parsed \<Rightarrow>
          if u_protocol parsed \<noteq> ''redis:'' \<and> u_protocol parsed \<noteq> ''rediss:''
          then Throw (ThrownError (new_Error (''Invalid Redis URL protocol: '' @ u_protocol parsed @ '' (expected redis: or rediss:)'')))
          else let tls = (u_protocol parsed = ''rediss:'');
                   database = url_database parsed
               in case decoded_part (u_password parsed) of
                    Throw e \<Rightarrow> Throw e
                  | Return password \<Rightarrow>
                      (case decoded_part (u_username parsed) of
                         Throw e \<Rightarrow> Throw e
                       | Return username \<Rightarrow>
                           StateStoreConnectionSchema zod_error (u_hostname parsed) (url_port parsed) password username
                             (if database = NaN then Num 0 else database) tls))"

section \<open>connection-config.ts of the job queue, connection.ts of redis\<close>

record BullMQConnection =
  bc_host :: string
  bc_port :: int
  bc_password :: "string option"
  bc_username :: "string option"
  bc_db :: int
  bc_maxRetriesPerRequest :: "int option"
  bc_enableReadyCheck :: bool

definition parseRedisUrl :: "url_parser \<Rightarrow> thrown \<Rightarrow> string \<Rightarrow> BullMQConnection completion" where
  "parseRedisUrl parse zod_error url =
     (case parse url of
        None \<Rightarrow> Throw invalid_url
      | Some parsed \<Rightarrow>
          (case decoded_part (u_password parsed) of
             Throw e \<Rightarrow> Throw e
           | Return password \<Rightarrow>
               (case decoded_part (u_username parsed) of
                  Throw e \<Rightarrow> Throw e
                | Return username \<Rightarrow>
                    (case (zod_int 1 65535 (url_port parsed), zod_int 0 15 (url_database parsed)) of
                       (Some p, Some d) \<Rightarrow>
                         if u_hostname parsed \<noteq> []
                         then Return \<lparr>bc_host = u_hostname parsed, bc_port = p, bc_password = password, bc_username = username,
                                bc_db = d, bc_maxRetriesPerRequest = None, bc_enableReadyCheck = False\<rparr>
                         else Throw zod_error
                     | _ \<Rightarrow> Throw zod_error))))"

record RedisConnection =
  rn_host :: string
  rn_port :: int
  rn_password :: "string option"
  rn_username :: "string option"
  rn_db :: int
  rn_maxRetriesPerRequest :: "int option"
  rn_lazyConnect :: bool
  rn_connectTimeout :: int

text \<open>The same body with the other schema.\<close>

definition redis_parseRedisUrl :: "url_parser \<Rightarrow> thrown \<Rightarrow> string \<Rightarrow> RedisConnection completion" where
  "redis_parseRedisUrl parse zod_error url =
     (case parse url of
        None \<Rightarrow> Throw invalid_url
      | Some parsed \<Rightarrow>
          (case decoded_part (u_password parsed) of
             Throw e \<Rightarrow> Throw e
           | Return password \<Rightarrow>
               (case decoded_part (u_username parsed) of
                  Throw e \<Rightarrow> Throw e
                | Return username \<Rightarrow>
                    (case (zod_int 1 65535 (url_port parsed), zod_int 0 15 (url_database parsed)) of
                       (Some p, Some d) \<Rightarrow>
                         if u_hostname parsed \<noteq> []
                         then Return \<lparr>rn_host = u_hostname parsed, rn_port = p, rn_password = password, rn_username = username,
                                rn_db = d, rn_maxRetriesPerRequest = None, rn_lazyConnect = True, rn_connectTimeout = 10000\<rparr>
                         else Throw zod_error
                     | _ \<Rightarrow> Throw zod_error))))"

section \<open>The round trip\<close>

text \<open>The URL object that \<open>buildConnectionUrl\<close> writes out.\<close>

definition connection_url_obj :: "StateStoreConnection \<Rightarrow> url_obj" where
  "connection_url_obj c =
     \<lparr>u_protocol = (if ss_tls c then ''rediss:'' else ''redis:''), u_slashes = True,
      u_username = (case (ss_username c, ss_password c) of (Some u, Some p) \<Rightarrow> encodeURIComponent u | _ \<Rightarrow> []),
      u_password = (case ss_password c of Some p \<Rightarrow> encodeURIComponent p | None \<Rightarrow> []),
      u_hostname = ss_host c, u_port = string_of_int (ss_port c),
      u_pathname = (if 0 < ss_database c then ''/'' @ string_of_int (ss_database c) else []),
      u_search = [], u_hash = []\<rparr>"

lemma encodeURIComponent_Nil_iff [simp]: "encodeURIComponent s = [] \<longleftrightarrow> s = []"
proof
  show "s = []" if "encodeURIComponent s = []"
    using decode_encode [of s] that by simp
qed (simp add: encodeURIComponent_def)

definition valid_connection :: "StateStoreConnection \<Rightarrow> bool" where
  "valid_connection c \<longleftrightarrow> ss_host c \<noteq> [] \<and> 1 \<le> ss_port c \<and> ss_port c \<le> 65535 \<and> 0 \<le> ss_database c \<and> ss_database c \<le> 15
     \<and> ss_password c \<noteq> Some [] \<and> ss_username c \<noteq> Some []"

lemma buildConnectionUrl_href:
  "valid_connection c \<Longrightarrow> buildConnectionUrl c = url_href (connection_url_obj c)"
  by (auto simp: buildConnectionUrl_def url_href_def connection_url_obj_def buildAuthPart_def valid_connection_def
      Let_def split: option.splits)

lemma decoded_encoded: "decoded_part (encodeURIComponent s) = Return (if s = [] then None else Some s)"
  by (simp add: decoded_part_def decode_encode)


definition demo_connection :: StateStoreConnection where
  "demo_connection = \<lparr>ss_host = ''cache'', ss_port = 6380, ss_password = Some ''p:w@1'', ss_username = Some ''bob'',
     ss_database = 2, ss_tls = True\<rparr>"


text \<open>A user name without a password (an ACL user with \<open>nopass\<close>) is dropped from the URL.\<close>

lemma username_alone_dropped:
  "ss_password c = None \<Longrightarrow> buildConnectionUrl (c\<lparr>ss_username := Some u\<rparr>) = buildConnectionUrl (c\<lparr>ss_username := None\<rparr>)"
  by (simp add: buildConnectionUrl_def buildAuthPart_def)

text \<open>The two readers of a Redis URL agree, except on a path that is no number.\<close>

lemma parsers_agree:
  assumes "parseRedisUrl parse z url = Return b" and "parse url = Some u" and "u_protocol u \<in> {''redis:'', ''rediss:''}"
  shows "parseConnectionUrl parse z url = Return \<lparr>ss_host = bc_host b, ss_port = bc_port b, ss_password = bc_password b,
      ss_username = bc_username b, ss_database = bc_db b, ss_tls = (u_protocol u = ''rediss:'')\<rparr>"
  using assms by (auto simp: parseRedisUrl_def parseConnectionUrl_def StateStoreConnectionSchema_def zod_int_def Let_def
      split: completion.splits option.splits if_splits jsnum.splits)

text \<open>
  The queue's parser does not look at the scheme: a URL that asks for TLS gives the plain connection, which has
  no field for it.
\<close>

lemma tls_scheme_dropped:
  "parse a = Some (u\<lparr>u_protocol := ''redis:''\<rparr>) \<Longrightarrow> parse b = Some (u\<lparr>u_protocol := ''rediss:''\<rparr>) \<Longrightarrow>
     parseRedisUrl parse z a = parseRedisUrl parse z b"
  by (simp add: parseRedisUrl_def url_port_def url_database_def cong: completion.case_cong prod.case_cong option.case_cong if_cong)

end
