(* ===== verification/JobQueue.thy ===== *)
theory JobQueue
  imports UrlFrontier CompletionDetector
begin

text \<open>
  packages/job-queue/src: the queue adapter of the control plane, the dead letter queue and the job
  consumer on BullMQ. The queue and worker objects of the library are records of functions over the
  world, the payload of a job is of any type.
\<close>

section \<open>bullmq-queue-adapter.ts\<close>

definition settled :: "string \<Rightarrow> ('w \<Rightarrow> 'a completion \<times> 'w) \<Rightarrow> 'w \<Rightarrow> (QueueError, unit) result \<times> 'w" where
  "settled operation call w =
     (case call w of
        (Return _, w') \<Rightarrow> (Ok (), w')
      | (Throw cause, w') \<Rightarrow> (Err (createQueueError operation cause), w'))"

definition bullmq_getJobCounts :: "'w bull_queue \<Rightarrow> 'w \<Rightarrow> (QueueError, JobCounts) result \<times> 'w" where
  "bullmq_getJobCounts queue w =
     (case bq_getJobCounts queue [''waiting'', ''active'', ''completed'', ''failed'', ''delayed'', ''paused''] w of
        (Return counts, w') \<Rightarrow>
          (Ok \<lparr>jc_waiting = count_or_zero counts ''waiting'', jc_active = count_or_zero counts ''active'',
               jc_completed = count_or_zero counts ''completed'', jc_failed = count_or_zero counts ''failed'',
               jc_delayed = count_or_zero counts ''delayed'', jc_paused = count_or_zero counts ''paused''\<rparr>, w')
      | (Throw cause, w') \<Rightarrow> (Err (createQueueError ''getJobCounts'' cause), w'))"

definition createBullMQQueueAdapter :: "'w bull_queue \<Rightarrow> 'w QueueAdapter" where
  "createBullMQQueueAdapter queue =
     \<lparr>qa_getJobCounts = bullmq_getJobCounts queue,
      qa_pause = settled ''pause'' (bq_pause queue),
      qa_resume = settled ''resume'' (bq_resume queue),
      qa_obliterate = settled ''obliterate'' (bq_obliterate queue),
      qa_close = bq_close queue\<rparr>"

section \<open>dlq-handler.ts\<close>

record 'p DLQJobData =
  dl_originalJobId :: string
  dl_originalQueue :: string
  dl_failedAt :: string
  dl_attempts :: int
  dl_lastError :: string
  dl_payload :: 'p

datatype DLQError = DlqConnectionError string | DlqQueueError string

definition DEFAULT_DLQ_RETENTION_MS :: int where
  "DEFAULT_DLQ_RETENTION_MS = 7 * 24 * 60 * 60 * 1000"

text \<open>The options the queue is created with: name and age limit in seconds of completed jobs.\<close>

record DLQOptions =
  do_queueName :: string
  do_removeOnCompleteAge :: int
  do_removeOnFail :: bool
  do_attempts :: int

definition createDLQHandler :: "string \<Rightarrow> string option \<Rightarrow> int option \<Rightarrow> DLQOptions" where
  "createDLQHandler sourceQueue dlqQueue retentionMs =
     \<lparr>do_queueName = (case dlqQueue of Some n \<Rightarrow> n | None \<Rightarrow> sourceQueue @ ''-dlq''),
      do_removeOnCompleteAge = (case retentionMs of Some ms \<Rightarrow> ms | None \<Rightarrow> DEFAULT_DLQ_RETENTION_MS) div 1000,
      do_removeOnFail = False, do_attempts = 1\<rparr>"

definition dlq_job_id :: "string \<Rightarrow> string" where
  "dlq_job_id jobId = ''dlq-'' @ jobId"

text \<open>\<open>add\<close> is the queue's (job id and data), \<open>onDeadLetter\<close> the callback, \<open>now\<close> the current time as text.\<close>

definition moveToDeadLetter ::
  "(string \<Rightarrow> 'p DLQJobData \<Rightarrow> 'w \<Rightarrow> unit completion \<times> 'w) \<Rightarrow> ('p DLQJobData \<Rightarrow> 'w \<Rightarrow> unit completion \<times> 'w) \<Rightarrow> string \<Rightarrow> string
     \<Rightarrow> string \<Rightarrow> 'p \<Rightarrow> int \<Rightarrow> string \<Rightarrow> 'w \<Rightarrow> (DLQError, unit) result \<times> 'w" where
  "moveToDeadLetter add onDeadLetter sourceQueue now jobId payload attempts lastError w =
     (let dlqJob = \<lparr>dl_originalJobId = jobId, dl_originalQueue = sourceQueue, dl_failedAt = now, dl_attempts = attempts,
                    dl_lastError = lastError, dl_payload = payload\<rparr>
      in case add (dlq_job_id jobId) dlqJob w of
           (Throw e, w1) \<Rightarrow> (Err (DlqQueueError (thrown_message e)), w1)
         | (Return _, w1) \<Rightarrow>
             (case onDeadLetter dlqJob w1 of
                (Throw e, w2) \<Rightarrow> (Err (DlqQueueError (thrown_message e)), w2)
              | (Return _, w2) \<Rightarrow> (Ok (), w2)))"

definition dlq_getCount ::
  "(string list \<Rightarrow> 'w \<Rightarrow> (string \<times> int) list completion \<times> 'w) \<Rightarrow> 'w \<Rightarrow> (DLQError, int) result \<times> 'w" where
  "dlq_getCount getJobCounts w =
     (case getJobCounts [''waiting'', ''delayed'', ''completed'', ''failed''] w of
        (Return counts, w') \<Rightarrow>
          (Ok (count_or_zero counts ''waiting'' + count_or_zero counts ''delayed'' + count_or_zero counts ''failed''), w')
      | (Throw e, w') \<Rightarrow> (Err (DlqConnectionError (thrown_message e)), w'))"

section \<open>bullmq-job-consumer.ts\<close>

text \<open>The worker object of the library: created, waited for, closed (with force).\<close>

record 'w bull_worker =
  bw_create :: "'w \<Rightarrow> unit completion \<times> 'w"
  bw_waitUntilReady :: "'w \<Rightarrow> unit completion \<times> 'w"
  bw_close :: "bool \<Rightarrow> 'w \<Rightarrow> unit completion \<times> 'w"

text \<open>The state is whether \<open>worker\<close> is defined.\<close>

definition bc_start :: "'w bull_worker \<Rightarrow> bool \<Rightarrow> 'w \<Rightarrow> (unit completion \<times> bool) \<times> 'w" where
  "bc_start lib worker w =
     (if worker then ((Return (), worker), w)
      else case bw_create lib w of
             (Throw e, w1) \<Rightarrow> ((Throw e, False), w1)
           | (Return _, w1) \<Rightarrow> (case bw_waitUntilReady lib w1 of (r, w2) \<Rightarrow> ((r, True), w2)))"

definition bc_close :: "'w bull_worker \<Rightarrow> int option \<Rightarrow> bool \<Rightarrow> 'w \<Rightarrow> (unit completion \<times> bool) \<times> 'w" where
  "bc_close lib timeout worker w =
     (if \<not> worker then ((Return (), worker), w)
      else let force = (case timeout of Some t \<Rightarrow> t \<le> 0 | None \<Rightarrow> False)
           in case bw_close lib force w of
                (Throw e, w1) \<Rightarrow> ((Throw e, True), w1)
              | (Return _, w1) \<Rightarrow> ((Return (), False), w1))"

section \<open>What the control plane sees\<close>

text \<open>The queue answers each requested state with its count.\<close>

definition counts_law :: "'w bull_queue \<Rightarrow> (string \<Rightarrow> int) \<Rightarrow> 'w \<Rightarrow> bool" where
  "counts_law queue st w \<longleftrightarrow> (\<forall>names. bq_getJobCounts queue names w = (Return (map (\<lambda>n. (n, st n)) names), w))"

lemma counts_law_adapter:
  assumes "counts_law queue st w"
  shows "bullmq_getJobCounts queue w = (Ok \<lparr>jc_waiting = st ''waiting'', jc_active = st ''active'', jc_completed = st ''completed'',
      jc_failed = st ''failed'', jc_delayed = st ''delayed'', jc_paused = st ''paused''\<rparr>, w)"
  using assms by (simp add: counts_law_def bullmq_getJobCounts_def count_or_zero_def)

text \<open>The crawl as the queue has it: BullMQ keeps a job with a priority in a state of its own.\<close>

definition outstanding :: "(string \<Rightarrow> int) \<Rightarrow> int" where
  "outstanding st = st ''waiting'' + st ''prioritized'' + st ''active'' + st ''delayed'' + st ''paused''"

text \<open>The control plane never counts prioritized jobs: whatever the queue holds in the prioritized state, the derived state and the progress are the ones of the same queue without these jobs, so a crawl all of whose remaining jobs are deeper than the seeds (priority above 0) is reported completed while jobs are outstanding.\<close>

theorem prioritized_jobs_invisible:
  assumes "counts_law queue st w" and "st ''waiting'' = 0" and "st ''active'' = 0" and "st ''delayed'' = 0"
    and "st ''paused'' = 0" and "0 \<le> st ''failed''" and "0 < st ''completed''"
  shows "cp_getState (createBullMQQueueAdapter queue) createControlPlaneAdapter w = (Ok CsCompleted, w)
    \<and> fst (cp_getProgress (createBullMQQueueAdapter queue) w) =
        Ok \<lparr>cp_completed = st ''completed'', cp_failed = st ''failed'', cp_pending = 0, cp_total = st ''completed'' + st ''failed''\<rparr>
    \<and> fst (bull_getQueueSize queue w) = Ok \<lparr>fs_pending = 0, fs_active = 0, fs_total = 0\<rparr>
    \<and> outstanding st = st ''prioritized''"
  using counts_law_adapter [OF assms(1)] assms
  by (simp add: cp_getState_def cp_getProgress_def createBullMQQueueAdapter_def deriveState_def createControlPlaneAdapter_def
      bull_getQueueSize_def counts_law_def count_or_zero_def outstanding_def Let_def)

definition demo_states :: "string \<Rightarrow> int" where
  "demo_states n = (if n = ''prioritized'' then 40 else if n = ''completed'' then 3 else 0)"

definition demo_bull :: "unit bull_queue" where
  "demo_bull = \<lparr>bq_addBulk = (\<lambda>js w. (Return (map bj_jobId js), w)), bq_getJobCounts = (\<lambda>ns w. (Return (map (\<lambda>n. (n, demo_states n)) ns), w)),
     bq_pause = (\<lambda>w. (Return (), w)), bq_resume = (\<lambda>w. (Return (), w)), bq_obliterate = (\<lambda>w. (Return (), w)), bq_close = (\<lambda>w. (Return (), w))\<rparr>"

theorem prioritized_jobs_invisible_witness:
  "cp_getState (createBullMQQueueAdapter demo_bull) createControlPlaneAdapter () = (Ok CsCompleted, ())
   \<and> outstanding demo_states = 40"
  using prioritized_jobs_invisible [of demo_bull demo_states "()"]
  by (simp add: counts_law_def demo_bull_def demo_states_def)

section \<open>The dead letter queue\<close>

lemma dlq_job_id_inj: "dlq_job_id a = dlq_job_id b \<longleftrightarrow> a = b"
  by (simp add: dlq_job_id_def)

text \<open>A move to the dead letter queue never throws. It is ok exactly when the job was added and the event handler returned; a handler that throws makes it an error although the job is already in the dead letter queue, and when the job could not be added no event is emitted.\<close>

theorem dead_letter_outcome:
  "let dlqJob = \<lparr>dl_originalJobId = jobId, dl_originalQueue = source, dl_failedAt = now, dl_attempts = attempts,
                 dl_lastError = lastError, dl_payload = payload\<rparr>;
       (added, w1) = add (dlq_job_id jobId) dlqJob w;
       (handled, w2) = onDeadLetter dlqJob w1
   in moveToDeadLetter add onDeadLetter source now jobId payload attempts lastError w =
      (case (added, handled) of
         (Throw e, _) \<Rightarrow> (Err (DlqQueueError (thrown_message e)), w1)
       | (Return _, Throw e) \<Rightarrow> (Err (DlqQueueError (thrown_message e)), w2)
       | (Return _, Return _) \<Rightarrow> (Ok (), w2))"
  by (simp add: moveToDeadLetter_def Let_def split: prod.splits completion.splits)

text \<open>A worker that does not become ready stays assigned: the next start does nothing and succeeds.\<close>

lemma failed_start_is_remembered:
  assumes "bw_create lib w = (Return (), w1)" and "bw_waitUntilReady lib w1 = (Throw e, w2)"
  shows "bc_start lib False w = ((Throw e, True), w2) \<and> bc_start lib True w2 = ((Return (), True), w2)"
  using assms by (simp add: bc_start_def)

end
