(* ===== verification/RedisStore.thy ===== *)
theory RedisStore
  imports JsMap JsString
begin

text \<open>
  packages/redis/src: the circuit breaker around Redis calls, the idempotency store and the
  publish/subscribe wrapper. The cockatiel policy, the client and JSON are parameters.
\<close>

section \<open>circuit-breaker.ts\<close>

datatype RedisCircuitBreakerError = RcbCircuitOpen string | RcbRedisError string thrown

text \<open>What may be thrown through the policy: its own error, the wrapper of an error value, anything else.\<close>

datatype 'e policy_thrown = BrokenCircuit | WrappedError 'e | OtherThrown thrown

type_synonym ('e, 'a, 'w) policy_call = "'w \<Rightarrow> ('e policy_thrown + ('e, 'a) result) \<times> 'w"

definition wrapped_call ::
  "('w \<Rightarrow> (thrown + ('e, 'a) result) \<times> 'w) \<Rightarrow> ('e, 'a, 'w) policy_call" where
  "wrapped_call fn w =
     (case fn w of
        (Inl t, w') \<Rightarrow> (Inl (OtherThrown t), w')
      | (Inr (Err e), w') \<Rightarrow> (Inl (WrappedError e), w')
      | (Inr (Ok x), w') \<Rightarrow> (Inr (Ok x), w'))"

definition rcb_execute ::
  "((RedisCircuitBreakerError, 'a, 'w) policy_call \<Rightarrow> (RedisCircuitBreakerError, 'a, 'w) policy_call) \<Rightarrow>
     ('w \<Rightarrow> (thrown + (RedisCircuitBreakerError, 'a) result) \<times> 'w) \<Rightarrow> 'w \<Rightarrow> (RedisCircuitBreakerError, 'a) result \<times> 'w" where
  "rcb_execute policy fn w =
     (case policy (wrapped_call fn) w of
        (Inr result, w') \<Rightarrow> (result, w')
      | (Inl BrokenCircuit, w') \<Rightarrow> (Err (RcbCircuitOpen ''Redis circuit breaker is open''), w')
      | (Inl (WrappedError e), w') \<Rightarrow> (Err e, w')
      | (Inl (OtherThrown t), w') \<Rightarrow> (Err (RcbRedisError (thrown_message t) t), w'))"

text \<open>
  What the policy documents: it either runs the call once and ends as the call ended, with its own
  bookkeeping \<open>note\<close> of whether it failed, or rejects without running it.
\<close>

definition breaker_law ::
  "(('e, 'a, 'w) policy_call \<Rightarrow> ('e, 'a, 'w) policy_call) \<Rightarrow> ('w \<Rightarrow> bool) \<Rightarrow> ('w \<Rightarrow> 'w) \<Rightarrow> (bool \<Rightarrow> 'w \<Rightarrow> 'w) \<Rightarrow> bool" where
  "breaker_law policy is_open enter note \<longleftrightarrow>
     (\<forall>f w. policy f w =
        (if is_open w then (Inl BrokenCircuit, w)
         else case f (enter w) of (r, w') \<Rightarrow> (r, note (isl r) w')))"

text \<open>The Redis circuit breaker sees error values as failures and gives them back unchanged: when the circuit is closed the call runs once, its value or error value is the result, and the policy records a failure exactly when the call threw or returned an error; when the circuit is open the call does not run.\<close>

theorem redis_breaker_transparent:
  assumes "breaker_law policy is_open enter note"
  shows "rcb_execute policy fn w =
    (if is_open w then (Err (RcbCircuitOpen ''Redis circuit breaker is open''), w)
     else case fn (enter w) of
       (Inr (Ok x), w') \<Rightarrow> (Ok x, note False w')
     | (Inr (Err e), w') \<Rightarrow> (Err e, note True w')
     | (Inl t, w') \<Rightarrow> (Err (RcbRedisError (thrown_message t) t), note True w'))"
  using assms by (auto simp: breaker_law_def rcb_execute_def wrapped_call_def split: prod.splits sum.splits)

text \<open>A consecutive breaker: open from the third failure in a row.\<close>

definition demo_policy :: "('e, 'a, nat) policy_call \<Rightarrow> ('e, 'a, nat) policy_call" where
  "demo_policy f n = (if 3 \<le> n then (Inl BrokenCircuit, n)
     else case f n of (r, n') \<Rightarrow> (r, if isl r then Suc n' else 0))"

theorem redis_breaker_transparent_witness:
  "rcb_execute demo_policy (\<lambda>n. (Inr (Err (RcbRedisError ''down'' (ThrownOther ''down'')) :: (RedisCircuitBreakerError, unit) result), n)) 2
     = (Err (RcbRedisError ''down'' (ThrownOther ''down'')), 3)"
  using redis_breaker_transparent [of demo_policy "\<lambda>n. 3 \<le> n" "\<lambda>n. n" "\<lambda>failed n. if failed then Suc n else 0"
      "\<lambda>n. (Inr (Err (RcbRedisError ''down'' (ThrownOther ''down'')) :: (RedisCircuitBreakerError, unit) result), n)" 2]
  by (simp add: breaker_law_def demo_policy_def)

section \<open>idempotency-store.ts\<close>

record CachedResponse =
  cr_statusCode :: rat
  cr_body :: string
  cr_contentType :: string

datatype IdempotencyError = IdemConnectionError string | IdemSerializationError string

text \<open>The client's commands with an expiry in milliseconds.\<close>

record 'w kv_client =
  kv_get :: "string \<Rightarrow> 'w \<Rightarrow> string option completion \<times> 'w"
  kv_set_px :: "string \<Rightarrow> string \<Rightarrow> int \<Rightarrow> 'w \<Rightarrow> unit completion \<times> 'w"
  kv_del :: "string \<Rightarrow> 'w \<Rightarrow> unit completion \<times> 'w"

text \<open>JSON: \<open>parse\<close> may throw a syntax error (its message), the schema may reject (its message).\<close>

record 'j json_codec =
  jc_stringify :: "CachedResponse \<Rightarrow> string"
  jc_parse :: "string \<Rightarrow> string + 'j"
  jc_validate :: "'j \<Rightarrow> string + CachedResponse"

record IdempotencyConfig =
  id_ttlMs :: int
  id_keyPrefix :: string

definition DEFAULT_IDEMPOTENCY_CONFIG :: IdempotencyConfig where
  "DEFAULT_IDEMPOTENCY_CONFIG = \<lparr>id_ttlMs = 24 * 60 * 60 * 1000, id_keyPrefix = ''idem''\<rparr>"

definition idem_key :: "IdempotencyConfig \<Rightarrow> string \<Rightarrow> string" where
  "idem_key c key = id_keyPrefix c @ '':'' @ key"

definition idem_get ::
  "'w kv_client \<Rightarrow> 'j json_codec \<Rightarrow> IdempotencyConfig \<Rightarrow> string \<Rightarrow> 'w \<Rightarrow> (IdempotencyError, CachedResponse option) result \<times> 'w" where
  "idem_get redis codec c key w =
     (case kv_get redis (idem_key c key) w of
        (Throw e, w') \<Rightarrow> (Err (IdemConnectionError (thrown_message e)), w')
      | (Return None, w') \<Rightarrow> (Ok None, w')
      | (Return (Some raw), w') \<Rightarrow>
          (case jc_parse codec raw of
             Inl m \<Rightarrow> (Err (IdemSerializationError (''Malformed JSON in cache: '' @ m)), w')
           | Inr json \<Rightarrow>
               (case jc_validate codec json of
                  Inl m \<Rightarrow> (Err (IdemSerializationError (''Invalid cached response: '' @ m)), w')
                | Inr r \<Rightarrow> (Ok (Some r), w'))))"

definition idem_set ::
  "'w kv_client \<Rightarrow> 'j json_codec \<Rightarrow> IdempotencyConfig \<Rightarrow> string \<Rightarrow> CachedResponse \<Rightarrow> 'w \<Rightarrow> (IdempotencyError, unit) result \<times> 'w" where
  "idem_set redis codec c key response w =
     (case kv_set_px redis (idem_key c key) (jc_stringify codec response) (id_ttlMs c) w of
        (Throw e, w') \<Rightarrow> (Err (IdemConnectionError (thrown_message e)), w')
      | (Return _, w') \<Rightarrow> (Ok (), w'))"

definition idem_delete ::
  "'w kv_client \<Rightarrow> IdempotencyConfig \<Rightarrow> string \<Rightarrow> 'w \<Rightarrow> (IdempotencyError, unit) result \<times> 'w" where
  "idem_delete redis c key w =
     (case kv_del redis (idem_key c key) w of
        (Throw e, w') \<Rightarrow> (Err (IdemConnectionError (thrown_message e)), w')
      | (Return _, w') \<Rightarrow> (Ok (), w'))"

text \<open>The client as a map, within the expiry; a failed write may or may not have happened.\<close>

definition kv_get_law :: "('w \<Rightarrow> string \<Rightarrow> string option) \<Rightarrow> string \<Rightarrow> 'w \<Rightarrow> string option completion \<times> 'w \<Rightarrow> bool" where
  "kv_get_law view k w res = (case res of
     (Return x, w') \<Rightarrow> x = view w k \<and> view w' = view w | (Throw _, w') \<Rightarrow> view w' = view w)"

definition kv_write_law :: "('w \<Rightarrow> string \<Rightarrow> string option) \<Rightarrow> string \<Rightarrow> string option \<Rightarrow> 'w \<Rightarrow> unit completion \<times> 'w \<Rightarrow> bool" where
  "kv_write_law view k v w res = (case res of
     (Return _, w') \<Rightarrow> view w' = (view w)(k := v)
   | (Throw _, w') \<Rightarrow> view w' = view w \<or> view w' = (view w)(k := v))"

definition kv_law :: "'w kv_client \<Rightarrow> ('w \<Rightarrow> string \<Rightarrow> string option) \<Rightarrow> bool" where
  "kv_law redis view \<longleftrightarrow>
     (\<forall>k w. kv_get_law view k w (kv_get redis k w))
   \<and> (\<forall>k v ttl w. kv_write_law view k (Some v) w (kv_set_px redis k v ttl w))
   \<and> (\<forall>k w. kv_write_law view k None w (kv_del redis k w))"

definition codec_law :: "'j json_codec \<Rightarrow> CachedResponse \<Rightarrow> bool" where
  "codec_law codec r \<longleftrightarrow> (\<exists>j. jc_parse codec (jc_stringify codec r) = Inr j \<and> jc_validate codec j = Inr r)"

text \<open>A response stored under an idempotency key is the one read back, as long as reading does not fail, and storing under one key leaves the answers for all other keys alone, even when the store reports an error.\<close>

theorem idempotency_roundtrip:
  assumes "kv_law redis view" and "codec_law codec response"
    and "idem_set redis codec c key response w = (r, w1)" and "idem_get redis codec c key' w1 = (g, w2)"
  shows "(r = Ok () \<and> key' = key \<longrightarrow> g = Ok (Some response) \<or> (\<exists>m. g = Err (IdemConnectionError m)))
    \<and> (key' \<noteq> key \<longrightarrow> view w2 (idem_key c key') = view w (idem_key c key'))"
proof -
  obtain x where set: "kv_set_px redis (idem_key c key) (jc_stringify codec response) (id_ttlMs c) w = (x, w1)"
    using assms(3) by (auto simp: idem_set_def split: prod.splits completion.splits)
  obtain y where get: "kv_get redis (idem_key c key') w1 = (y, w2)"
    using assms(4) by (auto simp: idem_get_def split: prod.splits completion.splits option.splits sum.splits)
  have "kv_write_law view (idem_key c key) (Some (jc_stringify codec response)) w (x, w1)"
    using assms(1) by (simp add: kv_law_def flip: set)
  then have sets: "\<And>u. x = Return u \<Longrightarrow> view w1 = (view w)(idem_key c key \<mapsto> jc_stringify codec response)"
      "view w1 = view w \<or> view w1 = (view w)(idem_key c key \<mapsto> jc_stringify codec response)"
    by (cases x; simp add: kv_write_law_def)+
  have "kv_get_law view (idem_key c key') w1 (y, w2)" using assms(1) by (simp add: kv_law_def flip: get)
  then have gets: "view w2 = view w1" "\<And>z. y = Return z \<Longrightarrow> z = view w1 (idem_key c key')"
    by (cases y; simp add: kv_get_law_def)+
  have keys: "idem_key c key' = idem_key c key \<longleftrightarrow> key' = key" by (simp add: idem_key_def)
  obtain j where j: "jc_parse codec (jc_stringify codec response) = Inr j" "jc_validate codec j = Inr response"
    using assms(2) by (auto simp: codec_law_def)
  have "g = Ok (Some response) \<or> (\<exists>m. g = Err (IdemConnectionError m))" if "r = Ok ()" "key' = key"
    using that assms(3,4) set get sets(1) gets j
    by (cases x; cases y) (auto simp: idem_set_def idem_get_def)
  moreover have "view w2 (idem_key c key') = view w (idem_key c key')" if "key' \<noteq> key"
    using that sets(2) gets(1) keys by auto
  ultimately show ?thesis by blast
qed

definition map_client :: "(string \<Rightarrow> string option) kv_client" where
  "map_client = \<lparr>kv_get = (\<lambda>k m. (Return (m k), m)), kv_set_px = (\<lambda>k v t m. (Return (), m(k \<mapsto> v))),
     kv_del = (\<lambda>k m. (Return (), m(k := None)))\<rparr>"

text \<open>A codec that knows the responses of a table by their body.\<close>

definition table_codec :: "CachedResponse list \<Rightarrow> CachedResponse json_codec" where
  "table_codec rs = \<lparr>jc_stringify = (\<lambda>r. cr_body r), jc_parse = (\<lambda>s. case filter (\<lambda>r. cr_body r = s) rs of r # _ \<Rightarrow> Inr r | [] \<Rightarrow> Inl ''bad''),
     jc_validate = Inr\<rparr>"

definition demo_response :: CachedResponse where
  "demo_response = \<lparr>cr_statusCode = 201, cr_body = ''created'', cr_contentType = ''text/plain''\<rparr>"

theorem idempotency_roundtrip_witness:
  "let (r, m1) = idem_set map_client (table_codec [demo_response]) DEFAULT_IDEMPOTENCY_CONFIG ''k1'' demo_response Map.empty;
       (g, m2) = idem_get map_client (table_codec [demo_response]) DEFAULT_IDEMPOTENCY_CONFIG ''k1'' m1
   in r = Ok () \<and> g = Ok (Some demo_response)"
proof -
  let ?codec = "table_codec [demo_response]" and ?c = DEFAULT_IDEMPOTENCY_CONFIG
  have law: "kv_law map_client (\<lambda>m. m)"
    by (simp add: kv_law_def kv_get_law_def kv_write_law_def map_client_def)
  have codec: "codec_law ?codec demo_response" by (simp add: codec_law_def table_codec_def)
  obtain r m1 where s: "idem_set map_client ?codec ?c ''k1'' demo_response Map.empty = (r, m1)" by fastforce
  obtain g m2 where g: "idem_get map_client ?codec ?c ''k1'' m1 = (g, m2)" by fastforce
  have "r = Ok ()" using s by (simp add: idem_set_def map_client_def)
  moreover have "\<not> (\<exists>m. g = Err (IdemConnectionError m))"
    using g by (auto simp: idem_get_def map_client_def split: option.splits sum.splits)
  ultimately show ?thesis using idempotency_roundtrip [OF law codec s g] s g by auto
qed

section \<open>pubsub.ts\<close>

record 'w pubsub_client =
  ps_publish :: "string \<Rightarrow> string \<Rightarrow> 'w \<Rightarrow> int completion \<times> 'w"
  ps_subscribe :: "string \<Rightarrow> 'w \<Rightarrow> unit completion \<times> 'w"
  ps_unsubscribe :: "string \<Rightarrow> 'w \<Rightarrow> unit completion \<times> 'w"
  ps_quit :: "'w \<Rightarrow> unit completion \<times> 'w"

datatype PubSubError = PubSubConnectionError string | PubSubSerializationError string

definition ps_publish_raw :: "'w pubsub_client \<Rightarrow> string \<Rightarrow> string \<Rightarrow> 'w \<Rightarrow> (PubSubError, int) result \<times> 'w" where
  "ps_publish_raw redis channel message w =
     (case ps_publish redis channel message w of
        (Return receivers, w') \<Rightarrow> (Ok receivers, w')
      | (Throw e, w') \<Rightarrow> (Err (PubSubConnectionError (thrown_message e)), w'))"

definition publishJson :: "'w pubsub_client \<Rightarrow> ('d \<Rightarrow> string option) \<Rightarrow> string \<Rightarrow> 'd \<Rightarrow> 'w \<Rightarrow> (PubSubError, int) result \<times> 'w" where
  "publishJson redis stringify channel data w =
     (case stringify data of
        None \<Rightarrow> (Err (PubSubSerializationError ''Failed to serialize message''), w)
      | Some serialized \<Rightarrow> ps_publish_raw redis channel serialized w)"

text \<open>The handlers of the subscriber by channel; \<open>'h\<close> names a handler.\<close>

definition on_message :: "(string, 'h) js_map \<Rightarrow> string \<Rightarrow> string \<Rightarrow> ('h \<times> string \<times> string) list" where
  "on_message handlers channel message =
     (case jsmap_get handlers channel of Some h \<Rightarrow> [(h, channel, message)] | None \<Rightarrow> [])"

definition subscribe ::
  "'w pubsub_client \<Rightarrow> string \<Rightarrow> 'h \<Rightarrow> (string, 'h) js_map \<Rightarrow> 'w \<Rightarrow> ((PubSubError, unit) result \<times> (string, 'h) js_map) \<times> 'w" where
  "subscribe redis channel handler handlers w =
     (let handlers1 = jsmap_set handlers channel handler
      in case ps_subscribe redis channel w of
           (Return _, w') \<Rightarrow> ((Ok (), handlers1), w')
         | (Throw e, w') \<Rightarrow> ((Err (PubSubConnectionError (thrown_message e)), jsmap_delete handlers1 channel), w'))"

definition unsubscribe ::
  "'w pubsub_client \<Rightarrow> string \<Rightarrow> (string, 'h) js_map \<Rightarrow> 'w \<Rightarrow> ((PubSubError, unit) result \<times> (string, 'h) js_map) \<times> 'w" where
  "unsubscribe redis channel handlers w =
     (let handlers1 = jsmap_delete handlers channel
      in case ps_unsubscribe redis channel w of
           (Return _, w') \<Rightarrow> ((Ok (), handlers1), w')
         | (Throw e, w') \<Rightarrow> ((Err (PubSubConnectionError (thrown_message e)), handlers1), w'))"

definition ps_close :: "'w pubsub_client \<Rightarrow> (string, 'h) js_map \<Rightarrow> 'w \<Rightarrow> (unit completion \<times> (string, 'h) js_map) \<times> 'w" where
  "ps_close redis handlers w = (case ps_quit redis w of (r, w') \<Rightarrow> ((r, []), w'))"

text \<open>A message reaches exactly the handler of the last successful subscription of its channel; a failed
  one also removes the handler that was there before.\<close>

lemma subscribe_dispatch:
  assumes "subscribe redis channel h handlers w = ((r, handlers'), w')"
  shows "on_message handlers' channel' m =
    (if channel' = channel then (case r of Ok _ \<Rightarrow> [(h, channel', m)] | Err _ \<Rightarrow> []) else on_message handlers channel' m)"
  using assms by (auto simp: subscribe_def on_message_def Let_def jsmap_laws split: prod.splits completion.splits)

end
