(* ===== verification/RedisStreams.thy ===== *)
theory RedisStreams
  imports JsString
begin

text \<open>
  packages/redis/src/stream-publisher.ts and stream-consumer.ts. The client is a record of functions
  over the world, JSON serialisation of an event is a parameter that may throw.
\<close>

section \<open>stream-publisher.ts\<close>

datatype StreamPublishError = SpConnectionError string "thrown option" | SpSerializationError string thrown

record RedisStreamPublisherConfig =
  sp_maxLen :: int
  sp_approximate :: bool

definition DEFAULT_PUBLISHER_CONFIG :: RedisStreamPublisherConfig where
  "DEFAULT_PUBLISHER_CONFIG = \<lparr>sp_maxLen = 100000, sp_approximate = True\<rparr>"

definition createRedisStreamPublisher :: "int option \<Rightarrow> bool option \<Rightarrow> RedisStreamPublisherConfig" where
  "createRedisStreamPublisher maxLen approximate =
     \<lparr>sp_maxLen = (case maxLen of Some n \<Rightarrow> n | None \<Rightarrow> sp_maxLen DEFAULT_PUBLISHER_CONFIG),
      sp_approximate = (case approximate of Some b \<Rightarrow> b | None \<Rightarrow> sp_approximate DEFAULT_PUBLISHER_CONFIG)\<rparr>"

text \<open>
  The stream commands. A pipelined \<open>xadd\<close> answers the entry id or an error; \<open>xreadgroup\<close> answers null
  on a timeout, otherwise a list of streams with their entries (id and the flat list of fields).
\<close>

type_synonym raw_entry = "string \<times> string list"

record 'w stream_client =
  rs_xadd :: "string list \<Rightarrow> 'w \<Rightarrow> string completion \<times> 'w"
  rs_pipeline_xadd :: "string list list \<Rightarrow> 'w \<Rightarrow> (thrown + string) list option completion \<times> 'w"
  rs_xgroup_create :: "string \<Rightarrow> string \<Rightarrow> 'w \<Rightarrow> unit completion \<times> 'w"
  rs_xreadgroup :: "string \<Rightarrow> string \<Rightarrow> int \<Rightarrow> int \<Rightarrow> string \<Rightarrow> 'w \<Rightarrow> (string \<times> raw_entry list) list option completion \<times> 'w"
  rs_xack :: "string \<Rightarrow> string \<Rightarrow> string list \<Rightarrow> 'w \<Rightarrow> int completion \<times> 'w"
  rs_xautoclaim :: "string list \<Rightarrow> 'w \<Rightarrow> (string \<times> raw_entry list) completion \<times> 'w"

text \<open>The arguments of \<open>xadd\<close> of the publisher.\<close>

definition xadd_args :: "RedisStreamPublisherConfig \<Rightarrow> string \<Rightarrow> string \<Rightarrow> string list" where
  "xadd_args c streamKey serialized =
     [streamKey, ''MAXLEN''] @ (if sp_approximate c then [''~'', string_of_int (sp_maxLen c)] else [string_of_int (sp_maxLen c)])
       @ [''*'', ''data'', serialized]"

definition sp_publish ::
  "'w stream_client \<Rightarrow> ('ev \<Rightarrow> thrown + string) \<Rightarrow> RedisStreamPublisherConfig \<Rightarrow> string \<Rightarrow> 'ev \<Rightarrow> 'w
     \<Rightarrow> (StreamPublishError, string) result \<times> 'w" where
  "sp_publish redis stringify c streamKey event w =
     (case stringify event of
        Inl cause \<Rightarrow> (Err (SpSerializationError ''Failed to serialize event'' cause), w)
      | Inr serialized \<Rightarrow>
          (case rs_xadd redis (xadd_args c streamKey serialized) w of
             (Return entryId, w') \<Rightarrow> (Ok entryId, w')
           | (Throw cause, w') \<Rightarrow> (Err (SpConnectionError (''Failed to publish to stream '' @ streamKey) (Some cause)), w')))"

text \<open>The loop that fills the pipeline; it stops at the first event that cannot be serialised.\<close>

fun fill_pipeline ::
  "('ev \<Rightarrow> thrown + string) \<Rightarrow> RedisStreamPublisherConfig \<Rightarrow> string \<Rightarrow> 'ev list \<Rightarrow> thrown + string list list" where
  "fill_pipeline stringify c streamKey [] = Inr []"
| "fill_pipeline stringify c streamKey (e # es) =
     (case stringify e of
        Inl cause \<Rightarrow> Inl cause
      | Inr serialized \<Rightarrow>
          (case fill_pipeline stringify c streamKey es of
             Inl cause \<Rightarrow> Inl cause
           | Inr commands \<Rightarrow> Inr (xadd_args c streamKey serialized # commands)))"

text \<open>The loop over the replies; \<open>String(err)\<close> of an error object is its name and message.\<close>

fun thrown_text :: "thrown \<Rightarrow> string" where
  "thrown_text (ThrownError e) = (if err_message e = [] then err_name e else err_name e @ '': '' @ err_message e)"
| "thrown_text (ThrownOther s) = s"

fun collect_ids :: "(thrown + string) list \<Rightarrow> (StreamPublishError, string list) result" where
  "collect_ids [] = Ok []"
| "collect_ids (Inl pipeErr # rs) = Err (SpConnectionError (''Pipeline entry failed: '' @ thrown_text pipeErr) (Some pipeErr))"
| "collect_ids (Inr i # rs) = (case collect_ids rs of Ok ids \<Rightarrow> Ok (i # ids) | Err e \<Rightarrow> Err e)"

definition publishBatch ::
  "'w stream_client \<Rightarrow> ('ev \<Rightarrow> thrown + string) \<Rightarrow> RedisStreamPublisherConfig \<Rightarrow> string \<Rightarrow> 'ev list \<Rightarrow> 'w
     \<Rightarrow> (StreamPublishError, string list) result \<times> 'w" where
  "publishBatch redis stringify c streamKey events w =
     (case fill_pipeline stringify c streamKey events of
        Inl cause \<Rightarrow> (Err (SpSerializationError ''Failed to serialize event in batch'' cause), w)
      | Inr commands \<Rightarrow>
          (case rs_pipeline_xadd redis commands w of
             (Throw cause, w') \<Rightarrow> (Err (SpConnectionError (''Failed to execute batch publish to '' @ streamKey) (Some cause)), w')
           | (Return None, w') \<Rightarrow> (Err (SpConnectionError ''Pipeline returned null - connection lost'' None), w')
           | (Return (Some results), w') \<Rightarrow> (collect_ids results, w')))"

section \<open>stream-consumer.ts\<close>

datatype StreamConsumeError = ScConnectionError string thrown | ScGroupError string thrown

record StreamEntry =
  se_entryId :: string
  se_data :: string

text \<open>\<open>fields.indexOf('data')\<close>: the first position, of a name or a value.\<close>

fun index_of :: "string \<Rightarrow> string list \<Rightarrow> nat option" where
  "index_of x [] = None"
| "index_of x (y # ys) = (if y = x then Some 0 else map_option Suc (index_of x ys))"

fun collect_entries :: "raw_entry list \<Rightarrow> StreamEntry list" where
  "collect_entries [] = []"
| "collect_entries ((entryId, flds) # es) =
     (case index_of ''data'' flds of
        None \<Rightarrow> collect_entries es
      | Some dataIndex \<Rightarrow>
          if length flds \<le> dataIndex + 1 then collect_entries es
          else \<lparr>se_entryId = entryId, se_data = flds ! (dataIndex + 1)\<rparr> # collect_entries es)"

definition createGroup :: "'w stream_client \<Rightarrow> string \<Rightarrow> string \<Rightarrow> 'w \<Rightarrow> (StreamConsumeError, unit) result \<times> 'w" where
  "createGroup redis streamKey groupName w =
     (case rs_xgroup_create redis streamKey groupName w of
        (Return _, w') \<Rightarrow> (Ok (), w')
      | (Throw cause, w') \<Rightarrow>
          (if includes_str (thrown_message cause) ''BUSYGROUP'' then (Ok (), w')
           else (Err (ScGroupError (''Failed to create consumer group '' @ groupName @ '' on '' @ streamKey) cause), w')))"

definition consume ::
  "'w stream_client \<Rightarrow> string \<Rightarrow> string \<Rightarrow> string \<Rightarrow> int \<Rightarrow> int \<Rightarrow> 'w \<Rightarrow> (StreamConsumeError, StreamEntry list) result \<times> 'w" where
  "consume redis streamKey groupName consumerName count blockMs w =
     (case rs_xreadgroup redis groupName consumerName count blockMs streamKey w of
        (Throw cause, w') \<Rightarrow> (Err (ScConnectionError (''Failed to consume from '' @ streamKey @ ''/'' @ groupName) cause), w')
      | (Return None, w') \<Rightarrow> (Ok [], w')
      | (Return (Some streams), w') \<Rightarrow> (Ok (concat (map (\<lambda>(_, entries). collect_entries entries) streams)), w'))"

definition ack :: "'w stream_client \<Rightarrow> string \<Rightarrow> string \<Rightarrow> string list \<Rightarrow> 'w \<Rightarrow> (StreamConsumeError, int) result \<times> 'w" where
  "ack redis streamKey groupName entryIds w =
     (if entryIds = [] then (Ok 0, w)
      else case rs_xack redis streamKey groupName entryIds w of
             (Return n, w') \<Rightarrow> (Ok n, w')
           | (Throw cause, w') \<Rightarrow> (Err (ScConnectionError (''Failed to ack entries on '' @ streamKey @ ''/'' @ groupName) cause), w'))"

definition claimStale ::
  "'w stream_client \<Rightarrow> string \<Rightarrow> string \<Rightarrow> string \<Rightarrow> int \<Rightarrow> int \<Rightarrow> 'w \<Rightarrow> (StreamConsumeError, StreamEntry list) result \<times> 'w" where
  "claimStale redis streamKey groupName consumerName minIdleMs count w =
     (case rs_xautoclaim redis [streamKey, groupName, consumerName, string_of_int minIdleMs, ''0-0'', ''COUNT'', string_of_int count] w of
        (Throw cause, w') \<Rightarrow> (Err (ScConnectionError (''Failed to claim stale entries on '' @ streamKey @ ''/'' @ groupName) cause), w')
      | (Return (_, claimed), w') \<Rightarrow> (Ok (collect_entries claimed), w'))"

section \<open>What Redis documents of one stream and one group\<close>

text \<open>
  The stream below its trimming length: every entry in order, and how many of them the group has
  delivered. A pipeline of \<open>xadd\<close> appends one entry per command with the fields after the id argument.
\<close>

definition added_fields :: "string list \<Rightarrow> string list" where
  "added_fields args = drop 1 (dropWhile (\<lambda>a. a \<noteq> ''*'') (drop 1 args))"

definition next_entries :: "int \<Rightarrow> raw_entry list \<times> nat \<Rightarrow> raw_entry list" where
  "next_entries count s = take (nat count) (drop (snd s) (fst s))"

definition read_reply :: "string \<Rightarrow> raw_entry list \<Rightarrow> (string \<times> raw_entry list) list option" where
  "read_reply key batch = (if batch = [] then None else Some [(key, batch)])"

definition stream_law :: "'w stream_client \<Rightarrow> string \<Rightarrow> string \<Rightarrow> ('w \<Rightarrow> raw_entry list \<times> nat) \<Rightarrow> bool" where
  "stream_law redis key grp view \<longleftrightarrow>
     (\<forall>commands w. list_all (\<lambda>args. args \<noteq> [] \<and> hd args = key) commands \<longrightarrow>
        (\<exists>ids w'. rs_pipeline_xadd redis commands w = (Return (Some (map Inr ids)), w') \<and> length ids = length commands
           \<and> view w' = (fst (view w) @ zip ids (map added_fields commands), snd (view w))))
   \<and> (\<forall>consumer count blockMs w.
        (\<exists>w'. rs_xreadgroup redis grp consumer count blockMs key w = (Return (read_reply key (next_entries count (view w))), w')
           \<and> view w' = (fst (view w), snd (view w) + length (next_entries count (view w)))))"

lemma xadd_args_fields: "added_fields (xadd_args c streamKey s) = [''data'', s]"
proof -
  have "string_of_int n \<noteq> ''*''" for n
  proof -
    have "c \<noteq> CHR ''*''" if "c \<in> set (string_of_nonneg k)" "0 \<le> k" for c k
      using string_of_nonneg_digits [OF that(2)] that(1) by (auto simp: list_all_iff is_digit_def)
    then show ?thesis
      using string_of_int_not_Nil [of n] by (auto simp: string_of_int_def split: if_splits)
         (metis list.set_intros(1) linorder_not_le)
  qed
  then show ?thesis by (simp add: added_fields_def xadd_args_def)
qed

lemma collect_ids_all: "collect_ids (map Inr ids) = Ok ids"
  by (induction ids) simp_all

lemma fill_pipeline_ok:
  "list_all2 (\<lambda>e s. stringify e = Inr s) events ss \<Longrightarrow>
    fill_pipeline stringify c key events = Inr (map (xadd_args c key) ss)"
  by (induction rule: list_all2_induct) simp_all

lemma collect_entries_data:
  "length ids = length ss \<Longrightarrow>
    collect_entries (zip ids (map (\<lambda>s. [''data'', s]) ss)) = map (\<lambda>(i, s). \<lparr>se_entryId = i, se_data = s\<rparr>) (zip ids ss)"
  by (induction rule: list_induct2) simp_all


text \<open>A client that holds the one stream and its one group.\<close>

definition memory_stream :: "string \<Rightarrow> (raw_entry list \<times> nat) stream_client" where
  "memory_stream key = \<lparr>
     rs_xadd = (\<lambda>args s. (Return ''0-1'', (fst s @ [(''0-1'', added_fields args)], snd s))),
     rs_pipeline_xadd = (\<lambda>commands s. let ids = map (\<lambda>n. string_of_int (int n)) [length (fst s)..<length (fst s) + length commands]
        in (Return (Some (map Inr ids)), (fst s @ zip ids (map added_fields commands), snd s))),
     rs_xgroup_create = (\<lambda>k g s. (Return (), s)),
     rs_xreadgroup = (\<lambda>g c n b k s. (Return (read_reply key (next_entries n s)), (fst s, snd s + length (next_entries n s)))),
     rs_xack = (\<lambda>k g ids s. (Return (int (length ids)), s)),
     rs_xautoclaim = (\<lambda>args s. (Return (''0-0'', []), s))\<rparr>"

lemma memory_stream_law: "stream_law (memory_stream key) key grp (\<lambda>s. s)"
proof -
  have "\<exists>ids. map (Inr \<circ> f) ns = map Inr ids \<and> length ids = length ns \<and> zip (map f ns) fs = zip ids fs"
    for f :: "nat \<Rightarrow> string" and ns and fs :: "string list list"
    by (rule exI [of _ "map f ns"]) simp
  from this [of "\<lambda>n. string_of_int (int n)"] show ?thesis
    by (fastforce simp: stream_law_def memory_stream_def Let_def)
qed


text \<open>An entry without a data field is delivered to the consumer but not returned, so its id cannot be acknowledged.\<close>

lemma entry_without_data_swallowed:
  "index_of ''data'' flds = None \<Longrightarrow> collect_entries [(i, flds)] = []"
  by simp

text \<open>The search for the field also matches values: a value equal to the field's name hides the payload.\<close>

lemma data_as_value_confuses:
  "collect_entries [(''1-0'', [''type'', ''data'', ''data'', ''payload''])] = [\<lparr>se_entryId = ''1-0'', se_data = ''data''\<rparr>]"
  by code_simp

end
