(* ===== verification/ConfigSchema.thy ===== *)
theory ConfigSchema
  imports Prelude ZodSchema
begin

text \<open>
  packages/config/src: config-schema.ts, config-slices.ts, load-config.ts and safe-log.ts. The configuration
  is a record with one field per variable (prefix \<open>c_\<close>); the schema parses the variables in their
  order and collects the issues of all of them. A JavaScript number of the configuration is an \<open>int\<close> where
  the schema says \<open>int()\<close>, a rational otherwise.
\<close>

section \<open>config-schema.ts\<close>

record Config =
  c_SERVICE_NAME :: string
  c_NODE_ENV :: string
  c_LOG_LEVEL :: string
  c_WORKER_ID :: "string option"
  c_REDIS_URL :: string
  c_REDIS_MAX_RETRIES :: int
  c_DATABASE_URL :: string
  c_DATABASE_POOL_SIZE :: int
  c_S3_ENDPOINT :: string
  c_S3_BUCKET :: string
  c_S3_ACCESS_KEY :: string
  c_S3_SECRET_KEY :: string
  c_SEED_URLS :: string
  c_CRAWL_MAX_DEPTH :: int
  c_CRAWL_MAX_CONCURRENT_FETCHES :: int
  c_CRAWL_FETCH_TIMEOUT_MS :: int
  c_CRAWL_POLITENESS_DELAY_MS :: int
  c_CRAWL_RATE_LIMIT_PER_DOMAIN :: int
  c_CRAWL_MAX_CONCURRENT_DOMAINS :: int
  c_CRAWL_MAX_RETRIES :: int
  c_CRAWL_MAX_REDIRECTS :: int
  c_CRAWL_MAX_RESPONSE_BYTES :: int
  c_CRAWL_USER_AGENT :: string
  c_ALLOW_PRIVATE_IPS :: bool
  c_ALLOWED_DOMAINS :: "string option"
  c_CB_THRESHOLD :: int
  c_CB_HALF_OPEN_AFTER_MS :: int
  c_RETRY_MAX_ATTEMPTS :: int
  c_RETRY_INITIAL_DELAY_MS :: int
  c_RETRY_MAX_DELAY_MS :: int
  c_TIMEOUT_DB_MS :: int
  c_TIMEOUT_REDIS_MS :: int
  c_BULKHEAD_MAX_CONCURRENT_PER_DOMAIN :: int
  c_CB_MAX_DOMAINS :: int
  c_TOKEN_BUCKET_MAX_TOKENS :: int
  c_TOKEN_BUCKET_REFILL_RATE :: rat
  c_OTEL_EXPORTER_OTLP_ENDPOINT :: string
  c_OTEL_SERVICE_NAME :: "string option"
  c_HEALTH_PORT :: int
  c_METRICS_PORT :: int

definition ConfigSchema :: "zod_lib \<Rightarrow> env_vars \<Rightarrow> zod_issue list + Config" where
  "ConfigSchema lib env =
     (let c = Inr Config.make;
          c = z_app c (z_field lib env ''SERVICE_NAME'' (f_string 1));
          c = z_app c (z_field lib env ''NODE_ENV'' (f_default ''development'' (f_enum [''development'', ''test'', ''production''])));
          c = z_app c (z_field lib env ''LOG_LEVEL'' (f_default ''info'' (f_enum [''trace'', ''debug'', ''info'', ''warn'', ''error''])));
          c = z_app c (z_field lib env ''WORKER_ID'' (f_optional (f_string 1)));
          c = z_app c (z_field lib env ''REDIS_URL'' (f_url_scheme ''redis://'' ''rediss://'' ''REDIS_URL must start with redis:// or rediss://''));
          c = z_app c (z_field lib env ''REDIS_MAX_RETRIES'' (f_default 3 (f_int 0 None)));
          c = z_app c (z_field lib env ''DATABASE_URL'' (f_url_scheme ''postgres://'' ''postgresql://'' ''DATABASE_URL must start with postgres:// or postgresql://''));
          c = z_app c (z_field lib env ''DATABASE_POOL_SIZE'' (f_default 20 (f_int 1 (Some 100))));
          c = z_app c (z_field lib env ''S3_ENDPOINT'' f_url);
          c = z_app c (z_field lib env ''S3_BUCKET'' (f_default ''ipf-crawl-pages'' (f_string 1)));
          c = z_app c (z_field lib env ''S3_ACCESS_KEY'' (f_string 1));
          c = z_app c (z_field lib env ''S3_SECRET_KEY'' (f_string 1));
          c = z_app c (z_field lib env ''SEED_URLS'' (f_string 1));
          c = z_app c (z_field lib env ''CRAWL_MAX_DEPTH'' (f_default 3 (f_int 0 (Some 100))));
          c = z_app c (z_field lib env ''CRAWL_MAX_CONCURRENT_FETCHES'' (f_default 10 (f_int 1 None)));
          c = z_app c (z_field lib env ''CRAWL_FETCH_TIMEOUT_MS'' (f_default 30000 (f_int 1000 (Some 120000))));
          c = z_app c (z_field lib env ''CRAWL_POLITENESS_DELAY_MS'' (f_default 2000 (f_int 0 None)));
          c = z_app c (z_field lib env ''CRAWL_RATE_LIMIT_PER_DOMAIN'' (f_default 2000 (f_int 100 None)));
          c = z_app c (z_field lib env ''CRAWL_MAX_CONCURRENT_DOMAINS'' (f_default 100 (f_int 1 None)));
          c = z_app c (z_field lib env ''CRAWL_MAX_RETRIES'' (f_default 3 (f_int 0 (Some 20))));
          c = z_app c (z_field lib env ''CRAWL_MAX_REDIRECTS'' (f_default 5 (f_int 0 (Some 20))));
          c = z_app c (z_field lib env ''CRAWL_MAX_RESPONSE_BYTES'' (f_default 10485760 (f_int 1024 None)));
          c = z_app c (z_field lib env ''CRAWL_USER_AGENT'' (f_default ''IPF-Crawler/1.0'' (f_string 0)));
          c = z_app c (z_field lib env ''ALLOW_PRIVATE_IPS'' (f_transform (\<lambda>v. v = ''true'') (f_default ''false'' (f_enum [''true'', ''false'']))));
          c = z_app c (z_field lib env ''ALLOWED_DOMAINS'' (f_optional (f_string 0)));
          c = z_app c (z_field lib env ''CB_THRESHOLD'' (f_default 5 (f_int 1 (Some 100))));
          c = z_app c (z_field lib env ''CB_HALF_OPEN_AFTER_MS'' (f_default 30000 (f_int 1000 (Some 300000))));
          c = z_app c (z_field lib env ''RETRY_MAX_ATTEMPTS'' (f_default 3 (f_int 1 (Some 20))));
          c = z_app c (z_field lib env ''RETRY_INITIAL_DELAY_MS'' (f_default 1000 (f_int 100 (Some 60000))));
          c = z_app c (z_field lib env ''RETRY_MAX_DELAY_MS'' (f_default 30000 (f_int 1000 (Some 300000))));
          c = z_app c (z_field lib env ''TIMEOUT_DB_MS'' (f_default 10000 (f_int 1000 (Some 120000))));
          c = z_app c (z_field lib env ''TIMEOUT_REDIS_MS'' (f_default 5000 (f_int 500 (Some 30000))));
          c = z_app c (z_field lib env ''BULKHEAD_MAX_CONCURRENT_PER_DOMAIN'' (f_default 2 (f_int 1 (Some 50))));
          c = z_app c (z_field lib env ''CB_MAX_DOMAINS'' (f_default 10000 (f_int 100 (Some 100000))));
          c = z_app c (z_field lib env ''TOKEN_BUCKET_MAX_TOKENS'' (f_default 2 (f_int 1 (Some 1000))));
          c = z_app c (z_field lib env ''TOKEN_BUCKET_REFILL_RATE'' (f_default 1 (f_number (1 / 100) 1000)));
          c = z_app c (z_field lib env ''OTEL_EXPORTER_OTLP_ENDPOINT'' (f_default ''http://otel-collector:4318'' f_url));
          c = z_app c (z_field lib env ''OTEL_SERVICE_NAME'' (f_optional (f_string 0)));
          c = z_app c (z_field lib env ''HEALTH_PORT'' (f_default 8081 (f_int 1024 (Some 65535))));
          c = z_app c (z_field lib env ''METRICS_PORT'' (f_default 9090 (f_int 1024 (Some 65535))))
      in c)"

section \<open>load-config.ts\<close>

record ConfigError =
  cf_message :: string
  cf_issues :: "(string \<times> string) list"

definition safeParse_issues :: "zod_issue list \<Rightarrow> (string \<times> string) list" where
  "safeParse_issues raw_issues = map (\<lambda>(path, m). (join_with ''.'' path, m)) raw_issues"

definition loadConfig :: "zod_lib \<Rightarrow> env_vars \<Rightarrow> (ConfigError, Config) result" where
  "loadConfig lib env =
     (case ConfigSchema lib env of
        Inr config \<Rightarrow> Ok config
      | Inl raw_issues \<Rightarrow>
          (let issues = safeParse_issues raw_issues;
               message = join_with ''; '' (map (\<lambda>(p, m). p @ '': '' @ m) issues)
           in Err \<lparr>cf_message = ''Configuration validation failed: '' @ message, cf_issues = issues\<rparr>))"

section \<open>Field by field\<close>

lemma ConfigSchema_Inr:
  "ConfigSchema lib env = Inr c \<longleftrightarrow>
     (f_string 1) lib ''SERVICE_NAME'' (env ''SERVICE_NAME'') = Inr (c_SERVICE_NAME c) \<and>
     (f_default ''development'' (f_enum [''development'', ''test'', ''production''])) lib ''NODE_ENV'' (env ''NODE_ENV'') = Inr (c_NODE_ENV c) \<and>
     (f_default ''info'' (f_enum [''trace'', ''debug'', ''info'', ''warn'', ''error''])) lib ''LOG_LEVEL'' (env ''LOG_LEVEL'') = Inr (c_LOG_LEVEL c) \<and>
     (f_optional (f_string 1)) lib ''WORKER_ID'' (env ''WORKER_ID'') = Inr (c_WORKER_ID c) \<and>
     (f_url_scheme ''redis://'' ''rediss://'' ''REDIS_URL must start with redis:// or rediss://'') lib ''REDIS_URL'' (env ''REDIS_URL'') = Inr (c_REDIS_URL c) \<and>
     (f_default 3 (f_int 0 None)) lib ''REDIS_MAX_RETRIES'' (env ''REDIS_MAX_RETRIES'') = Inr (c_REDIS_MAX_RETRIES c) \<and>
     (f_url_scheme ''postgres://'' ''postgresql://'' ''DATABASE_URL must start with postgres:// or postgresql://'') lib ''DATABASE_URL'' (env ''DATABASE_URL'') = Inr (c_DATABASE_URL c) \<and>
     (f_default 20 (f_int 1 (Some 100))) lib ''DATABASE_POOL_SIZE'' (env ''DATABASE_POOL_SIZE'') = Inr (c_DATABASE_POOL_SIZE c) \<and>
     f_url lib ''S3_ENDPOINT'' (env ''S3_ENDPOINT'') = Inr (c_S3_ENDPOINT c) \<and>
     (f_default ''ipf-crawl-pages'' (f_string 1)) lib ''S3_BUCKET'' (env ''S3_BUCKET'') = Inr (c_S3_BUCKET c) \<and>
     (f_string 1) lib ''S3_ACCESS_KEY'' (env ''S3_ACCESS_KEY'') = Inr (c_S3_ACCESS_KEY c) \<and>
     (f_string 1) lib ''S3_SECRET_KEY'' (env ''S3_SECRET_KEY'') = Inr (c_S3_SECRET_KEY c) \<and>
     (f_string 1) lib ''SEED_URLS'' (env ''SEED_URLS'') = Inr (c_SEED_URLS c) \<and>
     (f_default 3 (f_int 0 (Some 100))) lib ''CRAWL_MAX_DEPTH'' (env ''CRAWL_MAX_DEPTH'') = Inr (c_CRAWL_MAX_DEPTH c) \<and>
     (f_default 10 (f_int 1 None)) lib ''CRAWL_MAX_CONCURRENT_FETCHES'' (env ''CRAWL_MAX_CONCURRENT_FETCHES'') = Inr (c_CRAWL_MAX_CONCURRENT_FETCHES c) \<and>
     (f_default 30000 (f_int 1000 (Some 120000))) lib ''CRAWL_FETCH_TIMEOUT_MS'' (env ''CRAWL_FETCH_TIMEOUT_MS'') = Inr (c_CRAWL_FETCH_TIMEOUT_MS c) \<and>
     (f_default 2000 (f_int 0 None)) lib ''CRAWL_POLITENESS_DELAY_MS'' (env ''CRAWL_POLITENESS_DELAY_MS'') = Inr (c_CRAWL_POLITENESS_DELAY_MS c) \<and>
     (f_default 2000 (f_int 100 None)) lib ''CRAWL_RATE_LIMIT_PER_DOMAIN'' (env ''CRAWL_RATE_LIMIT_PER_DOMAIN'') = Inr (c_CRAWL_RATE_LIMIT_PER_DOMAIN c) \<and>
     (f_default 100 (f_int 1 None)) lib ''CRAWL_MAX_CONCURRENT_DOMAINS'' (env ''CRAWL_MAX_CONCURRENT_DOMAINS'') = Inr (c_CRAWL_MAX_CONCURRENT_DOMAINS c) \<and>
     (f_default 3 (f_int 0 (Some 20))) lib ''CRAWL_MAX_RETRIES'' (env ''CRAWL_MAX_RETRIES'') = Inr (c_CRAWL_MAX_RETRIES c) \<and>
     (f_default 5 (f_int 0 (Some 20))) lib ''CRAWL_MAX_REDIRECTS'' (env ''CRAWL_MAX_REDIRECTS'') = Inr (c_CRAWL_MAX_REDIRECTS c) \<and>
     (f_default 10485760 (f_int 1024 None)) lib ''CRAWL_MAX_RESPONSE_BYTES'' (env ''CRAWL_MAX_RESPONSE_BYTES'') = Inr (c_CRAWL_MAX_RESPONSE_BYTES c) \<and>
     (f_default ''IPF-Crawler/1.0'' (f_string 0)) lib ''CRAWL_USER_AGENT'' (env ''CRAWL_USER_AGENT'') = Inr (c_CRAWL_USER_AGENT c) \<and>
     (f_transform (\<lambda>v. v = ''true'') (f_default ''false'' (f_enum [''true'', ''false'']))) lib ''ALLOW_PRIVATE_IPS'' (env ''ALLOW_PRIVATE_IPS'') = Inr (c_ALLOW_PRIVATE_IPS c) \<and>
     (f_optional (f_string 0)) lib ''ALLOWED_DOMAINS'' (env ''ALLOWED_DOMAINS'') = Inr (c_ALLOWED_DOMAINS c) \<and>
     (f_default 5 (f_int 1 (Some 100))) lib ''CB_THRESHOLD'' (env ''CB_THRESHOLD'') = Inr (c_CB_THRESHOLD c) \<and>
     (f_default 30000 (f_int 1000 (Some 300000))) lib ''CB_HALF_OPEN_AFTER_MS'' (env ''CB_HALF_OPEN_AFTER_MS'') = Inr (c_CB_HALF_OPEN_AFTER_MS c) \<and>
     (f_default 3 (f_int 1 (Some 20))) lib ''RETRY_MAX_ATTEMPTS'' (env ''RETRY_MAX_ATTEMPTS'') = Inr (c_RETRY_MAX_ATTEMPTS c) \<and>
     (f_default 1000 (f_int 100 (Some 60000))) lib ''RETRY_INITIAL_DELAY_MS'' (env ''RETRY_INITIAL_DELAY_MS'') = Inr (c_RETRY_INITIAL_DELAY_MS c) \<and>
     (f_default 30000 (f_int 1000 (Some 300000))) lib ''RETRY_MAX_DELAY_MS'' (env ''RETRY_MAX_DELAY_MS'') = Inr (c_RETRY_MAX_DELAY_MS c) \<and>
     (f_default 10000 (f_int 1000 (Some 120000))) lib ''TIMEOUT_DB_MS'' (env ''TIMEOUT_DB_MS'') = Inr (c_TIMEOUT_DB_MS c) \<and>
     (f_default 5000 (f_int 500 (Some 30000))) lib ''TIMEOUT_REDIS_MS'' (env ''TIMEOUT_REDIS_MS'') = Inr (c_TIMEOUT_REDIS_MS c) \<and>
     (f_default 2 (f_int 1 (Some 50))) lib ''BULKHEAD_MAX_CONCURRENT_PER_DOMAIN'' (env ''BULKHEAD_MAX_CONCURRENT_PER_DOMAIN'') = Inr (c_BULKHEAD_MAX_CONCURRENT_PER_DOMAIN c) \<and>
     (f_default 10000 (f_int 100 (Some 100000))) lib ''CB_MAX_DOMAINS'' (env ''CB_MAX_DOMAINS'') = Inr (c_CB_MAX_DOMAINS c) \<and>
     (f_default 2 (f_int 1 (Some 1000))) lib ''TOKEN_BUCKET_MAX_TOKENS'' (env ''TOKEN_BUCKET_MAX_TOKENS'') = Inr (c_TOKEN_BUCKET_MAX_TOKENS c) \<and>
     (f_default 1 (f_number (1 / 100) 1000)) lib ''TOKEN_BUCKET_REFILL_RATE'' (env ''TOKEN_BUCKET_REFILL_RATE'') = Inr (c_TOKEN_BUCKET_REFILL_RATE c) \<and>
     (f_default ''http://otel-collector:4318'' f_url) lib ''OTEL_EXPORTER_OTLP_ENDPOINT'' (env ''OTEL_EXPORTER_OTLP_ENDPOINT'') = Inr (c_OTEL_EXPORTER_OTLP_ENDPOINT c) \<and>
     (f_optional (f_string 0)) lib ''OTEL_SERVICE_NAME'' (env ''OTEL_SERVICE_NAME'') = Inr (c_OTEL_SERVICE_NAME c) \<and>
     (f_default 8081 (f_int 1024 (Some 65535))) lib ''HEALTH_PORT'' (env ''HEALTH_PORT'') = Inr (c_HEALTH_PORT c) \<and>
     (f_default 9090 (f_int 1024 (Some 65535))) lib ''METRICS_PORT'' (env ''METRICS_PORT'') = Inr (c_METRICS_PORT c)"
  unfolding ConfigSchema_def Let_def yields_id [symmetric] yields_app yields_Inr
  by (cases c) (simp add: Config.make_def yields_id z_field_Inr)

section \<open>What an accepted configuration satisfies\<close>

definition safe_int :: "int \<Rightarrow> int \<Rightarrow> int option \<Rightarrow> bool" where
  "safe_int n lo hi = (\<bar>n\<bar> \<le> MAX_SAFE_INTEGER \<and> lo \<le> n \<and> (case hi of None \<Rightarrow> True | Some h \<Rightarrow> n \<le> h))"

text \<open>A URL as the library passes it on; the value of a decimal text.\<close>

definition url_value :: "zod_lib \<Rightarrow> string \<Rightarrow> bool" where
  "url_value lib u = (\<exists>s. zod_url lib s = Some u)"

definition scheme_url :: "zod_lib \<Rightarrow> string \<Rightarrow> string \<Rightarrow> string \<Rightarrow> bool" where
  "scheme_url lib p q u = (url_value lib u \<and> (starts_with u p \<or> starts_with u q))"

definition ranged_number :: "rat \<Rightarrow> rat \<Rightarrow> rat \<Rightarrow> bool" where
  "ranged_number q lo hi = ((\<exists>s. js_Number s = Num q) \<and> lo \<le> q \<and> q \<le> hi)"

definition Config_ok :: "zod_lib \<Rightarrow> Config \<Rightarrow> bool" where
  "Config_ok lib c =
     (
      c_SERVICE_NAME c \<noteq> [] \<and>
      c_NODE_ENV c \<in> set [''development'', ''test'', ''production''] \<and>
      c_LOG_LEVEL c \<in> set [''trace'', ''debug'', ''info'', ''warn'', ''error''] \<and>
      c_WORKER_ID c \<noteq> Some [] \<and>
      scheme_url lib ''redis://'' ''rediss://'' (c_REDIS_URL c) \<and>
      safe_int (c_REDIS_MAX_RETRIES c) 0 None \<and>
      scheme_url lib ''postgres://'' ''postgresql://'' (c_DATABASE_URL c) \<and>
      safe_int (c_DATABASE_POOL_SIZE c) 1 (Some 100) \<and>
      url_value lib (c_S3_ENDPOINT c) \<and>
      c_S3_BUCKET c \<noteq> [] \<and>
      c_S3_ACCESS_KEY c \<noteq> [] \<and>
      c_S3_SECRET_KEY c \<noteq> [] \<and>
      c_SEED_URLS c \<noteq> [] \<and>
      safe_int (c_CRAWL_MAX_DEPTH c) 0 (Some 100) \<and>
      safe_int (c_CRAWL_MAX_CONCURRENT_FETCHES c) 1 None \<and>
      safe_int (c_CRAWL_FETCH_TIMEOUT_MS c) 1000 (Some 120000) \<and>
      safe_int (c_CRAWL_POLITENESS_DELAY_MS c) 0 None \<and>
      safe_int (c_CRAWL_RATE_LIMIT_PER_DOMAIN c) 100 None \<and>
      safe_int (c_CRAWL_MAX_CONCURRENT_DOMAINS c) 1 None \<and>
      safe_int (c_CRAWL_MAX_RETRIES c) 0 (Some 20) \<and>
      safe_int (c_CRAWL_MAX_REDIRECTS c) 0 (Some 20) \<and>
      safe_int (c_CRAWL_MAX_RESPONSE_BYTES c) 1024 None \<and>
      safe_int (c_CB_THRESHOLD c) 1 (Some 100) \<and>
      safe_int (c_CB_HALF_OPEN_AFTER_MS c) 1000 (Some 300000) \<and>
      safe_int (c_RETRY_MAX_ATTEMPTS c) 1 (Some 20) \<and>
      safe_int (c_RETRY_INITIAL_DELAY_MS c) 100 (Some 60000) \<and>
      safe_int (c_RETRY_MAX_DELAY_MS c) 1000 (Some 300000) \<and>
      safe_int (c_TIMEOUT_DB_MS c) 1000 (Some 120000) \<and>
      safe_int (c_TIMEOUT_REDIS_MS c) 500 (Some 30000) \<and>
      safe_int (c_BULKHEAD_MAX_CONCURRENT_PER_DOMAIN c) 1 (Some 50) \<and>
      safe_int (c_CB_MAX_DOMAINS c) 100 (Some 100000) \<and>
      safe_int (c_TOKEN_BUCKET_MAX_TOKENS c) 1 (Some 1000) \<and>
      ranged_number (c_TOKEN_BUCKET_REFILL_RATE c) (1 / 100) 1000 \<and>
      (c_OTEL_EXPORTER_OTLP_ENDPOINT c = ''http://otel-collector:4318'' \<or> url_value lib (c_OTEL_EXPORTER_OTLP_ENDPOINT c)) \<and>
      safe_int (c_HEALTH_PORT c) 1024 (Some 65535) \<and>
      safe_int (c_METRICS_PORT c) 1024 (Some 65535))"

text \<open>The variables that spell a configuration out, given texts for its URLs and its refill rate.\<close>

definition bool_text :: "bool \<Rightarrow> string" where
  "bool_text b = (if b then ''true'' else ''false'')"

definition env_table :: "string \<Rightarrow> string \<Rightarrow> string \<Rightarrow> string option \<Rightarrow> string \<Rightarrow> Config \<Rightarrow> (string \<times> string option) list" where
  "env_table redis database s3 otlp rate c =
     [(''SERVICE_NAME'', Some (c_SERVICE_NAME c)),
      (''NODE_ENV'', Some (c_NODE_ENV c)),
      (''LOG_LEVEL'', Some (c_LOG_LEVEL c)),
      (''WORKER_ID'', c_WORKER_ID c),
      (''REDIS_URL'', Some redis),
      (''REDIS_MAX_RETRIES'', Some (string_of_int (c_REDIS_MAX_RETRIES c))),
      (''DATABASE_URL'', Some database),
      (''DATABASE_POOL_SIZE'', Some (string_of_int (c_DATABASE_POOL_SIZE c))),
      (''S3_ENDPOINT'', Some s3),
      (''S3_BUCKET'', Some (c_S3_BUCKET c)),
      (''S3_ACCESS_KEY'', Some (c_S3_ACCESS_KEY c)),
      (''S3_SECRET_KEY'', Some (c_S3_SECRET_KEY c)),
      (''SEED_URLS'', Some (c_SEED_URLS c)),
      (''CRAWL_MAX_DEPTH'', Some (string_of_int (c_CRAWL_MAX_DEPTH c))),
      (''CRAWL_MAX_CONCURRENT_FETCHES'', Some (string_of_int (c_CRAWL_MAX_CONCURRENT_FETCHES c))),
      (''CRAWL_FETCH_TIMEOUT_MS'', Some (string_of_int (c_CRAWL_FETCH_TIMEOUT_MS c))),
      (''CRAWL_POLITENESS_DELAY_MS'', Some (string_of_int (c_CRAWL_POLITENESS_DELAY_MS c))),
      (''CRAWL_RATE_LIMIT_PER_DOMAIN'', Some (string_of_int (c_CRAWL_RATE_LIMIT_PER_DOMAIN c))),
      (''CRAWL_MAX_CONCURRENT_DOMAINS'', Some (string_of_int (c_CRAWL_MAX_CONCURRENT_DOMAINS c))),
      (''CRAWL_MAX_RETRIES'', Some (string_of_int (c_CRAWL_MAX_RETRIES c))),
      (''CRAWL_MAX_REDIRECTS'', Some (string_of_int (c_CRAWL_MAX_REDIRECTS c))),
      (''CRAWL_MAX_RESPONSE_BYTES'', Some (string_of_int (c_CRAWL_MAX_RESPONSE_BYTES c))),
      (''CRAWL_USER_AGENT'', Some (c_CRAWL_USER_AGENT c)),
      (''ALLOW_PRIVATE_IPS'', Some (bool_text (c_ALLOW_PRIVATE_IPS c))),
      (''ALLOWED_DOMAINS'', c_ALLOWED_DOMAINS c),
      (''CB_THRESHOLD'', Some (string_of_int (c_CB_THRESHOLD c))),
      (''CB_HALF_OPEN_AFTER_MS'', Some (string_of_int (c_CB_HALF_OPEN_AFTER_MS c))),
      (''RETRY_MAX_ATTEMPTS'', Some (string_of_int (c_RETRY_MAX_ATTEMPTS c))),
      (''RETRY_INITIAL_DELAY_MS'', Some (string_of_int (c_RETRY_INITIAL_DELAY_MS c))),
      (''RETRY_MAX_DELAY_MS'', Some (string_of_int (c_RETRY_MAX_DELAY_MS c))),
      (''TIMEOUT_DB_MS'', Some (string_of_int (c_TIMEOUT_DB_MS c))),
      (''TIMEOUT_REDIS_MS'', Some (string_of_int (c_TIMEOUT_REDIS_MS c))),
      (''BULKHEAD_MAX_CONCURRENT_PER_DOMAIN'', Some (string_of_int (c_BULKHEAD_MAX_CONCURRENT_PER_DOMAIN c))),
      (''CB_MAX_DOMAINS'', Some (string_of_int (c_CB_MAX_DOMAINS c))),
      (''TOKEN_BUCKET_MAX_TOKENS'', Some (string_of_int (c_TOKEN_BUCKET_MAX_TOKENS c))),
      (''TOKEN_BUCKET_REFILL_RATE'', Some rate),
      (''OTEL_EXPORTER_OTLP_ENDPOINT'', otlp),
      (''OTEL_SERVICE_NAME'', c_OTEL_SERVICE_NAME c),
      (''HEALTH_PORT'', Some (string_of_int (c_HEALTH_PORT c))),
      (''METRICS_PORT'', Some (string_of_int (c_METRICS_PORT c)))]"

definition env_of :: "string \<Rightarrow> string \<Rightarrow> string \<Rightarrow> string option \<Rightarrow> string \<Rightarrow> Config \<Rightarrow> env_vars" where
  "env_of redis database s3 otlp rate c name = Option.bind (map_of (env_table redis database s3 otlp rate c) name) id"
section \<open>Accepted configurations are well-formed\<close>

lemma f_default_int: "f_default d (f_int lo hi) lib name v = Inr n \<Longrightarrow> safe_int d lo hi \<Longrightarrow> safe_int n lo hi"
  by (auto simp: zod_accepts safe_int_def)

lemma f_default_number:
  "f_default d (f_number lo hi) lib name v = Inr q \<Longrightarrow> ranged_number d lo hi \<Longrightarrow> ranged_number q lo hi"
  by (auto simp: zod_accepts ranged_number_def coerced_def split: option.splits)

lemma f_default_enum: "f_default d (f_enum opts) lib name v = Inr s \<Longrightarrow> d \<in> set opts \<Longrightarrow> s \<in> set opts"
  by (auto simp: zod_accepts)

lemma f_url_scheme_value:
  "f_url_scheme p q m lib name v = Inr u \<Longrightarrow> scheme_url lib p q u"
  by (auto simp: zod_accepts url_value_def scheme_url_def)

lemma f_default_url: "f_default d f_url lib name v = Inr u \<Longrightarrow> u = d \<or> url_value lib u"
  by (auto simp: zod_accepts url_value_def)

lemma f_url_value: "f_url lib name v = Inr u \<Longrightarrow> url_value lib u"
  by (auto simp: zod_accepts url_value_def)

lemma f_string_1: "f_string 1 lib name v = Inr s \<Longrightarrow> s \<noteq> []"
  by (auto simp: zod_accepts)

lemma f_default_string_1: "f_default d (f_string 1) lib name v = Inr s \<Longrightarrow> d \<noteq> [] \<Longrightarrow> s \<noteq> []"
  by (auto simp: zod_accepts)

lemma f_optional_string_1: "f_optional (f_string 1) lib name v = Inr s \<Longrightarrow> s \<noteq> Some []"
  by (auto simp: zod_accepts)

lemma ranged_number_1: "ranged_number 1 (1 / 100) 1000"
  by (auto simp: ranged_number_def js_Number_digits list_all_iff is_digit_def digits_val_def digit_val_def intro!: exI [of _ "''1''"])

lemma ConfigSchema_ok:
  assumes "ConfigSchema lib env = Inr c"
  shows "Config_ok lib c"
  using assms unfolding ConfigSchema_Inr Config_ok_def
  apply (elim conjE)
  apply (intro conjI)
  apply ((erule f_url_scheme_value f_url_value f_default_url f_string_1 f_optional_string_1
      | erule f_default_int f_default_enum f_default_number f_default_string_1,
        simp (no_asm) add: safe_int_def MAX_SAFE_INTEGER_def ranged_number_1))+
  done

section \<open>Every well-formed configuration can be written down\<close>

lemma f_default_Some [simp]: "f_default d p lib name (Some s) = p lib name (Some s)"
  by (simp add: f_default_def)

lemma f_string_write: "s \<noteq> [] \<Longrightarrow> f_string (Suc 0) lib name (Some s) = Inr s" "f_string 0 lib name (Some s) = Inr s"
  by (cases s; simp add: zod_accepts)+

lemma f_enum_write: "s \<in> set opts \<Longrightarrow> f_enum opts lib name (Some s) = Inr s"
  by (simp add: zod_accepts)

lemma f_int_write: "safe_int n lo hi \<Longrightarrow> 0 \<le> lo \<Longrightarrow> f_int lo hi lib name (Some (string_of_int n)) = Inr n"
  by (auto simp: zod_accepts safe_int_def)

lemma f_number_write: "js_Number s = Num q \<Longrightarrow> ranged_number q lo hi \<Longrightarrow> f_number lo hi lib name (Some s) = Inr q"
  by (simp add: zod_accepts ranged_number_def coerced_def)

lemma f_optional_write:
  "v \<noteq> Some [] \<Longrightarrow> f_optional (f_string (Suc 0)) lib name v = Inr v" "f_optional (f_string 0) lib name v = Inr v"
  by (cases v; auto simp: zod_accepts Suc_le_eq)+

lemma f_url_write: "zod_url lib s = Some u \<Longrightarrow> f_url lib name (Some s) = Inr u"
  by (simp add: zod_accepts)

lemma f_url_scheme_write: "zod_url lib s = Some u \<Longrightarrow> scheme_url lib p q u \<Longrightarrow> f_url_scheme p q m lib name (Some s) = Inr u"
  by (simp add: zod_accepts scheme_url_def)

lemma f_default_url_write:
  "(case v of None \<Rightarrow> u = d | Some s \<Rightarrow> zod_url lib s = Some u) \<Longrightarrow> f_default d f_url lib name v = Inr u"
  by (cases v) (simp_all add: zod_accepts)

lemma bool_text_write:
  "f_transform (\<lambda>v. v = ''true'') (f_default d (f_enum [''true'', ''false''])) lib name (Some (bool_text b)) = Inr b"
  by (auto simp: zod_accepts bool_text_def)

lemma Config_roundtrip:
  assumes "Config_ok lib c"
    and "zod_url lib redis = Some (c_REDIS_URL c)"
    and "zod_url lib database = Some (c_DATABASE_URL c)"
    and "zod_url lib s3 = Some (c_S3_ENDPOINT c)"
    and "case otlp of None \<Rightarrow> c_OTEL_EXPORTER_OTLP_ENDPOINT c = ''http://otel-collector:4318''
         | Some s \<Rightarrow> zod_url lib s = Some (c_OTEL_EXPORTER_OTLP_ENDPOINT c)"
    and "js_Number rate = Num (c_TOKEN_BUCKET_REFILL_RATE c)"
  shows "ConfigSchema lib (env_of redis database s3 otlp rate c) = Inr c"
  using assms(1) unfolding ConfigSchema_Inr Config_ok_def
  apply (elim conjE)
  apply (intro conjI)
  apply (simp_all (no_asm) add: env_of_def env_table_def)
  apply ((rule bool_text_write f_string_write(2) f_optional_write(2) f_default_url_write [OF assms(5)]
        f_url_write [OF assms(4)]
      | erule f_string_write(1) f_optional_write(1) f_enum_write f_number_write [OF assms(6)]
        f_url_scheme_write [OF assms(2)] f_url_scheme_write [OF assms(3)]
      | erule f_int_write, simp (no_asm))+)
  done


section \<open>Issues are reported per variable\<close>

definition issues_of :: "'e list + 'a \<Rightarrow> 'e list" where
  "issues_of r = (case r of Inl es \<Rightarrow> es | Inr _ \<Rightarrow> [])"

lemma issues_of_simps [simp]: "issues_of (Inr a) = []" "issues_of (z_app f x) = issues_of f @ issues_of x"
  by (simp_all add: issues_of_def) (cases f; cases x; simp)

text \<open>Two parses report the same issues under the name \<open>p\<close>.\<close>

definition same_issues :: "string \<Rightarrow> zod_issue list + 'a \<Rightarrow> zod_issue list + 'b \<Rightarrow> bool" where
  "same_issues p r r' = (filter (\<lambda>i. fst i = [p]) (issues_of r) = filter (\<lambda>i. fst i = [p]) (issues_of r'))"

lemma same_issues_Inr: "same_issues p (Inr a) (Inr b)"
  by (simp add: same_issues_def)

lemma same_issues_app: "same_issues p f f' \<Longrightarrow> same_issues p x x' \<Longrightarrow> same_issues p (z_app f x) (z_app f' x')"
  by (simp add: same_issues_def)

lemma same_issues_field: "env p = env' p \<Longrightarrow> same_issues p (z_field lib env name q) (z_field lib env' name q)"
  by (cases "name = p"; cases "q lib name (env name)"; cases "q lib name (env' name)")
    (auto simp: same_issues_def z_field_def issues_of_def filter_map o_def)

lemma ConfigSchema_same_issues: "env p = env' p \<Longrightarrow> same_issues p (ConfigSchema lib env) (ConfigSchema lib env')"
  unfolding ConfigSchema_def Let_def by (intro same_issues_app same_issues_field same_issues_Inr)

section \<open>A blank variable\<close>

text \<open>
  A number coerced from an empty or blank text is 0, not the default: setting the politeness delay to
  the empty text turns it off.
\<close>

lemma blank_politeness_delay:
  assumes "ConfigSchema lib env = Inr c" and "env ''CRAWL_POLITENESS_DELAY_MS'' = Some s" and "list_all js_space s"
  shows "c_CRAWL_POLITENESS_DELAY_MS c = 0"
proof -
  have "f_default 2000 (f_int 0 None) lib ''CRAWL_POLITENESS_DELAY_MS'' (env ''CRAWL_POLITENESS_DELAY_MS'') = Inr (c_CRAWL_POLITENESS_DELAY_MS c)"
    using assms(1) unfolding ConfigSchema_Inr by (elim conjE)
  with assms(2,3) show ?thesis
    by (simp add: zod_accepts coerced_blank)
qed

section \<open>safe-log.ts, config-slices.ts\<close>

definition SENSITIVE_FIELDS :: "string list" where
  "SENSITIVE_FIELDS = [''S3_ACCESS_KEY'', ''S3_SECRET_KEY'', ''DATABASE_URL'', ''REDIS_URL'']"

definition REDACTED :: string where
  "REDACTED = ''[REDACTED]''"

fun toSafeLog :: "(string \<times> string) list \<Rightarrow> (string \<times> string) list" where
  "toSafeLog [] = []"
| "toSafeLog ((key, v) # config) = (key, if key \<in> set SENSITIVE_FIELDS then REDACTED else v) # toSafeLog config"

text \<open>The redacted log does not depend on the values of the sensitive fields.\<close>

lemma toSafeLog_hides:
  "list_all2 (\<lambda>(k, v) (k', v'). k = k' \<and> (v = v' \<or> k \<in> set SENSITIVE_FIELDS)) c d \<Longrightarrow> toSafeLog c = toSafeLog d"
  by (induction rule: list_all2_induct) (auto split: if_splits)

text \<open>The names each consumer's slice picks.\<close>

definition RedisConfig :: "string list" where
  "RedisConfig = [''REDIS_URL'', ''REDIS_MAX_RETRIES'']"

definition DatabaseConfig :: "string list" where
  "DatabaseConfig = [''DATABASE_URL'', ''DATABASE_POOL_SIZE'']"

definition S3Slice :: "string list" where
  "S3Slice = [''S3_ENDPOINT'', ''S3_BUCKET'', ''S3_ACCESS_KEY'', ''S3_SECRET_KEY'']"

definition CrawlerConfig :: "string list" where
  "CrawlerConfig = [''CRAWL_MAX_DEPTH'', ''CRAWL_RATE_LIMIT_PER_DOMAIN'', ''CRAWL_MAX_CONCURRENT_DOMAINS'', ''CRAWL_USER_AGENT'']"

definition ObservabilityConfig :: "string list" where
  "ObservabilityConfig = [''OTEL_EXPORTER_OTLP_ENDPOINT'', ''OTEL_SERVICE_NAME'', ''LOG_LEVEL'']"

definition HealthConfig :: "string list" where
  "HealthConfig = [''HEALTH_PORT'', ''METRICS_PORT'']"

definition SeedConfig :: "string list" where
  "SeedConfig = [''SEED_URLS'']"

definition FetchConfigSlice :: "string list" where
  "FetchConfigSlice = [''CRAWL_FETCH_TIMEOUT_MS'', ''CRAWL_MAX_REDIRECTS'', ''CRAWL_MAX_RESPONSE_BYTES'',
     ''CRAWL_MAX_RETRIES'', ''CRAWL_USER_AGENT'', ''ALLOW_PRIVATE_IPS'']"

definition WorkerConfig :: "string list" where
  "WorkerConfig = [''WORKER_ID'', ''SERVICE_NAME'', ''CRAWL_MAX_CONCURRENT_FETCHES'', ''CRAWL_POLITENESS_DELAY_MS'']"

definition DomainFilterConfig :: "string list" where
  "DomainFilterConfig = [''ALLOWED_DOMAINS'']"

definition ResilienceConfigSlice :: "string list" where
  "ResilienceConfigSlice =
     [''CB_THRESHOLD'', ''CB_HALF_OPEN_AFTER_MS'', ''CB_MAX_DOMAINS'',
      ''RETRY_MAX_ATTEMPTS'', ''RETRY_INITIAL_DELAY_MS'', ''RETRY_MAX_DELAY_MS'',
      ''CRAWL_FETCH_TIMEOUT_MS'', ''TIMEOUT_DB_MS'', ''TIMEOUT_REDIS_MS'',
      ''BULKHEAD_MAX_CONCURRENT_PER_DOMAIN'', ''TOKEN_BUCKET_MAX_TOKENS'', ''TOKEN_BUCKET_REFILL_RATE'']"

text \<open>Only the slices of the three stores carry a field the safe log redacts.\<close>

lemma slices_without_secrets:
  "set SENSITIVE_FIELDS \<inter> set (CrawlerConfig @ ObservabilityConfig @ HealthConfig @ SeedConfig @ FetchConfigSlice
     @ WorkerConfig @ DomainFilterConfig @ ResilienceConfigSlice) = {}"
  "set SENSITIVE_FIELDS \<subseteq> set (RedisConfig @ DatabaseConfig @ S3Slice)"
  by code_simp+

end
