(* ===== verification/Startup.thy ===== *)
theory Startup
  imports CompositionRoot UrlNormalizer PromMetrics ConfigSchema
begin

text \<open>
  packages/application-lifecycle/src, the way up: startup-orchestrator.ts, observability-phases.ts,
  consumer-phase.ts, fetcher-holder.ts, seed-frontier.ts, worker-processor.ts and abort-handler.ts. The state is the
  log written so far and the world; phases and resources are functions over the world.
\<close>

section \<open>startup-orchestrator.ts\<close>

type_synonym 'w logged = "log_line list \<times> 'w"

definition log_to :: "log_level \<Rightarrow> string \<Rightarrow> (string \<times> string) list \<Rightarrow> 'w logged \<Rightarrow> 'w logged" where
  "log_to level msg kv s = (fst s @ [(level, msg, kv)], snd s)"

type_synonym 'w resource = "'w \<Rightarrow> unit completion \<times> 'w"

record 'w StartupPhase =
  ph_name :: string
  ph_execute :: "'w \<Rightarrow> 'w resource completion \<times> 'w"

definition StartupError :: "string \<Rightarrow> string \<Rightarrow> thrown" where
  "StartupError phase detail =
     ThrownError ((new_Error (''Startup failed at phase '' @ [CHR 0x27] @ phase @ [CHR 0x27] @ '': '' @ detail))\<lparr>err_name := ''StartupError''\<rparr>)"

text \<open>\<open>String(..)\<close> of the error depends on what it is; of the plain object of \<open>loadConfig\<close> it is the constant below.\<close>

definition validateConfig ::
  "('err \<Rightarrow> string) \<Rightarrow> ('env \<Rightarrow> ('err, 'config) result) \<Rightarrow> 'env \<Rightarrow> 'w logged \<Rightarrow> 'config completion \<times> 'w logged" where
  "validateConfig String_of load env s =
     (case load env of
        Err e \<Rightarrow> (Throw (StartupError ''config'' (String_of e)),
                  log_to LogFatal ''Configuration validation failed'' [(''error'', String_of e)] s)
      | Ok config \<Rightarrow> (Return config, s))"

definition validateSeeds :: "string list \<Rightarrow> 'w logged \<Rightarrow> unit completion \<times> 'w logged" where
  "validateSeeds seeds s =
     (if seeds = [] then (Throw (StartupError ''seeds'' ''SEED_URLS is empty''), log_to LogFatal ''No seed URLs provided'' [] s)
      else (Return (), s))"

text \<open>The cleanup counts down from the last resource, logs each, and swallows what a close throws.\<close>

definition su_close :: "string \<times> 'w resource \<Rightarrow> 'w logged \<Rightarrow> 'w logged" where
  "su_close entry s =
     (case snd entry (snd s) of
        (Return _, w') \<Rightarrow> log_to LogInfo ''Cleaned up resource'' [(''resource'', fst entry)] (fst s, w')
      | (Throw e, w') \<Rightarrow> log_to LogError ''Cleanup failed'' [(''resource'', fst entry), (''error'', thrown_message e)] (fst s, w'))"

fun su_cleanup_from :: "(string \<times> 'w resource) list \<Rightarrow> nat \<Rightarrow> 'w logged \<Rightarrow> 'w logged" where
  "su_cleanup_from resources 0 s = s"
| "su_cleanup_from resources (Suc i) s =
     su_cleanup_from resources i (if i < length resources then su_close (resources ! i) s else s)"

definition su_cleanupReverse :: "(string \<times> 'w resource) list \<Rightarrow> 'w logged \<Rightarrow> 'w logged" where
  "su_cleanupReverse resources s = su_cleanup_from resources (length resources) s"

fun run_phases ::
  "'w StartupPhase list \<Rightarrow> (string \<times> 'w resource) list \<Rightarrow> 'w logged \<Rightarrow> (string \<times> 'w resource) list completion \<times> 'w logged" where
  "run_phases [] resources s =
     (Return resources, log_to LogInfo ''All startup phases completed'' [(''count'', string_of_int (int (length resources)))] s)"
| "run_phases (phase # phases) resources s =
     (let s1 = log_to LogInfo ''Starting phase'' [(''phase'', ph_name phase)] s
      in case ph_execute phase (snd s1) of
           (Return r, w') \<Rightarrow> run_phases phases (resources @ [(ph_name phase, r)]) (fst s1, w')
         | (Throw e, w') \<Rightarrow>
             (Throw (StartupError (ph_name phase) (thrown_message e)),
              su_cleanupReverse resources
                (log_to LogFatal ''Startup phase failed, cleaning up''
                   [(''phase'', ph_name phase), (''error'', thrown_message e)] (fst s1, w'))))"

definition executeStartupSequence ::
  "'w StartupPhase list \<Rightarrow> 'w logged \<Rightarrow> (string \<times> 'w resource) list completion \<times> 'w logged" where
  "executeStartupSequence phases s = run_phases phases [] s"

section \<open>The phases\<close>

definition trivial_resource :: "'w resource" where
  "trivial_resource w = (Return (), w)"

text \<open>The factories build a resource or throw; the logger phase has nothing to close.\<close>

definition createObservabilityPhases ::
  "('w \<Rightarrow> unit completion \<times> 'w) \<Rightarrow> ('w \<Rightarrow> 'w resource completion \<times> 'w) \<Rightarrow> (int \<Rightarrow> 'w \<Rightarrow> 'w resource completion \<times> 'w) \<Rightarrow> int
     \<Rightarrow> 'w StartupPhase list" where
  "createObservabilityPhases createLogger createTracer createMetricsServer metricsPort =
     [\<lparr>ph_name = ''logger'',
        ph_execute = (\<lambda>w. case createLogger w of (Return _, w') \<Rightarrow> (Return trivial_resource, w') | (Throw e, w') \<Rightarrow> (Throw e, w'))\<rparr>,
      \<lparr>ph_name = ''tracer'', ph_execute = createTracer\<rparr>,
      \<lparr>ph_name = ''metrics-server'', ph_execute = createMetricsServer metricsPort\<rparr>]"

definition createConsumerPhase ::
  "('w \<Rightarrow> unit completion \<times> 'w) \<Rightarrow> (int option \<Rightarrow> 'w \<Rightarrow> unit completion \<times> 'w) \<Rightarrow> 'w StartupPhase" where
  "createConsumerPhase start close =
     \<lparr>ph_name = ''job-consumer'',
      ph_execute = (\<lambda>w. case start w of (Return _, w') \<Rightarrow> (Return (close None), w') | (Throw e, w') \<Rightarrow> (Throw e, w'))\<rparr>"

definition createFetcherPhase :: "('w \<Rightarrow> 'w resource completion \<times> 'w) \<Rightarrow> 'w StartupPhase" where
  "createFetcherPhase factory = \<lparr>ph_name = ''fetcher'', ph_execute = factory\<rparr>"

section \<open>seed-frontier.ts\<close>

definition parseSeedUrls :: "string \<Rightarrow> string list" where
  "parseSeedUrls commaSeparated = filter (\<lambda>s. 0 < length s) (map js_trim (split_on (CHR '','') commaSeparated))"

text \<open>The loop over the seeds: the entries and the warnings, in order.\<close>

fun seed_entries ::
  "(string \<Rightarrow> (UrlError, CrawlUrl) result) \<Rightarrow> string list \<Rightarrow> FrontierEntry list \<times> log_line list" where
  "seed_entries parse [] = ([], [])"
| "seed_entries parse (raw # seeds) =
     (case seed_entries parse seeds of (entries, warnings) \<Rightarrow>
        (case parse raw of
           Err e \<Rightarrow> (entries, (LogWarn, ''Invalid seed URL, skipping'', [(''url'', raw), (''error'', ue_message e)]) # warnings)
         | Ok u \<Rightarrow> (\<lparr>fe_entry_url = cu_normalized u, fe_priority = 0, fe_depth = 0\<rparr> # entries, warnings)))"

definition seed_frontier ::
  "(FrontierEntry list \<Rightarrow> 'w \<Rightarrow> (QueueError, int) result \<times> 'w) \<Rightarrow> ('w \<Rightarrow> (QueueError, FrontierSize) result \<times> 'w) \<Rightarrow>
     (string \<Rightarrow> (UrlError, CrawlUrl) result) \<Rightarrow> string list \<Rightarrow> 'w \<Rightarrow> metrics_call list \<times> 'w logged" where
  "seed_frontier enqueue get_size parse seeds w =
     (case seed_entries parse seeds of (entries, warnings) \<Rightarrow>
        if entries = [] then ([], log_to LogWarn ''No valid seed URLs to enqueue'' [] (warnings, w))
        else case enqueue entries w of
          (Err e, w1) \<Rightarrow>
            ([], log_to LogError ''Seed enqueue failed'' [(''error'', qe_message e), (''operation'', qe_operation e)] (warnings, w1))
        | (Ok n, w1) \<Rightarrow>
            (let logs = warnings @ [(LogInfo, ''Seeds enqueued'', [(''count'', string_of_int n)])]
             in case get_size w1 of
                  (Ok sz, w2) \<Rightarrow> ([SetFrontierSize (fs_total sz)], (logs, w2))
                | (Err _, w2) \<Rightarrow> ([], (logs, w2))))"

section \<open>worker-processor.ts\<close>

datatype js_value =
    JsUndefined | JsNull | JsBool bool | JsNumber jsnum | JsString string
  | JsObject "(string \<times> js_value) list"

fun js_to_number :: "js_value \<Rightarrow> jsnum" where
  "js_to_number JsUndefined = NaN"
| "js_to_number JsNull = Num 0"
| "js_to_number (JsBool b) = Num (if b then 1 else 0)"
| "js_to_number (JsNumber n) = n"
| "js_to_number (JsString s) = js_Number s"
| "js_to_number (JsObject _) = NaN"

record JobPayload =
  jp_url :: string
  jp_depth :: int

definition js_field :: "(string \<times> js_value) list \<Rightarrow> string \<Rightarrow> js_value" where
  "js_field obj k = (case map_of obj k of Some v \<Rightarrow> v | None \<Rightarrow> JsUndefined)"

text \<open>\<open>safeParse\<close>: a non-empty string, and a depth that \<open>Number\<close> turns into a safe integer from 0 on.\<close>

definition JobPayloadSchema :: "js_value \<Rightarrow> JobPayload option" where
  "JobPayloadSchema raw =
     (case raw of
        JsObject obj \<Rightarrow>
          (case (js_field obj ''url'', js_to_number (js_field obj ''depth'')) of
             (JsString u, Num d) \<Rightarrow>
               (if u \<noteq> [] \<and> of_int (floor d) = d \<and> 0 \<le> d \<and> d \<le> 9007199254740991
                then Some \<lparr>jp_url = u, jp_depth = floor d\<rparr> else None)
           | _ \<Rightarrow> None)
      | _ \<Rightarrow> None)"

datatype ProcessJobResult =
    JobSuccess int
  | JobValidationError string
  | JobQueueError CrawlError
  | JobPipelineError CrawlError

text \<open>The message of a failed validation is a parameter. The result, the metrics, the logs and the world;
  a pipeline that rejects makes the job reject.\<close>

definition processJob ::
  "(js_value \<Rightarrow> string) \<Rightarrow> (JobPayload \<Rightarrow> 'w \<Rightarrow> (CrawlError, int) result completion \<times> 'w) \<Rightarrow> js_value \<Rightarrow> 'w
     \<Rightarrow> (ProcessJobResult completion \<times> metrics_call list) \<times> 'w logged" where
  "processJob zod_message pipeline raw w =
     (case JobPayloadSchema raw of
        None \<Rightarrow> ((Return (JobValidationError (zod_message raw)), []), ([(LogError, ''Invalid job payload'', [(''error'', zod_message raw)])], w))
      | Some payload \<Rightarrow>
          (let logs = [(LogDebug, ''Processing job'', [(''url'', jp_url payload), (''depth'', string_of_int (jp_depth payload))])]
           in case pipeline payload w of
                (Throw t, w') \<Rightarrow> ((Throw t, []), (logs, w'))
              | (Return (Ok n), w') \<Rightarrow> ((Return (JobSuccess n), [RecordFetch ''success'' None]), (logs, w'))
              | (Return (Err e), w') \<Rightarrow>
                  (if crawl_error_kind e = ''queue_error''
                   then ((Return (JobQueueError e), [RecordFetch ''error'' (Some ''queue_error'')]), (logs, w'))
                   else ((Return (JobPipelineError e), [RecordFetch ''error'' (Some (crawl_error_kind e))]), (logs, w')))))"

text \<open>The processor of the consumer in main.ts: a queue error is thrown, so that the queue retries the job.\<close>

definition consumer_processor ::
  "(js_value \<Rightarrow> string) \<Rightarrow> (JobPayload \<Rightarrow> 'w \<Rightarrow> (CrawlError, int) result completion \<times> 'w) \<Rightarrow> js_value \<Rightarrow> 'w
     \<Rightarrow> (unit completion \<times> metrics_call list) \<times> 'w logged" where
  "consumer_processor zod_message pipeline raw w =
     (case processJob zod_message pipeline raw w of
        ((Throw t, ms), s) \<Rightarrow> ((Throw t, ms), s)
      | ((Return (JobQueueError e), ms), s) \<Rightarrow> ((Throw (ThrownError (new_Error (crawl_error_message e))), ms), s)
      | ((Return _, ms), s) \<Rightarrow> ((Return (), ms), s))"

section \<open>abort-handler.ts\<close>

record AbortHandler =
  ab_max :: int
  ab_failures :: int
  ab_aborted :: bool
  ab_reasons :: "string list"
  ab_logs :: "log_line list"

definition createAbortHandler :: "int \<Rightarrow> AbortHandler" where
  "createAbortHandler maxConsecutiveFailures =
     \<lparr>ab_max = maxConsecutiveFailures, ab_failures = 0, ab_aborted = False, ab_reasons = [], ab_logs = []\<rparr>"

text \<open>\<open>ab_reasons\<close> are the calls of the callback.\<close>

definition recordFailure :: "AbortHandler \<Rightarrow> AbortHandler" where
  "recordFailure h =
     (if ab_aborted h then h
      else let f = ab_failures h + 1;
               h1 = h\<lparr>ab_failures := f, ab_logs := ab_logs h @ [(LogWarn, ''State-store failure recorded'',
                       [(''consecutive'', string_of_int f), (''threshold'', string_of_int (ab_max h))])]\<rparr>
           in if ab_max h \<le> f
              then h1\<lparr>ab_aborted := True,
                      ab_logs := ab_logs h1 @ [(LogFatal, ''State-store abort threshold reached'', [(''failures'', string_of_int f)])],
                      ab_reasons := ab_reasons h1 @ [''state-store exhausted after '' @ string_of_int f @ '' consecutive failures'']\<rparr>
              else h1)"

definition recordSuccess :: "AbortHandler \<Rightarrow> AbortHandler" where
  "recordSuccess h = h\<lparr>ab_failures := 0,
     ab_logs := ab_logs h @ (if 0 < ab_failures h
       then [(LogInfo, ''State-store recovered'', [(''previousFailures'', string_of_int (ab_failures h))])] else [])\<rparr>"

section \<open>Start-up fails fast and cleans up in reverse\<close>

lemma su_cleanup_from_append: "i \<le> length rs \<Longrightarrow> su_cleanup_from (rs @ qs) i s = su_cleanup_from rs i s"
  by (induction i arbitrary: s) (auto simp: nth_append)

lemma su_cleanupReverse_snoc: "su_cleanupReverse (rs @ [r]) s = su_cleanupReverse rs (su_close r s)"
  by (simp add: su_cleanupReverse_def su_cleanup_from_append)

interpretation startup_cleanup: reverse_cleanup su_close su_cleanupReverse
  by unfold_locales (simp_all add: su_cleanupReverse_snoc, simp add: su_cleanupReverse_def)

text \<open>The start of the given phases in order: the resources built, if none of them fails.\<close>

fun phases_up :: "'w StartupPhase list \<Rightarrow> 'w logged \<Rightarrow> ((string \<times> 'w resource) list \<times> 'w logged) option" where
  "phases_up [] s = Some ([], s)"
| "phases_up (p # ps) s =
     (case ph_execute p (snd s) of
        (Throw _, _) \<Rightarrow> None
      | (Return r, w') \<Rightarrow>
          (case phases_up ps (fst s @ [(LogInfo, ''Starting phase'', [(''phase'', ph_name p)])], w') of
             None \<Rightarrow> None
           | Some (rs, t) \<Rightarrow> Some ((ph_name p, r) # rs, t)))"

lemma run_phases_up:
  "phases_up earlier s = Some (built, t) \<Longrightarrow> run_phases (earlier @ ps) rs s = run_phases ps (rs @ built) t"
proof (induction earlier arbitrary: s built rs)
  case (Cons p earlier)
  then obtain r w1 bs where "ph_execute p (snd s) = (Return r, w1)" "built = (ph_name p, r) # bs"
      "phases_up earlier (fst s @ [(LogInfo, ''Starting phase'', [(''phase'', ph_name p)])], w1) = Some (bs, t)"
    by (auto split: completion.splits prod.splits option.splits)
  with Cons.IH show ?case by (simp add: log_to_def)
qed simp

lemma phases_up_names: "phases_up ps s = Some (built, t) \<Longrightarrow> map fst built = map ph_name ps"
  by (induction ps arbitrary: s built) (auto split: completion.splits prod.splits option.splits)

text \<open>C31: When a phase throws, start-up stops there: no later phase runs, exactly the resources of the phases before it are closed, each once and in reverse order, whether or not their close throws, and the error names the failed phase and its message.\<close>

theorem startup_fails_fast:
  assumes "phases_up earlier s = Some (built, t)" and "ph_execute failing (snd t) = (Throw e, w)"
  shows "executeStartupSequence (earlier @ failing # later) s =
    (Throw (StartupError (ph_name failing) (thrown_message e)),
     fold su_close (rev built)
       (fst t @ [(LogInfo, ''Starting phase'', [(''phase'', ph_name failing)]),
                 (LogFatal, ''Startup phase failed, cleaning up'', [(''phase'', ph_name failing), (''error'', thrown_message e)])], w))"
  using assms(2) startup_cleanup.cleanup_fold [of built]
  by (simp add: executeStartupSequence_def run_phases_up [OF assms(1)] log_to_def Let_def)

definition demo_phase :: "string \<Rightarrow> string list StartupPhase" where
  "demo_phase n = \<lparr>ph_name = n, ph_execute = (\<lambda>w. if n = ''bad'' then (Throw (ThrownOther ''refused''), w)
     else (Return (\<lambda>w. (Return (), w @ [n])), w))\<rparr>"

theorem startup_fails_fast_witness:
  "fst (executeStartupSequence ([demo_phase ''redis'', demo_phase ''probe''] @ demo_phase ''bad'' # [demo_phase ''consumer'']) ([], []))
     = Throw (StartupError ''bad'' ''refused'')
   \<and> snd (snd (executeStartupSequence ([demo_phase ''redis'', demo_phase ''probe''] @ demo_phase ''bad'' # [demo_phase ''consumer'']) ([], [])))
     = [''probe'', ''redis'']"
proof -
  obtain built t where up: "phases_up [demo_phase ''redis'', demo_phase ''probe''] ([], []) = Some (built, t)"
    and t: "snd t = []" and b: "built = [(''redis'', \<lambda>w. (Return (), w @ [''redis''])), (''probe'', \<lambda>w. (Return (), w @ [''probe'']))]"
    by (simp add: demo_phase_def)
  have "ph_execute (demo_phase ''bad'') (snd t) = (Throw (ThrownOther ''refused''), [])"
    by (simp add: demo_phase_def t)
  from startup_fails_fast [OF up this, of "[demo_phase ''consumer'']"] show ?thesis
    by (simp add: b su_close_def log_to_def demo_phase_def)
qed

lemma startup_succeeds:
  "phases_up phases s = Some (built, t) \<Longrightarrow>
    fst (executeStartupSequence phases s) = Return built \<and> map fst built = map ph_name phases"
  using run_phases_up [of phases s built t "[]" "[]"] phases_up_names [of phases s built t]
  by (simp add: executeStartupSequence_def)

text \<open>Why the configuration was rejected is not in the error: its plain object is written as \<open>[object Object]\<close>.\<close>

lemma config_issues_lost:
  assumes "ConfigSchema lib env = Inl issues"
  shows "fst (validateConfig (\<lambda>_. ''[object Object]'') (loadConfig lib) env s)
    = Throw (StartupError ''config'' ''[object Object]'')"
  using assms by (simp add: validateConfig_def loadConfig_def Let_def)

section \<open>Seeding\<close>

lemma seed_entries_spec:
  "fst (seed_entries parse seeds) =
    map (\<lambda>u. \<lparr>fe_entry_url = cu_normalized u, fe_priority = 0, fe_depth = 0\<rparr>)
      (concat (map (\<lambda>raw. case parse raw of Ok u \<Rightarrow> [u] | Err _ \<Rightarrow> []) seeds))"
  "length (snd (seed_entries parse seeds)) = length (filter (\<lambda>raw. \<not> isOk (parse raw)) seeds)"
  by (induction seeds) (auto simp: isOk_def split: sum.splits prod.splits)

text \<open>A comma separated list of seeds without surrounding white space is read back as the list.\<close>

theorem parseSeedUrls_roundtrip:
  assumes "\<forall>u\<in>set urls. u \<noteq> [] \<and> js_trim u = u \<and> CHR '','' \<notin> set u"
  shows "parseSeedUrls (join_with '','' urls) = urls"
proof (cases "urls = []")
  case True
  then show ?thesis by (simp add: parseSeedUrls_def js_trim_def)
next
  case False
  then have "split_on (CHR '','') (join_with '','' urls) = urls" using assms
  proof (induction urls)
    case (Cons u us)
    show ?case
    proof (cases "us = []")
      case True
      then show ?thesis using Cons.prems by (simp add: split_on_no_sep)
    next
      case False
      then show ?thesis using Cons by (simp add: join_with_Cons split_on_append)
    qed
  qed simp
  then show ?thesis using assms by (simp add: parseSeedUrls_def map_idI)
qed

theorem parseSeedUrls_roundtrip_witness:
  "parseSeedUrls (join_with '','' [''https://a/'', ''https://b/'']) = [''https://a/'', ''https://b/'']"
proof (rule parseSeedUrls_roundtrip)
  show "\<forall>u\<in>set [''https://a/'', ''https://b/'']. u \<noteq> [] \<and> js_trim u = u \<and> CHR '','' \<notin> set u"
    by code_simp
qed

section \<open>Jobs\<close>

text \<open>What becomes of a job: an invalid payload runs no pipeline and records nothing, any other payload runs the pipeline once; a result records exactly one fetch, and the consumer's processor throws (so that the queue retries) exactly for queue errors and for a pipeline that rejects.\<close>

theorem job_outcomes:
  "let ((r, ms), s) = processJob zod_message pipeline raw w; ((c, ms'), s') = consumer_processor zod_message pipeline raw w
   in ms' = ms \<and> s' = s
      \<and> (case JobPayloadSchema raw of
           None \<Rightarrow> r = Return (JobValidationError (zod_message raw)) \<and> ms = [] \<and> snd s = w \<and> c = Return ()
         | Some payload \<Rightarrow> 0 \<le> jp_depth payload \<and> jp_url payload \<noteq> [] \<and> snd s = snd (pipeline payload w)
             \<and> (case fst (pipeline payload w) of
                  Throw t \<Rightarrow> r = Throw t \<and> ms = [] \<and> c = Throw t
                | Return (Ok n) \<Rightarrow> r = Return (JobSuccess n) \<and> length ms = 1 \<and> c = Return ()
                | Return (Err (CeQueue e)) \<Rightarrow>
                    r = Return (JobQueueError (CeQueue e)) \<and> length ms = 1 \<and> c = Throw (ThrownError (new_Error (qe_message e)))
                | Return (Err e) \<Rightarrow> r = Return (JobPipelineError e) \<and> length ms = 1 \<and> c = Return ()))"
proof (cases "JobPayloadSchema raw")
  case None
  then show ?thesis by (simp add: processJob_def consumer_processor_def)
next
  case (Some payload)
  obtain q w1 where p: "pipeline payload w = (q, w1)" by fastforce
  have pl: "0 \<le> jp_depth payload \<and> jp_url payload \<noteq> []"
    using Some by (auto simp: JobPayloadSchema_def split: js_value.splits jsnum.splits if_splits)
  have kind: "crawl_error_kind e = ''queue_error'' \<longleftrightarrow> (\<exists>q. e = CeQueue q)" for e
  proof (cases e)
    case (CeFetch x)
    then show ?thesis by (cases x) simp_all
  next
    case (CeUrl x)
    then show ?thesis by (cases x) simp_all
  qed simp_all
  show ?thesis
  proof (cases q)
    case (Throw t)
    then show ?thesis using Some p pl by (simp add: processJob_def consumer_processor_def Let_def)
  next
    case (Return y)
    then show ?thesis
      using Some p pl kind [of "projl y"]
      by (cases y; cases "projl y") (auto simp: processJob_def consumer_processor_def Let_def)
  qed
qed

section \<open>The abort threshold\<close>

datatype store_event = StoreFailed | StoreWorked

fun abort_step :: "AbortHandler \<Rightarrow> store_event \<Rightarrow> AbortHandler" where
  "abort_step h StoreFailed = recordFailure h"
| "abort_step h StoreWorked = recordSuccess h"

definition failed_in_a_row :: "nat \<Rightarrow> store_event list \<Rightarrow> bool" where
  "failed_in_a_row n es \<longleftrightarrow> (\<exists>xs ys. es = xs @ replicate n StoreFailed @ ys)"

definition trailing_failures :: "store_event list \<Rightarrow> nat" where
  "trailing_failures es = length (takeWhile (\<lambda>e. e = StoreFailed) (rev es))"

lemma trailing_snoc:
  "trailing_failures (es @ [StoreFailed]) = Suc (trailing_failures es)" "trailing_failures (es @ [StoreWorked]) = 0"
  by (simp_all add: trailing_failures_def)

lemma trailing_suffix: "n \<le> trailing_failures es \<longleftrightarrow> (\<exists>xs. es = xs @ replicate n StoreFailed)"
proof
  assume n: "n \<le> trailing_failures es"
  let ?t = "takeWhile (\<lambda>e. e = StoreFailed) (rev es)"
  have "?t = replicate (length ?t) StoreFailed"
    by (rule replicate_eqI) (auto dest: set_takeWhileD)
  then have "take n ?t = replicate n StoreFailed" using n
    by (metis trailing_failures_def min.absorb1 take_replicate)
  moreover have "take n (rev es) = take n ?t" using n
    by (metis append_take_drop_id takeWhile_dropWhile_id take_append trailing_failures_def
        append_Nil2 diff_is_0_eq take_0)
  ultimately have "rev es = replicate n StoreFailed @ drop n (rev es)" by (metis append_take_drop_id)
  then have "es = rev (drop n (rev es)) @ replicate n StoreFailed" by (metis rev_append rev_replicate rev_rev_ident)
  then show "\<exists>xs. es = xs @ replicate n StoreFailed" by blast
next
  assume "\<exists>xs. es = xs @ replicate n StoreFailed"
  then show "n \<le> trailing_failures es" by (auto simp: trailing_failures_def takeWhile_append)
qed

lemma failed_snoc: "0 < n \<Longrightarrow> failed_in_a_row n (es @ [e]) \<longleftrightarrow> failed_in_a_row n es \<or> n \<le> trailing_failures (es @ [e])"
proof -
  assume "0 < n"
  have "failed_in_a_row n es \<or> n \<le> trailing_failures (es @ [e])" if "es @ [e] = xs @ replicate n StoreFailed @ ys" for xs ys
  proof (cases ys rule: rev_cases)
    case Nil
    then show ?thesis using that trailing_suffix [of n "es @ [e]"] by auto
  next
    case (snoc zs z)
    then have "es = xs @ replicate n StoreFailed @ zs" using that by simp
    then show ?thesis unfolding failed_in_a_row_def by blast
  qed
  moreover have "failed_in_a_row n (es @ [e])" if "failed_in_a_row n es"
    using that unfolding failed_in_a_row_def by (metis append.assoc)
  moreover have "failed_in_a_row n (es @ [e])" if "n \<le> trailing_failures (es @ [e])"
    using that unfolding failed_in_a_row_def trailing_suffix by (metis append_Nil2 append.assoc)
  ultimately show ?thesis unfolding failed_in_a_row_def by blast
qed

lemma abort_run:
  assumes "0 < n"
  shows "let h = foldl abort_step (createAbortHandler (int n)) es
    in ab_max h = int n \<and> ab_aborted h = failed_in_a_row n es
       \<and> (\<not> ab_aborted h \<longrightarrow> ab_failures h = int (trailing_failures es) \<and> ab_reasons h = [])
       \<and> (ab_aborted h \<longrightarrow> ab_reasons h = [''state-store exhausted after '' @ string_of_int (int n) @ '' consecutive failures''])"
proof (induction es rule: rev_induct)
  case Nil
  have "\<not> failed_in_a_row n []" using assms by (auto simp: failed_in_a_row_def)
  then show ?case by (simp add: createAbortHandler_def trailing_failures_def)
next
  case (snoc e es)
  let ?h = "foldl abort_step (createAbortHandler (int n)) es"
  have less: "\<not> failed_in_a_row n es \<Longrightarrow> trailing_failures es < n"
    using trailing_suffix [of n es] unfolding failed_in_a_row_def by (metis append_Nil2 linorder_not_le)
  show ?case
  proof (cases e)
    case StoreFailed
    show ?thesis
    proof (cases "failed_in_a_row n es")
      case True
      then show ?thesis using snoc StoreFailed failed_snoc [OF assms, of es e]
        by (simp add: recordFailure_def Let_def)
    next
      case False
      have "string_of_int (int (trailing_failures es) + 1) = string_of_int (int n)" if "n \<le> Suc (trailing_failures es)"
      proof -
        have "int (trailing_failures es) + 1 = int n" using less [OF False] that by linarith
        then show ?thesis by (simp only:)
      qed
      then show ?thesis using False snoc StoreFailed failed_snoc [OF assms, of es e] less
        by (auto simp: recordFailure_def Let_def trailing_snoc)
    qed
  next
    case StoreWorked
    then show ?thesis using snoc failed_snoc [OF assms, of es e] assms
      by (auto simp: recordSuccess_def Let_def trailing_snoc)
  qed
qed

text \<open>The abort callback is called at most once, and exactly when the history contains the configured number of failures in a row, with that number in its reason; a success between two failures starts the count again.\<close>

theorem abort_exactly_at_threshold:
  assumes "0 < n"
  shows "ab_reasons (foldl abort_step (createAbortHandler (int n)) events) =
    (if failed_in_a_row n events then [''state-store exhausted after '' @ string_of_int (int n) @ '' consecutive failures''] else [])"
  using abort_run [OF assms, of events] by (simp add: Let_def)

theorem abort_exactly_at_threshold_witness:
  "ab_reasons (foldl abort_step (createAbortHandler 2) [StoreFailed, StoreWorked, StoreFailed, StoreFailed, StoreFailed])
     = [''state-store exhausted after 2 consecutive failures'']"
proof -
  have run: "failed_in_a_row 2 [StoreFailed, StoreWorked, StoreFailed, StoreFailed, StoreFailed]"
    unfolding failed_in_a_row_def
    by (rule exI [of _ "[StoreFailed, StoreWorked]"], rule exI [of _ "[StoreFailed]"]) (simp add: numeral_2_eq_2)
  have "string_of_int 2 = ''2''" by code_simp
  with abort_exactly_at_threshold [of 2 "[StoreFailed, StoreWorked, StoreFailed, StoreFailed, StoreFailed]"] run
  show ?thesis by simp
qed

end
