(* ===== verification/Shutdown.thy ===== *)
theory Shutdown
  imports CompletionDetector
begin

text \<open>
  packages/application-lifecycle/src, the way down: shutdown-reason.ts, exit-codes.ts,
  graceful-shutdown.ts, process-handlers.ts, coordinator-closer.ts and readiness-probe.ts, and the
  signal handlers of main.ts. A call that is raced against a timer is described by when and how it
  settles; what the program does is a trace of events, and a run has a duration.
\<close>

section \<open>shutdown-reason.ts, exit-codes.ts\<close>

datatype ShutdownReason = ReasonSignal string | ReasonCompletion | ReasonError thrown | ReasonAbort string

fun shutdownReasonLabel :: "ShutdownReason \<Rightarrow> string" where
  "shutdownReasonLabel (ReasonSignal s) = ''signal:'' @ s"
| "shutdownReasonLabel ReasonCompletion = ''completion''"
| "shutdownReasonLabel (ReasonError _) = ''error''"
| "shutdownReasonLabel (ReasonAbort r) = ''abort:'' @ r"

definition EXIT_SUCCESS :: int where "EXIT_SUCCESS = 0"
definition EXIT_ERROR :: int where "EXIT_ERROR = 1"
definition EXIT_STATE_STORE_ABORT :: int where "EXIT_STATE_STORE_ABORT = 3"

fun exitCodeForReason :: "ShutdownReason \<Rightarrow> int" where
  "exitCodeForReason (ReasonSignal _) = EXIT_SUCCESS"
| "exitCodeForReason ReasonCompletion = EXIT_SUCCESS"
| "exitCodeForReason (ReasonError _) = EXIT_ERROR"
| "exitCodeForReason (ReasonAbort _) = EXIT_STATE_STORE_ABORT"

section \<open>graceful-shutdown.ts\<close>

record ShutdownConfig =
  sc_drainTimeoutMs :: int
  sc_teardownTimeoutMs :: int

definition DEFAULT_SHUTDOWN_CONFIG :: ShutdownConfig where
  "DEFAULT_SHUTDOWN_CONFIG = \<lparr>sc_drainTimeoutMs = 15000, sc_teardownTimeoutMs = 8000\<rparr>"

text \<open>When a close settles after its call (in ms), and how; \<open>None\<close>: never.\<close>

type_synonym settling = "(int \<times> unit completion) option"

datatype shutdown_event = EvLog log_line | EvUnhealthy | EvDrain int | EvClose string

text \<open>\<open>rejectAfter\<close>, and the race of a call with it: the duration and the outcome.\<close>

definition rejectAfter :: "int \<Rightarrow> string \<Rightarrow> thrown" where
  "rejectAfter ms phase = ThrownError (new_Error (phase @ '' timeout after '' @ string_of_int ms @ ''ms''))"

definition race_timeout :: "int \<Rightarrow> string \<Rightarrow> (int \<times> 'a completion) option \<Rightarrow> int \<times> 'a completion" where
  "race_timeout ms phase s =
     (case s of
        Some (t, r) \<Rightarrow> if t \<le> ms then (t, r) else (ms, Throw (rejectAfter ms phase))
      | None \<Rightarrow> (ms, Throw (rejectAfter ms phase)))"

definition executeDrain :: "settling \<Rightarrow> int \<Rightarrow> int \<times> shutdown_event list" where
  "executeDrain drain timeoutMs =
     (let (d, r) = race_timeout timeoutMs ''drain'' drain;
          outcome = (case r of
            Return _ \<Rightarrow> (LogInfo, ''Consumer drained successfully'', [])
          | Throw e \<Rightarrow> (LogWarn, ''Consumer drain timed out or failed, proceeding to teardown'', [(''error'', thrown_message e)]))
      in (d, [EvLog (LogInfo, ''Phase 1: Draining consumer'', [(''timeoutMs'', string_of_int timeoutMs)]), EvDrain timeoutMs, EvLog outcome]))"

record TeardownEntry =
  te_name :: string
  te_close :: settling

text \<open>\<open>Promise.allSettled\<close>: the last settling, with the failed components in the order of the entries.\<close>

fun all_settled :: "TeardownEntry list \<Rightarrow> (int \<times> (string \<times> thrown) list) option" where
  "all_settled [] = Some (0, [])"
| "all_settled (e # es) =
     (case (te_close e, all_settled es) of
        (Some (t, r), Some (u, fs)) \<Rightarrow>
          Some (max t u, (case r of Throw c \<Rightarrow> [(te_name e, c)] | Return _ \<Rightarrow> []) @ fs)
      | _ \<Rightarrow> None)"

text \<open>\<open>String(..)\<close> of a cause.\<close>

fun cause_text :: "thrown \<Rightarrow> string" where
  "cause_text (ThrownError e) = (if err_message e = [] then err_name e else err_name e @ '': '' @ err_message e)"
| "cause_text (ThrownOther s) = s"

text \<open>The \<open>then\<close> on the rejecting timer never runs: a timeout rejects the race.\<close>

definition executeTeardown :: "TeardownEntry list \<Rightarrow> int \<Rightarrow> unit completion \<times> int \<times> shutdown_event list" where
  "executeTeardown entries timeoutMs =
     (let start = EvLog (LogInfo, ''Phase 2: Tearing down components'',
            [(''count'', string_of_int (int (length entries))), (''timeoutMs'', string_of_int timeoutMs)])
            # map (\<lambda>e. EvClose (te_name e)) entries
      in case race_timeout timeoutMs ''teardown'' (map_option (\<lambda>(t, fs). (t, Return fs)) (all_settled entries)) of
           (d, Throw e) \<Rightarrow> (Throw e, d, start)
         | (d, Return failures) \<Rightarrow>
             (Return (), d, start @ map (\<lambda>(name, cause). EvLog (LogError, ''Teardown failed'',
                [(''component'', name), (''error'', cause_text cause)])) failures))"

record shutdown_deps =
  sd_config :: ShutdownConfig
  sd_drain :: settling
  sd_entries :: "TeardownEntry list"
  sd_probe :: bool

text \<open>The flag \<open>shuttingDown\<close> is the state. The completion, the new flag, the duration and the events.\<close>

definition sh_execute ::
  "shutdown_deps \<Rightarrow> ShutdownReason \<Rightarrow> bool \<Rightarrow> unit completion \<times> bool \<times> int \<times> shutdown_event list" where
  "sh_execute deps reason shuttingDown =
     (let label = [(''reason'', shutdownReasonLabel reason)]
      in if shuttingDown
         then (Return (), True, 0, [EvLog (LogWarn, ''Shutdown already in progress, ignoring'', label)])
         else let start = EvLog (LogInfo, ''Shutdown initiated'', label) # (if sd_probe deps then [EvUnhealthy] else []);
                  (d1, ev1) = executeDrain (sd_drain deps) (sc_drainTimeoutMs (sd_config deps));
                  (r, d2, ev2) = executeTeardown (sd_entries deps) (sc_teardownTimeoutMs (sd_config deps))
              in case r of
                   Return _ \<Rightarrow> (Return (), True, d1 + d2, start @ ev1 @ ev2 @ [EvLog (LogInfo, ''Shutdown complete'', label)])
                 | Throw e \<Rightarrow> (Throw e, True, d1 + d2, start @ ev1 @ ev2))"

section \<open>process-handlers.ts and the signal handlers of main.ts\<close>

text \<open>The shutdown function, bound to the orchestrator; the code and the time of the exit, if it is called.\<close>

type_synonym shutdown_fn = "ShutdownReason \<Rightarrow> bool \<Rightarrow> unit completion \<times> bool \<times> int \<times> shutdown_event list"

definition onUncaughtException ::
  "shutdown_fn \<Rightarrow> js_error \<Rightarrow> bool \<Rightarrow> (int \<times> int) option \<times> bool \<times> shutdown_event list" where
  "onUncaughtException shutdown e flag =
     (case shutdown (ReasonError (ThrownError e)) flag of
        (_, flag', d, evs) \<Rightarrow>
          (Some (d, EXIT_ERROR), flag', EvLog (LogFatal, ''Uncaught exception'', [(''error'', err_message e)]) # evs))"

definition onUnhandledRejection ::
  "shutdown_fn \<Rightarrow> thrown \<Rightarrow> bool \<Rightarrow> (int \<times> int) option \<times> bool \<times> shutdown_event list" where
  "onUnhandledRejection shutdown reason flag =
     (case shutdown (ReasonError reason) flag of
        (_, flag', d, evs) \<Rightarrow>
          (Some (d, EXIT_ERROR), flag', EvLog (LogFatal, ''Unhandled rejection'', [(''error'', thrown_message reason)]) # evs))"

text \<open>Code after an awaited shutdown runs only when the shutdown resolves.\<close>

definition exit_after :: "shutdown_fn \<Rightarrow> ShutdownReason \<Rightarrow> int \<Rightarrow> log_line \<Rightarrow> bool
     \<Rightarrow> unit completion \<times> (int \<times> int) option \<times> bool \<times> shutdown_event list" where
  "exit_after shutdown reason code line flag =
     (case shutdown reason flag of
        (Return _, flag', d, evs) \<Rightarrow> (Return (), Some (d, code), flag', EvLog line # evs)
      | (Throw e, flag', d, evs) \<Rightarrow> (Throw e, None, flag', EvLog line # evs))"

definition handleAbortExit :: "shutdown_fn \<Rightarrow> string \<Rightarrow> bool \<Rightarrow> unit completion \<times> (int \<times> int) option \<times> bool \<times> shutdown_event list" where
  "handleAbortExit shutdown reason =
     exit_after shutdown (ReasonAbort reason) EXIT_STATE_STORE_ABORT (LogFatal, ''State-store abort triggered'', [(''reason'', reason)])"

definition handleCompletionExit :: "shutdown_fn \<Rightarrow> bool \<Rightarrow> unit completion \<times> (int \<times> int) option \<times> bool \<times> shutdown_event list" where
  "handleCompletionExit shutdown =
     exit_after shutdown ReasonCompletion EXIT_SUCCESS (LogInfo, ''Crawl completed successfully'', [])"

definition safeMain :: "unit completion \<Rightarrow> shutdown_fn \<Rightarrow> bool \<Rightarrow> unit completion \<times> (int \<times> int) option \<times> bool \<times> shutdown_event list" where
  "safeMain main_result shutdown flag =
     (case main_result of
        Return _ \<Rightarrow> (Return (), None, flag, [])
      | Throw e \<Rightarrow> exit_after shutdown (ReasonError e) (exitCodeForReason (ReasonError e))
                    (LogFatal, ''Main entry point threw'', [(''error'', thrown_message e)]) flag)"

text \<open>A signal starts the shutdown and drops its promise; a rejection of it is an unhandled rejection.\<close>

definition on_signal :: "shutdown_fn \<Rightarrow> string \<Rightarrow> bool \<Rightarrow> (int \<times> int) option \<times> bool \<times> shutdown_event list" where
  "on_signal shutdown signal flag =
     (case shutdown (ReasonSignal signal) flag of
        (Return _, flag', d, evs) \<Rightarrow> (None, flag', evs)
      | (Throw e, flag', d, evs) \<Rightarrow>
          (case onUnhandledRejection shutdown e flag' of
             (Some (d2, code), flag'', evs2) \<Rightarrow> (Some (d + d2, code), flag'', evs @ evs2)
           | (None, flag'', evs2) \<Rightarrow> (None, flag'', evs @ evs2)))"

text \<open>
  The listeners of the process, in the order they were added, as event and function object: a removal takes
  the last instance of the given pair. A registration makes two function objects of its own.
\<close>

definition registerProcessHandlers :: "'f \<Rightarrow> 'f \<Rightarrow> (string \<times> 'f) list \<Rightarrow> (string \<times> 'f) list" where
  "registerProcessHandlers onException onRejection listeners =
     (listeners @ [(''uncaughtException'', onException)]) @ [(''unhandledRejection'', onRejection)]"

definition removeListener :: "string \<times> 'f \<Rightarrow> (string \<times> 'f) list \<Rightarrow> (string \<times> 'f) list" where
  "removeListener l listeners = rev (remove1 l (rev listeners))"

definition processHandlersCleanup :: "'f \<Rightarrow> 'f \<Rightarrow> (string \<times> 'f) list \<Rightarrow> (string \<times> 'f) list" where
  "processHandlersCleanup onException onRejection listeners =
     removeListener (''unhandledRejection'', onRejection)
       (removeListener (''uncaughtException'', onException) listeners)"

section \<open>coordinator-closer.ts, readiness-probe.ts\<close>

definition coordinator_close ::
  "('w \<Rightarrow> 'w) \<Rightarrow> ('w \<Rightarrow> unit completion \<times> 'w) option \<Rightarrow> 'w \<Rightarrow> (unit completion \<times> log_line list) \<times> 'w" where
  "coordinator_close stop waitFor w =
     (let w1 = stop w; logs = [(LogInfo, ''Coordinator stopped'', [])]
      in case waitFor of
           None \<Rightarrow> ((Return (), logs), w1)
         | Some wait \<Rightarrow>
             (case wait w1 of
                (Return _, w2) \<Rightarrow> ((Return (), logs @ [(LogInfo, ''Coordinator completion promise settled'', [])]), w2)
              | (Throw e, w2) \<Rightarrow>
                  ((Return (), logs @ [(LogWarn, ''Coordinator completion promise rejected'', [(''error'', thrown_message e)])]), w2)))"

definition setUnhealthy :: "bool \<Rightarrow> bool" where
  "setUnhealthy healthy = False"

text \<open>
  The probe starts to listen when it is created. \<open>bound\<close> is when (in ms) the callback of \<open>listen\<close> runs and
  with which port, if ever; an error of the server is logged and leaves the promise to its timer.
\<close>

definition probe_bind_timeout :: "int \<Rightarrow> thrown" where
  "probe_bind_timeout port =
     ThrownError (new_Error (''Readiness probe failed to bind on port '' @ string_of_int port @ '' within 5s''))"

definition probe_listening :: "int \<Rightarrow> (int \<times> int) option \<Rightarrow> (int \<times> int completion) \<times> log_line list" where
  "probe_listening port bound =
     (case bound of
        Some (t, p) \<Rightarrow>
          (if t < 5000 then (t, Return p) else (5000, Throw (probe_bind_timeout port)),
           [(LogInfo, ''Readiness probe listening'', [(''port'', string_of_int p)])])
      | None \<Rightarrow> ((5000, Throw (probe_bind_timeout port)), []))"

definition probe_on_error :: "int \<Rightarrow> js_error \<Rightarrow> log_line" where
  "probe_on_error port e =
     (LogFatal, ''Readiness probe failed to start'',
      [(''port'', string_of_int port), (''error'', err_message e), (''code'', (case err_code e of Some c \<Rightarrow> c | None \<Rightarrow> ''undefined''))])"

text \<open>\<open>close\<close>: the callback of the server gets an error or none.\<close>

definition probe_close :: "('w \<Rightarrow> js_error option \<times> 'w) \<Rightarrow> 'w \<Rightarrow> unit completion \<times> 'w" where
  "probe_close server_close w =
     (case server_close w of (Some e, w') \<Rightarrow> (Throw (ThrownError e), w') | (None, w') \<Rightarrow> (Return (), w'))"

text \<open>Status and body of a request for a path.\<close>

definition probe_response :: "bool \<Rightarrow> string \<Rightarrow> int \<times> string" where
  "probe_response healthy url =
     (let body = (\<lambda>s. [CHR 0x7B, CHR 0x22] @ ''status'' @ [CHR 0x22, CHR 0x3A, CHR 0x22] @ s @ [CHR 0x22, CHR 0x7D])
      in if url = ''/readyz'' then ((if healthy then 200 else 503), body (if healthy then ''ok'' else ''shutting-down''))
         else if url = ''/health'' then (200, body ''ok'')
         else (404, []))"

section \<open>How a shutdown ends\<close>

lemma race_bound: "0 \<le> ms \<Longrightarrow> fst (race_timeout ms phase s) \<le> ms"
  by (auto simp: race_timeout_def split: option.splits)

lemma executeDrain_bound: "0 \<le> ms \<Longrightarrow> fst (executeDrain s ms) \<le> ms"
  using race_bound [of ms "''drain''" s] by (simp add: executeDrain_def split_beta Let_def)

text \<open>All entries settle within the limit.\<close>

definition settles_within :: "int \<Rightarrow> TeardownEntry list \<Rightarrow> bool" where
  "settles_within ms entries \<longleftrightarrow> list_all (\<lambda>e. case te_close e of Some (t, _) \<Rightarrow> t \<le> ms | None \<Rightarrow> False) entries"

lemma all_settled_within:
  "0 \<le> ms \<Longrightarrow> settles_within ms entries \<longleftrightarrow> (\<exists>t fs. all_settled entries = Some (t, fs) \<and> t \<le> ms)"
  by (induction entries) (auto simp: settles_within_def split: option.splits)

lemma executeTeardown_cases:
  assumes "0 \<le> ms"
  shows "fst (executeTeardown entries ms) = (if settles_within ms entries then Return () else Throw (rejectAfter ms ''teardown''))"
    and "fst (snd (executeTeardown entries ms)) \<le> ms"
  using all_settled_within [OF assms, of entries] assms
  by (auto simp: executeTeardown_def race_timeout_def Let_def split: option.splits)

definition closed :: "shutdown_event list \<Rightarrow> string list" where
  "closed evs = concat (map (\<lambda>e. case e of EvClose n \<Rightarrow> [n] | _ \<Rightarrow> []) evs)"

definition said :: "string \<Rightarrow> shutdown_event list \<Rightarrow> bool" where
  "said msg evs \<longleftrightarrow> list_ex (\<lambda>e. case e of EvLog (_, m, _) \<Rightarrow> m = msg | _ \<Rightarrow> False) evs"

lemma closed_append [simp]: "closed (xs @ ys) = closed xs @ closed ys"
  by (simp add: closed_def)

lemma said_append [simp]: "said m (xs @ ys) \<longleftrightarrow> said m xs \<or> said m ys"
  by (simp add: said_def)

lemma closed_drain: "closed (snd (executeDrain s ms)) = []"
  by (simp add: executeDrain_def closed_def split_beta Let_def)

lemma closed_teardown: "closed (snd (snd (executeTeardown entries ms))) = map te_name entries"
  by (auto simp: executeTeardown_def closed_def Let_def o_def case_prod_unfold split: prod.splits completion.splits)

lemma said_drain: "said m (snd (executeDrain s ms)) \<Longrightarrow> m \<in> {''Phase 1: Draining consumer'', ''Consumer drained successfully'',
    ''Consumer drain timed out or failed, proceeding to teardown''}"
  by (auto simp: executeDrain_def said_def split_beta Let_def split: completion.splits)

lemma said_teardown: "said m (snd (snd (executeTeardown entries ms))) \<Longrightarrow> m \<in> {''Phase 2: Tearing down components'', ''Teardown failed''}"
  by (auto simp: executeTeardown_def said_def Let_def list_ex_iff split: prod.splits completion.splits)

text \<open>C32: A shutdown always ends within the two timeouts, even when the drain and every close hang, and closes every component exactly once; but when a component does not settle in time the promise is rejected with the timer's error, without the warning that the code has for this case and without the completion message.\<close>

theorem shutdown_bounded:
  assumes "0 \<le> sc_drainTimeoutMs (sd_config deps)" and "0 \<le> sc_teardownTimeoutMs (sd_config deps)"
    and "sh_execute deps reason False = (r, flag, d, evs)"
  shows "d \<le> sc_drainTimeoutMs (sd_config deps) + sc_teardownTimeoutMs (sd_config deps)
    \<and> flag \<and> closed evs = map te_name (sd_entries deps)
    \<and> r = (if settles_within (sc_teardownTimeoutMs (sd_config deps)) (sd_entries deps) then Return ()
           else Throw (rejectAfter (sc_teardownTimeoutMs (sd_config deps)) ''teardown''))
    \<and> (said ''Shutdown complete'' evs = settles_within (sc_teardownTimeoutMs (sd_config deps)) (sd_entries deps))
    \<and> \<not> said ''Teardown timed out, some components may not have cleaned up'' evs"
proof -
  obtain d1 ev1 where dr: "executeDrain (sd_drain deps) (sc_drainTimeoutMs (sd_config deps)) = (d1, ev1)" by fastforce
  obtain r2 d2 ev2 where td: "executeTeardown (sd_entries deps) (sc_teardownTimeoutMs (sd_config deps)) = (r2, d2, ev2)"
    by (metis prod.collapse)
  have b: "d1 \<le> sc_drainTimeoutMs (sd_config deps)" using executeDrain_bound [OF assms(1), of "sd_drain deps"] dr by simp
  note tc = executeTeardown_cases [OF assms(2), of "sd_entries deps", unfolded td, simplified]
  have c: "closed ev1 = []" "closed ev2 = map te_name (sd_entries deps)"
    using closed_drain [of "sd_drain deps" "sc_drainTimeoutMs (sd_config deps)"] dr
      closed_teardown [of "sd_entries deps" "sc_teardownTimeoutMs (sd_config deps)"] td by simp_all
  have s1: "\<not> said m ev1" and s2: "\<not> said m ev2"
    if "m \<in> {''Shutdown complete'', ''Teardown timed out, some components may not have cleaned up''}" for m
    using said_drain [of m "sd_drain deps" "sc_drainTimeoutMs (sd_config deps)"] dr that
      said_teardown [of m "sd_entries deps" "sc_teardownTimeoutMs (sd_config deps)"] td by auto
  have own: "closed (EvLog l # xs) = closed xs" "closed (EvUnhealthy # xs) = closed xs" "closed [] = []"
    "said m (EvLog (lv, m', kv) # xs) \<longleftrightarrow> m' = m \<or> said m xs" "said m (EvUnhealthy # xs) = said m xs" "\<not> said m []"
    for l m m' lv kv xs by (simp_all add: closed_def said_def)
  show ?thesis
    using assms(3) dr td b tc c s1 [of "''Shutdown complete''"] s2 [of "''Shutdown complete''"]
      s1 [of "''Teardown timed out, some components may not have cleaned up''"]
      s2 [of "''Teardown timed out, some components may not have cleaned up''"]
    by (cases "settles_within (sc_teardownTimeoutMs (sd_config deps)) (sd_entries deps)"; cases "sd_probe deps")
      (auto simp: sh_execute_def Let_def own)
qed

definition hanging_deps :: shutdown_deps where
  "hanging_deps = \<lparr>sd_config = DEFAULT_SHUTDOWN_CONFIG, sd_drain = Some (200, Return ()),
     sd_entries = [\<lparr>te_name = ''redis'', te_close = None\<rparr>, \<lparr>te_name = ''tracer'', te_close = Some (5, Return ())\<rparr>], sd_probe = True\<rparr>"

theorem shutdown_bounded_witness:
  "\<exists>d evs. sh_execute hanging_deps (ReasonSignal ''SIGTERM'') False = (Throw (rejectAfter 8000 ''teardown''), True, d, evs)
     \<and> d \<le> 23000 \<and> closed evs = [''redis'', ''tracer'']"
proof -
  obtain r flag d evs where ex: "sh_execute hanging_deps (ReasonSignal ''SIGTERM'') False = (r, flag, d, evs)"
    by (metis prod.collapse)
  have "\<not> settles_within 8000 (sd_entries hanging_deps)" by (simp add: settles_within_def hanging_deps_def)
  with shutdown_bounded [OF _ _ ex] ex show ?thesis
    by (simp add: hanging_deps_def DEFAULT_SHUTDOWN_CONFIG_def)
qed

text \<open>While a shutdown is running a further one does nothing but log, so an uncaught exception during a graceful shutdown ends the process with code 1 at once, without waiting for the drain or the teardown that are under way.\<close>

theorem exception_cuts_shutdown_short:
  "\<exists>logs. onUncaughtException (sh_execute deps) e True = (Some (0, EXIT_ERROR), True, logs) \<and> closed logs = []"
  by (simp add: onUncaughtException_def sh_execute_def closed_def Let_def)

text \<open>The cleanup takes away the two handlers of its registration and no listener of another part, whenever that was added.\<close>

lemma removeListener_last:
  "l \<notin> set later \<Longrightarrow> removeListener l (earlier @ l # later) = earlier @ later"
  by (simp add: removeListener_def remove1_append)

lemma cleanup_own_handlers:
  assumes "(''uncaughtException'', onException) \<notin> set later" and "(''unhandledRejection'', onRejection) \<notin> set later"
  shows "processHandlersCleanup onException onRejection (registerProcessHandlers onException onRejection earlier @ later)
    = earlier @ later"
  using assms by (simp add: processHandlersCleanup_def registerProcessHandlers_def removeListener_last)

text \<open>A termination signal never exits the process itself: when all components settle in time the handler calls no exit, and when one does not, the rejected promise of the shutdown is picked up as an unhandled rejection and the process exits with code 1, although the exit code documented for signals is 0.\<close>

theorem signal_exit:
  assumes "0 \<le> sc_drainTimeoutMs (sd_config deps)" and "0 \<le> sc_teardownTimeoutMs (sd_config deps)"
  shows "map_option snd (fst (on_signal (sh_execute deps) signal False)) =
      (if settles_within (sc_teardownTimeoutMs (sd_config deps)) (sd_entries deps) then None else Some 1)
    \<and> exitCodeForReason (ReasonSignal signal) = 0"
proof -
  obtain r flag d evs where ex: "sh_execute deps (ReasonSignal signal) False = (r, flag, d, evs)"
    by (metis prod.collapse)
  have "r = (if settles_within (sc_teardownTimeoutMs (sd_config deps)) (sd_entries deps) then Return ()
      else Throw (rejectAfter (sc_teardownTimeoutMs (sd_config deps)) ''teardown''))" and "flag"
    using executeTeardown_cases(1) [OF assms(2), of "sd_entries deps"] ex
    by (auto simp: sh_execute_def Let_def split: prod.splits completion.splits if_splits)
  then show ?thesis using ex
    by (auto simp: on_signal_def onUnhandledRejection_def sh_execute_def Let_def EXIT_ERROR_def EXIT_SUCCESS_def)
qed

theorem signal_exit_witness:
  "map_option snd (fst (on_signal (sh_execute hanging_deps) ''SIGTERM'' False)) = Some 1"
  using signal_exit [of hanging_deps "''SIGTERM''"]
  by (simp add: hanging_deps_def DEFAULT_SHUTDOWN_CONFIG_def settles_within_def)

text \<open>The exit of a finished crawl is lost the same way.\<close>

lemma completion_exit_lost:
  assumes "sh_execute deps ReasonCompletion False = (Throw e, flag, d, evs)"
  shows "\<exists>logs. handleCompletionExit (sh_execute deps) False = (Throw e, None, flag, logs)"
  using assms by (simp add: handleCompletionExit_def exit_after_def)

text \<open>Closing a coordinator never throws; its completion promise was requested before, so it is rejected by the
  once guard of the detector and only logged.\<close>

lemma coordinator_close_returns: "fst (fst (coordinator_close stop waitFor w)) = Return ()"
  by (auto simp: coordinator_close_def Let_def split: option.splits prod.splits completion.splits)

lemma coordinator_close_detector:
  "fst (coordinator_close (\<lambda>w. w) (Some (\<lambda>w. case waitForCompletion n True g b w of ((Return _, _), w') \<Rightarrow> (Return (), w')
      | ((Throw e, _), w') \<Rightarrow> (Throw e, w'))) w)
   = (Return (), [(LogInfo, ''Coordinator stopped'', []),
       (LogWarn, ''Coordinator completion promise rejected'', [(''error'', thrown_message already_called)])])"
  by (simp add: coordinator_close_def waitForCompletion_def)

lemma readyz_follows_health: "fst (probe_response healthy ''/readyz'') = (if healthy then 200 else 503)"
  by (simp add: probe_response_def Let_def)

end
