(* ===== verification/ComponentConfig.thy ===== *)
theory ComponentConfig
  imports Prelude ZodSchema
begin

text \<open>
  The configuration schemas of the single components: the queue (job-queue), the coordinator
  (completion-detection), the connection pool, the object store and the circuit breaker of the database
  package, and the circuit breaker of redis. A schema takes the JSON value it parses; \<open>None\<close> stands for
  the error \<open>parse\<close> throws. The packages on zod 4 (queue, coordinator) admit safe integers only.
\<close>

section \<open>packages/job-queue/src/connection-config.ts\<close>

record QueueConfig =
  qf_queueName :: string
  qf_defaultAttempts :: int
  qf_backoffType :: string
  qf_backoffDelay :: int
  qf_removeOnCompleteAge :: int
  qf_removeOnCompleteCount :: int
  qf_removeOnFailAge :: int
  qf_concurrency :: int

definition QueueConfigSchema :: "json \<Rightarrow> QueueConfig option" where
  "QueueConfigSchema v =
     (let positive = z_int 1 (Some MAX_SAFE_INTEGER); nonnegative = z_int 0 (Some MAX_SAFE_INTEGER)
      in if \<not> is_object v then None
      else case (j_default ''crawl'' (j_string 1) (member v ''queueName''),
                 j_default 3 positive (member v ''defaultAttempts''),
                 j_default ''exponential'' (j_enum [''exponential'', ''fixed'']) (member v ''backoffType''),
                 j_default 5000 positive (member v ''backoffDelay''),
                 j_default 3600 nonnegative (member v ''removeOnCompleteAge''),
                 j_default 10000 nonnegative (member v ''removeOnCompleteCount''),
                 j_default 86400 nonnegative (member v ''removeOnFailAge''),
                 j_default 10 positive (member v ''concurrency'')) of
        (Some q, Some a, Some t, Some d, Some ca, Some cc, Some fa, Some c) \<Rightarrow>
          Some \<lparr>qf_queueName = q, qf_defaultAttempts = a, qf_backoffType = t, qf_backoffDelay = d, qf_removeOnCompleteAge = ca,
                qf_removeOnCompleteCount = cc, qf_removeOnFailAge = fa, qf_concurrency = c\<rparr>
      | _ \<Rightarrow> None)"

section \<open>packages/completion-detection/src/coordinator-config.ts\<close>

record CoordinatorConfig =
  co_pollIntervalMs :: int
  co_maxConsecutiveFailures :: int
  co_maxSkipTicks :: int
  co_leaseTtlMs :: int
  co_leaseKey :: string
  co_coordinatorId :: string

definition CoordinatorConfigSchema :: "json \<Rightarrow> CoordinatorConfig option" where
  "CoordinatorConfigSchema v =
     (let positive = z_int 1 (Some MAX_SAFE_INTEGER)
      in case (j_default 1000 positive (member v ''pollIntervalMs''),
               j_default 25 positive (member v ''maxConsecutiveFailures''),
               j_default 32 positive (member v ''maxSkipTicks''),
               j_default 30000 positive (member v ''leaseTtlMs''),
               j_default ''coordinator:leader'' (j_string 1) (member v ''leaseKey''),
               j_string 1 (member v ''coordinatorId'')) of
        (Some p, Some f, Some s, Some t, Some k, Some i) \<Rightarrow>
          Some \<lparr>co_pollIntervalMs = p, co_maxConsecutiveFailures = f, co_maxSkipTicks = s, co_leaseTtlMs = t,
                co_leaseKey = k, co_coordinatorId = i\<rparr>
      | _ \<Rightarrow> None)"

section \<open>packages/database/src/connection: pool.ts, s3-client.ts, circuit-breaker.ts\<close>

record PoolConfig =
  pc_connectionString :: string
  pc_min :: int
  pc_max :: int
  pc_idleTimeoutMillis :: int
  pc_connectionTimeoutMillis :: int
  pc_statementTimeout :: int

definition PoolConfigSchema :: "json \<Rightarrow> PoolConfig option" where
  "PoolConfigSchema v =
     (case (j_string 1 (member v ''connectionString''),
            j_default 2 (z_int 0 None) (member v ''min''),
            j_default 20 (z_int 1 None) (member v ''max''),
            j_default 30000 (z_int 1 None) (member v ''idleTimeoutMillis''),
            j_default 5000 (z_int 1 None) (member v ''connectionTimeoutMillis''),
            j_default 10000 (z_int 1 None) (member v ''statementTimeout'')) of
        (Some s, Some lo, Some hi, Some it, Some ct, Some st) \<Rightarrow>
          Some \<lparr>pc_connectionString = s, pc_min = lo, pc_max = hi, pc_idleTimeoutMillis = it,
                pc_connectionTimeoutMillis = ct, pc_statementTimeout = st\<rparr>
      | _ \<Rightarrow> None)"

record S3Config =
  s3_endpoint :: string
  s3_region :: string
  s3_bucket :: string
  s3_accessKeyId :: string
  s3_secretAccessKey :: string
  s3_forcePathStyle :: bool

definition S3ConfigSchema :: "json \<Rightarrow> S3Config option" where
  "S3ConfigSchema v =
     (case (j_string 1 (member v ''endpoint''),
            j_default ''us-east-1'' (j_string 1) (member v ''region''),
            j_string 1 (member v ''bucket''),
            j_string 1 (member v ''accessKeyId''),
            j_string 1 (member v ''secretAccessKey''),
            j_default True j_bool (member v ''forcePathStyle'')) of
        (Some e, Some r, Some b, Some a, Some s, Some f) \<Rightarrow>
          Some \<lparr>s3_endpoint = e, s3_region = r, s3_bucket = b, s3_accessKeyId = a, s3_secretAccessKey = s, s3_forcePathStyle = f\<rparr>
      | _ \<Rightarrow> None)"

text \<open>What the client is constructed with: the bucket is no part of it.\<close>

record S3ClientOptions =
  so_endpoint :: string
  so_region :: string
  so_forcePathStyle :: bool
  so_accessKeyId :: string
  so_secretAccessKey :: string

definition createS3Client :: "S3Config \<Rightarrow> S3ClientOptions" where
  "createS3Client config =
     \<lparr>so_endpoint = s3_endpoint config, so_region = s3_region config, so_forcePathStyle = s3_forcePathStyle config,
      so_accessKeyId = s3_accessKeyId config, so_secretAccessKey = s3_secretAccessKey config\<rparr>"

record CircuitBreakerConfig =
  cb_threshold :: int
  cb_halfOpenAfterMs :: int

definition breaker_config :: "int \<Rightarrow> json \<Rightarrow> CircuitBreakerConfig option" where
  "breaker_config halfOpen v =
     (if \<not> is_object v then None
      else case (j_default 5 (z_int 1 None) (member v ''threshold''), j_default halfOpen (z_int 1 None) (member v ''halfOpenAfterMs'')) of
        (Some t, Some h) \<Rightarrow> Some \<lparr>cb_threshold = t, cb_halfOpenAfterMs = h\<rparr>
      | _ \<Rightarrow> None)"

definition CircuitBreakerConfigSchema :: "json \<Rightarrow> CircuitBreakerConfig option" where
  "CircuitBreakerConfigSchema = breaker_config 30000"

text \<open>packages/redis/src/circuit-breaker.ts has the same schema with another default.\<close>

definition RedisCircuitBreakerConfigSchema :: "json \<Rightarrow> CircuitBreakerConfig option" where
  "RedisCircuitBreakerConfigSchema = breaker_config 10000"

section \<open>What the schemas promise\<close>

lemma QueueConfigSchema_concurrency:
  "1 \<le> n \<Longrightarrow> n \<le> MAX_SAFE_INTEGER \<Longrightarrow> QueueConfigSchema (JObj [(''concurrency'', JNum (of_int n))]) =
     Some \<lparr>qf_queueName = ''crawl'', qf_defaultAttempts = 3, qf_backoffType = ''exponential'', qf_backoffDelay = 5000,
           qf_removeOnCompleteAge = 3600, qf_removeOnCompleteCount = 10000, qf_removeOnFailAge = 86400, qf_concurrency = n\<rparr>"
  by (simp add: QueueConfigSchema_def)

lemma QueueConfigSchema_bounds:
  "QueueConfigSchema v = Some c \<Longrightarrow>
     qf_queueName c \<noteq> [] \<and> 1 \<le> qf_defaultAttempts c \<and> 1 \<le> qf_backoffDelay c \<and> 0 \<le> qf_removeOnCompleteAge c
     \<and> 0 \<le> qf_removeOnCompleteCount c \<and> 0 \<le> qf_removeOnFailAge c \<and> 1 \<le> qf_concurrency c"
  by (simp add: QueueConfigSchema_def Let_def split: if_split_asm option.split_asm)
    (force dest: j_default_int j_default_string)

lemma CoordinatorConfigSchema_bounds:
  "CoordinatorConfigSchema v = Some c \<Longrightarrow>
     1 \<le> co_pollIntervalMs c \<and> 1 \<le> co_maxConsecutiveFailures c \<and> 1 \<le> co_maxSkipTicks c \<and> 1 \<le> co_leaseTtlMs c
     \<and> co_leaseKey c \<noteq> [] \<and> co_coordinatorId c \<noteq> []"
  by (auto simp: CoordinatorConfigSchema_def Let_def dest!: j_default_int j_default_string j_string_Some split: option.splits)

lemma breaker_config_bounds:
  "breaker_config h v = Some c \<Longrightarrow> 1 \<le> h \<Longrightarrow> 1 \<le> cb_threshold c \<and> 1 \<le> cb_halfOpenAfterMs c"
  by (auto simp: breaker_config_def dest!: j_default_int split: option.splits if_splits)

lemma breaker_config_defaults: "breaker_config h (JObj []) = Some \<lparr>cb_threshold = 5, cb_halfOpenAfterMs = h\<rparr>"
  by (simp add: breaker_config_def)

text \<open>Nothing relates the two limits of the pool: more idle connections than connections are accepted.\<close>

lemma pool_min_above_max:
  "\<exists>c. PoolConfigSchema (JObj [(''connectionString'', JStr ''postgres://db''), (''min'', JNum 50), (''max'', JNum 20)]) = Some c
     \<and> pc_max c < pc_min c"
  by (simp add: PoolConfigSchema_def j_string_def)

end
