(* ===== verification/Observability.thy ===== *)
theory Observability
  imports JsMap JsString PromMetrics
begin

text \<open>
  packages/observability/src beside the metrics: the metrics server and its readiness check, the
  loggers, the handle of the tracer and the propagation of trace contexts. The HTTP server, pino and
  OpenTelemetry are parameters: what they are told is recorded.
\<close>

section \<open>readiness-check.ts\<close>

record 'w ReadinessCheckDeps =
  rd_redis_ping :: "('w \<Rightarrow> unit completion \<times> 'w) option"
  rd_pg_query :: "('w \<Rightarrow> unit completion \<times> 'w) option"

record ReadinessResult =
  rr_status :: int
  rr_components :: "(string, string) js_map"

text \<open>One component: skipped when it is not configured; otherwise its state and whether it answered.\<close>

definition check_component ::
  "string \<Rightarrow> ('w \<Rightarrow> unit completion \<times> 'w) option \<Rightarrow> ((string, string) js_map \<times> bool) \<times> 'w \<Rightarrow> ((string, string) js_map \<times> bool) \<times> 'w" where
  "check_component name probe s =
     (case s of ((components, allHealthy), w) \<Rightarrow>
        (case probe of
           None \<Rightarrow> s
         | Some ping \<Rightarrow>
             (case ping w of
                (Return _, w') \<Rightarrow> ((jsmap_set components name ''ok'', allHealthy), w')
              | (Throw _, w') \<Rightarrow> ((jsmap_set components name ''unreachable'', False), w'))))"

definition createReadinessCheck :: "'w ReadinessCheckDeps \<Rightarrow> 'w \<Rightarrow> ReadinessResult \<times> 'w" where
  "createReadinessCheck deps w =
     (case check_component ''postgres'' (rd_pg_query deps) (check_component ''redis'' (rd_redis_ping deps) (([], True), w)) of
        ((components, allHealthy), w') \<Rightarrow> (\<lparr>rr_status = (if allHealthy then 200 else 503), rr_components = components\<rparr>, w'))"

section \<open>metrics-server.ts\<close>

datatype response_body =
    MetricsText string
  | ErrorJson string
  | HealthJson string
  | ReadinessJson ReadinessResult

record 'w metrics_server =
  mv_metrics :: "'w \<Rightarrow> string completion \<times> 'w"
  mv_readinessCheck :: "('w \<Rightarrow> ReadinessResult completion \<times> 'w) option"
  mv_now :: "'w \<Rightarrow> string"

definition defaultReadiness :: ReadinessResult where
  "defaultReadiness = \<lparr>rr_status = 200, rr_components = [(''self'', ''ok'')]\<rparr>"

text \<open>The handler of one request: the status code, the body and the world.\<close>

definition handle_metrics_request :: "'w metrics_server \<Rightarrow> string \<Rightarrow> string option \<Rightarrow> 'w \<Rightarrow> (int \<times> response_body) \<times> 'w" where
  "handle_metrics_request srv meth req_url w =
     (if meth \<noteq> ''GET'' then ((404, ErrorJson ''Not Found''), w)
      else let url = (case req_url of None \<Rightarrow> ''/'' | Some u \<Rightarrow> u)
      in if url = ''/metrics'' then
           (case mv_metrics srv w of
              (Return text, w') \<Rightarrow> ((200, MetricsText text), w')
            | (Throw _, w') \<Rightarrow> ((500, ErrorJson ''Internal Server Error''), w'))
         else if url = ''/health'' then ((200, HealthJson (mv_now srv w)), w)
         else if url = ''/readyz'' then
           (case (case mv_readinessCheck srv of None \<Rightarrow> (Return defaultReadiness, w) | Some check \<Rightarrow> check w) of
              (Return result, w') \<Rightarrow> ((rr_status result, ReadinessJson result), w')
            | (Throw _, w') \<Rightarrow> ((500, ErrorJson ''Internal Server Error''), w'))
         else ((404, ErrorJson ''Not Found''), w))"

section \<open>pino-logger.ts, null-logger.ts\<close>

text \<open>A pino instance with the bindings of its ancestors; a line it writes carries them and its own.\<close>

type_synonym bindings = "(string, string) js_map"

record pino_instance =
  pi_bindings :: "bindings"

definition pino_child :: "pino_instance \<Rightarrow> bindings \<Rightarrow> pino_instance" where
  "pino_child i b = i\<lparr>pi_bindings := fold (\<lambda>(k, v) m. jsmap_set m k v) b (pi_bindings i)\<rparr>"

definition wrapPino :: "pino_instance \<Rightarrow> log_level \<Rightarrow> string \<Rightarrow> bindings option \<Rightarrow> log_level \<times> string \<times> bindings" where
  "wrapPino i level msg b =
     (case b of Some own \<Rightarrow> (level, msg, pi_bindings i @ own) | None \<Rightarrow> (level, msg, pi_bindings i))"

text \<open>A logger writes the lines from its level on; an unknown level is refused by pino (here: nothing is written).\<close>

fun level_value :: "log_level \<Rightarrow> nat" where
  "level_value LogDebug = 20"
| "level_value LogInfo = 30"
| "level_value LogWarn = 40"
| "level_value LogError = 50"
| "level_value LogFatal = 60"

text \<open>Levels are ordered as pino orders them.\<close>

lemma level_value_inject [simp]: "level_value a = level_value b \<longleftrightarrow> a = b"
  by (cases a; cases b) simp_all

instantiation log_level :: linorder
begin

definition less_eq_log_level :: "log_level \<Rightarrow> log_level \<Rightarrow> bool" where
  "less_eq_log_level a b \<longleftrightarrow> level_value a \<le> level_value b"

definition less_log_level :: "log_level \<Rightarrow> log_level \<Rightarrow> bool" where
  "less_log_level a b \<longleftrightarrow> level_value a < level_value b"

instance
  by standard (auto simp: less_eq_log_level_def less_log_level_def)

end

definition level_of_name :: "string \<Rightarrow> nat option" where
  "level_of_name name = map_of [(''trace'', 10), (''debug'', 20), (''info'', 30), (''warn'', 40), (''error'', 50), (''fatal'', 60)] name"

record pino_logger =
  pl_level :: string
  pl_instance :: pino_instance

definition createPinoLogger :: "string \<Rightarrow> bindings option \<Rightarrow> pino_logger" where
  "createPinoLogger level initialBindings =
     \<lparr>pl_level = level, pl_instance = \<lparr>pi_bindings = (case initialBindings of Some b \<Rightarrow> b | None \<Rightarrow> [])\<rparr>\<rparr>"

definition pino_write :: "pino_logger \<Rightarrow> log_line \<Rightarrow> log_line list" where
  "pino_write l line =
     (case line of (level, msg, kv) \<Rightarrow>
        (case level_of_name (pl_level l) of
           Some n \<Rightarrow> if n \<le> level_value level then [wrapPino (pl_instance l) level msg (Some kv)] else []
         | None \<Rightarrow> []))"

definition pino_lines :: "pino_logger \<Rightarrow> log_line list \<Rightarrow> log_line list" where
  "pino_lines l lines = concat (map (pino_write l) lines)"

record JobLoggerBindings =
  jl_jobId :: string
  jl_url :: string
  jl_depth :: int

definition createJobLogger :: "pino_instance \<Rightarrow> JobLoggerBindings \<Rightarrow> pino_instance" where
  "createJobLogger parent b =
     pino_child parent [(''jobId'', jl_jobId b), (''url'', jl_url b), (''depth'', string_of_int (jl_depth b))]"

section \<open>tracer.ts, trace-propagation.ts\<close>

record BatchProcessorConfig =
  bp_maxQueueSize :: "int option"
  bp_maxExportBatchSize :: "int option"
  bp_scheduledDelayMillis :: "int option"
  bp_exportTimeoutMillis :: "int option"

record TracerConfig =
  tc_serviceName :: string
  tc_serviceVersion :: "string option"
  tc_otlpEndpoint :: "string option"
  tc_useBatchProcessor :: bool
  tc_samplingRate :: "rat option"
  tc_batchConfig :: "BatchProcessorConfig option"

datatype span_processor = SimpleProcessor | BatchProcessor int int int int

text \<open>What the SDK is started with.\<close>

record tracer_setup =
  ts_endpoint :: string
  ts_attributes :: "(string \<times> string) list"
  ts_samplingRate :: rat
  ts_processor :: span_processor

definition or_default :: "'a \<Rightarrow> 'a option \<Rightarrow> 'a" where
  "or_default d v = (case v of None \<Rightarrow> d | Some x \<Rightarrow> x)"

definition DEFAULT_SAMPLING_RATE :: rat where
  "DEFAULT_SAMPLING_RATE = 1 / 10"

definition DEFAULT_MAX_QUEUE_SIZE :: int where
  "DEFAULT_MAX_QUEUE_SIZE = 2048"

definition createTracer :: "TracerConfig \<Rightarrow> tracer_setup" where
  "createTracer config =
     (let batch = (\<lambda>f. case tc_batchConfig config of None \<Rightarrow> None | Some b \<Rightarrow> f b)
      in \<lparr>ts_endpoint = or_default ''http://localhost:4318/v1/traces'' (tc_otlpEndpoint config),
          ts_attributes = (''service.name'', tc_serviceName config) #
            (case tc_serviceVersion config of None \<Rightarrow> [] | Some v \<Rightarrow> [(''service.version'', v)]),
          ts_samplingRate = or_default DEFAULT_SAMPLING_RATE (tc_samplingRate config),
          ts_processor = (if tc_useBatchProcessor config
            then BatchProcessor (or_default DEFAULT_MAX_QUEUE_SIZE (batch bp_maxQueueSize)) (or_default 512 (batch bp_maxExportBatchSize))
              (or_default 5000 (batch bp_scheduledDelayMillis)) (or_default 30000 (batch bp_exportTimeoutMillis))
            else SimpleProcessor)\<rparr>)"

definition tracer_call :: "string \<Rightarrow> ('w \<Rightarrow> unit completion \<times> 'w) \<Rightarrow> 'w \<Rightarrow> log_line list \<times> 'w" where
  "tracer_call failure call w =
     (case call w of
        (Return _, w') \<Rightarrow> ([], w')
      | (Throw e, w') \<Rightarrow> ([(LogError, failure, [(''error'', thrown_message e)])], w'))"

definition tracer_forceFlush :: "('w \<Rightarrow> unit completion \<times> 'w) \<Rightarrow> 'w \<Rightarrow> log_line list \<times> 'w" where
  "tracer_forceFlush = tracer_call ''tracer flush failed''"

definition tracer_shutdown :: "('w \<Rightarrow> unit completion \<times> 'w) \<Rightarrow> 'w \<Rightarrow> log_line list \<times> 'w" where
  "tracer_shutdown = tracer_call ''tracer shutdown failed''"

record span_context =
  sx_traceId :: string
  sx_spanId :: string

definition getTraceContext :: "span_context option \<Rightarrow> (string \<times> string) option" where
  "getTraceContext active = (case active of None \<Rightarrow> None | Some c \<Rightarrow> Some (sx_traceId c, sx_spanId c))"

text \<open>
  The carrier of a job. What OpenTelemetry does is a record of functions: the propagator writes a context
  into a carrier and reads it back, the tracer starts a span of a kind under a parent context, a span ends.
\<close>

record TraceCarrier =
  tr_traceparent :: "string option"

datatype SpanKind = KindInternal | KindServer | KindClient | KindProducer | KindConsumer

record ('ctx, 'span, 'w) otel_api =
  ot_active :: "'w \<Rightarrow> 'ctx"
  ot_inject :: "'ctx \<Rightarrow> TraceCarrier \<Rightarrow> TraceCarrier"
  ot_extract :: "'ctx \<Rightarrow> TraceCarrier \<Rightarrow> 'ctx"
  ot_startSpan :: "string \<Rightarrow> string \<Rightarrow> SpanKind \<Rightarrow> 'ctx \<Rightarrow> 'w \<Rightarrow> 'span \<times> 'w"
  ot_end :: "'span \<Rightarrow> 'w \<Rightarrow> 'w"

definition injectTraceContext :: "('ctx, 'span, 'w) otel_api \<Rightarrow> TraceCarrier \<Rightarrow> 'w \<Rightarrow> TraceCarrier" where
  "injectTraceContext api carrier w = ot_inject api (ot_active api w) carrier"

text \<open>The span, the function that ends it, and the world; the name of the tracer has a default.\<close>

definition extractAndStartSpan ::
  "('ctx, 'span, 'w) otel_api \<Rightarrow> TraceCarrier \<Rightarrow> string \<Rightarrow> string option \<Rightarrow> 'w \<Rightarrow> ('span \<times> ('w \<Rightarrow> 'w)) \<times> 'w" where
  "extractAndStartSpan api carrier spanName tracerName w =
     (let parentContext = ot_extract api (ot_active api w) carrier;
          tracer = (case tracerName of Some n \<Rightarrow> n | None \<Rightarrow> ''ipf-observability'');
          (span, w') = ot_startSpan api tracer spanName KindConsumer parentContext w
      in ((span, ot_end api span), w'))"

section \<open>null-metrics.ts\<close>

definition NullMetrics :: "'w \<Rightarrow> metrics_call \<Rightarrow> 'w" where
  "NullMetrics w c = w"

section \<open>Properties\<close>

text \<open>The server with the readiness check.\<close>

definition readiness_server :: "'w metrics_server \<Rightarrow> 'w ReadinessCheckDeps \<Rightarrow> 'w metrics_server" where
  "readiness_server srv deps =
     srv\<lparr>mv_readinessCheck := Some (\<lambda>w. case createReadinessCheck deps w of (x, w') \<Rightarrow> (Return x, w'))\<rparr>"

text \<open>The readiness endpoint answers 200 exactly when every configured dependency answered its probe and 503 otherwise, names each configured dependency with its state and no other, and no probe that throws escapes as an error.\<close>

theorem readiness_reports:
  "case createReadinessCheck deps w of (result, w2) \<Rightarrow>
      rr_status result = (if \<exists>name. jsmap_get (rr_components result) name = Some ''unreachable'' then 503 else 200)
    \<and> jsmap_get (rr_components result) ''redis'' =
        map_option (\<lambda>ping. case fst (ping w) of Return _ \<Rightarrow> ''ok'' | Throw _ \<Rightarrow> ''unreachable'') (rd_redis_ping deps)
    \<and> jsmap_get (rr_components result) ''postgres'' =
        map_option (\<lambda>q. case fst (q (case rd_redis_ping deps of None \<Rightarrow> w | Some ping \<Rightarrow> snd (ping w))) of
            Return _ \<Rightarrow> ''ok'' | Throw _ \<Rightarrow> ''unreachable'') (rd_pg_query deps)
    \<and> fst ` set (rr_components result) \<subseteq> {''redis'', ''postgres''}
    \<and> handle_metrics_request (readiness_server srv deps) ''GET'' (Some ''/readyz'') w = ((rr_status result, ReadinessJson result), w2)"
proof (cases "createReadinessCheck deps w")
  case (Pair result w2)
  have ready: "handle_metrics_request (readiness_server srv deps) ''GET'' (Some ''/readyz'') w = ((rr_status result, ReadinessJson result), w2)"
    using Pair by (simp add: handle_metrics_request_def readiness_server_def)
  obtain a b where ab: "rd_redis_ping deps = a" "rd_pg_query deps = b" by blast
  show ?thesis
    unfolding Pair prod.case ready using Pair ab
    by (cases a; cases b)
      (auto simp: createReadinessCheck_def check_component_def jsmap_get_set jsmap_get_def
        split: prod.splits completion.splits if_splits)
qed

lemma metrics_server_hides_errors:
  assumes "fst (mv_metrics srv w) = Throw e"
  shows "fst (handle_metrics_request srv ''GET'' (Some ''/metrics'') w) = (500, ErrorJson ''Internal Server Error'')"
  using assms by (cases "mv_metrics srv w") (simp add: handle_metrics_request_def)

lemma job_logger_context:
  "wrapPino (createJobLogger \<lparr>pi_bindings = []\<rparr> b) level msg None
     = (level, msg, [(''jobId'', jl_jobId b), (''url'', jl_url b), (''depth'', string_of_int (jl_depth b))])"
  by (simp add: wrapPino_def createJobLogger_def pino_child_def jsmap_get_def)

text \<open>
  A job carries its trace: with a propagator that reads back the context it wrote, the consumer's span is
  started under the context that was active when the job was enqueued.
\<close>

lemma trace_reaches_consumer:
  assumes "\<And>here ctx c. ot_extract api here (ot_inject api ctx c) = ctx"
  shows "extractAndStartSpan api (injectTraceContext api c w0) n None w1 =
    (let (span, w2) = ot_startSpan api ''ipf-observability'' n KindConsumer (ot_active api w0) w1 in ((span, ot_end api span), w2))"
  by (simp add: extractAndStartSpan_def injectTraceContext_def assms)

text \<open>A logger writes exactly the lines of its level and above, with the initial bindings in front.\<close>

lemma pino_level_lines:
  assumes "level_of_name name = Some (level_value least)"
  shows "pino_lines (createPinoLogger name (Some b)) lines =
    map (\<lambda>(level, msg, kv). (level, msg, b @ kv)) (filter (\<lambda>(level, _). least \<le> level) lines)"
proof (induction lines)
  case (Cons line lines)
  obtain level msg kv where "line = (level, msg, kv)" by (cases line)
  with Cons show ?case
    by (simp add: assms pino_lines_def pino_write_def createPinoLogger_def wrapPino_def less_eq_log_level_def)
qed (simp add: pino_lines_def)

end
