(* ===== verification/MainProgram.thy ===== *)
theory MainProgram
  imports Startup Shutdown JobQueue Connections ComponentConfig Observability
begin

text \<open>
  packages/application-lifecycle/src/main.ts: the start of the crawler from its parts, in the order of
  the code. What the libraries do at each step (listening, connecting, starting the worker) is a field
  of \<open>main_env\<close>; the configuration, the frontier, the queue backend, the consumer, the loggers, the
  start-up sequence and the seeding are the models of the other theories. The lines the phases write
  while they run go to the world through \<open>mn_log\<close>.
\<close>

record 'w main_env =
  mn_lib :: zod_lib
  mn_env :: env_vars
  mn_pid :: int
  mn_parse_url :: url_parser
  mn_zod_error :: thrown
  mn_log :: "log_line \<Rightarrow> 'w \<Rightarrow> 'w"
  mn_metrics_listen :: "int \<Rightarrow> 'w \<Rightarrow> thrown option \<times> 'w"
  mn_metrics_close :: "'w \<Rightarrow> thrown option \<times> 'w"
  mn_probe_listen :: "int \<Rightarrow> 'w \<Rightarrow> 'w"
  mn_probe_bound :: "'w \<Rightarrow> (int \<times> int) option \<times> 'w"
  mn_probe_close :: "'w \<Rightarrow> js_error option \<times> 'w"
  mn_worker :: "BullMQConnection \<Rightarrow> QueueConfig \<Rightarrow> 'w bull_worker"
  mn_tracer_shutdown :: "string \<Rightarrow> string \<Rightarrow> 'w resource"
  mn_queue :: "BullMQConnection \<Rightarrow> QueueConfig \<Rightarrow> 'w bull_queue"
  mn_sha :: "string \<Rightarrow> string"
  mn_parseCrawlUrl :: "string \<Rightarrow> (UrlError, CrawlUrl) result"

section \<open>The loggers, the identity of the worker\<close>

definition bootstrapLogger :: pino_logger where
  "bootstrapLogger = createPinoLogger ''info'' (Some [(''phase'', ''bootstrap'')])"

definition main_workerId :: "'w main_env \<Rightarrow> Config \<Rightarrow> string" where
  "main_workerId env config = (case c_WORKER_ID config of Some i \<Rightarrow> i | None \<Rightarrow> ''worker-'' @ string_of_int (mn_pid env))"

definition main_logger :: "'w main_env \<Rightarrow> Config \<Rightarrow> pino_logger" where
  "main_logger env config =
     createPinoLogger (c_LOG_LEVEL config) (Some [(''workerId'', main_workerId env config), (''service'', c_SERVICE_NAME config)])"

section \<open>Phases 4 to 6: infrastructure and the processor\<close>

definition main_infrastructure :: "'w main_env \<Rightarrow> Config \<Rightarrow> (BullMQConnection \<times> QueueConfig) completion" where
  "main_infrastructure env config =
     (case parseRedisUrl (mn_parse_url env) (mn_zod_error env) (c_REDIS_URL config) of
        Throw e \<Rightarrow> Throw e
      | Return connection \<Rightarrow>
          (case QueueConfigSchema (JObj [(''concurrency'', JNum (of_int (c_CRAWL_MAX_CONCURRENT_FETCHES config)))]) of
             None \<Rightarrow> Throw (mn_zod_error env)
           | Some queueConfig \<Rightarrow> Return (connection, queueConfig)))"

definition main_frontier :: "'w main_env \<Rightarrow> BullMQConnection \<Rightarrow> QueueConfig \<Rightarrow> 'w Frontier" where
  "main_frontier env connection queueConfig =
     createFrontierAdapter (mn_sha env) (createBullMQQueueBackend (mn_queue env connection queueConfig)) None"

text \<open>The pipeline of the processor is not wired yet: it logs the job and reports success.\<close>

definition main_executePipeline :: "'w main_env \<Rightarrow> JobPayload \<Rightarrow> 'w \<Rightarrow> (CrawlError, int) result completion \<times> 'w" where
  "main_executePipeline env payload w =
     (Return (Ok 0), mn_log env (LogInfo, ''Job received'', [(''url'', jp_url payload), (''depth'', string_of_int (jp_depth payload))]) w)"

definition main_processor ::
  "'w main_env \<Rightarrow> (js_value \<Rightarrow> string) \<Rightarrow> js_value \<Rightarrow> 'w \<Rightarrow> (unit completion \<times> metrics_call list) \<times> 'w logged" where
  "main_processor env zod_message raw w = consumer_processor zod_message (main_executePipeline env) raw w"

section \<open>Phase 7: the start-up sequence\<close>

text \<open>The callback of the metrics server's \<open>close\<close> gets nothing or what went wrong, made an \<open>Error\<close>.\<close>

definition metrics_close :: "'w main_env \<Rightarrow> 'w resource" where
  "metrics_close env w =
     (case mn_metrics_close env w of
        (Some (ThrownError e), w') \<Rightarrow> (Throw (ThrownError e), w')
      | (Some (ThrownOther s), w') \<Rightarrow> (Throw (ThrownError (new_Error s)), w')
      | (None, w') \<Rightarrow> (Return (), w'))"

definition metricsPhase :: "'w main_env \<Rightarrow> Config \<Rightarrow> 'w StartupPhase" where
  "metricsPhase env config =
     \<lparr>ph_name = ''metrics-server'',
      ph_execute = (\<lambda>w. case mn_metrics_listen env (c_METRICS_PORT config) w of
         (Some e, w') \<Rightarrow> (Throw e, w')
       | (None, w') \<Rightarrow> (Return (metrics_close env),
           mn_log env (LogInfo, ''Metrics server listening'', [(''port'', string_of_int (c_METRICS_PORT config))]) w'))\<rparr>"

definition probePhase :: "'w main_env \<Rightarrow> Config \<Rightarrow> 'w StartupPhase" where
  "probePhase env config =
     \<lparr>ph_name = ''readiness-probe'',
      ph_execute = (\<lambda>w. case mn_probe_bound env w of (bound, w1) \<Rightarrow>
         (case probe_listening (c_HEALTH_PORT config) bound of
            ((_, Return _), lines) \<Rightarrow> (Return (probe_close (mn_probe_close env)), fold (mn_log env) lines w1)
          | ((_, Throw e), lines) \<Rightarrow> (Throw e, fold (mn_log env) lines w1)))\<rparr>"

definition consumerPhase :: "'w bull_worker \<Rightarrow> 'w StartupPhase" where
  "consumerPhase worker =
     createConsumerPhase (\<lambda>w. case bc_start worker False w of ((r, _), w') \<Rightarrow> (r, w'))
       (\<lambda>timeout w. case bc_close worker timeout True w of ((r, _), w') \<Rightarrow> (r, w'))"

definition main_phases :: "'w main_env \<Rightarrow> Config \<Rightarrow> 'w bull_worker \<Rightarrow> 'w StartupPhase list" where
  "main_phases env config worker = [metricsPhase env config, probePhase env config, consumerPhase worker]"

section \<open>Phases 8 to 10, and the body\<close>

definition main_teardown :: "'w main_env \<Rightarrow> Config \<Rightarrow> 'w Frontier \<Rightarrow> (string \<times> 'w resource) list \<Rightarrow> (string \<times> 'w resource) list" where
  "main_teardown env config frontier resources =
     resources @ [(''tracer'', mn_tracer_shutdown env (c_SERVICE_NAME config) (c_OTEL_EXPORTER_OTLP_ENDPOINT config)),
                  (''frontier'', fr_close frontier)]"

text \<open>
  The body after the configuration: its completion (with the teardown entries once the shutdown is
  bound), the metrics, the lines written and the world. The probe listens from its construction on.
\<close>

type_synonym 'w main_result = "(unit completion \<times> (string \<times> 'w resource) list option \<times> metrics_call list) \<times> 'w logged"

definition main_run :: "'w main_env \<Rightarrow> Config \<Rightarrow> 'w logged \<Rightarrow> 'w main_result" where
  "main_run env config s =
     (let seeds = parseSeedUrls (c_SEED_URLS config)
      in case validateSeeds seeds s of
           (Throw e, s1) \<Rightarrow> ((Throw e, None, []), (pino_lines bootstrapLogger (fst s1), snd s1))
         | (Return _, s1) \<Rightarrow>
             (let boot = pino_lines bootstrapLogger (fst s1); w1 = mn_probe_listen env (c_HEALTH_PORT config) (snd s1);
                  logger = main_logger env config
              in case main_infrastructure env config of
                   Throw e \<Rightarrow> ((Throw e, None, []), (boot, w1))
                 | Return (connection, queueConfig) \<Rightarrow>
                     (let frontier = main_frontier env connection queueConfig
                      in case executeStartupSequence (main_phases env config (mn_worker env connection queueConfig)) ([], w1) of
                           (Throw e, s2) \<Rightarrow> ((Throw e, None, []), (boot @ pino_lines logger (fst s2), snd s2))
                         | (Return resources, s2) \<Rightarrow>
                             (case seed_frontier (fr_enqueue frontier) (fr_size frontier) (mn_parseCrawlUrl env) seeds (snd s2) of
                                (ms, s3) \<Rightarrow>
                                  ((Return (), Some (main_teardown env config frontier resources), ms),
                                   (boot @ pino_lines logger (fst s2 @ fst s3 @
                                      [(LogInfo, ''IPF Crawler started'', [(''workerId'', main_workerId env config),
                                         (''seedCount'', string_of_int (int (length seeds)))])]), snd s3))))))"

text \<open>The plain object of a configuration error is written as \<open>[object Object]\<close>.\<close>

definition main_body :: "'w main_env \<Rightarrow> 'w \<Rightarrow> 'w main_result" where
  "main_body env w =
     (case validateConfig (\<lambda>_. ''[object Object]'') (loadConfig (mn_lib env)) (mn_env env) ([], w) of
        (Throw e, s) \<Rightarrow> ((Throw e, None, []), (pino_lines bootstrapLogger (fst s), snd s))
      | (Return config, s) \<Rightarrow> main_run env config s)"

text \<open>Until the orchestrator exists the shutdown does nothing.\<close>

definition no_shutdown :: shutdown_fn where
  "no_shutdown reason flag = (Return (), flag, 0, [])"

definition run_main :: "'w main_env \<Rightarrow> 'w \<Rightarrow> (int \<times> int) option \<times> 'w logged" where
  "run_main env w =
     (case main_body env w of
        ((r, _, _), s) \<Rightarrow> (case safeMain r no_shutdown False of (_, code, _, _) \<Rightarrow> (code, s)))"

section \<open>What an accepted configuration guarantees\<close>

text \<open>The configuration of the queue always parses: the schema of the environment implies it.\<close>

lemma main_infrastructure_config:
  assumes "Config_ok lib config"
  shows "main_infrastructure env config =
    (case parseRedisUrl (mn_parse_url env) (mn_zod_error env) (c_REDIS_URL config) of
       Throw e \<Rightarrow> Throw e
     | Return connection \<Rightarrow> Return (connection, \<lparr>qf_queueName = ''crawl'', qf_defaultAttempts = 3, qf_backoffType = ''exponential'',
         qf_backoffDelay = 5000, qf_removeOnCompleteAge = 3600, qf_removeOnCompleteCount = 10000, qf_removeOnFailAge = 86400,
         qf_concurrency = c_CRAWL_MAX_CONCURRENT_FETCHES config\<rparr>))"
proof -
  have "safe_int (c_CRAWL_MAX_CONCURRENT_FETCHES config) 1 None"
    using assms unfolding Config_ok_def by (elim conjE)
  then have "1 \<le> c_CRAWL_MAX_CONCURRENT_FETCHES config" "c_CRAWL_MAX_CONCURRENT_FETCHES config \<le> MAX_SAFE_INTEGER"
    by (auto simp: safe_int_def)
  then show ?thesis
    by (simp add: main_infrastructure_def QueueConfigSchema_concurrency cong: completion.case_cong)
qed

text \<open>
  The settings of the crawl are validated but not read: main behaves the same whatever the depth, the
  politeness delay, the redirect, retry and body limits, the address filter and the resilience settings are.
\<close>

lemma main_ignores_crawl_settings:
  "main_run env (config\<lparr>c_CRAWL_MAX_DEPTH := d, c_CRAWL_POLITENESS_DELAY_MS := p, c_CRAWL_MAX_REDIRECTS := r, c_CRAWL_MAX_RETRIES := t,
      c_CRAWL_MAX_RESPONSE_BYTES := b, c_CRAWL_FETCH_TIMEOUT_MS := m, c_ALLOW_PRIVATE_IPS := a, c_ALLOWED_DOMAINS := ds,
      c_CB_THRESHOLD := cb, c_RETRY_MAX_ATTEMPTS := ra, c_TOKEN_BUCKET_MAX_TOKENS := tb\<rparr>) s = main_run env config s"
  by (simp add: main_run_def main_infrastructure_def main_phases_def metricsPhase_def probePhase_def main_teardown_def main_logger_def
      main_workerId_def cong: completion.case_cong prod.case_cong option.case_cong)

text \<open>The deployed processor answers every valid job with success and fetches nothing.\<close>

lemma main_processor_succeeds:
  "JobPayloadSchema raw = Some payload \<Longrightarrow>
     fst (main_processor env zod_message raw w) = (Return (), [RecordFetch ''success'' None])"
  by (simp add: main_processor_def consumer_processor_def processJob_def main_executePipeline_def Let_def)

section \<open>Seeding comes last\<close>

lemma main_phases_ignore [simp]: "main_phases (env\<lparr>mn_queue := q\<rparr>) config worker = main_phases env config worker"
  by (simp add: main_phases_def metricsPhase_def probePhase_def metrics_close_def [abs_def] cong: completion.case_cong prod.case_cong option.case_cong)

lemma main_env_ignore [simp]:
  "main_infrastructure (env\<lparr>mn_queue := q\<rparr>) config = main_infrastructure env config"
  "main_logger (env\<lparr>mn_queue := q\<rparr>) config = main_logger env config"
  by (simp_all add: main_infrastructure_def main_logger_def main_workerId_def cong: completion.case_cong option.case_cong)

lemma startup_names:
  "executeStartupSequence (main_phases env c worker) s = (Return rs, s') \<Longrightarrow>
     map fst rs = [''metrics-server'', ''readiness-probe'', ''job-consumer'']"
  by (auto simp: executeStartupSequence_def main_phases_def metricsPhase_def probePhase_def consumerPhase_def createConsumerPhase_def
      Let_def log_to_def split: prod.splits completion.splits option.splits)

lemma main_run_cases:
  "case main_run env config s of
     ((Return _, td, ms), t) \<Rightarrow> (\<exists>entries. td = Some entries
         \<and> map fst entries = [''metrics-server'', ''readiness-probe'', ''job-consumer'', ''tracer'', ''frontier''])
   | ((Throw e, td, ms), t) \<Rightarrow> td = None \<and> ms = [] \<and> main_run (env\<lparr>mn_queue := q\<rparr>) config s = main_run env config s"
  by (auto simp: main_run_def Let_def main_teardown_def dest: startup_names split: completion.splits prod.splits)

text \<open>C29: Start-up is all or nothing: either every phase came up, the teardown covers the metrics server, the probe, the consumer, the tracer and the frontier in this order, and no exit is requested; or main fails, the process exits with code 1, and the frontier was never touched: the run is the same whatever the queue would do.\<close>

theorem main_all_or_nothing:
  "case main_body env w of
     ((Return _, td, ms), s) \<Rightarrow> fst (run_main env w) = None
       \<and> (case td of Some entries \<Rightarrow> map fst entries = [''metrics-server'', ''readiness-probe'', ''job-consumer'', ''tracer'', ''frontier''] | None \<Rightarrow> False)
   | ((Throw e, td, ms), s) \<Rightarrow> fst (run_main env w) = Some (0, 1) \<and> td = None \<and> ms = []
       \<and> main_body (env\<lparr>mn_queue := q\<rparr>) w = main_body env w"
proof -
  obtain c s where valid: "validateConfig (\<lambda>_. ''[object Object]'') (loadConfig (mn_lib env)) (mn_env env) ([], w) = (c, s)"
    by (meson surj_pair)
  show ?thesis
  proof (cases c)
    case (Throw e)
    with valid show ?thesis
      by (simp add: main_body_def run_main_def safeMain_def exit_after_def no_shutdown_def EXIT_ERROR_def)
  next
    case (Return config)
    with valid main_run_cases [where env = env and config = config and s = s and q = q] show ?thesis
      by (auto simp: main_body_def run_main_def safeMain_def exit_after_def no_shutdown_def EXIT_ERROR_def
          split: completion.splits prod.splits)
  qed
qed

end
