(* ===== verification/Database.thy ===== *)
theory Database
  imports RedisStore
begin

text \<open>
  packages/database/src: the data errors, the repository of crawled URLs, its circuit breaker, the
  decorator that publishes status events, the pool wrapper, the shutdown handle and the page store. The
  statements drizzle runs, the pool, the object store and the compression are functions over the world.
\<close>

section \<open>errors.ts\<close>

datatype DataError =
    ConnectionFailed thrown (de_message: string)
  | QueryFailed string thrown (de_message: string)
  | NotFound string string (de_message: string)
  | DuplicateKey string (de_message: string)
  | CircuitOpen string (de_message: string)
  | DbTimeout string int (de_message: string)
  | S3Error string thrown (de_message: string)

definition createConnectionFailed :: "thrown \<Rightarrow> DataError" where
  "createConnectionFailed cause = ConnectionFailed cause ''Database connection failed''"

definition createQueryFailed :: "string \<Rightarrow> thrown \<Rightarrow> DataError" where
  "createQueryFailed query cause = QueryFailed query cause (''Query failed: '' @ query)"

definition createNotFound :: "string \<Rightarrow> string \<Rightarrow> DataError" where
  "createNotFound entity i = NotFound entity i (entity @ '' not found: '' @ i)"

definition createDuplicateKey :: "string \<Rightarrow> DataError" where
  "createDuplicateKey constraint = DuplicateKey constraint (''Duplicate key: '' @ constraint)"

definition createCircuitOpen :: "string \<Rightarrow> DataError" where
  "createCircuitOpen service = CircuitOpen service (''Circuit open for '' @ service)"

definition createTimeout :: "string \<Rightarrow> int \<Rightarrow> DataError" where
  "createTimeout operation ms = DbTimeout operation ms (''Timeout after '' @ string_of_int ms @ ''ms: '' @ operation)"

definition createS3Error :: "string \<Rightarrow> thrown \<Rightarrow> DataError" where
  "createS3Error operation cause = S3Error operation cause (''S3 error: '' @ operation)"

section \<open>types.ts and the table\<close>

type_synonym json_object = "(string \<times> string) list"

text \<open>A row, which is also the entity: the casts of \<open>toDomain\<close> change only a missing metadata object.\<close>

record CrawlURL =
  ur_id :: int
  ur_url :: string
  ur_urlHash :: string
  ur_domain :: string
  ur_status :: string
  ur_statusCode :: "int option"
  ur_contentType :: "string option"
  ur_s3Key :: "string option"
  ur_depth :: int
  ur_discoveredAt :: int
  ur_fetchedAt :: "int option"
  ur_parentUrlId :: "int option"
  ur_metadata :: "json_object option"

record NewCrawlURL =
  nu_url :: string
  nu_urlHash :: string
  nu_domain :: string
  nu_depth :: int
  nu_parentUrlId :: "int option"
  nu_metadata :: "json_object option"

record DbFetchResult =
  df_statusCode :: int
  df_contentType :: "string option"
  df_s3Key :: "string option"

definition toDomain :: "CrawlURL \<Rightarrow> CrawlURL" where
  "toDomain row = row\<lparr>ur_metadata := (case ur_metadata row of None \<Rightarrow> Some [] | Some m \<Rightarrow> Some m)\<rparr>"

text \<open>The values of an insert, and the columns of an update (\<open>True\<close>: set \<open>fetched_at\<close> to now).\<close>

definition insert_values :: "NewCrawlURL \<Rightarrow> NewCrawlURL" where
  "insert_values u = u\<lparr>nu_metadata := (case nu_metadata u of None \<Rightarrow> Some [] | Some m \<Rightarrow> Some m)\<rparr>"

record update_data =
  ud_status :: string
  ud_result :: "DbFetchResult option"
  ud_fetchedNow :: bool

definition update_values :: "string \<Rightarrow> DbFetchResult option \<Rightarrow> update_data" where
  "update_values status result =
     \<lparr>ud_status = status, ud_result = result, ud_fetchedNow = (result \<noteq> None \<and> status = ''fetched'')\<rparr>"

record 'w sql_db =
  sq_select_id :: "int \<Rightarrow> 'w \<Rightarrow> CrawlURL list completion \<times> 'w"
  sq_select_hash :: "string \<Rightarrow> 'w \<Rightarrow> CrawlURL list completion \<times> 'w"
  sq_insert :: "NewCrawlURL \<Rightarrow> 'w \<Rightarrow> CrawlURL list completion \<times> 'w"
  sq_insert_new :: "NewCrawlURL list \<Rightarrow> 'w \<Rightarrow> int list completion \<times> 'w"
  sq_select_pending :: "string \<Rightarrow> int \<Rightarrow> 'w \<Rightarrow> CrawlURL list completion \<times> 'w"
  sq_update :: "int \<Rightarrow> update_data \<Rightarrow> 'w \<Rightarrow> unit completion \<times> 'w"

section \<open>drizzle-crawl-url-repository.ts\<close>

definition first_row :: "CrawlURL list \<Rightarrow> CrawlURL option" where
  "first_row rows = (case rows of [] \<Rightarrow> None | r # _ \<Rightarrow> Some (toDomain r))"

definition findById :: "'w sql_db \<Rightarrow> int \<Rightarrow> 'w \<Rightarrow> (DataError, CrawlURL option) result \<times> 'w" where
  "findById db i w =
     (case sq_select_id db i w of
        (Return rows, w') \<Rightarrow> (Ok (first_row rows), w')
      | (Throw cause, w') \<Rightarrow> (Err (createQueryFailed ''findById'' cause), w'))"

definition findByHash :: "'w sql_db \<Rightarrow> string \<Rightarrow> 'w \<Rightarrow> (DataError, CrawlURL option) result \<times> 'w" where
  "findByHash db h w =
     (case sq_select_hash db h w of
        (Return rows, w') \<Rightarrow> (Ok (first_row rows), w')
      | (Throw cause, w') \<Rightarrow> (Err (createQueryFailed ''findByHash'' cause), w'))"

definition isDuplicateKeyError :: "thrown \<Rightarrow> bool" where
  "isDuplicateKeyError t = (case t of ThrownError e \<Rightarrow> err_code e = Some ''23505'' | ThrownOther _ \<Rightarrow> False)"

definition repo_save :: "'w sql_db \<Rightarrow> NewCrawlURL \<Rightarrow> 'w \<Rightarrow> (DataError, CrawlURL) result \<times> 'w" where
  "repo_save db u w =
     (case sq_insert db (insert_values u) w of
        (Return [], w') \<Rightarrow> (Err (createQueryFailed ''save'' (ThrownError (new_Error ''INSERT returned no rows''))), w')
      | (Return (r # _), w') \<Rightarrow> (Ok (toDomain r), w')
      | (Throw cause, w') \<Rightarrow>
          (if isDuplicateKeyError cause then (Err (createDuplicateKey ''idx_crawl_urls_hash''), w')
           else (Err (createQueryFailed ''save'' cause), w')))"

definition saveBatch :: "'w sql_db \<Rightarrow> NewCrawlURL list \<Rightarrow> 'w \<Rightarrow> (DataError, int) result \<times> 'w" where
  "saveBatch db urls w =
     (if urls = [] then (Ok 0, w)
      else case sq_insert_new db (map insert_values urls) w of
             (Return ids, w') \<Rightarrow> (Ok (int (length ids)), w')
           | (Throw cause, w') \<Rightarrow> (Err (createQueryFailed ''saveBatch'' cause), w'))"

definition findPendingByDomain :: "'w sql_db \<Rightarrow> string \<Rightarrow> int \<Rightarrow> 'w \<Rightarrow> (DataError, CrawlURL list) result \<times> 'w" where
  "findPendingByDomain db domain limit w =
     (case sq_select_pending db domain limit w of
        (Return rows, w') \<Rightarrow> (Ok (map toDomain rows), w')
      | (Throw cause, w') \<Rightarrow> (Err (createQueryFailed ''findPendingByDomain'' cause), w'))"

definition updateStatus :: "'w sql_db \<Rightarrow> int \<Rightarrow> string \<Rightarrow> DbFetchResult option \<Rightarrow> 'w \<Rightarrow> (DataError, unit) result \<times> 'w" where
  "updateStatus db i status result w =
     (case sq_update db i (update_values status result) w of
        (Return _, w') \<Rightarrow> (Ok (), w')
      | (Throw cause, w') \<Rightarrow> (Err (createQueryFailed ''updateStatus'' cause), w'))"

section \<open>circuit-breaker.ts, resilient-crawl-url-repository.ts\<close>

definition dcb_execute ::
  "((DataError, 'a, 'w) policy_call \<Rightarrow> (DataError, 'a, 'w) policy_call) \<Rightarrow>
     ('w \<Rightarrow> (thrown + (DataError, 'a) result) \<times> 'w) \<Rightarrow> 'w \<Rightarrow> (DataError, 'a) result \<times> 'w" where
  "dcb_execute policy fn w =
     (case policy (wrapped_call fn) w of
        (Inr result, w') \<Rightarrow> (result, w')
      | (Inl BrokenCircuit, w') \<Rightarrow> (Err (createCircuitOpen ''database''), w')
      | (Inl (WrappedError e), w') \<Rightarrow> (Err e, w')
      | (Inl (OtherThrown t), w') \<Rightarrow> (Err (createConnectionFailed t), w'))"

text \<open>The operations of the resilient repository: each goes through the breaker; the repository itself never throws.\<close>

definition no_throw :: "('w \<Rightarrow> (DataError, 'a) result \<times> 'w) \<Rightarrow> 'w \<Rightarrow> (thrown + (DataError, 'a) result) \<times> 'w" where
  "no_throw f w = (case f w of (r, w') \<Rightarrow> (Inr r, w'))"

definition resilient_save ::
  "((DataError, CrawlURL, 'w) policy_call \<Rightarrow> (DataError, CrawlURL, 'w) policy_call) \<Rightarrow> 'w sql_db \<Rightarrow> NewCrawlURL \<Rightarrow> 'w \<Rightarrow> (DataError, CrawlURL) result \<times> 'w" where
  "resilient_save policy db u = dcb_execute policy (no_throw (repo_save db u))"

definition resilient_findByHash ::
  "((DataError, CrawlURL option, 'w) policy_call \<Rightarrow> (DataError, CrawlURL option, 'w) policy_call) \<Rightarrow> 'w sql_db \<Rightarrow> string \<Rightarrow> 'w \<Rightarrow> (DataError, CrawlURL option) result \<times> 'w" where
  "resilient_findByHash policy db h = dcb_execute policy (no_throw (findByHash db h))"

definition resilient_findById ::
  "((DataError, CrawlURL option, 'w) policy_call \<Rightarrow> (DataError, CrawlURL option, 'w) policy_call) \<Rightarrow> 'w sql_db \<Rightarrow> int \<Rightarrow> 'w \<Rightarrow> (DataError, CrawlURL option) result \<times> 'w" where
  "resilient_findById policy db i = dcb_execute policy (no_throw (findById db i))"

definition resilient_saveBatch ::
  "((DataError, int, 'w) policy_call \<Rightarrow> (DataError, int, 'w) policy_call) \<Rightarrow> 'w sql_db \<Rightarrow> NewCrawlURL list \<Rightarrow> 'w \<Rightarrow> (DataError, int) result \<times> 'w" where
  "resilient_saveBatch policy db urls = dcb_execute policy (no_throw (saveBatch db urls))"

definition resilient_findPendingByDomain ::
  "((DataError, CrawlURL list, 'w) policy_call \<Rightarrow> (DataError, CrawlURL list, 'w) policy_call) \<Rightarrow> 'w sql_db \<Rightarrow> string \<Rightarrow> int \<Rightarrow> 'w \<Rightarrow> (DataError, CrawlURL list) result \<times> 'w" where
  "resilient_findPendingByDomain policy db domain limit = dcb_execute policy (no_throw (findPendingByDomain db domain limit))"

definition resilient_updateStatus ::
  "((DataError, unit, 'w) policy_call \<Rightarrow> (DataError, unit, 'w) policy_call) \<Rightarrow> 'w sql_db \<Rightarrow> int \<Rightarrow> string \<Rightarrow> DbFetchResult option \<Rightarrow> 'w \<Rightarrow> (DataError, unit) result \<times> 'w" where
  "resilient_updateStatus policy db i status result = dcb_execute policy (no_throw (updateStatus db i status result))"

section \<open>event-publishing-crawl-url-repository.ts\<close>

record StatusChangeContext =
  cx_url :: "string option"
  cx_errorKind :: "string option"
  cx_errorMessage :: "string option"

datatype status_payload =
    CrawlCompletedPayload string string int int int
  | CrawlFailedPayload string string string string int

record StatusChangeEvent =
  ev_type :: string
  ev_version :: int
  ev_payload :: status_payload
  ev_id :: string
  ev_timestamp :: string
  ev_source :: string

text \<open>The current time as text is an argument.\<close>

definition buildStatusEvent ::
  "string \<Rightarrow> int \<Rightarrow> string \<Rightarrow> DbFetchResult option \<Rightarrow> string \<Rightarrow> StatusChangeContext option \<Rightarrow> StatusChangeEvent option" where
  "buildStatusEvent now i status result source ctx =
     (let eventId = string_of_int i @ ''-'' @ now;
          part = (\<lambda>f d. case ctx of None \<Rightarrow> d | Some c \<Rightarrow> (case f c of None \<Rightarrow> d | Some x \<Rightarrow> x));
          url = part cx_url []
      in if status = ''fetched'' \<and> result \<noteq> None
         then Some \<lparr>ev_type = ''CrawlCompleted'', ev_version = 1,
                ev_payload = CrawlCompletedPayload (string_of_int i) url (df_statusCode (the result)) 0 0,
                ev_id = eventId, ev_timestamp = now, ev_source = source\<rparr>
         else if status = ''failed''
         then Some \<lparr>ev_type = ''CrawlFailed'', ev_version = 1,
                ev_payload = CrawlFailedPayload (string_of_int i) url (part cx_errorKind ''unknown'')
                  (part cx_errorMessage ''Status updated to failed'') 1,
                ev_id = eventId, ev_timestamp = now, ev_source = source\<rparr>
         else None)"

definition setContext :: "(int, StatusChangeContext) js_map \<Rightarrow> int \<Rightarrow> StatusChangeContext \<Rightarrow> (int, StatusChangeContext) js_map" where
  "setContext contextMap i ctx = jsmap_set contextMap i ctx"

text \<open>The publisher answers an id or an error message. The result, the new map, the warnings and the world.\<close>

definition publishing_updateStatus ::
  "(int \<Rightarrow> string \<Rightarrow> DbFetchResult option \<Rightarrow> 'w \<Rightarrow> (DataError, unit) result \<times> 'w) \<Rightarrow>
     (string \<Rightarrow> StatusChangeEvent \<Rightarrow> 'w \<Rightarrow> (string, string) result \<times> 'w) \<Rightarrow> string \<Rightarrow> string \<Rightarrow> string \<Rightarrow>
     (int, StatusChangeContext) js_map \<Rightarrow> int \<Rightarrow> string \<Rightarrow> DbFetchResult option \<Rightarrow> 'w
     \<Rightarrow> ((DataError, unit) result \<times> (int, StatusChangeContext) js_map \<times> log_line list) \<times> 'w" where
  "publishing_updateStatus update publish streamKey source now contextMap i status result w =
     (let ctx = jsmap_get contextMap i; contextMap' = jsmap_delete contextMap i
      in case update i status result w of
           (Err e, w1) \<Rightarrow> ((Err e, contextMap', []), w1)
         | (Ok _, w1) \<Rightarrow>
             (case buildStatusEvent now i status result source ctx of
                None \<Rightarrow> ((Ok (), contextMap', []), w1)
              | Some event \<Rightarrow>
                  (case publish streamKey event w1 of
                     (Ok _, w2) \<Rightarrow> ((Ok (), contextMap', []), w2)
                   | (Err m, w2) \<Rightarrow>
                       ((Ok (), contextMap', [(LogWarn, ''Event publish failed after updateStatus'',
                          [(''id'', string_of_int i), (''status'', status), (''error'', m)])]), w2))))"

section \<open>pool.ts, shutdown.ts\<close>

definition pool_connect :: "('w \<Rightarrow> 'c completion \<times> 'w) \<Rightarrow> 'w \<Rightarrow> (DataError, 'c) result \<times> 'w" where
  "pool_connect connect w =
     (case connect w of (Return c, w') \<Rightarrow> (Ok c, w') | (Throw cause, w') \<Rightarrow> (Err (createConnectionFailed cause), w'))"

definition pool_query :: "('w \<Rightarrow> 'q completion \<times> 'w) \<Rightarrow> int \<Rightarrow> 'w \<Rightarrow> (DataError, 'q) result \<times> 'w" where
  "pool_query query statementTimeout w =
     (case query w of
        (Return r, w') \<Rightarrow> (Ok r, w')
      | (Throw (ThrownError e), w') \<Rightarrow>
          (if includes_str (err_message e) ''timeout'' then (Err (createTimeout ''query'' statementTimeout), w')
           else (Err (createConnectionFailed (ThrownError e)), w'))
      | (Throw (ThrownOther s), w') \<Rightarrow> (Err (createConnectionFailed (ThrownOther s)), w'))"

definition db_shutdown :: "('w \<Rightarrow> 'w) \<Rightarrow> ('w \<Rightarrow> unit completion \<times> 'w) \<Rightarrow> bool \<Rightarrow> 'w \<Rightarrow> (unit completion \<times> bool) \<times> 'w" where
  "db_shutdown onShutdown pool_end shuttingDown w =
     (if shuttingDown then ((Return (), True), w)
      else case pool_end (onShutdown w) of (r, w') \<Rightarrow> ((r, True), w'))"

text \<open>\<open>end\<close> and \<open>asyncDispose\<close>.\<close>

definition pool_end :: "('w \<Rightarrow> unit completion \<times> 'w) \<Rightarrow> 'w \<Rightarrow> unit completion \<times> 'w" where
  "pool_end end_pool w = end_pool w"

section \<open>s3-page-content-repository.ts\<close>

record PageKey =
  pk_sessionId :: string
  pk_domain :: string
  pk_urlHash :: string

definition contentKey :: "PageKey \<Rightarrow> string" where
  "contentKey k = pk_sessionId k @ ''/'' @ pk_domain k @ ''/'' @ pk_urlHash k @ ''.html.zst''"

definition metadataKey :: "PageKey \<Rightarrow> string" where
  "metadataKey k = pk_sessionId k @ ''/'' @ pk_domain k @ ''/'' @ pk_urlHash k @ ''.meta.json''"

text \<open>Objects of a bucket by key; \<open>compress\<close> and \<open>decompress\<close> may throw.\<close>

record ('b, 'w) object_store =
  os_put :: "string \<Rightarrow> 'b \<Rightarrow> 'w \<Rightarrow> unit completion \<times> 'w"
  os_get :: "string \<Rightarrow> 'w \<Rightarrow> 'b option completion \<times> 'w"
  os_delete :: "string \<Rightarrow> 'w \<Rightarrow> unit completion \<times> 'w"

text \<open>\<open>Promise.all\<close> of two calls: both run, it rejects if one of them does.\<close>

definition both :: "('w \<Rightarrow> unit completion \<times> 'w) \<Rightarrow> ('w \<Rightarrow> unit completion \<times> 'w) \<Rightarrow> 'w \<Rightarrow> unit completion \<times> 'w" where
  "both f g w = (case f w of (r1, w1) \<Rightarrow> (case g w1 of (r2, w2) \<Rightarrow> ((case r1 of Throw e \<Rightarrow> Throw e | Return _ \<Rightarrow> r2), w2)))"

definition s3_store ::
  "('b, 'w) object_store \<Rightarrow> ('c \<Rightarrow> 'b completion) \<Rightarrow> 'b \<Rightarrow> PageKey \<Rightarrow> 'c \<Rightarrow> 'w \<Rightarrow> (DataError, unit) result \<times> 'w" where
  "s3_store client compress metaJson key content w =
     (case compress content of
        Throw cause \<Rightarrow> (Err (createS3Error ''store'' cause), w)
      | Return compressed \<Rightarrow>
          (case both (os_put client (contentKey key) compressed) (os_put client (metadataKey key) metaJson) w of
             (Return _, w') \<Rightarrow> (Ok (), w')
           | (Throw cause, w') \<Rightarrow> (Err (createS3Error ''store'' cause), w')))"

definition isNoSuchKeyError :: "thrown \<Rightarrow> bool" where
  "isNoSuchKeyError t = (case t of ThrownError e \<Rightarrow> err_name e = ''NoSuchKey'' | ThrownOther _ \<Rightarrow> False)"

definition s3_retrieve ::
  "('b, 'w) object_store \<Rightarrow> ('b \<Rightarrow> 'c completion) \<Rightarrow> PageKey \<Rightarrow> 'w \<Rightarrow> (DataError, 'c) result \<times> 'w" where
  "s3_retrieve client decompress key w =
     (let failed = (\<lambda>cause. if isNoSuchKeyError cause
            then createS3Error ''retrieve'' (ThrownError (new_Error (''Object not found: '' @ contentKey key)))
            else createS3Error ''retrieve'' cause)
      in case os_get client (contentKey key) w of
           (Throw cause, w') \<Rightarrow> (Err (failed cause), w')
         | (Return None, w') \<Rightarrow> (Err (createS3Error ''retrieve'' (ThrownError (new_Error ''Empty response body''))), w')
         | (Return (Some bytes), w') \<Rightarrow>
             (case decompress bytes of Return c \<Rightarrow> (Ok c, w') | Throw cause \<Rightarrow> (Err (failed cause), w')))"

definition s3_delete :: "('b, 'w) object_store \<Rightarrow> PageKey \<Rightarrow> 'w \<Rightarrow> (DataError, unit) result \<times> 'w" where
  "s3_delete client key w =
     (case both (os_delete client (contentKey key)) (os_delete client (metadataKey key)) w of
        (Return _, w') \<Rightarrow> (Ok (), w')
      | (Throw cause, w') \<Rightarrow> (Err (createS3Error ''delete'' cause), w'))"

section \<open>Batches count what they add\<close>

text \<open>
  What \<open>INSERT .. ON CONFLICT DO NOTHING .. RETURNING id\<close> promises over the table with its unique
  index on the hash: it answers one id for each hash it added, and a failed statement adds nothing.
\<close>

definition insert_new_law :: "('w \<Rightarrow> string set) \<Rightarrow> NewCrawlURL list \<Rightarrow> 'w \<Rightarrow> int list completion \<times> 'w \<Rightarrow> bool" where
  "insert_new_law hashes us w res = (case res of
     (Return ids, w') \<Rightarrow> hashes w' = hashes w \<union> nu_urlHash ` set us \<and> length ids = card (nu_urlHash ` set us - hashes w)
   | (Throw _, w') \<Rightarrow> hashes w' = hashes w)"

fun save_batches :: "'w sql_db \<Rightarrow> NewCrawlURL list list \<Rightarrow> 'w \<Rightarrow> (DataError, int) result list \<times> 'w" where
  "save_batches db [] w = ([], w)"
| "save_batches db (b # bs) w =
     (case saveBatch db b w of (r, w1) \<Rightarrow> (case save_batches db bs w1 of (rs, w2) \<Rightarrow> (r # rs, w2)))"

fun saved_hashes :: "NewCrawlURL list list \<Rightarrow> (DataError, int) result list \<Rightarrow> string set" where
  "saved_hashes (b # bs) (Inr _ # rs) = nu_urlHash ` set b \<union> saved_hashes bs rs"
| "saved_hashes (b # bs) (Inl _ # rs) = saved_hashes bs rs"
| "saved_hashes _ _ = {}"

fun saved_count :: "(DataError, int) result list \<Rightarrow> int" where
  "saved_count [] = 0"
| "saved_count (Inr n # rs) = n + saved_count rs"
| "saved_count (Inl _ # rs) = saved_count rs"

lemma insert_values_hashes: "nu_urlHash ` set (map insert_values us) = nu_urlHash ` set us"
  by (simp add: insert_values_def image_image)

lemma saveBatch_cases:
  assumes "\<forall>us w. insert_new_law hashes us w (sq_insert_new db us w)" and "saveBatch db us w = (r, w')"
  shows "(\<exists>n. r = Ok n \<and> n = int (card (nu_urlHash ` set us - hashes w)) \<and> hashes w' = hashes w \<union> nu_urlHash ` set us)
    \<or> (\<exists>e. r = Err e \<and> hashes w' = hashes w)"
proof (cases "us = []")
  case True
  then show ?thesis using assms(2) by (simp add: saveBatch_def)
next
  case False
  obtain x w1 where i: "sq_insert_new db (map insert_values us) w = (x, w1)" by fastforce
  have "insert_new_law hashes (map insert_values us) w (x, w1)" using assms(1) by (simp flip: i)
  then show ?thesis using False assms(2) i
    by (cases x) (auto simp: saveBatch_def insert_new_law_def insert_values_hashes simp del: set_map)
qed

lemma finite_saved_hashes: "finite (saved_hashes bs rs)"
  by (induction bs rs rule: saved_hashes.induct) auto

lemma card_two_steps: "finite A \<Longrightarrow> finite B \<Longrightarrow> card (A - H) + card (B - (H \<union> A)) = card (A \<union> B - H)"
  by (subst card_Un_disjoint [symmetric]) (auto intro: arg_cong [where f = card])

text \<open>C22: Over any sequence of batches, repeated and overlapping ones included, the numbers that saveBatch reports for the batches that did not fail add up to the number of hashes these batches brought into the table, and the table ends with exactly the old hashes and those of the batches that succeeded: a repeated batch counts 0 and a failed one adds nothing.\<close>

theorem save_batches_count:
  assumes "\<forall>us w. insert_new_law hashes us w (sq_insert_new db us w)"
    and "save_batches db bs w = (rs, w')"
  shows "hashes w' = hashes w \<union> saved_hashes bs rs \<and> saved_count rs = int (card (saved_hashes bs rs - hashes w))"
  using assms(2)
proof (induction bs arbitrary: w rs)
  case (Cons b bs)
  obtain r w1 rs' where b: "saveBatch db b w = (r, w1)" and bs: "save_batches db bs w1 = (rs', w')" and rs: "rs = r # rs'"
    using Cons.prems by (auto split: prod.splits)
  have IH: "hashes w' = hashes w1 \<union> saved_hashes bs rs'" "saved_count rs' = int (card (saved_hashes bs rs' - hashes w1))"
    using Cons.IH [OF bs] by auto
  from saveBatch_cases [OF assms(1) b] show ?case
  proof (elim disjE exE conjE)
    fix n assume n: "r = Ok n" "n = int (card (nu_urlHash ` set b - hashes w))" "hashes w1 = hashes w \<union> nu_urlHash ` set b"
    then have "saved_count rs = int (card (nu_urlHash ` set b - hashes w) + card (saved_hashes bs rs' - (hashes w \<union> nu_urlHash ` set b)))"
      using IH rs by simp
    also have "\<dots> = int (card (nu_urlHash ` set b \<union> saved_hashes bs rs' - hashes w))"
      by (subst card_two_steps) (simp_all add: finite_saved_hashes)
    finally show ?case using IH n rs by auto
  next
    fix e assume "r = Err e" "hashes w1 = hashes w"
    then show ?case using IH rs by simp
  qed
qed simp

text \<open>A table of hashes, with the newest first, as the smallest database.\<close>

fun add_new_hashes :: "NewCrawlURL list \<Rightarrow> string list \<Rightarrow> string list" where
  "add_new_hashes [] hs = hs"
| "add_new_hashes (u # us) hs = add_new_hashes us (if nu_urlHash u \<in> set hs then hs else nu_urlHash u # hs)"

definition duplicate_error :: thrown where
  "duplicate_error = ThrownError \<lparr>err_dom = False, err_name = ''PostgresError'', err_message = ''duplicate key value'', err_code = Some ''23505''\<rparr>"

definition hash_db :: "string list sql_db" where
  "hash_db = \<lparr>sq_select_id = (\<lambda>i w. (Return [], w)), sq_select_hash = (\<lambda>h w. (Return [], w)),
     sq_insert = (\<lambda>u w. (Throw duplicate_error, w)),
     sq_insert_new = (\<lambda>us w. (Return (replicate (length (add_new_hashes us w) - length w) 0), add_new_hashes us w)),
     sq_select_pending = (\<lambda>d n w. (Return [], w)), sq_update = (\<lambda>i d w. (Return (), w))\<rparr>"

lemma add_new_hashes_set: "set (add_new_hashes us hs) = set hs \<union> nu_urlHash ` set us"
  by (induction us arbitrary: hs) auto

lemma add_new_hashes_length: "length (add_new_hashes us hs) = length hs + card (nu_urlHash ` set us - set hs)"
proof (induction us arbitrary: hs)
  case (Cons u us)
  have "card (insert h A - B) = Suc (card (A - insert h B))" if "h \<notin> B" "finite A" for h :: string and A B
  proof -
    have "insert h A - B = insert h (A - insert h B)" using that by auto
    then show ?thesis using that by simp
  qed
  then show ?case using Cons.IH by (auto simp: insert_absorb insert_Diff_if)
qed simp

lemma hash_db_law: "insert_new_law set us w (sq_insert_new hash_db us w)"
  by (simp add: insert_new_law_def hash_db_def add_new_hashes_set add_new_hashes_length)

definition demo_new :: "string \<Rightarrow> NewCrawlURL" where
  "demo_new h = \<lparr>nu_url = ''https://example.com/'' @ h, nu_urlHash = h, nu_domain = ''example.com'', nu_depth = 0,
     nu_parentUrlId = None, nu_metadata = None\<rparr>"

theorem save_batches_count_witness:
  "let bs = [[demo_new ''a'', demo_new ''b''], [demo_new ''b'', demo_new ''c''], [demo_new ''a'', demo_new ''b'']];
       (rs, w') = save_batches hash_db bs [''c'']
   in rs = [Ok 2, Ok 0, Ok 0] \<and> saved_count rs = int (card (saved_hashes bs rs - set [''c'']))"
proof -
  let ?bs = "[[demo_new ''a'', demo_new ''b''], [demo_new ''b'', demo_new ''c''], [demo_new ''a'', demo_new ''b'']]"
  obtain rs w' where run: "save_batches hash_db ?bs [''c''] = (rs, w')" by fastforce
  have "rs = [Ok 2, Ok 0, Ok 0]"
    using run by (auto simp: saveBatch_def hash_db_def demo_new_def insert_values_def)
  then show ?thesis using save_batches_count [of set hash_db, OF _ run] hash_db_law run by auto
qed

section \<open>Duplicate keys and the circuit breaker\<close>

text \<open>
  The laws the next property needs of an insert of a known hash (PostgreSQL's unique violation) and of a
  policy built on \<open>ConsecutiveBreaker\<close>, which opens at the threshold.
\<close>

definition duplicate_law :: "('w \<Rightarrow> string set) \<Rightarrow> ('w \<Rightarrow> nat) \<Rightarrow> NewCrawlURL \<Rightarrow> 'w \<Rightarrow> CrawlURL list completion \<times> 'w \<Rightarrow> bool" where
  "duplicate_law hashes failures u w res \<longleftrightarrow>
     (nu_urlHash u \<in> hashes w \<longrightarrow>
        (\<exists>cause. fst res = Throw cause \<and> isDuplicateKeyError cause) \<and> hashes (snd res) = hashes w \<and> failures (snd res) = failures w)"

definition consecutive_note :: "('w \<Rightarrow> string set) \<Rightarrow> ('w \<Rightarrow> nat) \<Rightarrow> (bool \<Rightarrow> 'w \<Rightarrow> 'w) \<Rightarrow> bool" where
  "consecutive_note hashes failures note \<longleftrightarrow>
     (\<forall>w. failures (note True w) = Suc (failures w) \<and> failures (note False w) = 0 \<and> hashes (note True w) = hashes w)"

lemma save_known_hash:
  assumes "duplicate_law hashes failures (insert_values u) w (sq_insert db (insert_values u) w)" and "nu_urlHash u \<in> hashes w"
  shows "\<exists>w'. repo_save db u w = (Err (createDuplicateKey ''idx_crawl_urls_hash''), w') \<and> hashes w' = hashes w \<and> failures w' = failures w"
  using assms
  by (cases "sq_insert db (insert_values u) w") (auto simp: duplicate_law_def repo_save_def insert_values_def)

lemma resilient_save_known_hash:
  assumes "duplicate_law hashes failures (insert_values u) w (sq_insert db (insert_values u) w)" and "nu_urlHash u \<in> hashes w"
    and "breaker_law policy (\<lambda>w. threshold \<le> failures w) (\<lambda>w. w) note" and "consecutive_note hashes failures note"
    and "failures w < threshold"
  shows "\<exists>w'. resilient_save policy db u w = (Err (createDuplicateKey ''idx_crawl_urls_hash''), w')
    \<and> hashes w' = hashes w \<and> failures w' = Suc (failures w)"
proof -
  obtain w1 where s: "repo_save db u w = (Err (createDuplicateKey ''idx_crawl_urls_hash''), w1)" "hashes w1 = hashes w" "failures w1 = failures w"
    using save_known_hash [OF assms(1,2)] by blast
  then show ?thesis
    using assms(3-5) by (simp add: resilient_save_def dcb_execute_def breaker_law_def wrapped_call_def no_throw_def consecutive_note_def)
qed


text \<open>A database that holds the hash \<open>h\<close>, with the failures the breaker counted as its world.\<close>

definition held_db :: "nat sql_db" where
  "held_db = \<lparr>sq_select_id = (\<lambda>i w. (Return [], w)), sq_select_hash = (\<lambda>h w. (Return [], w)),
     sq_insert = (\<lambda>u w. (Throw duplicate_error, w)), sq_insert_new = (\<lambda>us w. (Return [], w)),
     sq_select_pending = (\<lambda>d n w. (Return [], w)), sq_update = (\<lambda>i d w. (Return (), w))\<rparr>"

definition threshold_policy :: "nat \<Rightarrow> ('e, 'a, nat) policy_call \<Rightarrow> ('e, 'a, nat) policy_call" where
  "threshold_policy t f n = (if t \<le> n then (Inl BrokenCircuit, n) else case f n of (r, n') \<Rightarrow> (r, if isl r then Suc n' else 0))"

lemma threshold_policy_law:
  "breaker_law (threshold_policy t) (\<lambda>n. t \<le> n) (\<lambda>n. n) (\<lambda>failed n. if failed then Suc n else 0)"
  by (simp add: breaker_law_def threshold_policy_def)


section \<open>The publishing repository refines the plain one\<close>

datatype repo_call = SetContext int StatusChangeContext | UpdateStatus int string "DbFetchResult option" string

text \<open>
  The abstract repository runs the updates alone on the database \<open>'d\<close>; the decorated one runs on the
  database, the publisher \<open>'p\<close> and the map of contexts. The text in a call is the time at which it runs.
\<close>

fun plain_calls ::
  "(int \<Rightarrow> string \<Rightarrow> DbFetchResult option \<Rightarrow> 'd \<Rightarrow> (DataError, unit) result \<times> 'd) \<Rightarrow> repo_call list \<Rightarrow> 'd \<Rightarrow> (DataError, unit) result list \<times> 'd" where
  "plain_calls update [] d = ([], d)"
| "plain_calls update (SetContext i c # cs) d = plain_calls update cs d"
| "plain_calls update (UpdateStatus i s r now # cs) d =
     (case update i s r d of (x, d1) \<Rightarrow> (case plain_calls update cs d1 of (xs, d2) \<Rightarrow> (x # xs, d2)))"

fun publishing_calls ::
  "(int \<Rightarrow> string \<Rightarrow> DbFetchResult option \<Rightarrow> 'w \<Rightarrow> (DataError, unit) result \<times> 'w) \<Rightarrow>
     (string \<Rightarrow> StatusChangeEvent \<Rightarrow> 'w \<Rightarrow> (string, string) result \<times> 'w) \<Rightarrow> string \<Rightarrow> string \<Rightarrow>
     repo_call list \<Rightarrow> (int, StatusChangeContext) js_map \<Rightarrow> 'w \<Rightarrow> ((DataError, unit) result list \<times> (int, StatusChangeContext) js_map) \<times> 'w" where
  "publishing_calls update publish key src [] m w = (([], m), w)"
| "publishing_calls update publish key src (SetContext i c # cs) m w = publishing_calls update publish key src cs (setContext m i c) w"
| "publishing_calls update publish key src (UpdateStatus i s r now # cs) m w =
     (case publishing_updateStatus update publish key src now m i s r w of
        ((x, m1, warnings), w1) \<Rightarrow>
          (case publishing_calls update publish key src cs m1 w1 of ((xs, m2), w2) \<Rightarrow> ((x # xs, m2), w2)))"

definition on_database ::
  "(int \<Rightarrow> string \<Rightarrow> DbFetchResult option \<Rightarrow> 'd \<Rightarrow> (DataError, unit) result \<times> 'd) \<Rightarrow>
     int \<Rightarrow> string \<Rightarrow> DbFetchResult option \<Rightarrow> 'd \<times> 'p \<Rightarrow> (DataError, unit) result \<times> 'd \<times> 'p" where
  "on_database update i s r w = (case update i s r (fst w) of (x, d) \<Rightarrow> (x, (d, snd w)))"

definition on_publisher ::
  "(string \<Rightarrow> StatusChangeEvent \<Rightarrow> 'p \<Rightarrow> (string, string) result \<times> 'p) \<Rightarrow>
     string \<Rightarrow> StatusChangeEvent \<Rightarrow> 'd \<times> 'p \<Rightarrow> (string, string) result \<times> 'd \<times> 'p" where
  "on_publisher publish key e w = (case publish key e (snd w) of (x, p) \<Rightarrow> (x, (fst w, p)))"

lemma publishing_updateStatus_database:
  assumes "publishing_updateStatus (on_database update) (on_publisher publish) key src now m i s r (d, p) = ((x, m', warnings), (d', p'))"
  shows "update i s r d = (x, d') \<and> m' = jsmap_delete m i"
  using assms
  by (auto simp: publishing_updateStatus_def on_database_def on_publisher_def Let_def
      split: prod.splits sum.splits option.splits)

text \<open>C21: Publishing status events never shows in the repository: for every publisher, failing ones included, and every sequence of calls, the decorated repository answers exactly what the plain one answers and leaves the same database.\<close>

theorem publishing_refines_plain:
  "(case publishing_calls (on_database update) (on_publisher publish) key src cs m (d, p) of
      ((results, contexts), (d', p')) \<Rightarrow> (results, d')) = plain_calls update cs d"
proof (induction cs arbitrary: m d p)
  case (Cons c cs)
  show ?case
  proof (cases c)
    case (SetContext i ctx)
    then show ?thesis using Cons.IH by simp
  next
    case (UpdateStatus i s r now)
    obtain x m1 ws d1 p1 where step:
      "publishing_updateStatus (on_database update) (on_publisher publish) key src now m i s r (d, p) = ((x, m1, ws), (d1, p1))"
      by (metis prod.collapse)
    have "update i s r d = (x, d1)" by (rule conjunct1 [OF publishing_updateStatus_database [OF step]])
    then show ?thesis using UpdateStatus step Cons.IH [of m1 d1 p1] by (auto split: prod.splits)
  qed
qed simp

text \<open>The events: an update that succeeds publishes at most one event, with the context set for its row.\<close>

lemma publishing_updateStatus_events:
  assumes "publishing_updateStatus (on_database update) (on_publisher (\<lambda>k e es. (answer e, es @ [e]))) key src now m i s r (d, es)
    = ((x, m', warnings), (d', es'))"
  shows "es' = es @ (if isOk x then (case buildStatusEvent now i s r src (jsmap_get m i) of None \<Rightarrow> [] | Some e \<Rightarrow> [e]) else [])"
  using assms
  by (auto simp: publishing_updateStatus_def on_database_def on_publisher_def Let_def
      split: prod.splits sum.splits option.splits)

lemma buildStatusEvent_type:
  "map_option ev_type (buildStatusEvent now i s r src ctx) =
    (if s = ''fetched'' \<and> r \<noteq> None then Some ''CrawlCompleted'' else if s = ''failed'' then Some ''CrawlFailed'' else None)"
  by (simp add: buildStatusEvent_def Let_def)

text \<open>A failed update uses up its context: the event of a later, successful update of the row has no URL.\<close>

lemma failed_update_drops_context:
  assumes "publishing_updateStatus update publish key src now m i s r w = ((Err e, m', warnings), w')"
  shows "jsmap_get m' i = None"
  using assms
  by (auto simp: publishing_updateStatus_def Let_def jsmap_laws split: prod.splits sum.splits option.splits)

section \<open>The page store\<close>

text \<open>The object store as a map, with failed writes that may or may not have happened.\<close>

definition get_law :: "('w \<Rightarrow> string \<Rightarrow> 'b option) \<Rightarrow> string \<Rightarrow> 'w \<Rightarrow> 'b option completion \<times> 'w \<Rightarrow> bool" where
  "get_law objects k w res = (case res of
     (Return x, w') \<Rightarrow> x = objects w k \<and> objects w' = objects w | (Throw _, w') \<Rightarrow> objects w' = objects w)"

definition write_law :: "('w \<Rightarrow> string \<Rightarrow> 'b option) \<Rightarrow> string \<Rightarrow> 'b option \<Rightarrow> 'w \<Rightarrow> unit completion \<times> 'w \<Rightarrow> bool" where
  "write_law objects k v w res = (case res of
     (Return _, w') \<Rightarrow> objects w' = (objects w)(k := v)
   | (Throw _, w') \<Rightarrow> objects w' = objects w \<or> objects w' = (objects w)(k := v))"

definition object_store_law :: "('b, 'w) object_store \<Rightarrow> ('w \<Rightarrow> string \<Rightarrow> 'b option) \<Rightarrow> bool" where
  "object_store_law client objects \<longleftrightarrow>
     (\<forall>k w. get_law objects k w (os_get client k w))
   \<and> (\<forall>k v w. write_law objects k (Some v) w (os_put client k v w))
   \<and> (\<forall>k w. write_law objects k None w (os_delete client k w))"

lemma content_is_not_metadata: "contentKey k \<noteq> metadataKey k'"
proof
  assume "contentKey k = metadataKey k'"
  then have "last (contentKey k) = last (metadataKey k')" by simp
  then show False by (simp add: contentKey_def metadataKey_def)
qed

lemma append_sep_inj: "c \<notin> set a \<Longrightarrow> c \<notin> set b \<Longrightarrow> a @ c # x = b @ c # y \<longleftrightarrow> a = b \<and> x = y"
  by (induction a b rule: list_induct2') auto

text \<open>Distinct pages have distinct objects, because session ids, hosts and hashes contain no slash.\<close>

lemma contentKey_inj:
  assumes "CHR ''/'' \<notin> set (pk_sessionId k @ pk_domain k @ pk_sessionId k' @ pk_domain k')" and "contentKey k = contentKey k'"
  shows "k = k'"
  using assms by (cases k; cases k') (auto simp: contentKey_def append_sep_inj)

lemma write_other: "write_law objects k v w (r, w') \<Longrightarrow> k' \<noteq> k \<Longrightarrow> objects w' k' = objects w k'"
  by (cases r) (auto simp: write_law_def)

lemma both_writes:
  assumes "\<And>w. write_law objects k v w (f w)" and "\<And>w. write_law objects k2 v2 w (g w)" and "both f g w = (r, w')"
  shows "(\<exists>u. r = Return u \<and> objects w' = (objects w)(k := v, k2 := v2))
    \<or> (\<exists>e. r = Throw e \<and> (\<forall>k'. k' \<noteq> k \<longrightarrow> k' \<noteq> k2 \<longrightarrow> objects w' k' = objects w k'))"
proof -
  obtain r1 w1 where f: "f w = (r1, w1)" by fastforce
  obtain r2 w2 where g: "g w1 = (r2, w2)" by fastforce
  have "write_law objects k v w (r1, w1)" "write_law objects k2 v2 w1 (r2, w2)"
    using assms(1) [of w] assms(2) [of w1] f g by simp_all
  then show ?thesis
    using assms(3) f g by (cases r1; cases r2) (auto simp: both_def write_law_def)
qed

datatype ('b, 'c) page_call = StorePage 'b PageKey 'c | DeletePage PageKey

fun page_op_key :: "('b, 'c) page_call \<Rightarrow> PageKey" where
  "page_op_key (StorePage m k c) = k"
| "page_op_key (DeletePage k) = k"

fun page_op :: "('b, 'w) object_store \<Rightarrow> ('c \<Rightarrow> 'b completion) \<Rightarrow> ('b, 'c) page_call \<Rightarrow> 'w \<Rightarrow> (DataError, unit) result \<times> 'w" where
  "page_op client compress (StorePage m k c) w = s3_store client compress m k c w"
| "page_op client compress (DeletePage k) w = s3_delete client k w"

definition page_ops :: "('b, 'w) object_store \<Rightarrow> ('c \<Rightarrow> 'b completion) \<Rightarrow> ('b, 'c) page_call list \<Rightarrow> 'w \<Rightarrow> 'w" where
  "page_ops client compress ops w = fold (\<lambda>opr w. snd (page_op client compress opr w)) ops w"

lemma s3_store_objects:
  assumes "object_store_law client objects" and "s3_store client compress m k c w = (r, w')"
  shows "(r = Ok () \<longrightarrow> (\<exists>b. compress c = Return b \<and> objects w' (contentKey k) = Some b))
    \<and> (\<forall>k'. k' \<noteq> contentKey k \<longrightarrow> k' \<noteq> metadataKey k \<longrightarrow> objects w' k' = objects w k')"
proof (cases "compress c")
  case (Throw e)
  then show ?thesis using assms(2) by (auto simp: s3_store_def)
next
  case (Return b)
  obtain x w1 where w: "both (os_put client (contentKey k) b) (os_put client (metadataKey k) m) w = (x, w1)" by fastforce
  have "(\<exists>u. x = Return u \<and> objects w1 = (objects w)(contentKey k := Some b, metadataKey k := Some m))
    \<or> (\<exists>e. x = Throw e \<and> (\<forall>k'. k' \<noteq> contentKey k \<longrightarrow> k' \<noteq> metadataKey k \<longrightarrow> objects w1 k' = objects w k'))"
    by (rule both_writes [OF _ _ w]) (use assms(1) in \<open>auto simp: object_store_law_def\<close>)
  then show ?thesis
    using assms(2) w Return content_is_not_metadata [of k k] by (auto simp: s3_store_def)
qed

lemma s3_delete_objects:
  assumes "object_store_law client objects" and "s3_delete client k w = (r, w')"
  shows "(r = Ok () \<longrightarrow> objects w' (contentKey k) = None)
    \<and> (\<forall>k'. k' \<noteq> contentKey k \<longrightarrow> k' \<noteq> metadataKey k \<longrightarrow> objects w' k' = objects w k')"
proof -
  obtain x w1 where w: "both (os_delete client (contentKey k)) (os_delete client (metadataKey k)) w = (x, w1)" by fastforce
  have "(\<exists>u. x = Return u \<and> objects w1 = (objects w)(contentKey k := None, metadataKey k := None))
    \<or> (\<exists>e. x = Throw e \<and> (\<forall>k'. k' \<noteq> contentKey k \<longrightarrow> k' \<noteq> metadataKey k \<longrightarrow> objects w1 k' = objects w k'))"
    by (rule both_writes [OF _ _ w]) (use assms(1) in \<open>auto simp: object_store_law_def\<close>)
  then show ?thesis using assms(2) w by (auto simp: s3_delete_def)
qed

lemma page_ops_keep:
  assumes "object_store_law client objects" and "\<forall>opr \<in> set ops. contentKey (page_op_key opr) \<noteq> contentKey k"
  shows "objects (page_ops client compress ops w) (contentKey k) = objects w (contentKey k)"
  using assms(2)
proof (induction ops arbitrary: w)
  case (Cons opr ops)
  obtain r w1 where w1: "page_op client compress opr w = (r, w1)" by fastforce
  have "objects w1 (contentKey k) = objects w (contentKey k)"
  proof (cases opr)
    case (StorePage m k' c)
    then show ?thesis
      using s3_store_objects [OF assms(1), of compress m k' c w r w1] w1 Cons.prems content_is_not_metadata [of k k'] by auto
  next
    case (DeletePage k')
    then show ?thesis
      using s3_delete_objects [OF assms(1), of k' w r w1] w1 Cons.prems content_is_not_metadata [of k k'] by auto
  qed
  then show ?case using Cons w1 by (simp add: page_ops_def)
qed (simp add: page_ops_def)


definition map_store :: "('b, string \<Rightarrow> 'b option) object_store" where
  "map_store = \<lparr>os_put = (\<lambda>k v m. (Return (), m(k \<mapsto> v))), os_get = (\<lambda>k m. (Return (m k), m)),
     os_delete = (\<lambda>k m. (Return (), m(k := None)))\<rparr>"

definition demo_page :: "string \<Rightarrow> PageKey" where
  "demo_page h = \<lparr>pk_sessionId = ''s1'', pk_domain = ''example.com'', pk_urlHash = h\<rparr>"


end
