(* ===== verification/DatabaseConnection.thy ===== *)
theory DatabaseConnection
  imports Database ComponentConfig CompositionRoot
begin

text \<open>
  packages/database/src: the pool as an object (pool.ts), the construction of the circuit breaker
  (circuit-breaker.ts), the repositories as objects with the methods of their ports, and the shutdown
  handle with its signal listeners (shutdown.ts). What \<open>pg.Pool\<close> and the breaker library build is a
  parameter: a function from the options to the object.
\<close>

section \<open>pool.ts\<close>

record PgPoolOptions =
  pp_connectionString :: string
  pp_min :: int
  pp_max :: int
  pp_idleTimeoutMillis :: int
  pp_connectionTimeoutMillis :: int
  pp_statement_timeout :: int

record ('c, 'q, 'v, 'w) pg_pool =
  pg_connect :: "'w \<Rightarrow> 'c completion \<times> 'w"
  pg_query :: "string \<Rightarrow> 'v \<Rightarrow> 'w \<Rightarrow> 'q completion \<times> 'w"
  pg_totalCount :: "'w \<Rightarrow> int"
  pg_idleCount :: "'w \<Rightarrow> int"
  pg_waitingCount :: "'w \<Rightarrow> int"
  pg_end :: "'w \<Rightarrow> unit completion \<times> 'w"

record ('c, 'q, 'v, 'w) DatabasePool =
  dp_connect :: "'w \<Rightarrow> (DataError, 'c) result \<times> 'w"
  dp_query :: "string \<Rightarrow> 'v \<Rightarrow> 'w \<Rightarrow> (DataError, 'q) result \<times> 'w"
  dp_totalCount :: "'w \<Rightarrow> int"
  dp_idleCount :: "'w \<Rightarrow> int"
  dp_waitingCount :: "'w \<Rightarrow> int"
  dp_end :: "'w \<Rightarrow> unit completion \<times> 'w"
  dp_asyncDispose :: "'w \<Rightarrow> unit completion \<times> 'w"

definition pool_options :: "PoolConfig \<Rightarrow> PgPoolOptions" where
  "pool_options config =
     \<lparr>pp_connectionString = pc_connectionString config, pp_min = pc_min config, pp_max = pc_max config,
      pp_idleTimeoutMillis = pc_idleTimeoutMillis config, pp_connectionTimeoutMillis = pc_connectionTimeoutMillis config,
      pp_statement_timeout = pc_statementTimeout config\<rparr>"

definition createPool :: "(PgPoolOptions \<Rightarrow> ('c, 'q, 'v, 'w) pg_pool) \<Rightarrow> PoolConfig \<Rightarrow> ('c, 'q, 'v, 'w) DatabasePool" where
  "createPool Pool config =
     (let pool = Pool (pool_options config)
      in \<lparr>dp_connect = pool_connect (pg_connect pool),
          dp_query = (\<lambda>text values. pool_query (pg_query pool text values) (pc_statementTimeout config)),
          dp_totalCount = pg_totalCount pool, dp_idleCount = pg_idleCount pool, dp_waitingCount = pg_waitingCount pool,
          dp_end = pool_end (pg_end pool), dp_asyncDispose = pool_end (pg_end pool)\<rparr>)"

section \<open>circuit-breaker.ts\<close>

record BreakerOptions =
  op_halfOpenAfter :: int
  op_threshold :: int

text \<open>\<open>circuitBreaker(handleAll, \<dots>)\<close> builds the policy from these options.\<close>

definition createDatabaseCircuitBreaker ::
  "(BreakerOptions \<Rightarrow> (DataError, 'a, 'w) policy_call \<Rightarrow> (DataError, 'a, 'w) policy_call) \<Rightarrow> CircuitBreakerConfig
     \<Rightarrow> ('w \<Rightarrow> (thrown + (DataError, 'a) result) \<times> 'w) \<Rightarrow> 'w \<Rightarrow> (DataError, 'a) result \<times> 'w" where
  "createDatabaseCircuitBreaker circuitBreaker config =
     dcb_execute (circuitBreaker \<lparr>op_halfOpenAfter = cb_halfOpenAfterMs config, op_threshold = cb_threshold config\<rparr>)"

section \<open>The repositories\<close>

record 'w CrawlURLRepository =
  rp_findById :: "int \<Rightarrow> 'w \<Rightarrow> (DataError, CrawlURL option) result \<times> 'w"
  rp_findByHash :: "string \<Rightarrow> 'w \<Rightarrow> (DataError, CrawlURL option) result \<times> 'w"
  rp_save :: "NewCrawlURL \<Rightarrow> 'w \<Rightarrow> (DataError, CrawlURL) result \<times> 'w"
  rp_saveBatch :: "NewCrawlURL list \<Rightarrow> 'w \<Rightarrow> (DataError, int) result \<times> 'w"
  rp_findPendingByDomain :: "string \<Rightarrow> int \<Rightarrow> 'w \<Rightarrow> (DataError, CrawlURL list) result \<times> 'w"
  rp_updateStatus :: "int \<Rightarrow> string \<Rightarrow> DbFetchResult option \<Rightarrow> 'w \<Rightarrow> (DataError, unit) result \<times> 'w"

definition createDrizzleCrawlURLRepository :: "'w sql_db \<Rightarrow> 'w CrawlURLRepository" where
  "createDrizzleCrawlURLRepository db =
     \<lparr>rp_findById = findById db, rp_findByHash = findByHash db, rp_save = repo_save db, rp_saveBatch = saveBatch db,
      rp_findPendingByDomain = findPendingByDomain db, rp_updateStatus = updateStatus db\<rparr>"

record EventPublishingConfig =
  ep_streamKey :: string
  ep_source :: string

text \<open>
  The decorator over any repository: its state is the map of contexts and the warnings, beside the world
  of the repository and the publisher. The methods it does not change are those of the repository.
\<close>

type_synonym 'w publishing_state = "((int, StatusChangeContext) js_map \<times> log_line list) \<times> 'w"

definition unchanged :: "('w \<Rightarrow> 'r \<times> 'w) \<Rightarrow> 's \<times> 'w \<Rightarrow> 'r \<times> 's \<times> 'w" where
  "unchanged f s = (case f (snd s) of (r, w) \<Rightarrow> (r, (fst s, w)))"

definition createEventPublishingCrawlURLRepository ::
  "'w CrawlURLRepository \<Rightarrow> (string \<Rightarrow> StatusChangeEvent \<Rightarrow> 'w \<Rightarrow> (string, string) result \<times> 'w) \<Rightarrow> EventPublishingConfig \<Rightarrow> ('w \<Rightarrow> string)
     \<Rightarrow> 'w publishing_state CrawlURLRepository \<times> (int \<Rightarrow> StatusChangeContext \<Rightarrow> 'w publishing_state \<Rightarrow> 'w publishing_state)" where
  "createEventPublishingCrawlURLRepository repo publish config now =
     (\<lparr>rp_findById = (\<lambda>i. unchanged (rp_findById repo i)),
       rp_findByHash = (\<lambda>h. unchanged (rp_findByHash repo h)),
       rp_save = (\<lambda>u. unchanged (rp_save repo u)),
       rp_saveBatch = (\<lambda>us. unchanged (rp_saveBatch repo us)),
       rp_findPendingByDomain = (\<lambda>d n. unchanged (rp_findPendingByDomain repo d n)),
       rp_updateStatus = (\<lambda>i status result ((contexts, logs), w).
          case publishing_updateStatus (rp_updateStatus repo) publish (ep_streamKey config) (ep_source config) (now w)
                 contexts i status result w of
            ((r, contexts', warnings), w') \<Rightarrow> (r, ((contexts', logs @ warnings), w')))\<rparr>,
      \<lambda>i ctx ((contexts, logs), w). ((setContext contexts i ctx, logs), w))"

record ('c, 'm, 'w) PageContentRepository =
  pr_store :: "PageKey \<Rightarrow> 'c \<Rightarrow> 'm \<Rightarrow> 'w \<Rightarrow> (DataError, unit) result \<times> 'w"
  pr_retrieve :: "PageKey \<Rightarrow> 'w \<Rightarrow> (DataError, 'c) result \<times> 'w"
  pr_delete :: "PageKey \<Rightarrow> 'w \<Rightarrow> (DataError, unit) result \<times> 'w"

text \<open>The client, the compression both ways and \<open>JSON.stringify\<close> are arguments.\<close>

definition createS3PageContentRepository ::
  "('b, 'w) object_store \<Rightarrow> ('c \<Rightarrow> 'b completion) \<Rightarrow> ('b \<Rightarrow> 'c completion) \<Rightarrow> ('m \<Rightarrow> 'b) \<Rightarrow> ('c, 'm, 'w) PageContentRepository" where
  "createS3PageContentRepository client compress decompress stringify =
     \<lparr>pr_store = (\<lambda>key content metadata. s3_store client compress (stringify metadata) key content),
      pr_retrieve = s3_retrieve client decompress, pr_delete = s3_delete client\<rparr>"

section \<open>shutdown.ts\<close>

text \<open>
  The handle registers one listener for each of the two signals. The state keeps the flag, the signals
  listened to, and the calls of \<open>onShutdown\<close> and of \<open>pool.end()\<close> in order.
\<close>

datatype shutdown_effect = OnShutdownCalled | PoolEndCalled

record ShutdownHandle =
  hd_shuttingDown :: bool
  hd_listeners :: "Signal list"
  hd_effects :: "shutdown_effect list"

definition createShutdownHandle :: ShutdownHandle where
  "createShutdownHandle = \<lparr>hd_shuttingDown = False, hd_listeners = [SIGTERM, SIGINT], hd_effects = []\<rparr>"

definition handle_shutdown :: "bool \<Rightarrow> ShutdownHandle \<Rightarrow> ShutdownHandle" where
  "handle_shutdown has_callback h =
     (if hd_shuttingDown h then h
      else h\<lparr>hd_shuttingDown := True,
             hd_effects := hd_effects h @ (if has_callback then [OnShutdownCalled] else []) @ [PoolEndCalled]\<rparr>)"

definition handle_dispose :: "ShutdownHandle \<Rightarrow> ShutdownHandle" where
  "handle_dispose h = h\<lparr>hd_listeners := remove1 SIGINT (remove1 SIGTERM (hd_listeners h))\<rparr>"

datatype handle_event = HandleSignal Signal | HandleShutdown | HandleDispose

fun handle_step :: "bool \<Rightarrow> ShutdownHandle \<Rightarrow> handle_event \<Rightarrow> ShutdownHandle" where
  "handle_step cb h (HandleSignal s) = (if s \<in> set (hd_listeners h) then handle_shutdown cb h else h)"
| "handle_step cb h HandleShutdown = handle_shutdown cb h"
| "handle_step cb h HandleDispose = handle_dispose h"

definition handle_inv :: "bool \<Rightarrow> ShutdownHandle \<Rightarrow> bool" where
  "handle_inv cb h \<longleftrightarrow>
     hd_effects h = (if hd_shuttingDown h then (if cb then [OnShutdownCalled] else []) @ [PoolEndCalled] else [])"

lemma handle_inv_step: "handle_inv cb h \<Longrightarrow> handle_inv cb (handle_step cb h e)"
  by (cases e) (auto simp: handle_inv_def handle_shutdown_def handle_dispose_def)

interpretation handle: step_system "handle_step cb" "handle_inv cb" for cb
  by unfold_locales (rule handle_inv_step)

text \<open>Whatever the order of signals, calls and the disposal: the pool is ended at most once, after the callback.\<close>

lemma pool_ended_once:
  "hd_effects (foldl (handle_step cb) createShutdownHandle es) \<in> {[], (if cb then [OnShutdownCalled] else []) @ [PoolEndCalled]}"
proof -
  have "handle_inv cb (foldl (handle_step cb) createShutdownHandle es)"
    by (rule handle.run_inv) (simp add: handle_inv_def createShutdownHandle_def)
  then show ?thesis by (simp add: handle_inv_def split: if_splits)
qed

text \<open>After the disposal only an explicit call shuts the pool down.\<close>

lemma disposed_ignores_signals:
  "\<forall>e\<in>set es. e \<noteq> HandleShutdown \<Longrightarrow> hd_effects (foldl (handle_step cb) createShutdownHandle (HandleDispose # es)) = []"
proof -
  have "foldl (handle_step cb) h es = h" if "hd_listeners h = []" "\<forall>e\<in>set es. e \<noteq> HandleShutdown" for h
    using that
  proof (induction es arbitrary: h)
    case (Cons e es)
    have "handle_step cb h e = h" using Cons.prems by (cases e) (auto simp: handle_dispose_def)
    with Cons show ?case by simp
  qed simp
  then show "\<forall>e\<in>set es. e \<noteq> HandleShutdown \<Longrightarrow> hd_effects (foldl (handle_step cb) createShutdownHandle (HandleDispose # es)) = []"
    by (simp add: createShutdownHandle_def handle_dispose_def)
qed

section \<open>The decorated repository\<close>

text \<open>Reads and saves through the decorator are those of the repository beneath it.\<close>

lemma publishing_reads_unchanged:
  assumes "d = fst (createEventPublishingCrawlURLRepository repo publish config now)"
  shows "rp_findById d i (s, w) = (fst (rp_findById repo i w), (s, snd (rp_findById repo i w)))"
    and "rp_findByHash d h (s, w) = (fst (rp_findByHash repo h w), (s, snd (rp_findByHash repo h w)))"
    and "rp_save d u (s, w) = (fst (rp_save repo u w), (s, snd (rp_save repo u w)))"
  by (simp_all add: assms createEventPublishingCrawlURLRepository_def unchanged_def split_beta)

text \<open>A query that fails with a timeout names the configured statement timeout, any other failure is a failed connection.\<close>

lemma pool_query_errors:
  "dp_query (createPool Pool config) text values w = (Err e, w') \<Longrightarrow>
     e = createTimeout ''query'' (pc_statementTimeout config) \<or> (\<exists>cause. e = createConnectionFailed cause)"
  by (auto simp: createPool_def pool_query_def Let_def split: prod.splits completion.splits thrown.splits if_splits)

end
