(* ===== verification/UrlStore.thy ===== *)
theory UrlStore
  imports DatabaseConnection
begin

text \<open>
  The contract of the port \<open>CrawlURLRepository\<close> (repositories/crawl-url-repository.ts) as a store of pages by
  hash, and its providers: the drizzle repository over the table of schema/crawl-urls.ts, and the
  repository behind the circuit breaker over any provider. What PostgreSQL promises of the statements the
  repository runs are the assumptions of the locale \<open>sql_table\<close>.
\<close>

section \<open>schema/crawl-urls.ts\<close>

text \<open>A new row: the identity, the values of the insert, and the default or \<open>NULL\<close> of every other column.\<close>

definition crawlUrls_row :: "int \<Rightarrow> int \<Rightarrow> NewCrawlURL \<Rightarrow> CrawlURL" where
  "crawlUrls_row i now u =
     \<lparr>ur_id = i, ur_url = nu_url u, ur_urlHash = nu_urlHash u, ur_domain = nu_domain u, ur_status = ''pending'',
      ur_statusCode = None, ur_contentType = None, ur_s3Key = None, ur_depth = nu_depth u, ur_discoveredAt = now,
      ur_fetchedAt = None, ur_parentUrlId = nu_parentUrlId u, ur_metadata = nu_metadata u\<rparr>"

text \<open>The columns \<open>updateStatus\<close> sets, on a row.\<close>

definition updated_row :: "int \<Rightarrow> update_data \<Rightarrow> CrawlURL \<Rightarrow> CrawlURL" where
  "updated_row now d r =
     (let r1 = r\<lparr>ur_status := ud_status d\<rparr>;
          r2 = (case ud_result d of None \<Rightarrow> r1
                | Some f \<Rightarrow> r1\<lparr>ur_statusCode := Some (df_statusCode f), ur_contentType := df_contentType f, ur_s3Key := df_s3Key f\<rparr>)
      in if ud_fetchedNow d then r2\<lparr>ur_fetchedAt := Some now\<rparr> else r2)"

section \<open>resilient-crawl-url-repository.ts\<close>

text \<open>The breaker's policy at the five result types of the port.\<close>

definition createResilientCrawlURLRepository ::
  "'w CrawlURLRepository \<Rightarrow>
     ((DataError, CrawlURL option, 'w) policy_call \<Rightarrow> (DataError, CrawlURL option, 'w) policy_call) \<Rightarrow>
     ((DataError, CrawlURL, 'w) policy_call \<Rightarrow> (DataError, CrawlURL, 'w) policy_call) \<Rightarrow>
     ((DataError, int, 'w) policy_call \<Rightarrow> (DataError, int, 'w) policy_call) \<Rightarrow>
     ((DataError, CrawlURL list, 'w) policy_call \<Rightarrow> (DataError, CrawlURL list, 'w) policy_call) \<Rightarrow>
     ((DataError, unit, 'w) policy_call \<Rightarrow> (DataError, unit, 'w) policy_call) \<Rightarrow> 'w CrawlURLRepository" where
  "createResilientCrawlURLRepository repo p_find p_save p_batch p_list p_update =
     \<lparr>rp_findById = (\<lambda>i. dcb_execute p_find (no_throw (rp_findById repo i))),
      rp_findByHash = (\<lambda>h. dcb_execute p_find (no_throw (rp_findByHash repo h))),
      rp_save = (\<lambda>u. dcb_execute p_save (no_throw (rp_save repo u))),
      rp_saveBatch = (\<lambda>us. dcb_execute p_batch (no_throw (rp_saveBatch repo us))),
      rp_findPendingByDomain = (\<lambda>d n. dcb_execute p_list (no_throw (rp_findPendingByDomain repo d n))),
      rp_updateStatus = (\<lambda>i s r. dcb_execute p_update (no_throw (rp_updateStatus repo i s r)))\<rparr>"

lemma resilient_over_drizzle:
  "rp_save (createResilientCrawlURLRepository (createDrizzleCrawlURLRepository db) p1 p2 p3 p4 p5) = resilient_save p2 db"
  "rp_findByHash (createResilientCrawlURLRepository (createDrizzleCrawlURLRepository db) p1 p2 p3 p4 p5) = resilient_findByHash p1 db"
  by (simp_all add: createResilientCrawlURLRepository_def createDrizzleCrawlURLRepository_def resilient_save_def
      resilient_findByHash_def fun_eq_iff)

section \<open>The contract\<close>

text \<open>The operations of the port, and what they answer.\<close>

datatype repo_op = OpFindById int | OpFindByHash string | OpSave NewCrawlURL | OpSaveBatch "NewCrawlURL list"
  | OpFindPending string int | OpUpdateStatus int string "DbFetchResult option"

datatype repo_answer = AnUrl "(DataError, CrawlURL option) result" | AnSaved "(DataError, CrawlURL) result"
  | AnCount "(DataError, int) result" | AnPending "(DataError, CrawlURL list) result" | AnDone "(DataError, unit) result"

fun repo_do :: "'w CrawlURLRepository \<Rightarrow> repo_op \<Rightarrow> 'w \<Rightarrow> repo_answer \<times> 'w" where
  "repo_do repo (OpFindById i) w = map_prod AnUrl id (rp_findById repo i w)"
| "repo_do repo (OpFindByHash h) w = map_prod AnUrl id (rp_findByHash repo h w)"
| "repo_do repo (OpSave u) w = map_prod AnSaved id (rp_save repo u w)"
| "repo_do repo (OpSaveBatch us) w = map_prod AnCount id (rp_saveBatch repo us w)"
| "repo_do repo (OpFindPending d n) w = map_prod AnPending id (rp_findPendingByDomain repo d n w)"
| "repo_do repo (OpUpdateStatus i s r) w = map_prod AnDone id (rp_updateStatus repo i s r w)"

text \<open>A store of pages by their hash. Every error leaves it as it was.\<close>

type_synonym url_store = "string \<rightharpoonup> CrawlURL"

definition fresh_page :: "url_store \<Rightarrow> NewCrawlURL \<Rightarrow> CrawlURL \<Rightarrow> bool" where
  "fresh_page s u x \<longleftrightarrow> (\<exists>now. x = crawlUrls_row (ur_id x) now (insert_values u)) \<and> (\<forall>y \<in> ran s. ur_id y \<noteq> ur_id x)"

definition pending_of :: "url_store \<Rightarrow> string \<Rightarrow> CrawlURL set" where
  "pending_of s d = {x \<in> ran s. ur_domain x = d \<and> ur_status x = ''pending''}"

text \<open>A batch adds the pages whose hash is new, one for each hash, and answers how many.\<close>

definition batch_spec :: "NewCrawlURL list \<Rightarrow> url_store \<Rightarrow> int \<Rightarrow> url_store \<Rightarrow> bool" where
  "batch_spec us s n s' \<longleftrightarrow> s \<subseteq>\<^sub>m s' \<and> dom s' = dom s \<union> nu_urlHash ` set us \<and> n = int (card (dom s' - dom s))
     \<and> (\<forall>h \<in> dom s' - dom s. \<exists>u \<in> set us. nu_urlHash u = h \<and> fresh_page s u (the (s' h)))
     \<and> inj_on (\<lambda>h. ur_id (the (s' h))) (dom s' - dom s)"

lemma batch_spec_none: "batch_spec [] s 0 s"
  by (simp add: batch_spec_def)

fun repo_spec :: "repo_op \<Rightarrow> url_store \<Rightarrow> repo_answer \<Rightarrow> url_store \<Rightarrow> bool" where
  "repo_spec (OpFindById i) s (AnUrl r) s' = (s' = s \<and> (case r of
     Ok None \<Rightarrow> (\<forall>x \<in> ran s. ur_id x \<noteq> i) | Ok (Some x) \<Rightarrow> x \<in> ran s \<and> ur_id x = i | Err _ \<Rightarrow> True))"
| "repo_spec (OpFindByHash h) s (AnUrl r) s' = (s' = s \<and> (case r of Ok x \<Rightarrow> x = s h | Err _ \<Rightarrow> True))"
| "repo_spec (OpSave u) s (AnSaved r) s' = (case r of
     Ok x \<Rightarrow> s (nu_urlHash u) = None \<and> fresh_page s u x \<and> s' = s(nu_urlHash u \<mapsto> x)
   | Err e \<Rightarrow> s' = s \<and> (e = createDuplicateKey ''idx_crawl_urls_hash'' \<longrightarrow> s (nu_urlHash u) \<noteq> None))"
| "repo_spec (OpSaveBatch us) s (AnCount r) s' = (case r of
     Ok n \<Rightarrow> batch_spec us s n s'
   | Err e \<Rightarrow> s' = s)"
| "repo_spec (OpFindPending d n) s (AnPending r) s' = (s' = s \<and> (case r of
     Ok rs \<Rightarrow> distinct rs \<and> set rs \<subseteq> pending_of s d \<and> length rs = min (nat n) (card (pending_of s d)) | Err _ \<Rightarrow> True))"
| "repo_spec (OpUpdateStatus i st f) s (AnDone r) s' = (case r of
     Ok _ \<Rightarrow> (\<exists>now. s' = (\<lambda>h. map_option (\<lambda>x. if ur_id x = i then updated_row now (update_values st f) x else x) (s h)))
   | Err _ \<Rightarrow> s' = s)"
| "repo_spec _ s _ s' = False"

text \<open>Pages are kept under their hash, with ids of their own.\<close>

definition store_ok :: "url_store \<Rightarrow> bool" where
  "store_ok s \<longleftrightarrow> (\<forall>h x. s h = Some x \<longrightarrow> ur_urlHash x = h) \<and> (\<forall>x \<in> ran s. \<forall>y \<in> ran s. ur_id x = ur_id y \<longrightarrow> x = y)"

text \<open>What no operation changes of a page.\<close>

definition page_identity :: "CrawlURL \<Rightarrow> int \<times> string \<times> string \<times> string \<times> int \<times> int \<times> int option \<times> json_object option" where
  "page_identity x = (ur_id x, ur_url x, ur_urlHash x, ur_domain x, ur_depth x, ur_discoveredAt x, ur_parentUrlId x, ur_metadata x)"

lemma updated_row_identity [simp]:
  "page_identity (updated_row now d x) = page_identity x" "ur_urlHash (updated_row now d x) = ur_urlHash x"
  "ur_id (updated_row now d x) = ur_id x" "ur_metadata (updated_row now d x) = ur_metadata x"
  by (simp_all add: page_identity_def updated_row_def Let_def split: option.split)

lemma crawlUrls_row_simps [simp]:
  "ur_id (crawlUrls_row i now u) = i" "ur_urlHash (crawlUrls_row i now u) = nu_urlHash u"
  "ur_metadata (crawlUrls_row i now u) = nu_metadata u" "nu_urlHash (insert_values u) = nu_urlHash u"
  by (simp_all add: crawlUrls_row_def insert_values_def)

lemma map_le_Some: "s \<subseteq>\<^sub>m s' \<Longrightarrow> s h = Some x \<Longrightarrow> s' h = Some x"
  by (metis domI map_le_def)

lemma repo_spec_keeps:
  "repo_spec op s a s' \<Longrightarrow> s h = Some x \<Longrightarrow> \<exists>y. s' h = Some y \<and> page_identity y = page_identity x"
  by (induction op s a s' rule: repo_spec.induct) (auto simp: batch_spec_def dest: map_le_Some split: sum.splits if_splits)

fun repo_runs :: "'w CrawlURLRepository \<Rightarrow> repo_op list \<Rightarrow> 'w \<Rightarrow> repo_answer list \<times> 'w" where
  "repo_runs repo [] w = ([], w)"
| "repo_runs repo (op # ops) w = (case repo_do repo op w of (a, w1) \<Rightarrow> (case repo_runs repo ops w1 of (as, w2) \<Rightarrow> (a # as, w2)))"

fun spec_runs :: "repo_op list \<Rightarrow> url_store \<Rightarrow> repo_answer list \<Rightarrow> url_store \<Rightarrow> bool" where
  "spec_runs [] s [] s' = (s' = s)"
| "spec_runs (op # ops) s (a # as) s' = (\<exists>s1. repo_spec op s a s1 \<and> spec_runs ops s1 as s')"
| "spec_runs _ _ _ _ = False"

lemma spec_runs_keeps:
  "spec_runs ops s as s' \<Longrightarrow> s h = Some x \<Longrightarrow> \<exists>y. s' h = Some y \<and> page_identity y = page_identity x"
proof (induction ops s as s' arbitrary: x rule: spec_runs.induct)
  case (2 op ops s a as s')
  then show ?case by (metis repo_spec_keeps spec_runs.simps(2))
qed auto

text \<open>The interface: a repository, the store its world holds, and the worlds it keeps.\<close>

locale url_repository =
  fixes repo :: "'w CrawlURLRepository"
    and store :: "'w \<Rightarrow> url_store"
    and good :: "'w \<Rightarrow> bool"
  assumes step: "good w \<Longrightarrow> repo_do repo op w = (a, w') \<Longrightarrow> good w' \<and> repo_spec op (store w) a (store w')"
begin

lemma runs: "good w \<Longrightarrow> repo_runs repo ops w = (as, w') \<Longrightarrow> good w' \<and> spec_runs ops (store w) as (store w')"
proof (induction ops arbitrary: w as)
  case (Cons op ops)
  obtain a w1 as' where "repo_do repo op w = (a, w1)" "repo_runs repo ops w1 = (as', w')" "as = a # as'"
    using Cons.prems by (auto split: prod.splits)
  then show ?case using step [OF Cons.prems(1)] Cons.IH by (metis spec_runs.simps(2))
qed simp

text \<open>A saved page is found under its hash ever after, as the page it was, unless the lookup fails.\<close>

lemma saved_stays:
  assumes "good w" and "rp_save repo u w = (Ok x, w1)" and "repo_runs repo ops w1 = (as, w2)"
    and "rp_findByHash repo (nu_urlHash u) w2 = (Ok r, w3)"
  shows "\<exists>y. r = Some y \<and> page_identity y = page_identity x"
proof -
  have s: "good w1" "store w1 (nu_urlHash u) = Some x"
    using step [OF assms(1), of "OpSave u"] assms(2) by auto
  then obtain y where "good w2" "store w2 (nu_urlHash u) = Some y" "page_identity y = page_identity x"
    using runs [OF s(1) assms(3)] spec_runs_keeps by blast
  then show ?thesis using step [of w2 "OpFindByHash (nu_urlHash u)"] assms(4) by auto
qed

lemma saved_once:
  assumes "good w" and "rp_save repo u w = (Ok x, w1)" and "repo_runs repo ops w1 = (as, w2)"
    and "rp_save repo v w2 = (r, w3)" and "nu_urlHash v = nu_urlHash u"
  shows "\<exists>e. r = Err e"
proof -
  have s: "good w1" "store w1 (nu_urlHash u) = Some x"
    using step [OF assms(1), of "OpSave u"] assms(2) by auto
  then have "good w2" "store w2 (nu_urlHash u) \<noteq> None"
    using runs [OF s(1) assms(3)] spec_runs_keeps by blast+
  then show ?thesis using step [of w2 "OpSave v"] assms(4,5) by (cases r) auto
qed

end

section \<open>The table\<close>

definition rows_ok :: "CrawlURL list \<Rightarrow> bool" where
  "rows_ok rs \<longleftrightarrow> distinct (map ur_id rs) \<and> distinct (map ur_urlHash rs) \<and> (\<forall>r \<in> set rs. ur_metadata r \<noteq> None)"

definition store_of :: "CrawlURL list \<Rightarrow> url_store" where
  "store_of rs = map_of (map (\<lambda>r. (ur_urlHash r, r)) rs)"

lemma store_of_Some: "rows_ok rs \<Longrightarrow> store_of rs h = Some r \<longleftrightarrow> r \<in> set rs \<and> ur_urlHash r = h"
  by (auto simp: store_of_def rows_ok_def comp_def dest: map_of_SomeD intro!: map_of_is_SomeI)

lemma store_of_None: "store_of rs h = None \<longleftrightarrow> h \<notin> ur_urlHash ` set rs"
  by (auto simp: store_of_def map_of_eq_None_iff image_image)

lemma ran_store_of: "rows_ok rs \<Longrightarrow> ran (store_of rs) = set rs"
  by (auto simp: ran_def store_of_Some)

lemma dom_store_of: "dom (store_of rs) = ur_urlHash ` set rs"
  by (rule set_eqI) (metis domIff store_of_None)

lemma map_eqI: "(\<And>h r. f h = Some r \<longleftrightarrow> g h = Some r) \<Longrightarrow> f = g"
  by (rule ext) (metis option.exhaust)

lemma rows_ok_append:
  "rows_ok (rs @ new) \<longleftrightarrow> rows_ok rs \<and> rows_ok new \<and> ur_id ` set rs \<inter> ur_id ` set new = {} \<and> ur_urlHash ` set rs \<inter> ur_urlHash ` set new = {}"
  by (auto simp: rows_ok_def)

lemma rows_ok_store: "rows_ok rs \<Longrightarrow> store_ok (store_of rs)"
  by (auto simp: store_ok_def ran_store_of store_of_Some) (metis rows_ok_def distinct_map inj_onD)

lemma toDomain_row: "rows_ok rs \<Longrightarrow> r \<in> set rs \<Longrightarrow> toDomain r = r"
  by (auto simp: rows_ok_def toDomain_def)

lemma first_row_found: "rows_ok rs \<Longrightarrow> first_row (take (Suc 0) (filter P rs)) = find P rs"
proof (induction rs)
  case (Cons r rs)
  then show ?case by (cases "P r") (auto simp: first_row_def rows_ok_def toDomain_def)
qed (simp add: first_row_def)

lemma find_store: "rows_ok rs \<Longrightarrow> find (\<lambda>r. ur_urlHash r = h) rs = store_of rs h"
  by (induction rs) (auto simp: store_of_def rows_ok_def)

text \<open>
  PostgreSQL over the table: a read answers rows and changes nothing, an insert adds the new row with an id of
  its own unless the unique index refuses the hash, the insert of a batch skips the hashes it has, an update
  changes the row of the id; a statement that fails changes nothing.
\<close>

locale sql_table =
  fixes rows :: "'w \<Rightarrow> CrawlURL list"
    and db :: "'w sql_db"
  assumes select_id: "sq_select_id db i w = (c, w') \<Longrightarrow>
      rows w' = rows w \<and> (case c of Return rs \<Rightarrow> rs = take 1 (filter (\<lambda>r. ur_id r = i) (rows w)) | Throw _ \<Rightarrow> True)"
    and select_hash: "sq_select_hash db h w = (c, w') \<Longrightarrow>
      rows w' = rows w \<and> (case c of Return rs \<Rightarrow> rs = take 1 (filter (\<lambda>r. ur_urlHash r = h) (rows w)) | Throw _ \<Rightarrow> True)"
    and select_pending: "sq_select_pending db d n w = (c, w') \<Longrightarrow>
      rows w' = rows w \<and> (case c of
        Return rs \<Rightarrow> distinct rs \<and> set rs \<subseteq> set (filter (\<lambda>r. ur_domain r = d \<and> ur_status r = ''pending'') (rows w))
          \<and> length rs = min (nat n) (length (filter (\<lambda>r. ur_domain r = d \<and> ur_status r = ''pending'') (rows w)))
      | Throw _ \<Rightarrow> True)"
    and insert: "sq_insert db u w = (c, w') \<Longrightarrow> (case c of
        Return rs \<Rightarrow> nu_urlHash u \<notin> ur_urlHash ` set (rows w)
          \<and> (\<exists>i now. i \<notin> ur_id ` set (rows w) \<and> rs = [crawlUrls_row i now u] \<and> rows w' = rows w @ rs)
      | Throw t \<Rightarrow> rows w' = rows w \<and> (isDuplicateKeyError t \<longrightarrow> nu_urlHash u \<in> ur_urlHash ` set (rows w)))"
    and insert_new: "sq_insert_new db us w = (ci, w') \<Longrightarrow> (case ci of
        Return ids \<Rightarrow> \<exists>new. rows w' = rows w @ new \<and> ids = map ur_id new
          \<and> distinct ids \<and> set ids \<inter> ur_id ` set (rows w) = {}
          \<and> distinct (map ur_urlHash new) \<and> ur_urlHash ` set new = nu_urlHash ` set us - ur_urlHash ` set (rows w)
          \<and> (\<forall>r \<in> set new. \<exists>u \<in> set us. \<exists>now. r = crawlUrls_row (ur_id r) now u)
      | Throw _ \<Rightarrow> rows w' = rows w)"
    and update: "sq_update db i v w = (cu, w') \<Longrightarrow> (case cu of
        Return _ \<Rightarrow> \<exists>now. rows w' = map (\<lambda>r. if ur_id r = i then updated_row now v r else r) (rows w)
      | Throw _ \<Rightarrow> rows w' = rows w)"
begin

abbreviation "table w \<equiv> store_of (rows w)"
abbreviation "good w \<equiv> rows_ok (rows w)"

lemma findById_step: "good w \<Longrightarrow> findById db i w = (r, w') \<Longrightarrow> good w' \<and> repo_spec (OpFindById i) (table w) (AnUrl r) (table w')"
proof -
  assume ok: "good w" and run: "findById db i w = (r, w')"
  obtain c where c: "sq_select_id db i w = (c, w')" "r = (case c of Return rs \<Rightarrow> Ok (first_row rs) | Throw t \<Rightarrow> Err (createQueryFailed ''findById'' t))"
    using run by (auto simp: findById_def split: prod.splits completion.splits)
  show ?thesis
    using select_id [OF c(1)] c(2) ok
    by (auto simp: first_row_found ran_store_of find_None_iff find_Some_iff split: completion.splits option.splits)
qed

lemma findByHash_step: "good w \<Longrightarrow> findByHash db h w = (r, w') \<Longrightarrow> good w' \<and> repo_spec (OpFindByHash h) (table w) (AnUrl r) (table w')"
proof -
  assume ok: "good w" and run: "findByHash db h w = (r, w')"
  obtain c where c: "sq_select_hash db h w = (c, w')" "r = (case c of Return rs \<Rightarrow> Ok (first_row rs) | Throw t \<Rightarrow> Err (createQueryFailed ''findByHash'' t))"
    using run by (auto simp: findByHash_def split: prod.splits completion.splits)
  show ?thesis
    using select_hash [OF c(1)] c(2) ok by (auto simp: first_row_found find_store split: completion.splits)
qed

lemma rows_ok_snoc:
  assumes "rows_ok rs" "i \<notin> ur_id ` set rs" "nu_urlHash u \<notin> ur_urlHash ` set rs" "nu_metadata u \<noteq> None"
  shows "rows_ok (rs @ [crawlUrls_row i now u]) \<and> store_of (rs @ [crawlUrls_row i now u]) = (store_of rs)(nu_urlHash u \<mapsto> crawlUrls_row i now u)"
proof
  show ok: "rows_ok (rs @ [crawlUrls_row i now u])" using assms by (auto simp: rows_ok_append) (auto simp: rows_ok_def)
  have "ur_urlHash r \<noteq> nu_urlHash u" if "r \<in> set rs" for r using assms(3) that by (metis image_eqI)
  then show "store_of (rs @ [crawlUrls_row i now u]) = (store_of rs)(nu_urlHash u \<mapsto> crawlUrls_row i now u)"
    by (intro map_eqI) (auto simp: store_of_Some [OF ok] store_of_Some [OF assms(1)])
qed

lemma insert_values_metadata [simp]: "nu_metadata (insert_values u) \<noteq> None"
  by (simp add: insert_values_def split: option.split)

lemma repo_save_step: "good w \<Longrightarrow> repo_save db u w = (r, w') \<Longrightarrow> good w' \<and> repo_spec (OpSave u) (table w) (AnSaved r) (table w')"
proof -
  assume ok: "good w" and run: "repo_save db u w = (r, w')"
  obtain c where c: "sq_insert db (insert_values u) w = (c, w')" by (cases "sq_insert db (insert_values u) w") (use run in \<open>auto simp: repo_save_def split: completion.splits list.splits if_splits\<close>)
  show ?thesis
  proof (cases c)
    case (Return rs)
    obtain i now where new: "nu_urlHash u \<notin> ur_urlHash ` set (rows w)" "i \<notin> ur_id ` set (rows w)"
        "rs = [crawlUrls_row i now (insert_values u)]" "rows w' = rows w @ [crawlUrls_row i now (insert_values u)]"
      using insert [OF c] Return by auto
    have "r = Ok (toDomain (crawlUrls_row i now (insert_values u)))" using run c Return new(3) by (simp add: repo_save_def)
    moreover have "toDomain (crawlUrls_row i now (insert_values u)) = crawlUrls_row i now (insert_values u)"
      by (simp add: toDomain_def crawlUrls_row_def insert_values_def split: option.split)
    ultimately show ?thesis
      using rows_ok_snoc [OF ok new(2), of "insert_values u" now] new
      by (auto simp: store_of_None fresh_page_def ran_store_of [OF ok] crawlUrls_row_simps)
  next
    case (Throw t)
    have "rows w' = rows w" "isDuplicateKeyError t \<longrightarrow> nu_urlHash u \<in> ur_urlHash ` set (rows w)"
      using insert [OF c] Throw by auto
    moreover have "r = Err (if isDuplicateKeyError t then createDuplicateKey ''idx_crawl_urls_hash'' else createQueryFailed ''save'' t)"
      using run c Throw by (auto simp: repo_save_def)
    ultimately show ?thesis
      using ok by (auto simp: store_of_None createDuplicateKey_def createQueryFailed_def simp del: not_None_eq)
  qed
qed

lemma saveBatch_step: "good w \<Longrightarrow> saveBatch db us w = (r, w') \<Longrightarrow> good w' \<and> repo_spec (OpSaveBatch us) (table w) (AnCount r) (table w')"
proof (cases "us = []")
  case True
  then show "good w \<Longrightarrow> saveBatch db us w = (r, w') \<Longrightarrow> ?thesis" by (auto simp: saveBatch_def batch_spec_none)
next
  case False
  assume ok: "good w" and run: "saveBatch db us w = (r, w')"
  let ?us = "map insert_values us"
  obtain c where c: "sq_insert_new db ?us w = (c, w')" "r = (case c of Return ids \<Rightarrow> Ok (int (length ids)) | Throw t \<Rightarrow> Err (createQueryFailed ''saveBatch'' t))"
    using run False by (auto simp: saveBatch_def split: prod.splits completion.splits)
  show ?thesis
  proof (cases c)
    case (Throw t)
    then show ?thesis using insert_new [OF c(1)] c(2) ok by simp
  next
    case (Return ids)
    obtain new where new: "rows w' = rows w @ new" "ids = map ur_id new" "distinct (map ur_id new)" "set ids \<inter> ur_id ` set (rows w) = {}"
        "distinct (map ur_urlHash new)" "ur_urlHash ` set new = nu_urlHash ` set ?us - ur_urlHash ` set (rows w)"
        "\<forall>r \<in> set new. \<exists>u \<in> set ?us. \<exists>now. r = crawlUrls_row (ur_id r) now u"
      using insert_new [OF c(1)] Return by auto
    have hashes: "nu_urlHash ` set ?us = nu_urlHash ` set us" by (rule insert_values_hashes)
    have from_u: "\<exists>u \<in> set us. nu_urlHash u = ur_urlHash x \<and> fresh_page (table w) u x" if x: "x \<in> set new" for x
    proof -
      from bspec [OF new(7) x] obtain v now where v: "v \<in> set ?us" "x = crawlUrls_row (ur_id x) now v" by blast
      then obtain u where u: "u \<in> set us" "x = crawlUrls_row (ur_id x) now (insert_values u)" by auto
      have "ur_urlHash x = nu_urlHash u" by (subst u(2)) simp
      moreover have "\<forall>y \<in> set (rows w). ur_id y \<noteq> ur_id x" using new(2,4) x by fastforce
      ultimately show ?thesis using u by (auto simp: fresh_page_def ran_store_of [OF ok])
    qed
    have "ur_metadata x \<noteq> None" if "x \<in> set new" for x
    proof -
      from bspec [OF new(7) that] obtain v now where v: "v \<in> set ?us" "x = crawlUrls_row (ur_id x) now v" by blast
      then obtain u where "x = crawlUrls_row (ur_id x) now (insert_values u)" by auto
      then show ?thesis by (metis crawlUrls_row_simps(3) insert_values_metadata)
    qed
    then have "rows_ok new" using new(3,5) by (simp add: rows_ok_def)
    then have ok': "rows_ok (rows w @ new)" using ok new(2,4,6) by (auto simp: rows_ok_append)
    have fresh: "dom (table w') - dom (table w) = ur_urlHash ` set new"
      unfolding dom_store_of new(1) set_append image_Un new(6) by blast
    have at: "table w' (ur_urlHash x) = Some x" if "x \<in> set new" for x
      using that by (simp add: new(1) store_of_Some [OF ok'])
    have grow: "table w' h = Some x" if "table w h = Some x" for h x
      using that by (simp add: new(1) store_of_Some [OF ok] store_of_Some [OF ok'])
    have "card (ur_urlHash ` set new) = length ids"
      using new(2,5) by (metis distinct_card length_map set_map)
    then have count: "int (length ids) = int (card (ur_urlHash ` set new))" by simp
    moreover have "table w \<subseteq>\<^sub>m table w'"
      unfolding map_le_def by (metis grow domD)
    moreover have "dom (table w') = dom (table w) \<union> nu_urlHash ` set us"
      unfolding dom_store_of new(1) set_append image_Un new(6) hashes by blast
    moreover have "inj_on (\<lambda>h. ur_id (the (table w' h))) (ur_urlHash ` set new)"
      using new(3) at by (auto simp: inj_on_def distinct_map)
    moreover have "\<forall>h \<in> ur_urlHash ` set new. \<exists>u \<in> set us. nu_urlHash u = h \<and> fresh_page (table w) u (the (table w' h))"
      using from_u at by fastforce
    ultimately have "batch_spec us (table w) (int (length ids)) (table w')"
      unfolding batch_spec_def fresh by (intro conjI)
    then show ?thesis using ok' c(2) Return by (simp add: new(1))
  qed
qed

lemma findPending_step:
  "good w \<Longrightarrow> findPendingByDomain db d n w = (r, w') \<Longrightarrow> good w' \<and> repo_spec (OpFindPending d n) (table w) (AnPending r) (table w')"
proof -
  assume ok: "good w" and run: "findPendingByDomain db d n w = (r, w')"
  let ?P = "filter (\<lambda>r. ur_domain r = d \<and> ur_status r = ''pending'') (rows w)"
  obtain c where c: "sq_select_pending db d n w = (c, w')"
      "r = (case c of Return rs \<Rightarrow> Ok (map toDomain rs) | Throw t \<Rightarrow> Err (createQueryFailed ''findPendingByDomain'' t))"
    using run by (auto simp: findPendingByDomain_def split: prod.splits completion.splits)
  have "distinct (rows w)" using ok by (auto simp: rows_ok_def distinct_map)
  then have "length ?P = card (set ?P)" by (intro distinct_card [symmetric] distinct_filter)
  moreover have "set ?P = pending_of (table w) d" by (auto simp: pending_of_def ran_store_of [OF ok])
  moreover have "map toDomain rs = rs" if "set rs \<subseteq> set ?P" for rs
    using that toDomain_row [OF ok] by (intro map_idI) auto
  ultimately show ?thesis
    using select_pending [OF c(1)] c(2) ok by (cases c) auto
qed

lemma updateStatus_step:
  "good w \<Longrightarrow> updateStatus db i st f w = (r, w') \<Longrightarrow> good w' \<and> repo_spec (OpUpdateStatus i st f) (table w) (AnDone r) (table w')"
proof -
  assume ok: "good w" and run: "updateStatus db i st f w = (r, w')"
  let ?v = "update_values st f"
  obtain c where c: "sq_update db i ?v w = (c, w')" "r = (case c of Return _ \<Rightarrow> Ok () | Throw t \<Rightarrow> Err (createQueryFailed ''updateStatus'' t))"
    using run by (auto simp: updateStatus_def split: prod.splits completion.splits)
  show ?thesis
  proof (cases c)
    case (Throw t)
    then show ?thesis using update [OF c(1)] c(2) ok by simp
  next
    case (Return u)
    then obtain now where now: "rows w' = map (\<lambda>r. if ur_id r = i then updated_row now ?v r else r) (rows w)"
      using update [OF c(1)] by auto
    let ?f = "\<lambda>r. if ur_id r = i then updated_row now ?v r else r"
    have keeps: "ur_id (?f x) = ur_id x" "ur_urlHash (?f x) = ur_urlHash x" "ur_metadata (?f x) = ur_metadata x" for x by simp_all
    have ok': "rows_ok (map ?f (rows w))" using ok by (auto simp: rows_ok_def comp_def keeps)
    have "store_of (map ?f (rows w)) = (\<lambda>h. map_option ?f (table w h))"
      by (intro map_eqI) (auto simp: store_of_Some [OF ok'] store_of_Some [OF ok])
    then show ?thesis using ok' c(2) Return by (auto simp: now)
  qed
qed

lemma drizzle_repository: "url_repository (createDrizzleCrawlURLRepository db) table good"
proof
  fix w op a w'
  assume "good w" "repo_do (createDrizzleCrawlURLRepository db) op w = (a, w')"
  then show "good w' \<and> repo_spec op (table w) a (table w')"
    by (cases op) (auto simp: createDrizzleCrawlURLRepository_def map_prod_def split: prod.splits
      dest: findById_step findByHash_step repo_save_step saveBatch_step findPending_step updateStatus_step simp del: repo_spec.simps)
qed

end

sublocale sql_table \<subseteq> drizzle: url_repository "createDrizzleCrawlURLRepository db" "\<lambda>w. store_of (rows w)" "\<lambda>w. rows_ok (rows w)"
  by (rule drizzle_repository)

section \<open>Behind the circuit breaker\<close>

text \<open>The policy, at each result type, keeps what the world holds when it refuses a call or counts it.\<close>

definition store_breaker ::
  "('w \<Rightarrow> url_store) \<Rightarrow> ('w \<Rightarrow> bool) \<Rightarrow> ((DataError, 'a, 'w) policy_call \<Rightarrow> (DataError, 'a, 'w) policy_call) \<Rightarrow> bool" where
  "store_breaker store good policy \<longleftrightarrow> (\<exists>is_open enter count. breaker_law policy is_open enter count
     \<and> (\<forall>w. good w \<longrightarrow> good (enter w) \<and> store (enter w) = store w)
     \<and> (\<forall>b w. good w \<longrightarrow> good (count b w) \<and> store (count b w) = store w))"

text \<open>An operation behind the breaker ends as it would without, or was refused.\<close>

lemma guarded_cases:
  assumes "store_breaker store good policy" and "good w" and "dcb_execute policy (no_throw f) w = (r, w')"
    and frame: "\<And>v r v'. good v \<Longrightarrow> f v = (r, v') \<Longrightarrow> good v'"
  shows "(r = Err (createCircuitOpen ''database'') \<and> good w' \<and> store w' = store w)
    \<or> (\<exists>v v'. good v \<and> store v = store w \<and> f v = (r, v') \<and> good w' \<and> store w' = store v')"
proof -
  obtain is_open enter count where law: "breaker_law policy is_open enter count"
      "\<forall>w. good w \<longrightarrow> good (enter w) \<and> store (enter w) = store w" "\<forall>b w. good w \<longrightarrow> good (count b w) \<and> store (count b w) = store w"
    using assms(1) by (auto simp: store_breaker_def)
  show ?thesis
  proof (cases "is_open w")
    case True
    then have "policy (wrapped_call (no_throw f)) w = (Inl BrokenCircuit, w)" using law(1) by (simp add: breaker_law_def)
    then show ?thesis using assms(2,3) by (simp add: dcb_execute_def)
  next
    case False
    obtain r1 v' where f: "f (enter w) = (r1, v')" by fastforce
    have v: "good (enter w)" "store (enter w) = store w" using law(2) assms(2) by blast+
    have "good v'" using frame [OF v(1) f] .
    have "policy (wrapped_call (no_throw f)) w = (case wrapped_call (no_throw f) (enter w) of (x, u) \<Rightarrow> (x, count (isl x) u))"
      using law(1) False unfolding breaker_law_def by presburger
    then have "r = r1 \<and> w' = count (isl r1) v'"
      using assms(3) f by (cases r1) (auto simp: dcb_execute_def wrapped_call_def no_throw_def)
    then show ?thesis using v f law(3) \<open>good v'\<close> by blast
  qed
qed

locale guarded_repository = url_repository repo store good
  for repo :: "'w CrawlURLRepository" and store :: "'w \<Rightarrow> url_store" and good :: "'w \<Rightarrow> bool" +
  fixes p_find :: "(DataError, CrawlURL option, 'w) policy_call \<Rightarrow> (DataError, CrawlURL option, 'w) policy_call"
    and p_save :: "(DataError, CrawlURL, 'w) policy_call \<Rightarrow> (DataError, CrawlURL, 'w) policy_call"
    and p_batch :: "(DataError, int, 'w) policy_call \<Rightarrow> (DataError, int, 'w) policy_call"
    and p_list :: "(DataError, CrawlURL list, 'w) policy_call \<Rightarrow> (DataError, CrawlURL list, 'w) policy_call"
    and p_update :: "(DataError, unit, 'w) policy_call \<Rightarrow> (DataError, unit, 'w) policy_call"
  assumes policies: "store_breaker store good p_find" "store_breaker store good p_save" "store_breaker store good p_batch"
      "store_breaker store good p_list" "store_breaker store good p_update"
begin

abbreviation "resilient \<equiv> createResilientCrawlURLRepository repo p_find p_save p_batch p_list p_update"

lemma resilient_op:
  assumes policy: "store_breaker store good policy" and ok: "good w" and run: "dcb_execute policy (no_throw f) w = (r, w')"
    and inner: "\<And>v. repo_do repo op v = map_prod F id (f v)"
    and refused: "repo_spec op (store w) (F (Err (createCircuitOpen ''database''))) (store w)"
  shows "good w' \<and> repo_spec op (store w) (F r) (store w')"
proof -
  have calls: "good v' \<and> repo_spec op (store v) (F x) (store v')" if "good v" "f v = (x, v')" for v x v'
    using step [OF \<open>good v\<close>, of op "F x" v'] inner [of v] that(2) by simp
  have frame: "good v'" if "good v" "f v = (x, v')" for v x v' using calls [OF that] by blast
  have "(r = Err (createCircuitOpen ''database'') \<and> good w' \<and> store w' = store w)
      \<or> (\<exists>v v'. good v \<and> store v = store w \<and> f v = (r, v') \<and> good w' \<and> store w' = store v')"
    by (rule guarded_cases [OF policy ok run]) (rule frame)
  then show ?thesis
  proof (elim disjE exE conjE)
    fix v v' assume "good v" "store v = store w" "f v = (r, v')" "good w'" "store w' = store v'"
    then show ?thesis using calls [of v r v'] by simp
  qed (use refused in simp_all)
qed

lemma resilient_step:
  assumes ok: "good w" and run: "repo_do resilient op w = (a, w')"
  shows "good w' \<and> repo_spec op (store w) a (store w')"
proof (cases op)
  case (OpFindById i)
  then obtain r where r: "dcb_execute p_find (no_throw (rp_findById repo i)) w = (r, w')" "a = AnUrl r"
    using run by (auto simp: createResilientCrawlURLRepository_def map_prod_def split: prod.splits)
  show ?thesis
    unfolding OpFindById r(2) by (rule resilient_op [OF policies(1) ok r(1)]) simp_all
next
  case (OpFindByHash h)
  then obtain r where r: "dcb_execute p_find (no_throw (rp_findByHash repo h)) w = (r, w')" "a = AnUrl r"
    using run by (auto simp: createResilientCrawlURLRepository_def map_prod_def split: prod.splits)
  show ?thesis
    unfolding OpFindByHash r(2) by (rule resilient_op [OF policies(1) ok r(1)]) simp_all
next
  case (OpSave u)
  then obtain r where r: "dcb_execute p_save (no_throw (rp_save repo u)) w = (r, w')" "a = AnSaved r"
    using run by (auto simp: createResilientCrawlURLRepository_def map_prod_def split: prod.splits)
  show ?thesis
    unfolding OpSave r(2) by (rule resilient_op [OF policies(2) ok r(1)]) (simp_all add: createCircuitOpen_def createDuplicateKey_def)
next
  case (OpSaveBatch us)
  then obtain r where r: "dcb_execute p_batch (no_throw (rp_saveBatch repo us)) w = (r, w')" "a = AnCount r"
    using run by (auto simp: createResilientCrawlURLRepository_def map_prod_def split: prod.splits)
  show ?thesis
    unfolding OpSaveBatch r(2) by (rule resilient_op [OF policies(3) ok r(1)]) simp_all
next
  case (OpFindPending d n)
  then obtain r where r: "dcb_execute p_list (no_throw (rp_findPendingByDomain repo d n)) w = (r, w')" "a = AnPending r"
    using run by (auto simp: createResilientCrawlURLRepository_def map_prod_def split: prod.splits)
  show ?thesis
    unfolding OpFindPending r(2) by (rule resilient_op [OF policies(4) ok r(1)]) simp_all
next
  case (OpUpdateStatus i st f)
  then obtain r where r: "dcb_execute p_update (no_throw (rp_updateStatus repo i st f)) w = (r, w')" "a = AnDone r"
    using run by (auto simp: createResilientCrawlURLRepository_def map_prod_def split: prod.splits)
  show ?thesis
    unfolding OpUpdateStatus r(2) by (rule resilient_op [OF policies(5) ok r(1)]) simp_all
qed

end

sublocale guarded_repository \<subseteq> resilient: url_repository resilient store good
  by unfold_locales (rule resilient_step)

section \<open>With status events\<close>

text \<open>Publishing keeps the contract, as long as the publisher leaves the table alone.\<close>

lemma publishing_update_result:
  assumes "publishing_updateStatus update publish key src now m i st f w = ((r, m', logs), w')"
  shows "\<exists>w1. update i st f w = (r, w1) \<and> (w' = w1 \<or> (\<exists>e. w' = snd (publish key e w1)))"
  using assms by (auto simp: publishing_updateStatus_def Let_def split: prod.splits sum.splits option.splits) (metis snd_conv)+

lemma publishing_repository:
  assumes "url_repository repo store good"
    and "\<And>key e w. good w \<Longrightarrow> good (snd (publish key e w)) \<and> store (snd (publish key e w)) = store w"
  shows "url_repository (fst (createEventPublishingCrawlURLRepository repo publish config now)) (\<lambda>s. store (snd s)) (\<lambda>s. good (snd s))"
proof
  fix s op a s'
  let ?d = "fst (createEventPublishingCrawlURLRepository repo publish config now)"
  assume ok: "good (snd s)" and run: "repo_do ?d op s = (a, s')"
  have same: "\<exists>w'. repo_do repo op (snd s) = (a, w') \<and> (snd s' = w' \<or> (\<exists>e. snd s' = snd (publish (ep_streamKey config) e w')))"
  proof (cases op)
    case (OpUpdateStatus i st f)
    obtain c l w where s: "s = ((c, l), w)" by (metis prod.collapse)
    obtain r m logs w' where u: "publishing_updateStatus (rp_updateStatus repo) publish (ep_streamKey config) (ep_source config) (now w) c i st f w
        = ((r, m, logs), w')" by (metis prod.collapse)
    have "a = AnDone r" "snd s' = w'"
      using run u by (auto simp: OpUpdateStatus s createEventPublishingCrawlURLRepository_def)
    then show ?thesis using publishing_update_result [OF u] by (auto simp: OpUpdateStatus s)
  qed (use run in \<open>auto simp: createEventPublishingCrawlURLRepository_def unchanged_def map_prod_def split: prod.splits\<close>)
  then obtain w' where w': "repo_do repo op (snd s) = (a, w')" "snd s' = w' \<or> (\<exists>e. snd s' = snd (publish (ep_streamKey config) e w'))"
    by blast
  have "good w' \<and> repo_spec op (store (snd s)) a (store w')" by (rule url_repository.step [OF assms(1) ok w'(1)])
  then show "good (snd s') \<and> repo_spec op (store (snd s)) a (store (snd s'))" using w'(2) assms(2) by auto
qed

section \<open>The repository of the program\<close>

text \<open>The table and the breakers' policies a worker is given.\<close>

definition resilient_url_repository ::
  "('w \<Rightarrow> CrawlURL list) \<Rightarrow> 'w sql_db \<Rightarrow>
     ((DataError, CrawlURL option, 'w) policy_call \<Rightarrow> (DataError, CrawlURL option, 'w) policy_call) \<Rightarrow>
     ((DataError, CrawlURL, 'w) policy_call \<Rightarrow> (DataError, CrawlURL, 'w) policy_call) \<Rightarrow>
     ((DataError, int, 'w) policy_call \<Rightarrow> (DataError, int, 'w) policy_call) \<Rightarrow>
     ((DataError, CrawlURL list, 'w) policy_call \<Rightarrow> (DataError, CrawlURL list, 'w) policy_call) \<Rightarrow>
     ((DataError, unit, 'w) policy_call \<Rightarrow> (DataError, unit, 'w) policy_call) \<Rightarrow> bool" where
  "resilient_url_repository rows db p_find p_save p_batch p_list p_update \<longleftrightarrow>
     sql_table rows db
   \<and> store_breaker (\<lambda>w. store_of (rows w)) (\<lambda>w. rows_ok (rows w)) p_find
   \<and> store_breaker (\<lambda>w. store_of (rows w)) (\<lambda>w. rows_ok (rows w)) p_save
   \<and> store_breaker (\<lambda>w. store_of (rows w)) (\<lambda>w. rows_ok (rows w)) p_batch
   \<and> store_breaker (\<lambda>w. store_of (rows w)) (\<lambda>w. rows_ok (rows w)) p_list
   \<and> store_breaker (\<lambda>w. store_of (rows w)) (\<lambda>w. rows_ok (rows w)) p_update"

lemma resilient_repository:
  assumes "resilient_url_repository rows db p_find p_save p_batch p_list p_update"
  shows "url_repository (createResilientCrawlURLRepository (createDrizzleCrawlURLRepository db) p_find p_save p_batch p_list p_update)
    (\<lambda>w. store_of (rows w)) (\<lambda>w. rows_ok (rows w))"
proof -
  have "url_repository (createDrizzleCrawlURLRepository db) (\<lambda>w. store_of (rows w)) (\<lambda>w. rows_ok (rows w))"
    using assms by (intro sql_table.drizzle_repository) (simp add: resilient_url_repository_def)
  then have "guarded_repository (createDrizzleCrawlURLRepository db) (\<lambda>w. store_of (rows w)) (\<lambda>w. rows_ok (rows w))
      p_find p_save p_batch p_list p_update"
    using assms by (simp add: guarded_repository_def guarded_repository_axioms_def resilient_url_repository_def)
  then show ?thesis by (intro url_repository.intro guarded_repository.resilient_step)
qed

text \<open>C19: The repository the program builds, drizzle on the crawl_urls table behind the circuit breaker, is a store of pages by hash: over any sequence of operations every answer and every effect is the one the store specifies (lookups by id and hash, saves that add one fresh pending page or refuse a known hash, batches that add and count the new hashes, pending pages of a domain up to the limit, status updates of one page), errors and refusals of the breaker change nothing, and ids and hashes stay unique.\<close>

theorem repository_refines_store:
  assumes "resilient_url_repository rows db p_find p_save p_batch p_list p_update" and "rows_ok (rows w)"
    and "repo_runs (createResilientCrawlURLRepository (createDrizzleCrawlURLRepository db) p_find p_save p_batch p_list p_update) ops w = (as, w')"
  shows "rows_ok (rows w') \<and> spec_runs ops (store_of (rows w)) as (store_of (rows w'))"
  using url_repository.runs [OF resilient_repository [OF assms(1)] assms(2,3)] by simp

text \<open>C20: A page that was saved is found under its hash ever after, whatever operations follow: a lookup that does not fail answers the page with the same id, URL, hash, domain, depth, parent, discovery time and metadata, and no later save of that hash succeeds.\<close>

theorem saved_page_stays:
  assumes "resilient_url_repository rows db p_find p_save p_batch p_list p_update" and "rows_ok (rows w)"
    and "repo = createResilientCrawlURLRepository (createDrizzleCrawlURLRepository db) p_find p_save p_batch p_list p_update"
    and "rp_save repo u w = (Ok x, w1)" and "repo_runs repo ops w1 = (as, w2)"
  shows "(\<forall>r w3. rp_findByHash repo (nu_urlHash u) w2 = (Ok r, w3) \<longrightarrow> (\<exists>y. r = Some y \<and> page_identity y = page_identity x))
    \<and> (\<forall>v r w3. nu_urlHash v = nu_urlHash u \<longrightarrow> rp_save repo v w2 = (r, w3) \<longrightarrow> (\<exists>e. r = Err e))"
  using url_repository.saved_stays [OF resilient_repository [OF assms(1)] assms(2)]
    url_repository.saved_once [OF resilient_repository [OF assms(1)] assms(2)] assms(3-5) by blast

section \<open>A table in memory\<close>

text \<open>The next identity and the rows; the clock stands still.\<close>

type_synonym mem_table = "int \<times> CrawlURL list"

definition mt_unique_violation :: thrown where
  "mt_unique_violation = ThrownError \<lparr>err_dom = False, err_name = ''PostgresError'', err_message = ''duplicate key value'', err_code = Some ''23505''\<rparr>"

fun mt_add :: "NewCrawlURL list \<Rightarrow> mem_table \<Rightarrow> int list \<times> mem_table" where
  "mt_add [] t = ([], t)"
| "mt_add (u # us) (n, rs) =
     (if nu_urlHash u \<in> ur_urlHash ` set rs then mt_add us (n, rs)
      else (case mt_add us (n + 1, rs @ [crawlUrls_row n 0 u]) of (ids, t) \<Rightarrow> (n # ids, t)))"

text \<open>Every id of a row is below the next one; a world that is not so makes its statements fail.\<close>

definition mt_ok :: "mem_table \<Rightarrow> bool" where
  "mt_ok t \<longleftrightarrow> list_all (\<lambda>r. ur_id r < fst t) (snd t)"

definition mem_table_db :: "mem_table sql_db" where
  "mem_table_db =
     \<lparr>sq_select_id = (\<lambda>i t. (Return (take 1 (filter (\<lambda>r. ur_id r = i) (snd t))), t)),
      sq_select_hash = (\<lambda>h t. (Return (take 1 (filter (\<lambda>r. ur_urlHash r = h) (snd t))), t)),
      sq_insert = (\<lambda>u t. if \<not> mt_ok t then (Throw (ThrownOther ''identity''), t)
         else if nu_urlHash u \<in> ur_urlHash ` set (snd t) then (Throw mt_unique_violation, t)
         else (Return [crawlUrls_row (fst t) 0 u], (fst t + 1, snd t @ [crawlUrls_row (fst t) 0 u]))),
      sq_insert_new = (\<lambda>us t. if \<not> mt_ok t then (Throw (ThrownOther ''identity''), t) else map_prod Return id (mt_add us t)),
      sq_select_pending = (\<lambda>d n t. let rs = filter (\<lambda>r. ur_domain r = d \<and> ur_status r = ''pending'') (snd t)
         in if distinct rs then (Return (take (nat n) rs), t) else (Throw (ThrownOther ''rows''), t)),
      sq_update = (\<lambda>i v t. (Return (), (fst t, map (\<lambda>r. if ur_id r = i then updated_row 0 v r else r) (snd t))))\<rparr>"

lemma mt_add_new:
  "mt_add us (n, rs) = (ids, t) \<Longrightarrow> \<exists>new. snd t = rs @ new \<and> ids = map ur_id new \<and> distinct ids \<and> (\<forall>i \<in> set ids. n \<le> i)
     \<and> distinct (map ur_urlHash new) \<and> ur_urlHash ` set new = nu_urlHash ` set us - ur_urlHash ` set rs
     \<and> (\<forall>r \<in> set new. \<exists>u \<in> set us. \<exists>now. r = crawlUrls_row (ur_id r) now u)"
proof (induction us arbitrary: n rs ids t)
  case (Cons u us)
  show ?case
  proof (cases "nu_urlHash u \<in> ur_urlHash ` set rs")
    case True
    then have "mt_add us (n, rs) = (ids, t)" using Cons.prems by simp
    then obtain new where new: "snd t = rs @ new" "ids = map ur_id new" "distinct ids" "\<forall>i \<in> set ids. n \<le> i"
        "distinct (map ur_urlHash new)" "ur_urlHash ` set new = nu_urlHash ` set us - ur_urlHash ` set rs"
        "\<forall>r \<in> set new. \<exists>u \<in> set us. \<exists>now. r = crawlUrls_row (ur_id r) now u"
      using Cons.IH by blast
    moreover have "nu_urlHash ` set (u # us) - ur_urlHash ` set rs = nu_urlHash ` set us - ur_urlHash ` set rs" using True by auto
    ultimately show ?thesis by (intro exI [of _ new]) auto
  next
    case False
    let ?r = "crawlUrls_row n 0 u"
    obtain ids' where rest: "mt_add us (n + 1, rs @ [?r]) = (ids', t)" "ids = n # ids'"
      using Cons.prems False by (auto split: prod.splits)
    obtain new where new: "snd t = (rs @ [?r]) @ new" "ids' = map ur_id new" "distinct ids'" "\<forall>i \<in> set ids'. n + 1 \<le> i"
        "distinct (map ur_urlHash new)" "ur_urlHash ` set new = nu_urlHash ` set us - ur_urlHash ` set (rs @ [?r])"
        "\<forall>r \<in> set new. \<exists>u \<in> set us. \<exists>now. r = crawlUrls_row (ur_id r) now u"
      using Cons.IH [OF rest(1)] by blast
    have "ur_urlHash ` set (?r # new) = nu_urlHash ` set (u # us) - ur_urlHash ` set rs"
      using new(6) False by auto
    moreover have "distinct (map ur_urlHash (?r # new))" using new(5,6) by auto
    moreover have "distinct ids" "\<forall>i \<in> set ids. n \<le> i" using rest(2) new(3,4) by force+
    moreover have "\<forall>r \<in> set (?r # new). \<exists>v \<in> set (u # us). \<exists>now. r = crawlUrls_row (ur_id r) now v"
      using new(7) by (metis crawlUrls_row_simps(1) list.set_intros set_ConsD)
    ultimately show ?thesis using new(1,2) rest(2) by (intro exI [of _ "?r # new"]) simp
  qed
qed simp

interpretation mem_table: sql_table snd mem_table_db
proof
  fix us and w :: mem_table and ci w'
  assume run: "sq_insert_new mem_table_db us w = (ci, w')"
  obtain n rs where w: "w = (n, rs)" by fastforce
  obtain ids t where add: "mt_add us (n, rs) = (ids, t)" by (meson surj_pair)
  show "case ci of
        Return ids \<Rightarrow> \<exists>new. snd w' = snd w @ new \<and> ids = map ur_id new
          \<and> distinct ids \<and> set ids \<inter> ur_id ` set (snd w) = {}
          \<and> distinct (map ur_urlHash new) \<and> ur_urlHash ` set new = nu_urlHash ` set us - ur_urlHash ` set (snd w)
          \<and> (\<forall>r \<in> set new. \<exists>u \<in> set us. \<exists>now. r = crawlUrls_row (ur_id r) now u)
      | Throw _ \<Rightarrow> snd w' = snd w"
  proof (cases "mt_ok w")
    case True
    then have below: "\<forall>r \<in> set rs. ur_id r < n" by (simp add: mt_ok_def w list_all_iff)
    obtain new where new: "snd t = rs @ new" "ids = map ur_id new" "distinct ids" "\<forall>i \<in> set ids. n \<le> i"
        "distinct (map ur_urlHash new)" "ur_urlHash ` set new = nu_urlHash ` set us - ur_urlHash ` set rs"
        "\<forall>r \<in> set new. \<exists>u \<in> set us. \<exists>now. r = crawlUrls_row (ur_id r) now u"
      using mt_add_new [OF add] by blast
    have "set ids \<inter> ur_id ` set rs = {}" using below new(4) by force
    moreover have "ci = Return ids" "w' = t" using run True add by (simp_all add: mem_table_db_def w)
    ultimately show ?thesis using new by (auto simp: w)
  next
    case False
    then show ?thesis using run by (auto simp: mem_table_db_def)
  qed
next
  fix u and w :: mem_table and c w'
  assume run: "sq_insert mem_table_db u w = (c, w')"
  show "case c of
        Return rs \<Rightarrow> nu_urlHash u \<notin> ur_urlHash ` set (snd w)
          \<and> (\<exists>i now. i \<notin> ur_id ` set (snd w) \<and> rs = [crawlUrls_row i now u] \<and> snd w' = snd w @ rs)
      | Throw t \<Rightarrow> snd w' = snd w \<and> (isDuplicateKeyError t \<longrightarrow> nu_urlHash u \<in> ur_urlHash ` set (snd w))"
  proof (cases "mt_ok w \<and> nu_urlHash u \<notin> ur_urlHash ` set (snd w)")
    case True
    then have "fst w \<notin> ur_id ` set (snd w)" by (auto simp: mt_ok_def list_all_iff)
    moreover have "c = Return [crawlUrls_row (fst w) 0 u]" "snd w' = snd w @ [crawlUrls_row (fst w) 0 u]"
      using run True by (auto simp: mem_table_db_def)
    ultimately show ?thesis using True by (simp, blast)
  next
    case False
    then show ?thesis
      using run by (auto simp: mem_table_db_def mt_unique_violation_def isDuplicateKeyError_def split: if_splits)
  qed
next
  fix d n and w :: mem_table and c w'
  assume run: "sq_select_pending mem_table_db d n w = (c, w')"
  let ?rs = "filter (\<lambda>r. ur_domain r = d \<and> ur_status r = ''pending'') (snd w)"
  have "set (take (nat n) ?rs) \<subseteq> set ?rs" "length (take (nat n) ?rs) = min (nat n) (length ?rs)" by (rule set_take_subset, simp)
  then show "snd w' = snd w \<and> (case c of
        Return rs \<Rightarrow> distinct rs \<and> set rs \<subseteq> set ?rs \<and> length rs = min (nat n) (length ?rs)
      | Throw _ \<Rightarrow> True)"
    using run by (auto simp: mem_table_db_def Let_def simp del: set_filter length_take split: if_splits)
qed (auto simp: mem_table_db_def)

text \<open>A breaker over this table that is open once ten identities were drawn.\<close>

definition ten_policy :: "('e, 'a, mem_table) policy_call \<Rightarrow> ('e, 'a, mem_table) policy_call" where
  "ten_policy f t = (if 10 \<le> fst t then (Inl BrokenCircuit, t) else f t)"

lemma ten_policy_store: "store_breaker (\<lambda>w. store_of (snd w)) (\<lambda>w. rows_ok (snd w)) ten_policy"
proof -
  have "breaker_law ten_policy (\<lambda>t. 10 \<le> fst t) (\<lambda>t. t) (\<lambda>b t. t)" by (simp add: breaker_law_def ten_policy_def)
  then show ?thesis unfolding store_breaker_def
    by (intro exI [of _ "\<lambda>t. 10 \<le> fst t"] exI [of _ "\<lambda>t. t"] exI [of _ "\<lambda>b t. t"]) simp
qed

lemma mem_resilient: "resilient_url_repository snd mem_table_db ten_policy ten_policy ten_policy ten_policy ten_policy"
  by (simp add: resilient_url_repository_def ten_policy_store mem_table.sql_table_axioms)

interpretation mem_guarded: guarded_repository "createDrizzleCrawlURLRepository mem_table_db" "\<lambda>w. store_of (snd w)" "\<lambda>w. rows_ok (snd w)"
  ten_policy ten_policy ten_policy ten_policy ten_policy
  by unfold_locales (rule ten_policy_store)+

abbreviation "mem_repo \<equiv> createResilientCrawlURLRepository (createDrizzleCrawlURLRepository mem_table_db) ten_policy ten_policy ten_policy ten_policy ten_policy"

lemma empty_rows_ok: "rows_ok (snd (0, []))"
  by (simp add: rows_ok_def)

definition demo_ops :: "repo_op list" where
  "demo_ops = [OpSaveBatch [demo_new ''b'', demo_new ''a'', demo_new ''b''], OpUpdateStatus 0 ''fetched'' (Some \<lparr>df_statusCode = 200, df_contentType = None, df_s3Key = None\<rparr>),
     OpFindPending (nu_domain (demo_new ''a'')) 5]"

theorem repository_refines_store_witness:
  "\<exists>as w'. repo_runs mem_repo (OpSave (demo_new ''a'') # demo_ops) (0, []) = (as, w') \<and> length (snd w') = 2
     \<and> rows_ok (snd w') \<and> spec_runs (OpSave (demo_new ''a'') # demo_ops) (store_of []) as (store_of (snd w'))"
proof -
  obtain as w' where run: "repo_runs mem_repo (OpSave (demo_new ''a'') # demo_ops) (0, []) = (as, w')" by (meson surj_pair)
  have "length (snd (snd (repo_runs mem_repo (OpSave (demo_new ''a'') # demo_ops) (0, [])))) = 2" by code_simp
  then show ?thesis using repository_refines_store [OF mem_resilient empty_rows_ok run] run by auto
qed

theorem saved_page_stays_witness:
  "\<exists>y. fst (rp_findByHash mem_repo ''a'' (snd (repo_runs mem_repo demo_ops (snd (rp_save mem_repo (demo_new ''a'') (0, [])))))) = Ok (Some y)
     \<and> ur_status y = ''fetched'' \<and> ur_url y = nu_url (demo_new ''a'') \<and> ur_id y = 0"
proof -
  let ?x = "crawlUrls_row 0 0 (insert_values (demo_new ''a''))"
  obtain x w1 where s: "rp_save mem_repo (demo_new ''a'') (0, []) = (Ok x, w1)"
      and x: "page_identity x = page_identity ?x"
  proof -
    have "rp_save mem_repo (demo_new ''a'') (0, []) = (Ok ?x, (1, [?x]))" by code_simp
    then show ?thesis using that by blast
  qed
  obtain as w2 where r: "repo_runs mem_repo demo_ops w1 = (as, w2)" by (meson surj_pair)
  have "(case rp_findByHash mem_repo ''a'' (snd (repo_runs mem_repo demo_ops (snd (rp_save mem_repo (demo_new ''a'') (0, []))))) of
      (Ok (Some y), _) \<Rightarrow> ur_status y = ''fetched'' | _ \<Rightarrow> False)" by code_simp
  then obtain y w3 where f: "rp_findByHash mem_repo (nu_urlHash (demo_new ''a'')) w2 = (Ok (Some y), w3)" "ur_status y = ''fetched''"
    using s r by (auto simp: demo_new_def split: prod.splits sum.splits option.splits)
  have "page_identity y = page_identity x"
    using saved_page_stays [OF mem_resilient empty_rows_ok refl s r] f(1) by auto
  then show ?thesis
    using f s r x by (auto simp: page_identity_def crawlUrls_row_def insert_values_def demo_new_def)
qed

end
