(* ===== verification/ApiRouter.thy ===== *)
theory ApiRouter
  imports ZodSchema
begin

text \<open>
  packages/api-router/src and apps/api-gateway/src: the version of a request path, the schemas and
  procedures of the API, the span around a call, the user of a request, and the domain events with the
  handler that skips what it does not know. What arrives over the network is a \<open>json\<close> value; whether a
  string is a URL or a timestamp is a parameter. A procedure runs its authentication before its input
  is parsed, and a failed parse is the error \<open>BAD_REQUEST\<close>, as tRPC documents.
\<close>

section \<open>api-versioning.ts\<close>

definition API_VERSIONS :: "string list" where
  "API_VERSIONS = [''v1'']"

definition CURRENT_VERSION :: string where
  "CURRENT_VERSION = ''v1''"

definition DEPRECATED_VERSIONS :: "string list" where
  "DEPRECATED_VERSIONS = []"

record VersionMatch =
  vm_version :: string
  vm_deprecated :: bool
  vm_remainingPath :: string

datatype VersionError = UnsupportedVersion string | MissingVersion

text \<open>The expression \<open>^/api/(v\d+)(/.*)?$\<close>: the version and what follows, if it matches.\<close>

definition version_rest_ok :: "string \<Rightarrow> bool" where
  "version_rest_ok r = (case r of [] \<Rightarrow> True | c # cs \<Rightarrow> c = CHR ''/'' \<and> list_all (\<lambda>x. x \<noteq> char_of (10 :: nat) \<and> x \<noteq> char_of (13 :: nat)) cs)"

definition VERSION_PREFIX :: "string \<Rightarrow> (string \<times> string option) option" where
  "VERSION_PREFIX path =
     (if \<not> starts_with path ''/api/v'' then None
      else let tail = drop 6 path; ds = takeWhile is_digit tail; r = dropWhile is_digit tail
           in if ds \<noteq> [] \<and> version_rest_ok r
              then Some (''v'' @ ds, (if r = [] then None else Some r)) else None)"

definition extractVersion :: "string \<Rightarrow> VersionError + VersionMatch" where
  "extractVersion path =
     (case VERSION_PREFIX path of
        None \<Rightarrow> Inl MissingVersion
      | Some (requested, r) \<Rightarrow>
          if requested = [] then Inl MissingVersion
          else if requested \<notin> set API_VERSIONS then Inl (UnsupportedVersion requested)
          else Inr \<lparr>vm_version = requested, vm_deprecated = requested \<in> set DEPRECATED_VERSIONS,
                    vm_remainingPath = (case r of None \<Rightarrow> ''/'' | Some p \<Rightarrow> p)\<rparr>)"

definition deprecationHeaders :: "string \<Rightarrow> (string \<times> string) list" where
  "deprecationHeaders version =
     (if version \<notin> set DEPRECATED_VERSIONS then []
      else [(''Deprecation'', ''true''), (''Link'', ''</api/'' @ CURRENT_VERSION @ ''>; rel='' @ [CHR 0x22] @ ''successor-version'' @ [CHR 0x22])])"

section \<open>schemas.ts\<close>

record CrawlSubmit =
  cs_urls :: "string list"
  cs_maxDepth :: int
  cs_maxConcurrent :: int
  cs_allowedDomains :: "string list option"
  cs_userAgent :: "string option"

definition all_strings :: "json list \<Rightarrow> string list option" where
  "all_strings vs = those (map (\<lambda>v. json_str (Some v)) vs)"

definition urls_field :: "(string \<Rightarrow> bool) \<Rightarrow> json option \<Rightarrow> string list option" where
  "urls_field is_url v =
     (case v of
        Some (JArr vs) \<Rightarrow>
          (case all_strings vs of
             Some us \<Rightarrow> if list_all is_url us \<and> 1 \<le> length us \<and> length us \<le> 1000 then Some us else None
           | None \<Rightarrow> None)
      | _ \<Rightarrow> None)"

definition int_default :: "int \<Rightarrow> int \<Rightarrow> int \<Rightarrow> json option \<Rightarrow> int option" where
  "int_default lo hi d v = (case v of None \<Rightarrow> Some d | Some _ \<Rightarrow> z_int lo (Some hi) v)"

definition domains_field :: "json option \<Rightarrow> string list option option" where
  "domains_field v =
     (case v of
        None \<Rightarrow> Some None
      | Some (JArr vs) \<Rightarrow> map_option Some (all_strings vs)
      | Some _ \<Rightarrow> None)"

definition agent_field :: "json option \<Rightarrow> string option option" where
  "agent_field v =
     (case v of
        None \<Rightarrow> Some None
      | Some (JStr s) \<Rightarrow> if 1 \<le> length s \<and> length s \<le> 500 then Some (Some s) else None
      | Some _ \<Rightarrow> None)"

definition CrawlSubmitSchema :: "(string \<Rightarrow> bool) \<Rightarrow> json \<Rightarrow> CrawlSubmit option" where
  "CrawlSubmitSchema is_url v =
     (case (urls_field is_url (member v ''urls''), int_default 0 100 3 (member v ''maxDepth''),
            int_default 1 100 10 (member v ''maxConcurrent''), domains_field (member v ''allowedDomains''),
            agent_field (member v ''userAgent'')) of
        (Some us, Some d, Some c, Some ds, Some ua) \<Rightarrow>
          Some \<lparr>cs_urls = us, cs_maxDepth = d, cs_maxConcurrent = c, cs_allowedDomains = ds, cs_userAgent = ua\<rparr>
      | _ \<Rightarrow> None)"

definition CrawlStatusSchema :: "json \<Rightarrow> string option" where
  "CrawlStatusSchema v = (if z_nonempty (member v ''jobId'') then json_str (member v ''jobId'') else None)"

section \<open>trpc.ts, router.ts, server.ts\<close>

datatype CrawlStatus = StQueued | StRunning | StCompleted | StFailed | StCancelled

record CrawlStatusInfo =
  ci_jobId :: string
  ci_status :: CrawlStatus
  ci_urlsTotal :: int
  ci_urlsCrawled :: int
  ci_urlsFailed :: int
  ci_startedAt :: "string option"
  ci_completedAt :: "string option"

record 'w CrawlService =
  sv_submit :: "CrawlSubmit \<Rightarrow> 'w \<Rightarrow> (string \<times> int) completion \<times> 'w"
  sv_getStatus :: "string \<Rightarrow> 'w \<Rightarrow> CrawlStatusInfo option completion \<times> 'w"

record 'w api_context =
  ax_userId :: "string option"
  ax_crawlService :: "'w CrawlService"

datatype TRPCError = Unauthorized string | BadRequest | NotFoundError string | InternalError thrown

definition createContext :: "string option \<Rightarrow> 'w CrawlService \<Rightarrow> 'w api_context" where
  "createContext userId service = \<lparr>ax_userId = userId, ax_crawlService = service\<rparr>"

definition enforceAuth :: "'w api_context \<Rightarrow> ('w \<Rightarrow> (TRPCError + 'a) \<times> 'w) \<Rightarrow> 'w \<Rightarrow> (TRPCError + 'a) \<times> 'w" where
  "enforceAuth ctx next w =
     (if ax_userId ctx = None \<or> ax_userId ctx = Some [] then (Inl (Unauthorized ''Authentication required''), w) else next w)"

definition crawl_submit :: "(string \<Rightarrow> bool) \<Rightarrow> 'w api_context \<Rightarrow> json \<Rightarrow> 'w \<Rightarrow> (TRPCError + string \<times> int \<times> string) \<times> 'w" where
  "crawl_submit is_url ctx raw =
     enforceAuth ctx (\<lambda>w. case CrawlSubmitSchema is_url raw of
        None \<Rightarrow> (Inl BadRequest, w)
      | Some input \<Rightarrow>
          (case sv_submit (ax_crawlService ctx) input w of
             (Return (jobId, urlCount), w') \<Rightarrow> (Inr (jobId, urlCount, ''queued''), w')
           | (Throw t, w') \<Rightarrow> (Inl (InternalError t), w')))"

definition crawl_status :: "'w api_context \<Rightarrow> json \<Rightarrow> 'w \<Rightarrow> (TRPCError + CrawlStatusInfo) \<times> 'w" where
  "crawl_status ctx raw w =
     (case CrawlStatusSchema raw of
        None \<Rightarrow> (Inl BadRequest, w)
      | Some jobId \<Rightarrow>
          (case sv_getStatus (ax_crawlService ctx) jobId w of
             (Return None, w') \<Rightarrow> (Inl (NotFoundError (''Job '' @ jobId @ '' not found'')), w')
           | (Return (Some s), w') \<Rightarrow> (Inr s, w')
           | (Throw t, w') \<Rightarrow> (Inl (InternalError t), w')))"

datatype header_value = OneHeader string | ManyHeaders "string list"

definition extractUserId :: "(string \<times> header_value) list \<Rightarrow> string option" where
  "extractUserId headers =
     (case map_of headers ''x-user-id'' of
        Some (OneHeader auth) \<Rightarrow> if 0 < length auth then Some auth else None
      | _ \<Rightarrow> None)"

text \<open>The gateway's context of one request.\<close>

definition request_context :: "'w CrawlService \<Rightarrow> (string \<times> header_value) list \<Rightarrow> 'w api_context" where
  "request_context service headers = createContext (extractUserId headers) service"

section \<open>otel-middleware.ts\<close>

datatype span_event = SpanStart string | SpanError "string option" | SpanException js_error | SpanEnd

text \<open>\<open>next\<close> answers whether the call was ok, with the result.\<close>

definition otelMiddlewareFn ::
  "string \<Rightarrow> string \<Rightarrow> ('w \<Rightarrow> (bool \<times> 'a) completion \<times> 'w) \<Rightarrow> 'w \<Rightarrow> ((bool \<times> 'a) completion \<times> span_event list) \<times> 'w" where
  "otelMiddlewareFn kind path next w =
     (let start = SpanStart (''trpc.'' @ kind @ ''.'' @ path)
      in case next w of
           (Return (ok, r), w') \<Rightarrow> ((Return (ok, r), [start] @ (if ok then [] else [SpanError (Some ''tRPC error'')]) @ [SpanEnd]), w')
         | (Throw t, w') \<Rightarrow>
             ((Throw t, [start, SpanError None] @ (case t of ThrownError e \<Rightarrow> [SpanException e] | ThrownOther _ \<Rightarrow> []) @ [SpanEnd]), w'))"

section \<open>domain-events.ts\<close>

definition CrawlCompletedPayloadSchema :: "(string \<Rightarrow> bool) \<Rightarrow> json \<Rightarrow> bool" where
  "CrawlCompletedPayloadSchema is_url p \<longleftrightarrow>
     z_nonempty (member p ''jobId'') \<and> z_url is_url (member p ''url'') \<and> z_int 100 (Some 599) (member p ''statusCode'') \<noteq> None
   \<and> z_int 0 None (member p ''contentLength'') \<noteq> None \<and> z_int 0 None (member p ''fetchDurationMs'') \<noteq> None"

definition CrawlFailedPayloadSchema :: "(string \<Rightarrow> bool) \<Rightarrow> json \<Rightarrow> bool" where
  "CrawlFailedPayloadSchema is_url p \<longleftrightarrow>
     z_nonempty (member p ''jobId'') \<and> z_url is_url (member p ''url'') \<and> z_nonempty (member p ''errorKind'')
   \<and> json_str (member p ''message'') \<noteq> None \<and> z_int 1 None (member p ''attempt'') \<noteq> None"

definition URLDiscoveredPayloadSchema :: "(string \<Rightarrow> bool) \<Rightarrow> json \<Rightarrow> bool" where
  "URLDiscoveredPayloadSchema is_url p \<longleftrightarrow>
     z_url is_url (member p ''sourceUrl'') \<and> z_url is_url (member p ''discoveredUrl'') \<and> z_int 0 None (member p ''depth'') \<noteq> None"

definition ContentStoredPayloadSchema :: "(string \<Rightarrow> bool) \<Rightarrow> json \<Rightarrow> bool" where
  "ContentStoredPayloadSchema is_url p \<longleftrightarrow>
     z_nonempty (member p ''jobId'') \<and> z_url is_url (member p ''url'') \<and> z_nonempty (member p ''storageKey'')
   \<and> z_nonempty (member p ''contentType'') \<and> z_int 0 None (member p ''sizeBytes'') \<noteq> None"

definition payload_schema :: "(string \<Rightarrow> bool) \<Rightarrow> string \<Rightarrow> (json \<Rightarrow> bool) option" where
  "payload_schema is_url ty =
     (if ty = ''CrawlCompleted'' then Some (CrawlCompletedPayloadSchema is_url)
      else if ty = ''CrawlFailed'' then Some (CrawlFailedPayloadSchema is_url)
      else if ty = ''URLDiscovered'' then Some (URLDiscoveredPayloadSchema is_url)
      else if ty = ''ContentStored'' then Some (ContentStoredPayloadSchema is_url)
      else None)"

text \<open>The type of the event if it is valid.\<close>

definition DomainEventSchema :: "(string \<Rightarrow> bool) \<Rightarrow> json \<Rightarrow> string option" where
  "DomainEventSchema is_url v =
     (case json_str (member v ''type'') of
        None \<Rightarrow> None
      | Some ty \<Rightarrow>
          (case payload_schema is_url ty of
             None \<Rightarrow> None
           | Some schema \<Rightarrow>
               if member v ''version'' = Some (JNum 1) \<and> (case member v ''payload'' of Some p \<Rightarrow> is_object p \<and> schema p | None \<Rightarrow> False)
               then Some ty else None))"

definition EventEnvelopeSchema :: "(string \<Rightarrow> bool) \<Rightarrow> (string \<Rightarrow> bool) \<Rightarrow> json \<Rightarrow> string option" where
  "EventEnvelopeSchema is_url is_datetime v =
     (if z_nonempty (member v ''id'') \<and> z_url is_datetime (member v ''timestamp'') \<and> z_nonempty (member v ''source'')
      then (case member v ''event'' of Some e \<Rightarrow> DomainEventSchema is_url e | None \<Rightarrow> None) else None)"

definition domain_event :: "string \<Rightarrow> json \<Rightarrow> json" where
  "domain_event ty payload = JObj [(''type'', JStr ty), (''version'', JNum 1), (''payload'', payload)]"

definition createCrawlCompletedEvent :: "json \<Rightarrow> json" where
  "createCrawlCompletedEvent = domain_event ''CrawlCompleted''"

definition createCrawlFailedEvent :: "json \<Rightarrow> json" where
  "createCrawlFailedEvent = domain_event ''CrawlFailed''"

definition createURLDiscoveredEvent :: "json \<Rightarrow> json" where
  "createURLDiscoveredEvent = domain_event ''URLDiscovered''"

definition createContentStoredEvent :: "json \<Rightarrow> json" where
  "createContentStoredEvent = domain_event ''ContentStored''"

section \<open>event-handler.ts\<close>

datatype EventHandleResult = Handled string | Skipped string

text \<open>\<open>issues\<close>: the messages of the validator for a rejected value, joined.\<close>

definition parseEvent :: "(string \<Rightarrow> bool) \<Rightarrow> (json \<Rightarrow> string) \<Rightarrow> json \<Rightarrow> EventHandleResult \<times> log_line list" where
  "parseEvent is_url issues raw =
     (case DomainEventSchema is_url raw of
        Some ty \<Rightarrow> (Handled ty, [])
      | None \<Rightarrow>
          (let eventType = (case json_str (member raw ''type'') of Some s \<Rightarrow> s | None \<Rightarrow> ''unknown'');
               eventVersion = (case member raw ''version'' of Some (JNum q) \<Rightarrow> jsnum_text (Num q) | _ \<Rightarrow> ''unknown'')
           in (Skipped (''Unknown or invalid event: type='' @ eventType @ '', version='' @ eventVersion),
               [(LogWarn, ''Skipping unrecognized event'',
                 [(''type'', eventType), (''version'', eventVersion), (''errors'', issues raw)])])))"

fun isHandled :: "EventHandleResult \<Rightarrow> bool" where
  "isHandled (Handled _) = True"
| "isHandled (Skipped _) = False"

section \<open>Properties\<close>

lemma digits_then_rest:
  assumes "list_all is_digit ds" and "version_rest_ok r"
  shows "takeWhile is_digit (ds @ r) = ds \<and> dropWhile is_digit (ds @ r) = r"
proof -
  have "takeWhile is_digit r = []" "dropWhile is_digit r = r"
    using assms(2) by (cases r; simp add: version_rest_ok_def is_digit_def)+
  then show ?thesis using assms(1) by (simp add: list_all_iff)
qed

lemma VERSION_PREFIX_Some:
  "VERSION_PREFIX path = Some (x, rest) \<longleftrightarrow>
     (\<exists>ds r. ds \<noteq> [] \<and> list_all is_digit ds \<and> version_rest_ok r \<and> path = ''/api/v'' @ ds @ r \<and> x = ''v'' @ ds
        \<and> rest = (if r = [] then None else Some r))"
proof
  assume *: "VERSION_PREFIX path = Some (x, rest)"
  then obtain tail where path: "path = ''/api/v'' @ tail" by (auto simp: VERSION_PREFIX_def starts_with_iff split: if_splits)
  have "list_all is_digit (takeWhile is_digit tail)" by (auto simp: list_all_iff dest: set_takeWhileD)
  moreover have "takeWhile is_digit tail \<noteq> []" "version_rest_ok (dropWhile is_digit tail)" "x = ''v'' @ takeWhile is_digit tail"
      "rest = (if dropWhile is_digit tail = [] then None else Some (dropWhile is_digit tail))"
    using * path by (auto simp: VERSION_PREFIX_def Let_def split: if_splits)
  moreover have "path = ''/api/v'' @ takeWhile is_digit tail @ dropWhile is_digit tail" using path by simp
  ultimately show "\<exists>ds r. ds \<noteq> [] \<and> list_all is_digit ds \<and> version_rest_ok r \<and> path = ''/api/v'' @ ds @ r \<and> x = ''v'' @ ds
      \<and> rest = (if r = [] then None else Some r)" by blast
next
  assume "\<exists>ds r. ds \<noteq> [] \<and> list_all is_digit ds \<and> version_rest_ok r \<and> path = ''/api/v'' @ ds @ r \<and> x = ''v'' @ ds
      \<and> rest = (if r = [] then None else Some r)"
  then obtain ds r where *: "ds \<noteq> []" "list_all is_digit ds" "version_rest_ok r" "path = ''/api/v'' @ ds @ r" "x = ''v'' @ ds"
      "rest = (if r = [] then None else Some r)" by blast
  have "starts_with path ''/api/v''" "drop 6 path = ds @ r" using *(4) by (simp_all add: starts_with_def)
  then show "VERSION_PREFIX path = Some (x, rest)"
    using * digits_then_rest [OF *(2,3)] by (simp add: VERSION_PREFIX_def)
qed

text \<open>A path is accepted exactly when it is /api/v1 with nothing or a path after it, which is returned (a bare prefix gives the root path); a path with another version number is refused with that version, and every other path as having none.\<close>

theorem extractVersion_spec:
  "extractVersion path =
    (if \<exists>r. version_rest_ok r \<and> path = ''/api/v1'' @ r
     then Inr \<lparr>vm_version = ''v1'', vm_deprecated = False,
            vm_remainingPath = (if path = ''/api/v1'' then ''/'' else drop 7 path)\<rparr>
     else case VERSION_PREFIX path of
       Some (v, _) \<Rightarrow> Inl (UnsupportedVersion v)
     | None \<Rightarrow> Inl MissingVersion)"
proof (cases "VERSION_PREFIX path")
  case None
  have "\<not> (version_rest_ok r \<and> path = ''/api/v1'' @ r)" for r
    using None VERSION_PREFIX_Some [of path "''v1''" "if r = [] then None else Some r"] by (auto simp: is_digit_def)
  then show ?thesis using None by (auto simp: extractVersion_def)
next
  case (Some m)
  obtain x rest where m: "m = (x, rest)" by fastforce
  obtain ds r where *: "ds \<noteq> []" "list_all is_digit ds" "version_rest_ok r" "path = ''/api/v'' @ ds @ r" "x = ''v'' @ ds"
      "rest = (if r = [] then None else Some r)"
    using Some m VERSION_PREFIX_Some [of path x rest] by blast
  have "(\<exists>r'. version_rest_ok r' \<and> path = ''/api/v1'' @ r') \<longleftrightarrow> ds = ''1''"
  proof
    assume "\<exists>r'. version_rest_ok r' \<and> path = ''/api/v1'' @ r'"
    then obtain r' where r': "version_rest_ok r'" "ds @ r = ''1'' @ r'" using *(4) by auto
    have "ds = takeWhile is_digit (ds @ r)" using digits_then_rest [OF *(2,3)] by simp
    also have "\<dots> = ''1''" using digits_then_rest [of "''1''" r'] r' by (simp add: is_digit_def)
    finally show "ds = ''1''" .
  next
    assume "ds = ''1''"
    then show "\<exists>r'. version_rest_ok r' \<and> path = ''/api/v1'' @ r'" using * by auto
  qed
  then show ?thesis using Some m * by (auto simp: extractVersion_def API_VERSIONS_def DEPRECATED_VERSIONS_def)
qed

text \<open>A submission that comes through the gateway without a user, or whose body the schema rejects, never reaches the crawl service; one that reaches it carries one to a thousand URLs, a depth up to 100 and a concurrency of 1 to 100.\<close>

theorem submission_guarded:
  assumes "crawl_submit is_url (request_context service headers) raw w = (r, w')"
  shows "(\<exists>e. r = Inl e \<and> w' = w)
    \<or> (extractUserId headers \<noteq> None \<and> (\<exists>input. CrawlSubmitSchema is_url raw = Some input \<and> w' = snd (sv_submit service input w)
        \<and> list_all is_url (cs_urls input) \<and> cs_urls input \<noteq> [] \<and> length (cs_urls input) \<le> 1000
        \<and> 0 \<le> cs_maxDepth input \<and> cs_maxDepth input \<le> 100 \<and> 1 \<le> cs_maxConcurrent input \<and> cs_maxConcurrent input \<le> 100))"
proof (cases "extractUserId headers = None \<or> CrawlSubmitSchema is_url raw = None")
  case True
  then show ?thesis
    using assms by (auto simp: crawl_submit_def enforceAuth_def request_context_def createContext_def split: if_splits)
next
  case False
  then obtain input where i: "CrawlSubmitSchema is_url raw = Some input" by blast
  have ints: "lo \<le> n \<and> n \<le> hi" if "int_default lo hi d v = Some n" "lo \<le> d" "d \<le> hi" for lo hi d v n
    using that by (cases "(lo, Some hi, v)" rule: z_int.cases) (auto simp: int_default_def split: if_splits)
  have fields: "urls_field is_url (member raw ''urls'') = Some (cs_urls input)"
      "int_default 0 100 3 (member raw ''maxDepth'') = Some (cs_maxDepth input)"
      "int_default 1 100 10 (member raw ''maxConcurrent'') = Some (cs_maxConcurrent input)"
    using i by (auto simp: CrawlSubmitSchema_def split: option.splits)
  have "list_all is_url (cs_urls input) \<and> cs_urls input \<noteq> [] \<and> length (cs_urls input) \<le> 1000"
    using fields(1) by (auto simp: urls_field_def split: option.splits json.splits if_splits)
  moreover have "w' = snd (sv_submit service input w) \<or> (\<exists>e. r = Inl e \<and> w' = w)"
    using assms i by (auto simp: crawl_submit_def enforceAuth_def request_context_def createContext_def
        split: if_splits prod.splits completion.splits)
  ultimately show ?thesis using False i ints [OF fields(2)] ints [OF fields(3)] by auto
qed

definition counting_service :: "nat CrawlService" where
  "counting_service = \<lparr>sv_submit = (\<lambda>i n. (Return (''job'', int (length (cs_urls i))), Suc n)), sv_getStatus = (\<lambda>j n. (Return None, n))\<rparr>"

definition demo_body :: "string \<Rightarrow> json" where
  "demo_body url = JObj [(''urls'', JArr [JStr url]), (''maxDepth'', JNum 2)]"

theorem submission_guarded_witness:
  "crawl_submit (\<lambda>s. s \<noteq> []) (request_context counting_service [(''x-user-id'', OneHeader ''u1'')]) (demo_body ''https://example.com/'') 0
      = (Inr (''job'', 1, ''queued''), 1)
   \<and> crawl_submit (\<lambda>s. s \<noteq> []) (request_context counting_service [(''x-user-id'', OneHeader ''u1'')]) (demo_body []) 0 = (Inl BadRequest, 0)
   \<and> snd (crawl_submit (\<lambda>s. s \<noteq> []) (request_context counting_service []) (demo_body ''https://example.com/'') 0) = 0"
proof -
  let ?ok = "\<lambda>s. s \<noteq> []"
  have good: "crawl_submit ?ok (request_context counting_service [(''x-user-id'', OneHeader ''u1'')]) (demo_body ''https://example.com/'') 0
      = (Inr (''job'', 1, ''queued''), 1)" by code_simp
  have bad: "crawl_submit ?ok (request_context counting_service [(''x-user-id'', OneHeader ''u1'')]) (demo_body []) 0 = (Inl BadRequest, 0)"
    by code_simp
  obtain r w' where n: "crawl_submit ?ok (request_context counting_service []) (demo_body ''https://example.com/'') 0 = (r, w')" by fastforce
  have "w' = 0" using submission_guarded [OF n] by (auto simp: extractUserId_def)
  then show ?thesis using good bad n by simp
qed

text \<open>A span is started and ended once around every call, and the call's outcome passes through.\<close>

lemma otel_span_closed:
  "case otelMiddlewareFn kind path next w of ((r, evs), w') \<Rightarrow>
     (r, w') = next w \<and> hd evs = SpanStart (''trpc.'' @ kind @ ''.'' @ path) \<and> last evs = SpanEnd
     \<and> length (filter (\<lambda>e. e = SpanEnd) evs) = 1"
  by (auto simp: otelMiddlewareFn_def Let_def split: prod.splits completion.splits thrown.splits)

end
