(* ===== verification/ApiGateway.thy ===== *)
theory ApiGateway
  imports ApiRouter Observability CompositionRoot
begin

text \<open>
  apps/api-gateway/src and the router it mounts: which requests reach which procedure, what a client may
  rely on in the answers, and the life of the process from its start to its exit. Fastify and tRPC are the
  documented dispatch: a query is a GET, a mutation a POST, below the prefix of the plugin.
\<close>

section \<open>schemas.ts, router.ts\<close>

definition CrawlSubmitResponseSchema :: "json \<Rightarrow> bool" where
  "CrawlSubmitResponseSchema v \<longleftrightarrow>
     z_nonempty (member v ''jobId'') \<and> z_int 1 None (member v ''urlCount'') \<noteq> None \<and> member v ''status'' = Some (JStr ''queued'')"

definition CrawlStatusResponseSchema :: "(string \<Rightarrow> bool) \<Rightarrow> json \<Rightarrow> bool" where
  "CrawlStatusResponseSchema is_datetime v \<longleftrightarrow>
     z_nonempty (member v ''jobId'')
   \<and> j_enum [''queued'', ''running'', ''completed'', ''failed'', ''cancelled''] (member v ''status'') \<noteq> None
   \<and> z_int 0 None (member v ''urlsTotal'') \<noteq> None \<and> z_int 0 None (member v ''urlsCrawled'') \<noteq> None
   \<and> z_int 0 None (member v ''urlsFailed'') \<noteq> None
   \<and> (member v ''startedAt'' = None \<or> z_url is_datetime (member v ''startedAt''))
   \<and> (member v ''completedAt'' = None \<or> z_url is_datetime (member v ''completedAt''))"

definition HealthResponseSchema :: "json \<Rightarrow> string option" where
  "HealthResponseSchema v = j_enum [''ok'', ''degraded'', ''unhealthy''] (member v ''status'')"

text \<open>What the procedures answer as JSON.\<close>

definition submit_json :: "string \<times> int \<times> string \<Rightarrow> json" where
  "submit_json r = (case r of (jobId, urlCount, status) \<Rightarrow>
     JObj [(''jobId'', JStr jobId), (''urlCount'', JNum (of_int urlCount)), (''status'', JStr status)])"

fun status_text :: "CrawlStatus \<Rightarrow> string" where
  "status_text StQueued = ''queued''"
| "status_text StRunning = ''running''"
| "status_text StCompleted = ''completed''"
| "status_text StFailed = ''failed''"
| "status_text StCancelled = ''cancelled''"

definition status_json :: "CrawlStatusInfo \<Rightarrow> json" where
  "status_json s = JObj ([(''jobId'', JStr (ci_jobId s)), (''status'', JStr (status_text (ci_status s))),
     (''urlsTotal'', JNum (of_int (ci_urlsTotal s))), (''urlsCrawled'', JNum (of_int (ci_urlsCrawled s))),
     (''urlsFailed'', JNum (of_int (ci_urlsFailed s)))]
     @ (case ci_startedAt s of None \<Rightarrow> [] | Some t \<Rightarrow> [(''startedAt'', JStr t)])
     @ (case ci_completedAt s of None \<Rightarrow> [] | Some t \<Rightarrow> [(''completedAt'', JStr t)]))"

text \<open>The health procedure: its answer passes the output schema, or the call fails.\<close>

definition health_check :: "'w \<Rightarrow> (TRPCError + json) \<times> 'w" where
  "health_check w =
     (let answer = JObj [(''status'', JStr ''ok'')]
      in ((if HealthResponseSchema answer = None then Inl (InternalError (ThrownOther ''Output validation failed'')) else Inr answer), w))"

datatype procedure_kind = Query | Mutation

type_synonym 'w procedure = "'w api_context \<Rightarrow> json \<Rightarrow> 'w \<Rightarrow> (TRPCError + json) \<times> 'w"

definition answered :: "('a \<Rightarrow> json) \<Rightarrow> (TRPCError + 'a) \<times> 'w \<Rightarrow> (TRPCError + json) \<times> 'w" where
  "answered f r = (map_sum id f (fst r), snd r)"

definition appRouter :: "(string \<Rightarrow> bool) \<Rightarrow> (string \<times> procedure_kind \<times> 'w procedure) list" where
  "appRouter is_url =
     [(''crawl.submit'', Mutation, \<lambda>ctx raw w. answered submit_json (crawl_submit is_url ctx raw w)),
      (''crawl.status'', Query, \<lambda>ctx raw w. answered status_json (crawl_status ctx raw w)),
      (''health.check'', Query, \<lambda>ctx raw w. health_check w)]"

section \<open>server.ts\<close>

record 'w ServerOptions =
  so_host :: string
  so_port :: jsnum
  so_crawlService :: "'w CrawlService"
  so_logLevel :: "string option"

text \<open>One call over HTTP; a missing input is \<open>undefined\<close>, which no input schema accepts, as it accepts no \<open>null\<close>.\<close>

record http_request =
  hr_method :: string
  hr_path :: string
  hr_headers :: "(string \<times> header_value) list"
  hr_input :: "json option"

datatype gateway_reply = HealthOk json | ProcedureReply "TRPCError + json" | NoProcedure string | WrongMethod | RouteNotFound

definition trpc_prefix :: string where
  "trpc_prefix = ''/api/v1/trpc''"

definition method_of :: "procedure_kind \<Rightarrow> string" where
  "method_of k = (case k of Query \<Rightarrow> ''GET'' | Mutation \<Rightarrow> ''POST'')"

definition trpc_plugin ::
  "(string \<times> procedure_kind \<times> 'w procedure) list \<Rightarrow> (http_request \<Rightarrow> 'w api_context) \<Rightarrow> http_request \<Rightarrow> string \<Rightarrow> 'w \<Rightarrow> gateway_reply \<times> 'w" where
  "trpc_plugin router context rq path w =
     (case map_of router path of
        None \<Rightarrow> (NoProcedure path, w)
      | Some (kind, proc) \<Rightarrow>
          if hr_method rq \<noteq> method_of kind then (WrongMethod, w)
          else (case proc (context rq) (case hr_input rq of Some v \<Rightarrow> v | None \<Rightarrow> JNull) w of (r, w') \<Rightarrow> (ProcedureReply r, w')))"

record 'w gateway_server =
  gs_level :: string
  gs_handle :: "http_request \<Rightarrow> 'w \<Rightarrow> gateway_reply \<times> 'w"

definition createServer :: "(string \<Rightarrow> bool) \<Rightarrow> 'w ServerOptions \<Rightarrow> 'w gateway_server" where
  "createServer is_url opts =
     \<lparr>gs_level = (case so_logLevel opts of Some l \<Rightarrow> l | None \<Rightarrow> ''info''),
      gs_handle = (\<lambda>rq w.
        if hr_path rq = ''/health''
        then (if hr_method rq = ''GET'' then (HealthOk (JObj [(''status'', JStr ''ok'')]), w) else (RouteNotFound, w))
        else if starts_with (hr_path rq) (trpc_prefix @ ''/'')
        then trpc_plugin (appRouter is_url) (\<lambda>rq. createContext (extractUserId (hr_headers rq)) (so_crawlService opts)) rq
               (drop (length trpc_prefix + 1) (hr_path rq)) w
        else (RouteNotFound, w))\<rparr>"

section \<open>main.ts\<close>

definition gateway_port :: "(string \<Rightarrow> string option) \<Rightarrow> jsnum" where
  "gateway_port env = js_Number (case env ''PORT'' of Some p \<Rightarrow> p | None \<Rightarrow> ''3000'')"

definition gateway_host :: "(string \<Rightarrow> string option) \<Rightarrow> string" where
  "gateway_host env = (case env ''HOST'' of Some h \<Rightarrow> h | None \<Rightarrow> ''0.0.0.0'')"

text \<open>The service until a real one is wired: a random id, and no status ever.\<close>

definition stubCrawlService :: "('w \<Rightarrow> string \<times> 'w) \<Rightarrow> 'w CrawlService" where
  "stubCrawlService randomUUID =
     \<lparr>sv_submit = (\<lambda>input w. case randomUUID w of (i, w') \<Rightarrow> (Return (i, int (length (cs_urls input))), w')),
      sv_getStatus = (\<lambda>jobId w. (Return None, w))\<rparr>"

definition gateway_options :: "('w \<Rightarrow> string \<times> 'w) \<Rightarrow> (string \<Rightarrow> string option) \<Rightarrow> 'w ServerOptions" where
  "gateway_options randomUUID env =
     \<lparr>so_host = gateway_host env, so_port = gateway_port env, so_crawlService = stubCrawlService randomUUID, so_logLevel = None\<rparr>"

text \<open>
  The process: \<open>main\<close> waits for the server to be created, then for it to listen; a signal calls
  \<open>close\<close>, each signal again, or ends the process while it has no handler. A close that fails is an unhandled
  rejection, which ends a Node process with code 1.
\<close>

datatype gateway_phase = Creating | Listening | Running

record gateway_process =
  gp_phase :: gateway_phase
  gp_handlers :: bool
  gp_closing :: nat
  gp_exit :: "int option"
  gp_console :: "(string \<times> thrown) list"

datatype gateway_event = Created "unit completion" | Listened "unit completion" | ShutdownSignal Signal | Closed "unit completion"

definition gateway_start :: gateway_process where
  "gateway_start = \<lparr>gp_phase = Creating, gp_handlers = False, gp_closing = 0, gp_exit = None, gp_console = []\<rparr>"

definition main_rejected :: "thrown \<Rightarrow> gateway_process \<Rightarrow> gateway_process" where
  "main_rejected t p = p\<lparr>gp_console := gp_console p @ [(''Failed to start api-gateway:'', t)], gp_exit := Some 1\<rparr>"

fun gateway_step :: "gateway_process \<Rightarrow> gateway_event \<Rightarrow> gateway_process" where
  "gateway_step p e =
     (if gp_exit p \<noteq> None then p
      else case e of
        Created r \<Rightarrow>
          (if gp_phase p \<noteq> Creating then p
           else case r of Throw t \<Rightarrow> main_rejected t p | Return _ \<Rightarrow> p\<lparr>gp_handlers := True, gp_phase := Listening\<rparr>)
      | Listened r \<Rightarrow>
          (if gp_phase p \<noteq> Listening then p
           else case r of Throw t \<Rightarrow> main_rejected t p | Return _ \<Rightarrow> p\<lparr>gp_phase := Running\<rparr>)
      | ShutdownSignal s \<Rightarrow> if gp_handlers p then p\<lparr>gp_closing := Suc (gp_closing p)\<rparr> else p\<lparr>gp_exit := Some (case s of SIGTERM \<Rightarrow> 143 | SIGINT \<Rightarrow> 130)\<rparr>
      | Closed r \<Rightarrow>
          (if gp_closing p = 0 then p
           else p\<lparr>gp_closing := gp_closing p - 1, gp_exit := Some (case r of Return _ \<Rightarrow> 0 | Throw _ \<Rightarrow> 1)\<rparr>))"

section \<open>otel-middleware.ts, the trace of a call\<close>

definition injectTraceHeaders :: "('ctx, 'span, 'w) otel_api \<Rightarrow> 'w \<Rightarrow> TraceCarrier" where
  "injectTraceHeaders api w = ot_inject api (ot_active api w) \<lparr>tr_traceparent = None\<rparr>"

text \<open>\<open>meta\<close>: the headers of the call, when the context of the procedure has an object there.\<close>

definition extractParentContext :: "('ctx, 'span, 'w) otel_api \<Rightarrow> TraceCarrier option \<Rightarrow> 'w \<Rightarrow> 'ctx" where
  "extractParentContext api meta w =
     (case meta of Some m \<Rightarrow> ot_extract api (ot_active api w) m | None \<Rightarrow> ot_active api w)"

definition server_span :: "('ctx, 'span, 'w) otel_api \<Rightarrow> TraceCarrier option \<Rightarrow> string \<Rightarrow> string \<Rightarrow> 'w \<Rightarrow> 'span \<times> 'w" where
  "server_span api meta kind path w =
     ot_startSpan api ''ipf-api-router'' (''trpc.'' @ kind @ ''.'' @ path) KindServer (extractParentContext api meta w) w"

text \<open>A traced call: the span of its parent, the procedure, the end of the span.\<close>

definition traced_call ::
  "('ctx, 'span, 'w) otel_api \<Rightarrow> TraceCarrier option \<Rightarrow> string \<Rightarrow> string \<Rightarrow> ('w \<Rightarrow> (bool \<times> 'a) completion \<times> 'w) \<Rightarrow> 'w
     \<Rightarrow> ((bool \<times> 'a) completion \<times> span_event list) \<times> 'w" where
  "traced_call api meta kind path next w =
     (let (sp, w1) = server_span api meta kind path w; (r, w2) = otelMiddlewareFn kind path next w1
      in (r, ot_end api sp w2))"

section \<open>What a request can do\<close>

lemma crawl_status_cases:
  "crawl_status ctx raw w = (r, w') \<Longrightarrow>
     w' = w \<or> (\<exists>jobId. CrawlStatusSchema raw = Some jobId \<and> jobId \<noteq> [] \<and> w' = snd (sv_getStatus (ax_crawlService ctx) jobId w))"
  by (auto simp: crawl_status_def CrawlStatusSchema_def z_nonempty_def split: option.splits prod.splits completion.splits if_splits)

lemma appRouter_cases:
  assumes "map_of (appRouter is_url) path = Some (kind, proc)" and "proc ctx raw w = (r, w')"
  shows "(path = ''crawl.submit'' \<and> kind = Mutation \<and> w' = snd (crawl_submit is_url ctx raw w) \<and> r = map_sum id submit_json (fst (crawl_submit is_url ctx raw w)))
    \<or> (path = ''crawl.status'' \<and> kind = Query \<and> w' = snd (crawl_status ctx raw w))
    \<or> (path = ''health.check'' \<and> kind = Query \<and> w' = w)"
  using assms by (auto simp: appRouter_def answered_def health_check_def Let_def split: if_splits)

text \<open>What a request to the gateway can be about.\<close>

lemma gateway_cases:
  assumes "gs_handle (createServer is_url opts) rq w = (reply, w')"
  obtains (none) "w' = w" "\<forall>r. reply \<noteq> ProcedureReply r"
  | (procedure) path kind proc r where "hr_path rq = trpc_prefix @ ''/'' @ path" "map_of (appRouter is_url) path = Some (kind, proc)"
      "hr_method rq = method_of kind" "reply = ProcedureReply r"
      "proc (request_context (so_crawlService opts) (hr_headers rq)) (case hr_input rq of Some v \<Rightarrow> v | None \<Rightarrow> JNull) w = (r, w')"
proof (cases "starts_with (hr_path rq) (trpc_prefix @ ''/'') \<and> hr_path rq \<noteq> ''/health''")
  case True
  then obtain path where "hr_path rq = trpc_prefix @ ''/'' @ path" by (auto simp: starts_with_iff)
  moreover have "length trpc_prefix + 1 = length (trpc_prefix @ ''/'')" by simp
  ultimately show ?thesis
    using assms that True
    by (auto simp: createServer_def trpc_plugin_def request_context_def split: option.splits prod.splits if_splits)
next
  case False
  then show ?thesis using assms that(1) by (auto simp: createServer_def split: if_splits)
qed


text \<open>The stub answers every accepted submission as the response schema has it, as long as the ids it draws are not empty.\<close>

lemma stub_submission_conforms:
  assumes "gs_handle (createServer is_url (gateway_options randomUUID env)) rq w = (ProcedureReply (Inr v), w')"
    and "hr_path rq = ''/api/v1/trpc/crawl.submit''" and "\<And>w. fst (randomUUID w) \<noteq> []"
  shows "CrawlSubmitResponseSchema v"
  using assms(1)
proof (cases rule: gateway_cases)
  case (procedure path kind proc r)
  let ?raw = "case hr_input rq of Some v \<Rightarrow> v | None \<Rightarrow> JNull"
    and ?ctx = "request_context (so_crawlService (gateway_options randomUUID env)) (hr_headers rq)"
  have "path = ''crawl.submit''" using procedure(1) assms(2) by (simp add: trpc_prefix_def)
  then have "Inr v = map_sum id submit_json (fst (crawl_submit is_url ?ctx ?raw w))"
    using appRouter_cases [OF procedure(2,5)] procedure(4) by auto
  then obtain x where x: "crawl_submit is_url ?ctx ?raw w = (Inr x, w')" "v = submit_json x"
    using appRouter_cases [OF procedure(2,5)] \<open>path = ''crawl.submit''\<close> by (cases "crawl_submit is_url ?ctx ?raw w") (auto simp: map_sum_def split: sum.splits)
  obtain input i w1 where i: "CrawlSubmitSchema is_url ?raw = Some input" "x = (i, int (length (cs_urls input)), ''queued'')" "randomUUID w = (i, w1)"
    using x(1) by (auto simp: crawl_submit_def enforceAuth_def request_context_def createContext_def gateway_options_def stubCrawlService_def
        split: if_splits option.splits prod.splits)
  have "cs_urls input \<noteq> []"
    using i(1) by (auto simp: CrawlSubmitSchema_def urls_field_def split: option.splits json.splits if_splits)
  then have "1 \<le> int (length (cs_urls input))" by (cases "cs_urls input") simp_all
  then show ?thesis
    using x(2) i(2,3) assms(3) [of w] by (simp add: CrawlSubmitResponseSchema_def submit_json_def z_nonempty_def)
qed simp

section \<open>How the process ends\<close>

definition gateway_inv :: "gateway_process \<Rightarrow> bool" where
  "gateway_inv p \<longleftrightarrow> (gp_handlers p \<longleftrightarrow> gp_phase p \<noteq> Creating) \<and> (0 < gp_closing p \<longrightarrow> gp_handlers p)
     \<and> (gp_exit p = Some 0 \<longrightarrow> gp_handlers p \<and> gp_console p = []) \<and> (gp_console p \<noteq> [] \<longrightarrow> gp_exit p = Some 1)"

lemma gateway_inv_step: "gateway_inv p \<Longrightarrow> gateway_inv (gateway_step p e)"
  by (cases e; cases "gp_phase p") (auto simp: gateway_inv_def main_rejected_def split: completion.splits Signal.splits)

interpretation gateway: step_system gateway_step gateway_inv
  by unfold_locales (rule gateway_inv_step)

text \<open>
  The exit code 0 means that a signal asked for it and a close succeeded, after a start without complaint; what
  went wrong at the start is on the console of a process that ended with 1.
\<close>

lemma gateway_start_errors:
  "let p = foldl gateway_step gateway_start es in (gp_exit p = Some 0 \<longrightarrow> gp_console p = []) \<and> (gp_console p \<noteq> [] \<longrightarrow> gp_exit p = Some 1)"
proof -
  have "gateway_inv gateway_start" by (simp add: gateway_inv_def gateway_start_def)
  from gateway.run_inv [OF this, of es] show ?thesis by (simp add: gateway_inv_def Let_def)
qed

lemma gateway_clean_exit:
  "gp_exit (foldl gateway_step gateway_start es) = Some 0 \<Longrightarrow> Closed (Return ()) \<in> set es \<and> (\<exists>s. ShutdownSignal s \<in> set es)"
proof -
  have "(0 < gp_closing (foldl gateway_step gateway_start es) \<longrightarrow> (\<exists>s. ShutdownSignal s \<in> set es)) \<and>
    (gp_exit (foldl gateway_step gateway_start es) = Some 0 \<longrightarrow> Closed (Return ()) \<in> set es \<and> (\<exists>s. ShutdownSignal s \<in> set es))"
  proof (induction es rule: rev_induct)
    case Nil
    then show ?case by (simp add: gateway_start_def)
  next
    case (snoc e es)
    then show ?case by (cases e) (auto simp: main_rejected_def split: completion.splits if_splits Signal.splits)
  qed
  then show "gp_exit (foldl gateway_step gateway_start es) = Some 0 \<Longrightarrow> Closed (Return ()) \<in> set es \<and> (\<exists>s. ShutdownSignal s \<in> set es)"
    by blast
qed

section \<open>The trace of a call\<close>

text \<open>A call whose headers were injected joins the trace of its caller, is ended once, and passes its outcome on.\<close>

lemma traced_call_joins:
  assumes "\<And>here ctx c. ot_extract api here (ot_inject api ctx c) = ctx"
  shows "traced_call api (Some (injectTraceHeaders api w0)) kind path next w =
    (case ot_startSpan api ''ipf-api-router'' (''trpc.'' @ kind @ ''.'' @ path) KindServer (ot_active api w0) w of
       (sp, w1) \<Rightarrow> (fst (otelMiddlewareFn kind path next w1), ot_end api sp (snd (next w1))))"
  by (auto simp: traced_call_def server_span_def extractParentContext_def injectTraceHeaders_def assms otelMiddlewareFn_def Let_def
      split: prod.splits completion.splits)

section \<open>A request\<close>

definition demo_request :: http_request where
  "demo_request = \<lparr>hr_method = ''POST'', hr_path = ''/api/v1/trpc/crawl.submit'', hr_headers = [(''x-user-id'', OneHeader ''u1'')],
     hr_input = Some (demo_body ''https://example.com/'')\<rparr>"

definition demo_options :: "nat ServerOptions" where
  "demo_options = gateway_options (\<lambda>n. (''job'', Suc n)) (\<lambda>v. None)"


end
