(* ===== verification/CrawlSystem.thy ===== *)
theory CrawlSystem
  imports CrawlPipeline UrlFrontier Startup "HOL-Library.Multiset"
begin

text \<open>
  A whole crawl: the queue holds jobs, workers take them, each runs the consumer of main.ts around the
  crawl pipeline, whose links go through the frontier adapter and the queue backend into the queue again.
  The queue of the library is seen through the ids it knows and its unfinished jobs with the attempts
  they have left; steps interleave at whole jobs. The executor that main.ts leaves open is a parameter
  that runs the pipeline on the entry of the payload.
\<close>

section \<open>One job\<close>

text \<open>The data of a job as the queue hands it to the consumer.\<close>

definition job_value :: "JobData \<Rightarrow> js_value" where
  "job_value d = JsObject [(''url'', JsString (jd_url d)), (''depth'', JsNumber (Num (of_int (jd_depth d))))]"

lemma JobPayloadSchema_job_value:
  "jd_url d \<noteq> [] \<Longrightarrow> 0 \<le> jd_depth d \<Longrightarrow> jd_depth d \<le> 9007199254740991 \<Longrightarrow>
     JobPayloadSchema (job_value d) = Some \<lparr>jp_url = jd_url d, jp_depth = jd_depth d\<rparr>"
  by (simp add: JobPayloadSchema_def job_value_def js_field_def)

lemma JobPayloadSchema_job: "JobPayloadSchema (job_value d) = Some p \<Longrightarrow> jp_depth p = jd_depth d \<and> jp_url p = jd_url d"
  by (auto simp: JobPayloadSchema_def job_value_def js_field_def split: if_splits)

text \<open>The consumer as the queue sees it: it settles, and the world changed.\<close>

definition crawl_consumer ::
  "(js_value \<Rightarrow> string) \<Rightarrow> (JobPayload \<Rightarrow> 'w \<Rightarrow> (CrawlError, int) result completion \<times> 'w) \<Rightarrow> js_value \<Rightarrow> 'w \<Rightarrow> unit completion \<times> 'w" where
  "crawl_consumer zod exec raw w = (case consumer_processor zod exec raw w of ((c, ms), (logs, w')) \<Rightarrow> (c, w'))"

lemma crawl_consumer_world:
  "snd (crawl_consumer zod exec raw w) = (case JobPayloadSchema raw of None \<Rightarrow> w | Some p \<Rightarrow> snd (exec p w))"
  by (auto simp: crawl_consumer_def consumer_processor_def processJob_def Let_def
      split: option.split prod.splits completion.splits sum.splits if_splits ProcessJobResult.splits)

section \<open>The laws of the surroundings\<close>

type_synonym job_queue = "(BullJob \<times> nat) multiset"

text \<open>
  Adding jobs to the queue: whatever the call answers, it adds some of the jobs, at most one for each id
  and none whose id the queue knows (BullMQ ignores a job with a known id), with all their attempts.
\<close>

definition add_law :: "('w \<Rightarrow> string set) \<Rightarrow> ('w \<Rightarrow> job_queue) \<Rightarrow> BullJob list \<Rightarrow> 'w \<Rightarrow> 'w \<Rightarrow> bool" where
  "add_law known waiting js w w' \<longleftrightarrow>
     (\<exists>added. set added \<subseteq> set js \<and> distinct (map bj_jobId added) \<and> bj_jobId ` set added \<inter> known w = {}
        \<and> known w' = known w \<union> bj_jobId ` set added
        \<and> waiting w' = waiting w + mset (map (\<lambda>j. (j, nat (bj_attempts j))) added))"

definition crawl_laws ::
  "('w \<Rightarrow> string set) \<Rightarrow> ('w \<Rightarrow> job_queue) \<Rightarrow> (string \<Rightarrow> string) \<Rightarrow> FrontierConfig \<Rightarrow> 'w bull_queue \<Rightarrow> 'w pipeline_deps \<Rightarrow>
     PipelineConfig \<Rightarrow> (JobPayload \<Rightarrow> CrawlFrontierEntry) \<Rightarrow> (JobPayload \<Rightarrow> 'w \<Rightarrow> (CrawlError, int) result completion \<times> 'w) \<Rightarrow> bool" where
  "crawl_laws known waiting sha fconfig queue deps config entry_of exec \<longleftrightarrow>
     (\<forall>p w. snd (exec p w) = snd (executePipeline (entry_of p) config deps w))
   \<and> (\<forall>p. ce_depth (entry_of p) = jp_depth p)
   \<and> (\<forall>u c w. known (snd (pd_fetch deps u c w)) = known w \<and> waiting (snd (pd_fetch deps u c w)) = waiting w)
   \<and> (\<forall>es w. snd (pd_enqueue deps es w) = snd (enqueueEntries sha es (createBullMQQueueBackend queue) fconfig w))
   \<and> (\<forall>js w. add_law known waiting js w (snd (bq_addBulk queue js w)))"

section \<open>Steps and runs\<close>

datatype crawl_event = JobDone BullJob | JobRetried BullJob | JobFailed BullJob

inductive crawl_step ::
  "('w \<Rightarrow> string set) \<Rightarrow> ('w \<Rightarrow> job_queue) \<Rightarrow> (js_value \<Rightarrow> 'w \<Rightarrow> unit completion \<times> 'w) \<Rightarrow> crawl_event \<Rightarrow> 'w \<Rightarrow> 'w \<Rightarrow> bool"
  for known waiting process where
  StepDone: "(j, n) \<in># waiting w \<Longrightarrow> waiting w1 = waiting w - {#(j, n)#} \<Longrightarrow> known w1 = known w \<Longrightarrow>
     process (job_value (bj_data j)) w1 = (Return (), w2) \<Longrightarrow> crawl_step known waiting process (JobDone j) w w2"
| StepRetried: "(j, Suc (Suc n)) \<in># waiting w \<Longrightarrow> waiting w1 = waiting w - {#(j, Suc (Suc n))#} \<Longrightarrow> known w1 = known w \<Longrightarrow>
     process (job_value (bj_data j)) w1 = (Throw t, w2) \<Longrightarrow> waiting w3 = waiting w2 + {#(j, Suc n)#} \<Longrightarrow> known w3 = known w2 \<Longrightarrow>
     crawl_step known waiting process (JobRetried j) w w3"
| StepFailed: "(j, n) \<in># waiting w \<Longrightarrow> n \<le> 1 \<Longrightarrow> waiting w1 = waiting w - {#(j, n)#} \<Longrightarrow> known w1 = known w \<Longrightarrow>
     process (job_value (bj_data j)) w1 = (Throw t, w2) \<Longrightarrow> crawl_step known waiting process (JobFailed j) w w2"

inductive crawl_run ::
  "('w \<Rightarrow> string set) \<Rightarrow> ('w \<Rightarrow> job_queue) \<Rightarrow> (js_value \<Rightarrow> 'w \<Rightarrow> unit completion \<times> 'w) \<Rightarrow> 'w \<Rightarrow> crawl_event list \<Rightarrow> 'w \<Rightarrow> bool"
  for known waiting process w0 where
  CrawlStart: "crawl_run known waiting process w0 [] w0"
| CrawlMore: "crawl_run known waiting process w0 es w \<Longrightarrow> crawl_step known waiting process e w w' \<Longrightarrow>
     crawl_run known waiting process w0 (es @ [e]) w'"

section \<open>What one job adds\<close>

text \<open>
  The jobs of the pages in \<open>L\<close>, one level below a page of depth \<open>d\<close>; none below the limit. The world
  after a step differs by some of them, none known before.
\<close>

definition child_jobs :: "(string \<Rightarrow> string) \<Rightarrow> FrontierConfig \<Rightarrow> int \<Rightarrow> string set \<Rightarrow> int \<Rightarrow> BullJob set" where
  "child_jobs sha fconfig m L d =
     (if d \<le> m then (\<lambda>u. toBullMQJob (job_spec sha fconfig \<lparr>fe_entry_url = u, fe_priority = 0, fe_depth = d + 1\<rparr>)) ` L else {})"

definition adds_jobs :: "('w \<Rightarrow> string set) \<Rightarrow> ('w \<Rightarrow> job_queue) \<Rightarrow> BullJob set \<Rightarrow> 'w \<Rightarrow> 'w \<Rightarrow> bool" where
  "adds_jobs known waiting J w w' \<longleftrightarrow>
     (\<exists>added. distinct (map bj_jobId added) \<and> bj_jobId ` set added \<inter> known w = {} \<and> set added \<subseteq> J
        \<and> known w' = known w \<union> bj_jobId ` set added
        \<and> waiting w' = waiting w + mset (map (\<lambda>j. (j, nat (bj_attempts j))) added))"

lemma child_jobs_depth: "a \<in> child_jobs sha fconfig m L d \<Longrightarrow> jd_depth (bj_data a) = d + 1 \<and> d \<le> m"
  by (auto simp: child_jobs_def toBullMQJob_def job_spec_def split: if_splits)

lemma adds_nothing: "known w' = known w \<Longrightarrow> waiting w' = waiting w \<Longrightarrow> adds_jobs known waiting J w w'"
  by (auto simp: adds_jobs_def intro!: exI [of _ "[]"])

lemma adds_jobs_cong:
  "known w' = known w \<Longrightarrow> waiting w' = waiting w \<Longrightarrow> adds_jobs known waiting J w' v = adds_jobs known waiting J w v"
  by (simp add: adds_jobs_def)

text \<open>The pages a pipeline may find on an entry, at any time.\<close>

definition finds :: "'w pipeline_deps \<Rightarrow> CrawlFrontierEntry \<Rightarrow> string set \<Rightarrow> bool" where
  "finds deps entry L \<longleftrightarrow> (\<forall>w c w1 urls logs. fetchEntry entry deps w = (Return (Ok c), w1) \<longrightarrow>
     discoverLinks (pd_platform deps) c (pd_extract deps) = (Ok urls, logs) \<longrightarrow> cu_normalized ` set urls \<subseteq> L)"

lemma finds_UNIV: "finds deps entry UNIV"
  by (simp add: finds_def)

lemma fetchEntry_world: "snd (fetchEntry entry deps w) = snd (pd_fetch deps (ce_url entry) (pd_fetchConfig deps) w)"
  by (auto simp: fetchEntry_def Let_def split: prod.split completion.split sum.split)

lemma enqueueUrls_world:
  "snd (enqueueUrls urls entry deps w) = (if urls = [] then w else snd (pd_enqueue deps (child_entries urls entry) w))"
  by (auto simp: enqueueUrls_def split: prod.split completion.split sum.split)

lemma enqueueEntries_world:
  "es \<noteq> [] \<Longrightarrow> snd (enqueueEntries sha es (createBullMQQueueBackend queue) fconfig w)
     = snd (bq_addBulk queue (map toBullMQJob (batch_jobs sha fconfig es)) w)"
  by (auto simp: enqueueEntries_def createBullMQQueueBackend_def bull_addBulk_def Let_def split: prod.split completion.split sum.split)

text \<open>The pipeline changes the world by the fetch and, below the depth limit, by enqueueing what it found.\<close>

lemma executePipeline_world:
  assumes "finds deps entry L"
  shows "snd (executePipeline entry config deps w) = w \<or> snd (executePipeline entry config deps w) = snd (fetchEntry entry deps w)
    \<or> (ce_depth entry \<le> pl_maxDepth config \<and> (\<exists>urls. cu_normalized ` set urls \<subseteq> L
        \<and> snd (executePipeline entry config deps w) = snd (enqueueUrls urls entry deps (snd (fetchEntry entry deps w)))))"
proof (cases "isOk (validateEntry (up_parse (pd_platform deps)) entry
    \<lparr>vc_maxDepth = pl_maxDepth config, vc_allowedDomains = pl_allowedDomains config\<rparr>)")
  case False
  then show ?thesis by (auto simp: executePipeline_def isOk_def split: sum.splits)
next
  case True
  then obtain u where u: "validateEntry (up_parse (pd_platform deps)) entry
      \<lparr>vc_maxDepth = pl_maxDepth config, vc_allowedDomains = pl_allowedDomains config\<rparr> = Ok u" by (auto simp: isOk_iff)
  have d: "ce_depth entry \<le> pl_maxDepth config" using True by (simp add: validateEntry_Ok)
  obtain x w1 where f: "fetchEntry entry deps w = (x, w1)" by fastforce
  show ?thesis
  proof (cases "\<exists>c urls logs. x = Return (Ok c) \<and> discoverLinks (pd_platform deps) c (pd_extract deps) = (Ok urls, logs)")
    case True
    then obtain c urls logs where c: "x = Return (Ok c)" "discoverLinks (pd_platform deps) c (pd_extract deps) = (Ok urls, logs)" by blast
    have "snd (executePipeline entry config deps w) = snd (enqueueUrls urls entry deps w1)"
      using u f c by (simp add: executePipeline_def split: prod.split completion.split sum.split)
    moreover have "cu_normalized ` set urls \<subseteq> L" using assms f c unfolding finds_def by blast
    ultimately show ?thesis using d f by auto
  next
    case False
    then have "snd (executePipeline entry config deps w) = w1"
      using u f by (auto simp: executePipeline_def split: prod.split completion.split sum.split)
    then show ?thesis using f by auto
  qed
qed

lemma batch_child_jobs:
  assumes "ce_depth entry \<le> m" "cu_normalized ` set urls \<subseteq> L"
  shows "toBullMQJob ` set (batch_jobs sha fconfig (child_entries urls entry)) \<subseteq> child_jobs sha fconfig m L (ce_depth entry)"
proof (rule image_subsetI)
  fix spec assume "spec \<in> set (batch_jobs sha fconfig (child_entries urls entry))"
  then obtain x where "x \<in> set (child_entries urls entry)" "spec = job_spec sha fconfig x"
    using batch.dedup_subset [of sha "child_entries urls entry"] by (auto simp: batch_jobs_eq)
  with assms show "toBullMQJob spec \<in> child_jobs sha fconfig m L (ce_depth entry)"
    by (auto simp: child_entries_def child_jobs_def)
qed

lemma enqueue_adds_children:
  assumes "crawl_laws known waiting sha fconfig queue deps config entry_of exec" and "ce_depth entry \<le> pl_maxDepth config"
    and "cu_normalized ` set urls \<subseteq> L"
  shows "adds_jobs known waiting (child_jobs sha fconfig (pl_maxDepth config) L (ce_depth entry)) v (snd (enqueueUrls urls entry deps v))"
proof (cases "urls = []")
  case True
  then show ?thesis by (simp add: enqueueUrls_world adds_nothing)
next
  case False
  let ?jobs = "map toBullMQJob (batch_jobs sha fconfig (child_entries urls entry))"
  have "snd (enqueueUrls urls entry deps v) = snd (bq_addBulk queue ?jobs v)"
    using assms(1) False by (simp add: enqueueUrls_world enqueueEntries_world crawl_laws_def child_entries_def)
  then have "add_law known waiting ?jobs v (snd (enqueueUrls urls entry deps v))"
    using assms(1) by (simp add: crawl_laws_def)
  moreover have "set ?jobs \<subseteq> child_jobs sha fconfig (pl_maxDepth config) L (ce_depth entry)"
    using batch_child_jobs [OF assms(2,3)] by simp
  ultimately show ?thesis unfolding add_law_def adds_jobs_def by (meson subset_trans)
qed

lemma pipeline_adds_children:
  assumes "crawl_laws known waiting sha fconfig queue deps config entry_of exec" and "finds deps entry L"
  shows "adds_jobs known waiting (child_jobs sha fconfig (pl_maxDepth config) L (ce_depth entry)) w (snd (executePipeline entry config deps w))"
proof -
  have fetch: "known (snd (fetchEntry entry deps w)) = known w" "waiting (snd (fetchEntry entry deps w)) = waiting w"
    using assms(1) by (simp_all add: fetchEntry_world crawl_laws_def)
  show ?thesis
    using executePipeline_world [OF assms(2), of config w]
  proof (elim disjE conjE exE)
    fix urls
    assume "ce_depth entry \<le> pl_maxDepth config" "cu_normalized ` set urls \<subseteq> L"
      "snd (executePipeline entry config deps w) = snd (enqueueUrls urls entry deps (snd (fetchEntry entry deps w)))"
    then show ?thesis
      using enqueue_adds_children [OF assms(1), of entry urls L "snd (fetchEntry entry deps w)"] by (simp add: adds_jobs_cong [OF fetch])
  qed (use fetch in \<open>simp_all add: adds_nothing\<close>)
qed

lemma consumer_adds_children:
  assumes "crawl_laws known waiting sha fconfig queue deps config entry_of exec" and "\<And>p. finds deps (entry_of p) (L (jp_url p))"
    and "crawl_consumer zod exec (job_value d) w = (r, w')"
  shows "adds_jobs known waiting (child_jobs sha fconfig (pl_maxDepth config) (L (jd_url d)) (jd_depth d)) w w'"
proof (cases "JobPayloadSchema (job_value d)")
  case None
  then show ?thesis using crawl_consumer_world [of zod exec "job_value d" w] assms(3) by (simp add: adds_nothing)
next
  case (Some p)
  have "w' = snd (executePipeline (entry_of p) config deps w)"
    using crawl_consumer_world [of zod exec "job_value d" w] assms(1,3) Some by (simp add: crawl_laws_def)
  moreover have "ce_depth (entry_of p) = jd_depth d" "jp_url p = jd_url d"
    using assms(1) JobPayloadSchema_job [OF Some] by (simp_all add: crawl_laws_def)
  ultimately show ?thesis using pipeline_adds_children [OF assms(1) assms(2) [of p], of w] by simp
qed

section \<open>Every step\<close>

text \<open>A step takes one job, adds its children, and puts the job back if it is retried.\<close>

fun event_job :: "crawl_event \<Rightarrow> BullJob" where
  "event_job (JobDone j) = j"
| "event_job (JobRetried j) = j"
| "event_job (JobFailed j) = j"

fun is_end :: "crawl_event \<Rightarrow> bool" where
  "is_end (JobRetried _) = False"
| "is_end _ = True"

definition put_back :: "crawl_event \<Rightarrow> nat \<Rightarrow> job_queue" where
  "put_back e n = (case e of JobRetried j \<Rightarrow> {#(j, n - 1)#} | _ \<Rightarrow> {#})"

definition step_effect ::
  "('w \<Rightarrow> string set) \<Rightarrow> ('w \<Rightarrow> job_queue) \<Rightarrow> BullJob set \<Rightarrow> crawl_event \<Rightarrow> 'w \<Rightarrow> 'w \<Rightarrow> nat \<Rightarrow> job_queue \<Rightarrow> BullJob list \<Rightarrow> bool" where
  "step_effect known waiting J e w w' n rest added \<longleftrightarrow>
     waiting w = rest + {#(event_job e, n)#} \<and> set added \<subseteq> J
   \<and> waiting w' = rest + mset (map (\<lambda>j. (j, nat (bj_attempts j))) added) + put_back e n \<and> (is_end e \<or> 1 < n)
   \<and> known w' = known w \<union> bj_jobId ` set added \<and> distinct (map bj_jobId added) \<and> bj_jobId ` set added \<inter> known w = {}"

lemma crawl_step_effect:
  assumes "crawl_laws known waiting sha fconfig queue deps config entry_of exec" and "\<And>p. finds deps (entry_of p) (L (jp_url p))"
    and "crawl_step known waiting (crawl_consumer zod exec) e w w'"
  shows "\<exists>n rest added. step_effect known waiting
    (child_jobs sha fconfig (pl_maxDepth config) (L (jd_url (bj_data (event_job e)))) (jd_depth (bj_data (event_job e)))) e w w' n rest added"
proof -
  have take: "\<exists>added. distinct (map bj_jobId added) \<and> bj_jobId ` set added \<inter> known v = {}
      \<and> set added \<subseteq> child_jobs sha fconfig (pl_maxDepth config) (L (jd_url (bj_data j))) (jd_depth (bj_data j))
      \<and> known v' = known v \<union> bj_jobId ` set added \<and> waiting v' = waiting w1 + mset (map (\<lambda>j. (j, nat (bj_attempts j))) added)"
    if "crawl_consumer zod exec (job_value (bj_data j)) w1 = (r, v')" "known w1 = known v" for j w1 v v' r
    using consumer_adds_children [OF assms(1,2) that(1)] that(2) by (simp add: adds_jobs_def)
  show ?thesis
    using assms(3)
  proof cases
    case (StepDone j n w1)
    with take [OF StepDone(5) StepDone(4)] show ?thesis
      by (intro exI [of _ n] exI [of _ "waiting w1"]) (auto simp: step_effect_def put_back_def)
  next
    case (StepRetried j n w1 t w2)
    with take [OF StepRetried(5) StepRetried(4)] show ?thesis
      by (intro exI [of _ "Suc (Suc n)"] exI [of _ "waiting w1"]) (auto simp: step_effect_def put_back_def)
  next
    case (StepFailed j n w1 t)
    with take [OF StepFailed(6) StepFailed(5)] show ?thesis
      by (intro exI [of _ n] exI [of _ "waiting w1"]) (auto simp: step_effect_def put_back_def)
  qed
qed

text \<open>Without any knowledge of the pages.\<close>

lemmas crawl_step_any = crawl_step_effect [where L = "\<lambda>_. UNIV", OF _ finds_UNIV]

section \<open>The crawl ends\<close>

definition crawl_measure :: "int \<Rightarrow> job_queue \<Rightarrow> (nat \<times> nat) multiset" where
  "crawl_measure m M = image_mset (\<lambda>(j, n). (nat (m + 1 - jd_depth (bj_data j)), n)) M"

lemma crawl_step_decreases:
  assumes "crawl_laws known waiting sha fconfig queue deps config entry_of exec"
    and "crawl_step known waiting (crawl_consumer zod exec) e w w'"
  shows "(crawl_measure (pl_maxDepth config) (waiting w'), crawl_measure (pl_maxDepth config) (waiting w)) \<in> mult (less_than <*lex*> less_than)"
proof -
  let ?j = "event_job e"
  obtain n rest added where "step_effect known waiting
      (child_jobs sha fconfig (pl_maxDepth config) UNIV (jd_depth (bj_data ?j))) e w w' n rest added"
    using crawl_step_any [OF assms] by blast
  then have s: "waiting w = rest + {#(?j, n)#}"
      "waiting w' = rest + mset (map (\<lambda>j. (j, nat (bj_attempts j))) added) + put_back e n" "is_end e \<or> 1 < n"
      "\<forall>a \<in> set added. jd_depth (bj_data a) = jd_depth (bj_data ?j) + 1 \<and> jd_depth (bj_data ?j) \<le> pl_maxDepth config"
    using child_jobs_depth by (auto simp: step_effect_def)
  let ?m = "crawl_measure (pl_maxDepth config)" and ?new = "mset (map (\<lambda>j. (j, nat (bj_attempts j))) added) + put_back e n"
  have smaller: "\<forall>k \<in> set_mset (?m ?new). \<exists>x \<in> set_mset (?m {#(?j, n)#}). (k, x) \<in> less_than <*lex*> less_than"
    using s(3,4) by (cases e) (auto simp: crawl_measure_def put_back_def)
  have "(?m rest + ?m ?new, ?m rest + ?m {#(?j, n)#}) \<in> mult (less_than <*lex*> less_than)"
    by (rule one_step_implies_mult [OF _ smaller]) (simp add: crawl_measure_def)
  then show ?thesis using s(1,2) by (simp add: crawl_measure_def ac_simps)
qed

section \<open>A queue in memory\<close>

text \<open>The known ids and the unfinished jobs; every page answers the same two links.\<close>

type_synonym mem_world = "string list \<times> (BullJob \<times> nat) list"

fun mem_add :: "BullJob list \<Rightarrow> mem_world \<Rightarrow> mem_world" where
  "mem_add [] w = w"
| "mem_add (j # js) (ks, ws) =
     mem_add js (if bj_jobId j \<in> set ks then (ks, ws) else (bj_jobId j # ks, ws @ [(j, nat (bj_attempts j))]))"

definition mem_known :: "mem_world \<Rightarrow> string set" where
  "mem_known w = set (fst w)"

definition mem_waiting :: "mem_world \<Rightarrow> job_queue" where
  "mem_waiting w = mset (snd w)"

definition mem_queue :: "mem_world bull_queue" where
  "mem_queue = \<lparr>bq_addBulk = (\<lambda>js w. (Return (map bj_jobId js), mem_add js w)), bq_getJobCounts = (\<lambda>ns w. (Return [], w)),
     bq_pause = (\<lambda>w. (Return (), w)), bq_resume = (\<lambda>w. (Return (), w)), bq_obliterate = (\<lambda>w. (Return (), w)),
     bq_close = (\<lambda>w. (Return (), w))\<rparr>"

lemma mem_add_law: "add_law mem_known mem_waiting js w (mem_add js w)"
proof (induction js w rule: mem_add.induct)
  case (1 w)
  then show ?case by (auto simp: add_law_def intro!: exI [of _ "[]"])
next
  case (2 j js ks ws)
  show ?case
  proof (cases "bj_jobId j \<in> set ks")
    case True
    with 2 show ?thesis by (auto simp: add_law_def)
  next
    case False
    with 2 obtain added where "set added \<subseteq> set js" "distinct (map bj_jobId added)"
        "bj_jobId ` set added \<inter> mem_known (bj_jobId j # ks, ws @ [(j, nat (bj_attempts j))]) = {}"
        "mem_known (mem_add (j # js) (ks, ws)) = mem_known (bj_jobId j # ks, ws @ [(j, nat (bj_attempts j))]) \<union> bj_jobId ` set added"
        "mem_waiting (mem_add (j # js) (ks, ws)) = mem_waiting (bj_jobId j # ks, ws @ [(j, nat (bj_attempts j))])
           + mset (map (\<lambda>j. (j, nat (bj_attempts j))) added)"
      unfolding add_law_def by auto
    then show ?thesis
      unfolding add_law_def using False
      by (intro exI [of _ "j # added"]) (auto simp: mem_known_def mem_waiting_def)
  qed
qed

definition mem_deps :: "mem_world pipeline_deps" where
  "mem_deps =
     \<lparr>pd_fetch = (\<lambda>u c w. (Return (Ok \<lparr>fr_statusCode = 200, fr_body = [], fr_headers = [(''Content-Type'', ''text/html'')],
          fr_url = cu_normalized u\<rparr>), w)),
      pd_fetchConfig = pd_fetchConfig demo_deps,
      pd_enqueue = (\<lambda>es w. case enqueueEntries (\<lambda>s. s) es (createBullMQQueueBackend mem_queue) DEFAULT_FRONTIER_CONFIG w of
          ((r, ms), w') \<Rightarrow> (Return r, w')),
      pd_extract = pd_extract demo_deps, pd_platform = pd_platform demo_deps, pd_now = (\<lambda>w. 0), pd_date = (\<lambda>w. 0)\<rparr>"

definition mem_exec :: "JobPayload \<Rightarrow> mem_world \<Rightarrow> (CrawlError, int) result completion \<times> mem_world" where
  "mem_exec p w = (case executePipeline (demo_entry (jp_depth p)) demo_pipeline_config mem_deps w of
       ((Return (Ok r), logs), w') \<Rightarrow> (Return (Ok (cr_enqueuedCount r)), w')
     | ((Return (Err e), logs), w') \<Rightarrow> (Return (Err e), w')
     | ((Throw t, logs), w') \<Rightarrow> (Throw t, w'))"

lemma mem_laws:
  "crawl_laws mem_known mem_waiting (\<lambda>s. s) DEFAULT_FRONTIER_CONFIG mem_queue mem_deps demo_pipeline_config (\<lambda>p. demo_entry (jp_depth p)) mem_exec"
proof -
  have "snd (mem_exec p w) = snd (executePipeline (demo_entry (jp_depth p)) demo_pipeline_config mem_deps w)" for p w
    by (simp add: mem_exec_def split: prod.split completion.split sum.split)
  moreover have "snd (pd_enqueue mem_deps es w) = snd (enqueueEntries (\<lambda>s. s) es (createBullMQQueueBackend mem_queue) DEFAULT_FRONTIER_CONFIG w)" for es w
    by (simp add: mem_deps_def split: prod.split)
  moreover have "add_law mem_known mem_waiting js w (snd (bq_addBulk mem_queue js w))" for js w
    by (simp add: mem_queue_def mem_add_law)
  ultimately show ?thesis by (simp add: crawl_laws_def demo_entry_def) (simp add: mem_deps_def)
qed

definition mem_job :: "string \<Rightarrow> int \<Rightarrow> BullJob" where
  "mem_job url d = toBullMQJob (job_spec (\<lambda>s. s) DEFAULT_FRONTIER_CONFIG \<lparr>fe_entry_url = url, fe_priority = 0, fe_depth = d\<rparr>)"

definition mem_start :: mem_world where
  "mem_start = ([''https://example.com''], [(mem_job ''https://example.com'' 0, 3)])"

definition mem_middle :: mem_world where
  "mem_middle = ([''https://example.com/a'', ''https://example.com''], [(mem_job ''https://example.com/a'' 1, 3)])"

definition mem_end :: mem_world where
  "mem_end = ([''https://example.com/a'', ''https://example.com''], [])"

definition mem_events :: "crawl_event list" where
  "mem_events = [JobDone (mem_job ''https://example.com'' 0), JobDone (mem_job ''https://example.com/a'' 1)]"

abbreviation "mem_consumer \<equiv> crawl_consumer (\<lambda>v. []) mem_exec"

text \<open>The seed enqueues one page, whose links are known.\<close>

lemma mem_job_ids: "bj_jobId (mem_job u d) = take 32 u"
  by (simp add: mem_job_def job_spec_def toBullMQJob_def deriveJobId_def)

lemma mem_step_1: "crawl_step mem_known mem_waiting mem_consumer (JobDone (mem_job ''https://example.com'' 0)) mem_start mem_middle"
proof -
  let ?j = "mem_job ''https://example.com'' 0"
  have "mem_consumer (job_value (bj_data ?j)) ([''https://example.com''], []) = (Return (), mem_middle)" by code_simp
  then have "crawl_step mem_known mem_waiting mem_consumer (JobDone ?j) mem_start mem_middle"
    by (intro StepDone [of ?j 3 mem_waiting mem_start "([''https://example.com''], [])"])
      (simp_all add: mem_known_def mem_waiting_def mem_start_def)
  then show ?thesis by (simp add: mem_job_ids)
qed

lemma mem_step_2: "crawl_step mem_known mem_waiting mem_consumer (JobDone (mem_job ''https://example.com/a'' 1)) mem_middle mem_end"
proof -
  let ?j = "mem_job ''https://example.com/a'' 1"
  have "mem_consumer (job_value (bj_data ?j)) mem_end = (Return (), mem_end)" by code_simp
  then have "crawl_step mem_known mem_waiting mem_consumer (JobDone ?j) mem_middle mem_end"
    by (intro StepDone [of ?j 3 mem_waiting mem_middle mem_end])
      (simp_all add: mem_known_def mem_waiting_def mem_middle_def mem_end_def)
  then show ?thesis by (simp add: mem_job_ids)
qed

lemma mem_run: "crawl_run mem_known mem_waiting mem_consumer mem_start mem_events mem_end"
  using CrawlMore [OF CrawlMore [OF CrawlStart mem_step_1] mem_step_2] by (simp add: mem_events_def)

section \<open>Termination\<close>

text \<open>A crawl always ends: whatever the pages link to, whatever fails and is retried, there is no infinite sequence of jobs, because a page at the depth limit enqueues nothing below it, a retry uses up an attempt, and a batch is finite.\<close>

theorem crawl_terminates:
  assumes "crawl_laws known waiting sha fconfig queue deps config entry_of exec"
  shows "\<nexists>run. \<forall>i :: nat. \<exists>e. crawl_step known waiting (crawl_consumer zod exec) e (run i) (run (Suc i))"
proof
  assume "\<exists>run. \<forall>i :: nat. \<exists>e. crawl_step known waiting (crawl_consumer zod exec) e (run i) (run (Suc i))"
  then obtain run where "\<exists>e. crawl_step known waiting (crawl_consumer zod exec) e (run i) (run (Suc i))" for i :: nat by blast
  then have down: "(crawl_measure (pl_maxDepth config) (waiting (run (Suc i))), crawl_measure (pl_maxDepth config) (waiting (run i)))
      \<in> mult (less_than <*lex*> less_than)" for i
    using crawl_step_decreases [OF assms] by blast
  have "wf (mult (less_than <*lex*> less_than :: ((nat \<times> nat) \<times> nat \<times> nat) set))" by (intro wf_mult wf_lex_prod wf_less_than)
  then show False
    unfolding wf_iff_no_infinite_down_chain
    using down by (blast intro: exI [of _ "\<lambda>i. crawl_measure (pl_maxDepth config) (waiting (run i))"])
qed

theorem crawl_terminates_witness:
  "(\<nexists>run. \<forall>i :: nat. \<exists>e. crawl_step mem_known mem_waiting mem_consumer e (run i) (run (Suc i)))
   \<and> crawl_step mem_known mem_waiting mem_consumer (JobDone (mem_job ''https://example.com'' 0)) mem_start mem_middle"
proof
  show "\<nexists>run. \<forall>i :: nat. \<exists>e. crawl_step mem_known mem_waiting mem_consumer e (run i) (run (Suc i))"
    by (rule crawl_terminates [OF mem_laws])
qed (rule mem_step_1)

section \<open>No page is crawled twice\<close>

lemma once_total:
  assumes "\<forall>i. count T i \<le> 1" "set_mset T \<subseteq> K" and "distinct new" "set new \<inter> K = {}"
  shows "\<forall>i. count (T + mset new) i \<le> 1"
proof
  fix i
  show "count (T + mset new) i \<le> 1"
  proof (cases "i \<in> set new")
    case True
    then have "count T i = 0" using assms(2,4) by (auto simp: not_in_iff [symmetric])
    then show ?thesis using True assms(3) distinct_count_atmost_1 [of new] by simp
  next
    case False
    then have "count (mset new) i = 0" by simp
    moreover have "count T i \<le> 1" using assms(1) by blast
    ultimately show ?thesis by (simp only: count_union)
  qed
qed

lemma once_split:
  assumes "\<forall>i. count (mset xs + Q) i \<le> 1"
  shows "distinct xs \<and> set xs \<inter> set_mset Q = {} \<and> (\<forall>i. count Q i \<le> 1)"
proof -
  have le: "count (mset xs) i + count Q i \<le> 1" for i using assms by simp
  have "count (mset xs) i \<le> 1" for i using le [of i] by linarith
  then have "distinct xs"
    by (metis count_mset_0_iff distinct_count_atmost_1 le_SucE le_zero_eq One_nat_def)
  moreover have "i \<notin># Q" if "i \<in> set xs" for i
  proof -
    have "0 < count (mset xs) i" using that by (simp only: count_greater_zero_iff set_mset_mset)
    then have "count Q i = 0" using le [of i] by linarith
    then show ?thesis by (simp only: not_in_iff)
  qed
  moreover have "count Q i \<le> 1" for i using le [of i] by linarith
  ultimately show ?thesis by blast
qed

definition queue_ids :: "job_queue \<Rightarrow> string multiset" where
  "queue_ids M = image_mset (\<lambda>x. bj_jobId (fst x)) M"

definition ended :: "crawl_event list \<Rightarrow> string list" where
  "ended es = map (\<lambda>e. bj_jobId (event_job e)) (filter is_end es)"

definition once_inv :: "('w \<Rightarrow> string set) \<Rightarrow> ('w \<Rightarrow> job_queue) \<Rightarrow> crawl_event list \<Rightarrow> 'w \<Rightarrow> bool" where
  "once_inv known waiting es w \<longleftrightarrow>
     (\<forall>i. count (mset (ended es) + queue_ids (waiting w)) i \<le> 1) \<and> set (ended es) \<union> set_mset (queue_ids (waiting w)) \<subseteq> known w"

lemma once_inv_step:
  assumes "crawl_laws known waiting sha fconfig queue deps config entry_of exec"
    and "crawl_step known waiting (crawl_consumer zod exec) e w w'" and "once_inv known waiting es w"
  shows "once_inv known waiting (es @ [e]) w'"
proof -
  let ?j = "event_job e"
  obtain n rest added where "step_effect known waiting
      (child_jobs sha fconfig (pl_maxDepth config) UNIV (jd_depth (bj_data ?j))) e w w' n rest added"
    using crawl_step_any [OF assms(1,2)] by blast
  then have s: "waiting w = rest + {#(?j, n)#}"
      "waiting w' = rest + mset (map (\<lambda>j. (j, nat (bj_attempts j))) added) + put_back e n"
      "known w' = known w \<union> bj_jobId ` set added" "distinct (map bj_jobId added)" "bj_jobId ` set added \<inter> known w = {}"
    by (simp_all add: step_effect_def)
  let ?T = "mset (ended es) + queue_ids (waiting w)" and ?new = "mset (map bj_jobId added)"
  have total: "mset (ended (es @ [e])) + queue_ids (waiting w') = ?T + ?new"
    using s(1,2) by (cases e) (simp_all add: ended_def queue_ids_def put_back_def multiset.map_comp comp_def)
  have in_known: "set_mset ?T \<subseteq> known w" using assms(3) by (auto simp: once_inv_def)
  have "\<forall>i. count ?T i \<le> 1" using assms(3) by (simp add: once_inv_def)
  then have "\<forall>i. count (?T + ?new) i \<le> 1" using s(4,5) in_known by (intro once_total) simp_all
  moreover have "set_mset (?T + ?new) \<subseteq> known w'" using in_known s(3) by auto
  ultimately show ?thesis
    unfolding once_inv_def total [symmetric]
    by (metis set_mset_mset set_mset_union total)
qed

text \<open>In one crawl every job ends at most once, and a job that ended is not in the queue again: as long as the queue remembers the ids it was given, no page is crawled to its end twice, however often it is linked.\<close>

theorem crawl_once:
  assumes "crawl_laws known waiting sha fconfig queue deps config entry_of exec"
    and "crawl_run known waiting (crawl_consumer zod exec) w0 es w"
    and "\<forall>i. count (queue_ids (waiting w0)) i \<le> 1" and "set_mset (queue_ids (waiting w0)) \<subseteq> known w0"
  shows "distinct (ended es) \<and> set (ended es) \<inter> set_mset (queue_ids (waiting w)) = {} \<and> set (ended es) \<subseteq> known w"
proof -
  have "once_inv known waiting es w"
    using assms(2)
  proof induction
    case CrawlStart
    then show ?case using assms(3,4) by (simp add: once_inv_def ended_def)
  next
    case (CrawlMore es w e w')
    then show ?case using once_inv_step [OF assms(1)] by blast
  qed
  then show ?thesis
    using once_split [of "ended es" "queue_ids (waiting w)"] by (simp add: once_inv_def)
qed

theorem crawl_once_witness:
  "crawl_run mem_known mem_waiting mem_consumer mem_start mem_events mem_end \<and> length mem_events = 2
   \<and> distinct (ended mem_events) \<and> set (ended mem_events) \<subseteq> mem_known mem_end"
proof -
  have "distinct (ended mem_events) \<and> set (ended mem_events) \<inter> set_mset (queue_ids (mem_waiting mem_end)) = {}
      \<and> set (ended mem_events) \<subseteq> mem_known mem_end"
  proof (rule crawl_once [OF mem_laws mem_run])
    show "\<forall>x. count (queue_ids (mem_waiting mem_start)) x \<le> 1"
      by (simp add: queue_ids_def mem_waiting_def mem_start_def)
    show "set_mset (queue_ids (mem_waiting mem_start)) \<subseteq> mem_known mem_start"
      by (simp add: queue_ids_def mem_waiting_def mem_known_def mem_start_def mem_job_ids)
  qed
  then show ?thesis using mem_run by (simp add: mem_events_def)
qed

end
