(* ===== verification/CrawlCoverage.thy ===== *)
theory CrawlCoverage
  imports CrawlSystem
begin

text \<open>
  What a crawl reaches. The pages are fixed (\<open>site\<close>: the links of every page that can be fetched), the
  seeds come through the frontier, and one worker takes the jobs in the order of their priority, which is
  their depth. Then every page within the depth limit is crawled, at its distance from the seeds or less.
\<close>

section \<open>The pages and the queue\<close>

text \<open>The executor main.ts leaves open, on the pipeline.\<close>

definition pipeline_exec ::
  "(JobPayload \<Rightarrow> CrawlFrontierEntry) \<Rightarrow> PipelineConfig \<Rightarrow> 'w pipeline_deps \<Rightarrow> JobPayload \<Rightarrow> 'w \<Rightarrow> (CrawlError, int) result completion \<times> 'w" where
  "pipeline_exec entry_of config deps p w =
     (case executePipeline (entry_of p) config deps w of
        ((Return (Ok r), logs), w') \<Rightarrow> (Return (Ok (cr_enqueuedCount r)), w')
      | ((Return (Err e), logs), w') \<Rightarrow> (Return (Err e), w')
      | ((Throw t, logs), w') \<Rightarrow> (Throw t, w'))"

definition static_site ::
  "'w pipeline_deps \<Rightarrow> PipelineConfig \<Rightarrow> (JobPayload \<Rightarrow> CrawlFrontierEntry) \<Rightarrow> (string \<Rightarrow> string list option) \<Rightarrow> bool" where
  "static_site deps config entry_of site \<longleftrightarrow> (\<forall>p w. case site (jp_url p) of
       None \<Rightarrow> \<not> (\<exists>c w1. fetchEntry (entry_of p) deps w = (Return (Ok c), w1))
     | Some ls \<Rightarrow> (jp_depth p \<le> pl_maxDepth config \<longrightarrow> isOk (validateEntry (up_parse (pd_platform deps)) (entry_of p)
           \<lparr>vc_maxDepth = pl_maxDepth config, vc_allowedDomains = pl_allowedDomains config\<rparr>))
         \<and> (\<exists>c w1 urls logs. fetchEntry (entry_of p) deps w = (Return (Ok c), w1)
              \<and> discoverLinks (pd_platform deps) c (pd_extract deps) = (Ok urls, logs) \<and> map cu_normalized urls = ls))"

text \<open>The frontier adapter settles with its result; a bulk call that succeeds makes every job known.\<close>

definition bulk_law :: "('w \<Rightarrow> string set) \<Rightarrow> BullJob list \<Rightarrow> string list completion \<times> 'w \<Rightarrow> bool" where
  "bulk_law known js res = (case res of (Return _, w') \<Rightarrow> bj_jobId ` set js \<subseteq> known w' | (Throw _, _) \<Rightarrow> True)"

definition coverage_laws ::
  "('w \<Rightarrow> string set) \<Rightarrow> ('w \<Rightarrow> job_queue) \<Rightarrow> (string \<Rightarrow> string) \<Rightarrow> FrontierConfig \<Rightarrow> 'w bull_queue \<Rightarrow> 'w pipeline_deps \<Rightarrow>
     PipelineConfig \<Rightarrow> (JobPayload \<Rightarrow> CrawlFrontierEntry) \<Rightarrow> (string \<Rightarrow> string list option) \<Rightarrow> bool" where
  "coverage_laws known waiting sha fconfig queue deps config entry_of site \<longleftrightarrow>
     crawl_laws known waiting sha fconfig queue deps config entry_of (pipeline_exec entry_of config deps)
   \<and> static_site deps config entry_of site
   \<and> (\<forall>es w. pd_enqueue deps es w = (case enqueueEntries sha es (createBullMQQueueBackend queue) fconfig w of ((r, ms), w') \<Rightarrow> (Return r, w')))
   \<and> (\<forall>js w. bulk_law known js (bq_addBulk queue js w))
   \<and> pl_maxDepth config \<le> MAX_SAFE_INTEGER"

definition page_links :: "(string \<Rightarrow> string list option) \<Rightarrow> string \<Rightarrow> string set" where
  "page_links site u = (case site u of None \<Rightarrow> {} | Some ls \<Rightarrow> set ls)"

lemma static_site_finds: "static_site deps config entry_of site \<Longrightarrow> finds deps (entry_of p) (page_links site (jp_url p))"
  unfolding finds_def
proof (intro allI impI)
  fix w c w1 urls logs
  assume "static_site deps config entry_of site" and f: "fetchEntry (entry_of p) deps w = (Return (Ok c), w1)"
    and d: "discoverLinks (pd_platform deps) c (pd_extract deps) = (Ok urls, logs)"
  then have "case site (jp_url p) of None \<Rightarrow> False | Some ls \<Rightarrow> map cu_normalized urls = ls"
    unfolding static_site_def by (auto dest!: spec [of _ p] spec [of _ w] split: option.splits)
  then show "cu_normalized ` set urls \<subseteq> page_links site (jp_url p)"
    by (auto simp: page_links_def split: option.splits)
qed

section \<open>A job that ends well has its links in the queue\<close>

lemma consumer_returned:
  "crawl_consumer zod exec raw w = (Return (), w') \<Longrightarrow> JobPayloadSchema raw = Some p \<Longrightarrow>
     snd (exec p w) = w' \<and> (\<forall>t. fst (exec p w) \<noteq> Throw t) \<and> (\<forall>q. fst (exec p w) \<noteq> Return (Err (CeQueue q)))"
  by (cases "exec p w") (auto simp: crawl_consumer_def consumer_processor_def processJob_def Let_def
      split: completion.splits sum.splits if_splits ProcessJobResult.splits)

lemma enqueued_known:
  assumes "coverage_laws known waiting sha fconfig queue deps config entry_of site"
    and "enqueueUrls urls entry deps w = (Return (Ok n), w')"
  shows "deriveJobId sha ` cu_normalized ` set urls \<subseteq> known w'"
proof (cases "urls = []")
  case False
  let ?es = "child_entries urls entry"
  have es: "?es \<noteq> []" "entry_id sha ` set ?es = deriveJobId sha ` cu_normalized ` set urls"
    using False by (simp_all add: child_entries_def entry_id_def image_image)
  have "\<exists>r ms. enqueueEntries sha ?es (createBullMQQueueBackend queue) fconfig w = ((Ok r, ms), w')"
    using assms False by (auto simp: enqueueUrls_def coverage_laws_def split: prod.splits completion.splits sum.splits)
  then obtain rs where "bq_addBulk queue (map toBullMQJob (batch_jobs sha fconfig ?es)) w = (Return rs, w')"
    using es(1) by (auto simp: enqueueEntries_def createBullMQQueueBackend_def bull_addBulk_def Let_def split: prod.splits completion.splits sum.splits)
  moreover have "bulk_law known (map toBullMQJob (batch_jobs sha fconfig ?es))
      (bq_addBulk queue (map toBullMQJob (batch_jobs sha fconfig ?es)) w)"
    using assms(1) by (simp add: coverage_laws_def)
  ultimately have "bj_jobId ` toBullMQJob ` set (batch_jobs sha fconfig ?es) \<subseteq> known w'"
    by (simp add: bulk_law_def)
  moreover have "bj_jobId ` toBullMQJob ` set (batch_jobs sha fconfig ?es) = entry_id sha ` set (kept_entries sha ?es)"
    by (force simp: batch_jobs_eq toBullMQJob_def job_spec_def entry_id_def)
  ultimately show ?thesis using es(2) batch.dedup_keys [of sha ?es] by simp
qed simp

lemma done_links_known:
  assumes laws: "coverage_laws known waiting sha fconfig queue deps config entry_of site"
    and ret: "crawl_consumer zod (pipeline_exec entry_of config deps) (job_value d) w = (Return (), w')"
    and "site (jd_url d) = Some ls" and d: "jd_url d \<noteq> []" "0 \<le> jd_depth d" "jd_depth d \<le> pl_maxDepth config"
  shows "deriveJobId sha ` set ls \<subseteq> known w'"
proof -
  let ?p = "\<lparr>jp_url = jd_url d, jp_depth = jd_depth d\<rparr>"
  have p: "JobPayloadSchema (job_value d) = Some ?p"
    using laws d by (intro JobPayloadSchema_job_value) (simp_all add: coverage_laws_def MAX_SAFE_INTEGER_def)
  have site: "static_site deps config entry_of site" using laws by (simp add: coverage_laws_def)
  obtain c w1 urls logs where page: "isOk (validateEntry (up_parse (pd_platform deps)) (entry_of ?p)
        \<lparr>vc_maxDepth = pl_maxDepth config, vc_allowedDomains = pl_allowedDomains config\<rparr>)"
      "fetchEntry (entry_of ?p) deps w = (Return (Ok c), w1)"
      "discoverLinks (pd_platform deps) c (pd_extract deps) = (Ok urls, logs)" "map cu_normalized urls = ls"
    using site assms(3) d(3) unfolding static_site_def by (auto dest!: spec [of _ ?p] spec [of _ w])
  obtain x w2 where enq: "enqueueUrls urls (entry_of ?p) deps w1 = (x, w2)" by fastforce
  have "pipeline_exec entry_of config deps ?p w = (case x of Return (Ok n) \<Rightarrow> Return (Ok n) | Return (Err e) \<Rightarrow> Return (Err e) | Throw t \<Rightarrow> Throw t, w2)"
    using page(1) by (auto simp: pipeline_exec_def executePipeline_def page(2,3) enq isOk_iff split: completion.split sum.split)
  moreover have "x = Return (Err e) \<Longrightarrow> \<exists>q. e = CeQueue q" for e
    using enq by (auto simp: enqueueUrls_def split: if_splits prod.splits completion.splits sum.splits)
  ultimately obtain n where "x = Return (Ok n)" "w2 = w'"
    using consumer_returned [OF ret p] by (auto split: completion.splits sum.splits)
  then show ?thesis using enqueued_known [OF laws, of urls "entry_of ?p" w1 n w2] enq page(4) by auto
qed

section \<open>Runs by priority\<close>

text \<open>Between the jobs the world may change as long as the queue does not: polls of its counts, other requests.\<close>

inductive priority_run ::
  "('w \<Rightarrow> string set) \<Rightarrow> ('w \<Rightarrow> job_queue) \<Rightarrow> (js_value \<Rightarrow> 'w \<Rightarrow> unit completion \<times> 'w) \<Rightarrow> 'w \<Rightarrow> crawl_event list \<Rightarrow> 'w \<Rightarrow> bool"
  for known waiting process w0 where
  PriorityStart: "priority_run known waiting process w0 [] w0"
| PriorityMore: "priority_run known waiting process w0 es w \<Longrightarrow> crawl_step known waiting process e w w' \<Longrightarrow>
     \<forall>(q, n) \<in># waiting w. bj_priority (event_job e) \<le> bj_priority q \<Longrightarrow> priority_run known waiting process w0 (es @ [e]) w'"
| PriorityIdle: "priority_run known waiting process w0 es w \<Longrightarrow> known w' = known w \<Longrightarrow> waiting w' = waiting w \<Longrightarrow>
     priority_run known waiting process w0 es w'"

text \<open>The pages at a distance from the seeds.\<close>

inductive link_path :: "(string \<Rightarrow> string list option) \<Rightarrow> string set \<Rightarrow> nat \<Rightarrow> string \<Rightarrow> bool" for site seeds where
  PathSeed: "u \<in> seeds \<Longrightarrow> link_path site seeds 0 u"
| PathLink: "link_path site seeds k v \<Longrightarrow> site v = Some ls \<Longrightarrow> u \<in> set ls \<Longrightarrow> link_path site seeds (Suc k) u"

abbreviation "job_url j \<equiv> jd_url (bj_data j)"
abbreviation "job_depth j \<equiv> jd_depth (bj_data j)"

definition job_formed :: "(string \<Rightarrow> string) \<Rightarrow> string set \<Rightarrow> BullJob \<Rightarrow> bool" where
  "job_formed sha A j \<longleftrightarrow> bj_jobId j = deriveJobId sha (job_url j) \<and> bj_priority j = job_depth j \<and> 0 \<le> job_depth j
     \<and> job_url j \<in> A \<and> job_url j \<noteq> []"

definition site_within :: "(string \<Rightarrow> string list option) \<Rightarrow> string set \<Rightarrow> bool" where
  "site_within site A \<longleftrightarrow> [] \<notin> A \<and> (\<forall>u ls. site u = Some ls \<longrightarrow> set ls \<subseteq> A)"

lemma page_links_within: "site_within site A \<Longrightarrow> x \<in> page_links site u \<Longrightarrow> x \<in> A \<and> x \<noteq> []"
  unfolding site_within_def page_links_def by (cases "site u") auto

lemma child_jobs_formed:
  "a \<in> child_jobs sha fconfig m (page_links site u) d \<Longrightarrow> site_within site A \<Longrightarrow> 0 \<le> d \<Longrightarrow> job_formed sha A a"
  by (auto simp: child_jobs_def job_formed_def toBullMQJob_def job_spec_def depthToPriority_def
      dest: page_links_within split: if_splits)

section \<open>The invariant\<close>

text \<open>The jobs of a crawl: those that ended and those in the queue.\<close>

definition crawl_jobs :: "('w \<Rightarrow> job_queue) \<Rightarrow> crawl_event list \<Rightarrow> 'w \<Rightarrow> BullJob set" where
  "crawl_jobs waiting es w = set (map event_job (filter is_end es)) \<union> fst ` set_mset (waiting w)"

lemma crawl_jobs_step:
  "step_effect known waiting J e w w' n rest added \<Longrightarrow> crawl_jobs waiting (es @ [e]) w' = crawl_jobs waiting es w \<union> set added"
  by (cases e) (auto simp: step_effect_def crawl_jobs_def put_back_def image_Un image_image)

definition cover_inv ::
  "('w \<Rightarrow> string set) \<Rightarrow> ('w \<Rightarrow> job_queue) \<Rightarrow> (string \<Rightarrow> string) \<Rightarrow> (string \<Rightarrow> string list option) \<Rightarrow> string set \<Rightarrow> int \<Rightarrow> crawl_event list \<Rightarrow> 'w \<Rightarrow> bool" where
  "cover_inv known waiting sha site A m es w \<longleftrightarrow>
     known w = bj_jobId ` crawl_jobs waiting es w
   \<and> (\<forall>x \<in> crawl_jobs waiting es w. job_formed sha A x)
   \<and> (\<forall>x \<in> crawl_jobs waiting es w. \<forall>q \<in> fst ` set_mset (waiting w). job_depth x \<le> job_depth q + 1)
   \<and> (\<forall>j ls u. JobDone j \<in> set es \<longrightarrow> site (job_url j) = Some ls \<longrightarrow> job_depth j \<le> m \<longrightarrow> u \<in> set ls \<longrightarrow>
        (\<exists>x \<in> crawl_jobs waiting es w. bj_jobId x = deriveJobId sha u \<and> job_depth x \<le> job_depth j + 1))"

lemma step_links_known:
  assumes "coverage_laws known waiting sha fconfig queue deps config entry_of site"
    and "crawl_step known waiting (crawl_consumer zod (pipeline_exec entry_of config deps)) (JobDone j) w w'"
    and "site (job_url j) = Some ls" "job_formed sha A j" "job_depth j \<le> pl_maxDepth config"
  shows "deriveJobId sha ` set ls \<subseteq> known w'"
  using assms(2)
proof cases
  case (StepDone n w1)
  then show ?thesis
    using done_links_known [OF assms(1) StepDone(4) assms(3)] assms(4,5) by (simp add: job_formed_def)
qed

text \<open>A step by priority: the job taken is the shallowest, its children are one level deeper.\<close>

lemma cover_inv_step:
  assumes laws: "coverage_laws known waiting sha fconfig queue deps config entry_of site" and within: "site_within site A"
    and step: "crawl_step known waiting (crawl_consumer zod (pipeline_exec entry_of config deps)) e w w'"
    and first: "\<forall>(q, n) \<in># waiting w. bj_priority (event_job e) \<le> bj_priority q"
    and inv: "cover_inv known waiting sha site A (pl_maxDepth config) es w"
  shows "cover_inv known waiting sha site A (pl_maxDepth config) (es @ [e]) w'"
proof -
  let ?j = "event_job e" and ?all = "crawl_jobs waiting es w"
  have base: "crawl_laws known waiting sha fconfig queue deps config entry_of (pipeline_exec entry_of config deps)"
    and site: "static_site deps config entry_of site" using laws by (simp_all add: coverage_laws_def)
  obtain n rest added where eff: "step_effect known waiting
      (child_jobs sha fconfig (pl_maxDepth config) (page_links site (job_url ?j)) (job_depth ?j)) e w w' n rest added"
    using crawl_step_effect [OF base static_site_finds [OF site] step] by blast
  then have s: "waiting w = rest + {#(?j, n)#}" "set added \<subseteq> child_jobs sha fconfig (pl_maxDepth config) (page_links site (job_url ?j)) (job_depth ?j)"
      "waiting w' = rest + mset (map (\<lambda>j. (j, nat (bj_attempts j))) added) + put_back e n" "known w' = known w \<union> bj_jobId ` set added"
    by (simp_all add: step_effect_def)
  have all': "crawl_jobs waiting (es @ [e]) w' = ?all \<union> set added" by (rule crawl_jobs_step [OF eff])
  have old: "known w = bj_jobId ` ?all" "\<forall>x \<in> ?all. job_formed sha A x"
      "\<forall>x \<in> ?all. \<forall>q \<in> fst ` set_mset (waiting w). job_depth x \<le> job_depth q + 1"
    using inv by (simp_all add: cover_inv_def)
  have j: "?j \<in> ?all" "?j \<in> fst ` set_mset (waiting w)" using s(1) by (auto simp: crawl_jobs_def)
  have j_formed: "job_formed sha A ?j" using old(2) j(1) by blast
  have new: "\<forall>a \<in> set added. job_formed sha A a \<and> job_depth a = job_depth ?j + 1"
    using s(2) child_jobs_formed [OF _ within] child_jobs_depth j_formed by (auto simp: job_formed_def)
  have least: "job_depth ?j \<le> job_depth q" if q: "q \<in> fst ` set_mset (waiting w)" for q
  proof -
    have "bj_priority ?j \<le> bj_priority q" using q first by auto
    moreover have "job_formed sha A q" using q old(2) by (simp add: crawl_jobs_def)
    ultimately show ?thesis using j_formed by (simp add: job_formed_def)
  qed
  have "fst ` set_mset (waiting w') \<subseteq> fst ` set_mset (waiting w) \<union> set added"
    unfolding s(1,3) by (cases e) (simp_all add: put_back_def image_Un image_image, blast+)
  then have later: "job_depth ?j \<le> job_depth q" if "q \<in> fst ` set_mset (waiting w')" for q
    using that least new by fastforce
  have near: "job_depth x \<le> job_depth ?j + 1" if "x \<in> ?all \<union> set added" for x
  proof -
    have "\<forall>x \<in> ?all. job_depth x \<le> job_depth ?j + 1" using old(3) j(2) by blast
    then show ?thesis using that new by auto
  qed
  show ?thesis
    unfolding cover_inv_def all'
  proof (intro conjI allI impI ballI)
    show "known w' = bj_jobId ` (?all \<union> set added)" using old(1) s(4) by auto
  next
    fix x assume "x \<in> ?all \<union> set added"
    then show "job_formed sha A x" using old(2) new by auto
  next
    fix x q assume "x \<in> ?all \<union> set added" "q \<in> fst ` set_mset (waiting w')"
    then show "job_depth x \<le> job_depth q + 1" using near later by fastforce
  next
    fix j ls u assume done': "JobDone j \<in> set (es @ [e])" "site (job_url j) = Some ls" "job_depth j \<le> pl_maxDepth config" "u \<in> set ls"
    show "\<exists>x \<in> ?all \<union> set added. bj_jobId x = deriveJobId sha u \<and> job_depth x \<le> job_depth j + 1"
    proof (cases "JobDone j \<in> set es")
      case True
      then show ?thesis using inv done'(2-4) unfolding cover_inv_def by blast
    next
      case False
      then have e: "e = JobDone j" using done'(1) by simp
      have "deriveJobId sha u \<in> known w'"
        using step_links_known [OF laws _ done'(2) _ done'(3), of zod w w' A] step j_formed done'(4) by (auto simp: e)
      then show ?thesis using near old(1) s(4) by (auto simp: e)
    qed
  qed
qed

section \<open>Coverage\<close>

definition seed_entries_of :: "string list \<Rightarrow> FrontierEntry list" where
  "seed_entries_of urls = map (\<lambda>u. \<lparr>fe_entry_url = u, fe_priority = 0, fe_depth = 0\<rparr>) urls"

text \<open>Enqueueing the seeds into an empty queue: their jobs, at depth 0, are all it holds.\<close>

lemma cover_inv_seeds:
  assumes laws: "coverage_laws known waiting sha fconfig queue deps config entry_of site"
    and empty: "known w = {}" "waiting w = {#}"
    and enq: "enqueueEntries sha (seed_entries_of seeds) (createBullMQQueueBackend queue) fconfig w = ((Ok n, ms), w0)"
    and A: "set seeds \<subseteq> A" "[] \<notin> A"
  shows "cover_inv known waiting sha site A m [] w0 \<and> deriveJobId sha ` set seeds \<subseteq> known w0
    \<and> (\<forall>x \<in> crawl_jobs waiting [] w0. job_depth x = 0)"
proof (cases "seeds = []")
  case True
  then have "w0 = w" using enq by (simp add: seed_entries_of_def enqueueEntries_def)
  then show ?thesis using empty True by (simp add: cover_inv_def crawl_jobs_def)
next
  case False
  let ?es = "seed_entries_of seeds" and ?js = "map toBullMQJob (batch_jobs sha fconfig (seed_entries_of seeds))"
  have es: "?es \<noteq> []" using False by (simp add: seed_entries_of_def)
  obtain rs where add: "bq_addBulk queue ?js w = (Return rs, w0)"
    using enq es by (auto simp: enqueueEntries_def createBullMQQueueBackend_def bull_addBulk_def Let_def split: prod.splits completion.splits sum.splits)
  have bulk: "bulk_law known ?js (bq_addBulk queue ?js w)" "add_law known waiting ?js w (snd (bq_addBulk queue ?js w))"
    using laws by (simp_all add: coverage_laws_def crawl_laws_def)
  obtain added where added: "set added \<subseteq> set ?js" "known w0 = bj_jobId ` set added" "waiting w0 = mset (map (\<lambda>j. (j, nat (bj_attempts j))) added)"
    using bulk(2) add empty by (auto simp: add_law_def)
  have jobs: "crawl_jobs waiting [] w0 = set added" using added(3) by (simp add: crawl_jobs_def image_image)
  have "job_formed sha A x \<and> job_depth x = 0" if "x \<in> set ?js" for x
    using that A batch.dedup_subset [of sha ?es]
    by (fastforce simp: batch_jobs_eq seed_entries_of_def job_formed_def toBullMQJob_def job_spec_def depthToPriority_def)
  then have ok: "\<forall>x \<in> set added. job_formed sha A x \<and> job_depth x = 0" using added(1) by blast
  have "bj_jobId ` set ?js = entry_id sha ` set (kept_entries sha ?es)"
    by (simp add: batch_jobs_eq toBullMQJob_def job_spec_def entry_id_def image_image)
  then have "deriveJobId sha ` set seeds \<subseteq> known w0"
    using bulk(1) add batch.dedup_keys [of sha ?es] by (simp add: bulk_law_def seed_entries_of_def entry_id_def image_image)
  then show ?thesis using ok added jobs by (simp add: cover_inv_def image_image)
qed

lemma priority_run_cover:
  assumes "coverage_laws known waiting sha fconfig queue deps config entry_of site" and "site_within site A"
    and "priority_run known waiting (crawl_consumer zod (pipeline_exec entry_of config deps)) w0 es w"
    and "cover_inv known waiting sha site A (pl_maxDepth config) [] w0"
  shows "cover_inv known waiting sha site A (pl_maxDepth config) es w \<and> crawl_jobs waiting [] w0 \<subseteq> crawl_jobs waiting es w"
  using assms(3)
proof induction
  case PriorityStart
  then show ?case using assms(4) by simp
next
  case (PriorityMore es w e w')
  have base: "crawl_laws known waiting sha fconfig queue deps config entry_of (pipeline_exec entry_of config deps)"
    using assms(1) by (simp add: coverage_laws_def)
  obtain n rest added where "step_effect known waiting
      (child_jobs sha fconfig (pl_maxDepth config) UNIV (job_depth (event_job e))) e w w' n rest added"
    using crawl_step_any [OF base PriorityMore.hyps(2)] by blast
  then show ?case
    using PriorityMore cover_inv_step [OF assms(1,2)] crawl_jobs_step by fastforce
next
  case (PriorityIdle es w w')
  then show ?case by (simp add: cover_inv_def crawl_jobs_def)
qed

text \<open>A crawl that is over: every page within the limit belongs to a job that was done, shallow enough.\<close>

lemma cover_complete:
  assumes inv: "cover_inv known waiting sha site A (pl_maxDepth config) es w1"
    and within: "site_within site A" and seeds: "set seeds \<subseteq> A" and ids: "inj_on (deriveJobId sha) A"
    and start: "cover_inv known waiting sha site A (pl_maxDepth config) [] w0 \<and> deriveJobId sha ` set seeds \<subseteq> known w0
      \<and> (\<forall>x \<in> crawl_jobs waiting [] w0. job_depth x = 0)"
    and grown: "crawl_jobs waiting [] w0 \<subseteq> crawl_jobs waiting es w1"
    and over: "waiting w1 = {#}" "\<forall>j. JobFailed j \<notin> set es"
    and path: "link_path site (set seeds) k u" "int k \<le> pl_maxDepth config"
  shows "\<exists>j. JobDone j \<in> set es \<and> job_url j = u \<and> job_depth j \<le> int k"
proof -
  have crawled: "JobDone x \<in> set es \<and> (v \<in> A \<longrightarrow> bj_jobId x = deriveJobId sha v \<longrightarrow> job_url x = v)" if x: "x \<in> crawl_jobs waiting es w1" for x v
  proof -
    obtain e where "e \<in> set es" "is_end e" "x = event_job e" using x over(1) by (auto simp: crawl_jobs_def)
    then have "JobDone x \<in> set es" using over(2) by - (cases e; simp)
    moreover have "job_formed sha A x" using inv x by (simp add: cover_inv_def)
    ultimately show ?thesis using ids by (auto simp: job_formed_def dest: inj_onD)
  qed
  have links: "\<exists>x \<in> crawl_jobs waiting es w1. bj_jobId x = deriveJobId sha v \<and> job_depth x \<le> job_depth j + 1"
    if "JobDone j \<in> set es" "site (job_url j) = Some ls" "job_depth j \<le> pl_maxDepth config" "v \<in> set ls" for j ls v
    using inv that by (simp add: cover_inv_def)
  show ?thesis
    using path
  proof induction
    case (PathSeed u)
    have "known w0 = bj_jobId ` crawl_jobs waiting [] w0" using start by (simp add: cover_inv_def)
    then have "deriveJobId sha u \<in> bj_jobId ` crawl_jobs waiting [] w0" using start PathSeed.hyps by auto
    then obtain x where x: "x \<in> crawl_jobs waiting [] w0" "bj_jobId x = deriveJobId sha u"
      by (metis imageE)
    have "u \<in> A" using PathSeed.hyps seeds by blast
    moreover have "x \<in> crawl_jobs waiting es w1" "job_depth x = 0" using x(1) grown start by blast+
    ultimately show ?case using crawled [of x u] x(2) by (intro exI [of _ x]) simp
  next
    case (PathLink k v ls u)
    then obtain j where j: "JobDone j \<in> set es" "job_url j = v" "job_depth j \<le> int k" by auto
    have "job_depth j \<le> pl_maxDepth config" using j(3) PathLink.prems by simp
    then obtain x where x: "x \<in> crawl_jobs waiting es w1" "bj_jobId x = deriveJobId sha u" "job_depth x \<le> job_depth j + 1"
      using links [OF j(1), of ls u] j(2) PathLink.hyps by blast
    have "u \<in> A" using within PathLink.hyps unfolding site_within_def by blast
    then show ?case using crawled [OF x(1)] x j(3) by (intro exI [of _ x]) auto
  qed
qed

text \<open>One worker that takes the jobs by priority crawls everything within the depth limit: when the seeds were enqueued into an empty queue, no job failed for good and the queue is empty again, then every page that is k links away from a seed, for any k up to maxDepth, was crawled to its end by a job of depth at most k. The job ids have to be distinct for the pages of the site.\<close>

theorem crawl_covers:
  assumes laws: "coverage_laws known waiting sha fconfig queue deps config entry_of site"
    and within: "site_within site A" and seeds: "set seeds \<subseteq> A" and ids: "inj_on (deriveJobId sha) A"
    and empty: "known w = {}" "waiting w = {#}"
    and enq: "enqueueEntries sha (seed_entries_of seeds) (createBullMQQueueBackend queue) fconfig w = ((Ok n, ms), w0)"
    and run: "priority_run known waiting (crawl_consumer zod (pipeline_exec entry_of config deps)) w0 es w1"
    and over: "waiting w1 = {#}" "\<forall>j. JobFailed j \<notin> set es"
    and path: "link_path site (set seeds) k u" "int k \<le> pl_maxDepth config"
  shows "\<exists>j. JobDone j \<in> set es \<and> job_url j = u \<and> job_depth j \<le> int k"
proof -
  have start: "cover_inv known waiting sha site A (pl_maxDepth config) [] w0 \<and> deriveJobId sha ` set seeds \<subseteq> known w0
      \<and> (\<forall>x \<in> crawl_jobs waiting [] w0. job_depth x = 0)"
    using within by (intro cover_inv_seeds [OF laws empty enq seeds]) (simp add: site_within_def)
  then have "cover_inv known waiting sha site A (pl_maxDepth config) es w1 \<and> crawl_jobs waiting [] w0 \<subseteq> crawl_jobs waiting es w1"
    using priority_run_cover [OF laws within run] by blast
  then show ?thesis
    by (intro cover_complete [OF _ within seeds ids start _ over path]) simp_all
qed

section \<open>A small site\<close>

definition mem_site :: "string \<Rightarrow> string list option" where
  "mem_site u = Some [''https://example.com/a'']"

definition mem_pages :: "string set" where
  "mem_pages = {''https://example.com'', ''https://example.com/a''}"

abbreviation "mem_entry \<equiv> \<lambda>p. demo_entry (jp_depth p)"

lemma mem_exec_eq: "pipeline_exec mem_entry demo_pipeline_config mem_deps = mem_exec"
  by (simp add: fun_eq_iff pipeline_exec_def mem_exec_def)

definition mem_content :: CrawlFetchResult where
  "mem_content = mapFetchResult (pd_platform demo_deps) (demo_entry 0)
     \<lparr>fr_statusCode = 200, fr_body = [], fr_headers = [(''Content-Type'', ''text/html'')], fr_url = ''https://example.com''\<rparr> 0 0"

lemma mem_fetch: "fetchEntry (demo_entry d) mem_deps w = (Return (Ok mem_content), w)"
  by (simp add: fetchEntry_def mem_deps_def demo_entry_def mem_content_def mapFetchResult_def)

lemma mem_discover:
  "\<exists>urls logs. discoverLinks (pd_platform mem_deps) mem_content (pd_extract mem_deps) = (Ok urls, logs)
     \<and> map cu_normalized urls = [''https://example.com/a'']"
proof -
  have "(case discoverLinks (pd_platform mem_deps) mem_content (pd_extract mem_deps) of
      (Ok urls, logs) \<Rightarrow> map cu_normalized urls = [''https://example.com/a''] | _ \<Rightarrow> False)"
    by code_simp
  then show ?thesis by (auto split: prod.splits sum.splits)
qed

lemma mem_static: "static_site mem_deps demo_pipeline_config mem_entry mem_site"
proof -
  have "to_lower ''Example.com'' = to_lower ''example.com''" by code_simp
  then have "isOk (validateEntry (up_parse (pd_platform mem_deps)) (demo_entry d) \<lparr>vc_maxDepth = 3, vc_allowedDomains = Some [''Example.com'']\<rparr>)"
    if "d \<le> 3" for d
    using that by (simp add: validateEntry_def demo_entry_def)
  then show ?thesis
    using mem_discover by (simp add: static_site_def mem_site_def demo_pipeline_config_def mem_fetch)
qed

lemma mem_add_known: "bj_jobId ` set js \<union> set (fst w) \<subseteq> set (fst (mem_add js w))"
  by (induction js w rule: mem_add.induct) auto

lemma mem_coverage:
  "coverage_laws mem_known mem_waiting (\<lambda>s. s) DEFAULT_FRONTIER_CONFIG mem_queue mem_deps demo_pipeline_config mem_entry mem_site"
proof -
  have "bulk_law mem_known js (bq_addBulk mem_queue js w)" for js w
    using mem_add_known [of js w] by (auto simp: bulk_law_def mem_queue_def mem_known_def)
  moreover have "pd_enqueue mem_deps es w =
      (case enqueueEntries (\<lambda>s. s) es (createBullMQQueueBackend mem_queue) DEFAULT_FRONTIER_CONFIG w of ((r, ms), w') \<Rightarrow> (Return r, w'))" for es w
    by (simp add: mem_deps_def)
  moreover have "pl_maxDepth demo_pipeline_config \<le> MAX_SAFE_INTEGER"
    by (simp add: demo_pipeline_config_def MAX_SAFE_INTEGER_def)
  ultimately show ?thesis
    unfolding coverage_laws_def mem_exec_eq using mem_laws mem_static by blast
qed

lemma mem_priority_run: "priority_run mem_known mem_waiting mem_consumer mem_start mem_events mem_end"
proof -
  have "priority_run mem_known mem_waiting mem_consumer mem_start ([] @ [JobDone (mem_job ''https://example.com'' 0)]) mem_middle"
    by (rule PriorityMore [OF PriorityStart mem_step_1]) (simp add: mem_waiting_def mem_start_def)
  then have "priority_run mem_known mem_waiting mem_consumer mem_start
      (([] @ [JobDone (mem_job ''https://example.com'' 0)]) @ [JobDone (mem_job ''https://example.com/a'' 1)]) mem_end"
    by (rule PriorityMore [OF _ mem_step_2]) (simp add: mem_waiting_def mem_middle_def)
  then show ?thesis by (simp add: mem_events_def)
qed

lemma mem_link: "link_path mem_site (set [''https://example.com'']) 1 ''https://example.com/a''"
proof -
  have "link_path mem_site (set [''https://example.com'']) 0 ''https://example.com''" by (rule PathSeed) simp
  then show ?thesis
    unfolding One_nat_def by (rule PathLink [where ls = "[''https://example.com/a'']"]) (simp_all add: mem_site_def)
qed

lemma mem_setup:
  "site_within mem_site mem_pages" "set [''https://example.com''] \<subseteq> mem_pages" "inj_on (deriveJobId (\<lambda>s. s)) mem_pages"
  "mem_known ([], []) = {}" "mem_waiting ([], []) = {#}"
  by (auto simp: site_within_def mem_site_def mem_pages_def inj_on_def deriveJobId_def mem_known_def mem_waiting_def)

lemma mem_seeded:
  "enqueueEntries (\<lambda>s. s) (seed_entries_of [''https://example.com'']) (createBullMQQueueBackend mem_queue) DEFAULT_FRONTIER_CONFIG ([], [])
     = ((Ok 1, []), mem_start)"
  by code_simp

theorem crawl_covers_witness:
  "\<exists>j. JobDone j \<in> set mem_events \<and> job_url j = ''https://example.com/a'' \<and> job_depth j \<le> 1"
proof -
  have "\<exists>j. JobDone j \<in> set mem_events \<and> job_url j = ''https://example.com/a'' \<and> job_depth j \<le> int 1"
  proof (rule crawl_covers [OF mem_coverage mem_setup mem_seeded _ _ _ mem_link])
    show "priority_run mem_known mem_waiting (crawl_consumer (\<lambda>v. []) (pipeline_exec mem_entry demo_pipeline_config mem_deps)) mem_start mem_events mem_end"
      unfolding mem_exec_eq by (rule mem_priority_run)
  qed (simp_all add: mem_events_def mem_waiting_def mem_end_def demo_pipeline_config_def)
  then show ?thesis by simp
qed

end
