(* ===== verification/CrawlOrder.thy ===== *)
theory CrawlOrder
  imports CrawlCoverage
begin

text \<open>
  Why \<open>CrawlCoverage\<close> asks for one worker that takes the jobs by priority. A worker with a concurrency above one
  starts jobs before the shallower ones have ended; the first job of a page fixes its depth, so a page that is
  within the depth limit can be lost. This theory is one such crawl, evaluated.
\<close>

section \<open>A site with two ways\<close>

text \<open>
  The page \<open>/e\<close> is two links away from the seed \<open>/t\<close> (by \<open>/d\<close>), and three links away from the seed \<open>/s\<close>
  (by \<open>/c\<close> and \<open>/d\<close>).
\<close>

definition page_url :: "string \<Rightarrow> string" where
  "page_url path = ''https://example.com'' @ path"

definition chain_links :: "string \<Rightarrow> string list" where
  "chain_links u =
     (if u = page_url ''/s'' then [''/c''] else if u = page_url ''/c'' then [''/d''] else if u = page_url ''/t'' then [''/d'']
      else if u = page_url ''/d'' then [''/e''] else [])"

definition chain_site :: "string \<Rightarrow> string list option" where
  "chain_site u = Some (map page_url (chain_links u))"

definition chain_deps :: "mem_world pipeline_deps" where
  "chain_deps = mem_deps\<lparr>
     pd_extract := (\<lambda>html b. Ok (chain_links b)),
     pd_platform := plain_platform\<lparr>up_parse := (\<lambda>s. Some ((witness_url [] [])\<lparr>u_pathname := drop 19 s\<rparr>)),
                                   up_parse_base := (\<lambda>s b. Some ((witness_url [] [])\<lparr>u_pathname := s\<rparr>))\<rparr>\<rparr>"

definition chain_entry :: "JobPayload \<Rightarrow> CrawlFrontierEntry" where
  "chain_entry p = \<lparr>ce_url = \<lparr>cu_raw = jp_url p, cu_normalized = jp_url p, cu_domain = ''example.com''\<rparr>,
     ce_depth = jp_depth p, ce_discoveredBy = ''seed'', ce_discoveredAt = 0, ce_parentUrl = None\<rparr>"

definition chain_config :: PipelineConfig where
  "chain_config = \<lparr>pl_maxDepth = 2, pl_allowedDomains = None, pl_workerId = ''w1''\<rparr>"

abbreviation "chain_exec \<equiv> pipeline_exec chain_entry chain_config chain_deps"
abbreviation "chain_consumer \<equiv> crawl_consumer (\<lambda>v. []) chain_exec"

definition chain_job :: "string \<Rightarrow> int \<Rightarrow> BullJob" where
  "chain_job path d = mem_job (page_url path) d"

text \<open>The world after pages were enqueued, latest first, with the jobs that wait.\<close>

definition chain_world :: "string list \<Rightarrow> (string \<times> int) list \<Rightarrow> mem_world" where
  "chain_world paths jobs = (map (\<lambda>p. take 32 (page_url p)) paths, map (\<lambda>(p, d). (chain_job p d, 3)) jobs)"

lemma chain_world_waiting: "mem_waiting (chain_world paths jobs) = mset (map (\<lambda>(p, d). (chain_job p d, 3)) jobs)"
  by (simp add: mem_waiting_def chain_world_def)

lemma chain_world_known: "mem_known (chain_world paths jobs) = set (map (\<lambda>p. take 32 (page_url p)) paths)"
  by (simp add: mem_known_def chain_world_def)

section \<open>The laws hold\<close>

definition chain_content :: "string \<Rightarrow> CrawlFetchResult" where
  "chain_content u = \<lparr>cf_requestedUrl = \<lparr>cu_raw = u, cu_normalized = u, cu_domain = ''example.com''\<rparr>, cf_finalUrl = None,
     cf_statusCode = 200, cf_contentType = Some ''text/html'', cf_body = [], cf_fetchTimestamp = 0, cf_fetchDurationMs = 0\<rparr>"

lemma chain_fetch: "fetchEntry (chain_entry p) chain_deps w = (Return (Ok (chain_content (jp_url p))), w)"
proof -
  have "to_lower ''Content-Type'' = to_lower ''content-type''" by code_simp
  then show ?thesis
    by (simp add: fetchEntry_def chain_deps_def mem_deps_def chain_entry_def chain_content_def mapFetchResult_def)
qed

lemma chain_resolve:
  "hrefs \<in> {[], [''/c''], [''/d''], [''/e'']} \<Longrightarrow>
     \<exists>urls logs. resolveAndDedup (pd_platform chain_deps) hrefs b = (urls, logs) \<and> map cu_normalized urls = map page_url hrefs"
proof -
  have "map cu_normalized (fst (resolveAndDedup (pd_platform chain_deps) [] b)) = map page_url []"
    by code_simp
  moreover have "map cu_normalized (fst (resolveAndDedup (pd_platform chain_deps) [''/c''] b)) = map page_url [''/c'']"
    by code_simp
  moreover have "map cu_normalized (fst (resolveAndDedup (pd_platform chain_deps) [''/d''] b)) = map page_url [''/d'']"
    by code_simp
  moreover have "map cu_normalized (fst (resolveAndDedup (pd_platform chain_deps) [''/e''] b)) = map page_url [''/e'']"
    by code_simp
  moreover assume "hrefs \<in> {[], [''/c''], [''/d''], [''/e'']}"
  ultimately show ?thesis by (metis empty_iff insert_iff prod.collapse)
qed

lemma chain_discover:
  "\<exists>urls logs. discoverLinks (pd_platform chain_deps) (chain_content u) (pd_extract chain_deps) = (Ok urls, logs)
     \<and> map cu_normalized urls = map page_url (chain_links u)"
proof -
  have html: "starts_with (to_lower ''text/html'') ''text/html''" by code_simp
  have "chain_links u \<in> {[], [''/c''], [''/d''], [''/e'']}" by (simp add: chain_links_def)
  from chain_resolve [OF this, of "cf_requestedUrl (chain_content u)"] html show ?thesis
    by (auto simp: discoverLinks_def chain_content_def final_or_requested_def chain_deps_def)
qed

lemma chain_coverage:
  "coverage_laws mem_known mem_waiting (\<lambda>s. s) DEFAULT_FRONTIER_CONFIG mem_queue chain_deps chain_config chain_entry chain_site"
proof -
  have "bulk_law mem_known js (bq_addBulk mem_queue js w)" for js w
    using mem_add_known [of js w] by (auto simp: bulk_law_def mem_queue_def mem_known_def)
  moreover have enq: "pd_enqueue chain_deps es w =
      (case enqueueEntries (\<lambda>s. s) es (createBullMQQueueBackend mem_queue) DEFAULT_FRONTIER_CONFIG w of ((r, ms), w') \<Rightarrow> (Return r, w'))" for es w
    by (simp add: chain_deps_def mem_deps_def)
  moreover have "static_site chain_deps chain_config chain_entry chain_site"
  proof -
    have "isOk (validateEntry (up_parse (pd_platform chain_deps)) (chain_entry p)
        \<lparr>vc_maxDepth = pl_maxDepth chain_config, vc_allowedDomains = pl_allowedDomains chain_config\<rparr>)"
      if "jp_depth p \<le> pl_maxDepth chain_config" for p
      using that by (simp add: validateEntry_def chain_entry_def chain_config_def)
    then show ?thesis using chain_discover by (simp add: static_site_def chain_site_def chain_fetch)
  qed
  moreover have "crawl_laws mem_known mem_waiting (\<lambda>s. s) DEFAULT_FRONTIER_CONFIG mem_queue chain_deps chain_config chain_entry chain_exec"
  proof -
    have "snd (chain_exec p w) = snd (executePipeline (chain_entry p) chain_config chain_deps w)" for p w
      by (simp add: pipeline_exec_def split: prod.split completion.split sum.split)
    moreover have "add_law mem_known mem_waiting js w (snd (bq_addBulk mem_queue js w))" for js w
      by (simp add: mem_queue_def mem_add_law)
    moreover have "snd (pd_fetch chain_deps u c w) = w" for u c w
      by (simp add: chain_deps_def mem_deps_def)
    moreover have "ce_depth (chain_entry p) = jp_depth p" for p by (simp add: chain_entry_def)
    ultimately show ?thesis unfolding crawl_laws_def by (simp add: enq split: prod.split)
  qed
  ultimately show ?thesis
    by (simp add: coverage_laws_def chain_config_def MAX_SAFE_INTEGER_def)
qed

section \<open>The run\<close>

lemma chain_step:
  assumes "chain_consumer (job_value (bj_data (chain_job p d))) (chain_world ps (ws1 @ ws2)) = (Return (), w)"
  shows "crawl_step mem_known mem_waiting chain_consumer (JobDone (chain_job p d)) (chain_world ps (ws1 @ (p, d) # ws2)) w"
  using assms
  by (intro StepDone [of "chain_job p d" 3 _ _ "chain_world ps (ws1 @ ws2)"]) (simp_all add: chain_world_waiting chain_world_known)

definition chain_events :: "crawl_event list" where
  "chain_events = map (\<lambda>(p, d). JobDone (chain_job p d)) [(''/s'', 0), (''/c'', 1), (''/t'', 0), (''/d'', 2), (''/e'', 3)]"

abbreviation "chain_start \<equiv> chain_world [''/t'', ''/s''] [(''/s'', 0), (''/t'', 0)]"
abbreviation "chain_end \<equiv> chain_world [''/e'', ''/d'', ''/c'', ''/t'', ''/s''] []"

lemma chain_step_s: "crawl_step mem_known mem_waiting chain_consumer (JobDone (chain_job ''/s'' 0)) chain_start
    (chain_world [''/c'', ''/t'', ''/s''] [(''/t'', 0), (''/c'', 1)])"
  by (rule chain_step [where ?ws1.0 = "[]", simplified append_Nil]) code_simp

lemma chain_step_c: "crawl_step mem_known mem_waiting chain_consumer (JobDone (chain_job ''/c'' 1))
    (chain_world [''/c'', ''/t'', ''/s''] [(''/t'', 0), (''/c'', 1)])
    (chain_world [''/d'', ''/c'', ''/t'', ''/s''] [(''/t'', 0), (''/d'', 2)])"
  by (rule chain_step [where ?ws1.0 = "[(''/t'', 0)]" and ?ws2.0 = "[]", simplified append_Cons append_Nil]) code_simp

lemma chain_step_t: "crawl_step mem_known mem_waiting chain_consumer (JobDone (chain_job ''/t'' 0))
    (chain_world [''/d'', ''/c'', ''/t'', ''/s''] [(''/t'', 0), (''/d'', 2)])
    (chain_world [''/d'', ''/c'', ''/t'', ''/s''] [(''/d'', 2)])"
  by (rule chain_step [where ?ws1.0 = "[]", simplified append_Nil]) code_simp

lemma chain_step_d: "crawl_step mem_known mem_waiting chain_consumer (JobDone (chain_job ''/d'' 2))
    (chain_world [''/d'', ''/c'', ''/t'', ''/s''] [(''/d'', 2)])
    (chain_world [''/e'', ''/d'', ''/c'', ''/t'', ''/s''] [(''/e'', 3)])"
  by (rule chain_step [where ?ws1.0 = "[]", simplified append_Nil]) code_simp

lemma chain_step_e: "crawl_step mem_known mem_waiting chain_consumer (JobDone (chain_job ''/e'' 3))
    (chain_world [''/e'', ''/d'', ''/c'', ''/t'', ''/s''] [(''/e'', 3)]) chain_end"
  by (rule chain_step [where ?ws1.0 = "[]", simplified append_Nil]) code_simp

lemma chain_run: "crawl_run mem_known mem_waiting chain_consumer chain_start chain_events chain_end"
  using CrawlMore [OF CrawlMore [OF CrawlMore [OF CrawlMore [OF CrawlMore [OF CrawlStart
      chain_step_s] chain_step_c] chain_step_t] chain_step_d] chain_step_e]
  by (simp add: chain_events_def)

text \<open>
  The jobs \<open>/s\<close> and \<open>/t\<close> are started together, \<open>/t\<close> is slow. The crawl ends with nothing failed and an empty
  queue, but \<open>/e\<close>, two links from a seed and within the limit 2, was only ever taken at depth 3, where the
  pipeline rejects it before a fetch.
\<close>

lemma order_loses_pages:
  "crawl_run mem_known mem_waiting chain_consumer chain_start chain_events chain_end
   \<and> mem_waiting chain_end = {#} \<and> (\<forall>j. JobFailed j \<notin> set chain_events)
   \<and> link_path chain_site {page_url ''/s'', page_url ''/t''} 2 (page_url ''/e'') \<and> 2 \<le> pl_maxDepth chain_config
   \<and> \<not> (\<exists>j. JobDone j \<in> set chain_events \<and> job_url j = page_url ''/e'' \<and> job_depth j \<le> 2)"
proof (intro conjI)
  show "crawl_run mem_known mem_waiting chain_consumer chain_start chain_events chain_end" by (rule chain_run)
  show "mem_waiting chain_end = {#}" by (simp add: chain_world_waiting)
  show "\<forall>j. JobFailed j \<notin> set chain_events" by (simp add: chain_events_def)
  have "link_path chain_site {page_url ''/s'', page_url ''/t''} 0 (page_url ''/t'')" by (rule PathSeed) simp
  then have "link_path chain_site {page_url ''/s'', page_url ''/t''} (Suc 0) (page_url ''/d'')"
    by (rule PathLink [where ls = "[page_url ''/d'']"]) (simp_all add: chain_site_def chain_links_def page_url_def)
  then have "link_path chain_site {page_url ''/s'', page_url ''/t''} (Suc (Suc 0)) (page_url ''/e'')"
    by (rule PathLink [where ls = "[page_url ''/e'']"]) (simp_all add: chain_site_def chain_links_def page_url_def)
  then show "link_path chain_site {page_url ''/s'', page_url ''/t''} 2 (page_url ''/e'')" by (simp add: numeral_2_eq_2)
  show "2 \<le> pl_maxDepth chain_config" by (simp add: chain_config_def)
  show "\<not> (\<exists>j. JobDone j \<in> set chain_events \<and> job_url j = page_url ''/e'' \<and> job_depth j \<le> 2)"
    by (auto simp: chain_events_def chain_job_def mem_job_def toBullMQJob_def job_spec_def page_url_def)
qed

end
