(* ===== verification/CrawlCompletion.thy ===== *)
theory CrawlCompletion
  imports CrawlCoverage JobQueue
begin

text \<open>
  The coordinator beside the worker: ticks of the completion detector and jobs of the queue in any order. The
  detector's queue counts are those of the jobs that wait; its ticks leave the queue as it is. With the
  counts of the program's own queue adapter, which leave out prioritized jobs, the outcome is wrong; the last
  section evaluates such a crawl.
\<close>

section \<open>Jobs and ticks\<close>

definition pending_law :: "('w \<Rightarrow> string set) \<Rightarrow> ('w \<Rightarrow> job_queue) \<Rightarrow> 'w counts_fn \<Rightarrow> bool" where
  "pending_law known waiting g \<longleftrightarrow>
     (\<forall>w. (case fst (g w) of Ok c \<Rightarrow> qc_pending c = int (size (waiting w)) \<and> 0 \<le> qc_done c | Err e \<Rightarrow> True)
        \<and> known (snd (g w)) = known w \<and> waiting (snd (g w)) = waiting w)"

text \<open>The world, the detector and its outcome, if it has resolved; a resolved detector ticks no more.\<close>

datatype coord_event = Worked crawl_event | Polled

inductive coord_step ::
  "('w \<Rightarrow> string set) \<Rightarrow> ('w \<Rightarrow> job_queue) \<Rightarrow> (js_value \<Rightarrow> 'w \<Rightarrow> unit completion \<times> 'w) \<Rightarrow> 'w counts_fn \<Rightarrow>
     coord_event \<Rightarrow> 'w \<times> Detector \<Rightarrow> CompletionOutcome option \<times> 'w \<times> Detector \<Rightarrow> bool"
  for known waiting process getQueueCounts where
  CoordWork: "crawl_step known waiting process e w w' \<Longrightarrow>
     coord_step known waiting process getQueueCounts (Worked e) (w, d) (None, w', d)"
| CoordPoll: "tick getQueueCounts d w = ((r, d'), w') \<Longrightarrow>
     coord_step known waiting process getQueueCounts Polled (w, d) (r, w', d')"

inductive_cases coord_step_worked: "coord_step known waiting process g (Worked e) (w, d) s"
inductive_cases coord_step_polled: "coord_step known waiting process g Polled (w, d) s"

lemma worked_step: "coord_step known waiting process g (Worked e) s t \<Longrightarrow> crawl_step known waiting process e (fst s) (fst (snd t))"
  by (auto elim: coord_step.cases)

lemma polled_step: "coord_step known waiting process g Polled s (r, w', d') \<Longrightarrow> tick g (snd s) (fst s) = ((r, d'), w')"
  by (auto elim: coord_step.cases)

text \<open>A run of both with the jobs taken by priority.\<close>

inductive coord_run ::
  "('w \<Rightarrow> string set) \<Rightarrow> ('w \<Rightarrow> job_queue) \<Rightarrow> (js_value \<Rightarrow> 'w \<Rightarrow> unit completion \<times> 'w) \<Rightarrow> 'w counts_fn \<Rightarrow> 'w \<Rightarrow> Detector \<Rightarrow>
     crawl_event list \<Rightarrow> CompletionOutcome option \<times> 'w \<times> Detector \<Rightarrow> bool"
  for known waiting process g w0 d0 where
  RunStart: "coord_run known waiting process g w0 d0 [] (None, w0, d0)"
| RunWork: "coord_run known waiting process g w0 d0 es (None, w, d) \<Longrightarrow> coord_step known waiting process g (Worked e) (w, d) s \<Longrightarrow>
     \<forall>(q, n) \<in># waiting w. bj_priority (event_job e) \<le> bj_priority q \<Longrightarrow> coord_run known waiting process g w0 d0 (es @ [e]) s"
| RunPoll: "coord_run known waiting process g w0 d0 es (None, w, d) \<Longrightarrow> coord_step known waiting process g Polled (w, d) s \<Longrightarrow>
     coord_run known waiting process g w0 d0 es s"

section \<open>A tick\<close>

lemma tick_queue:
  assumes "pending_law known waiting g" and "tick g d w = ((r, d'), w')"
  shows "known w' = known w \<and> waiting w' = waiting w"
proof -
  have "w' = w \<or> w' = snd (g w)"
    using assms(2) by (auto simp: tick_def Let_def split: if_splits prod.splits sum.splits bool.splits)
  then show ?thesis using assms(1) by (auto simp: pending_law_def)
qed

text \<open>An unresolved tick saw jobs, or none for the first time; resolved, unless aborted, the queue is empty.\<close>

lemma counts_seen_outcome:
  assumes "counts_seen d c = (Some outcome, d')"
  shows "qc_pending c = 0 \<and> (outcome = Completed (qc_done c) \<or> outcome = EmptyComplete)"
  using assms by (auto simp: counts_seen_def Let_def split_beta split: if_splits)

lemma tick_outcome:
  assumes "pending_law known waiting g" and "tick g d w = ((Some outcome, d'), w')" and "\<forall>k. outcome \<noteq> Aborted k"
  shows "waiting w' = {#}"
proof -
  obtain b c where b: "bo_aborted (dt_backoff d) = False" "shouldSkipTick (dt_backoff d) = (False, b)"
      and g: "g w = (Ok c, w')" and seen: "counts_seen (d\<lparr>dt_backoff := b\<rparr>) c = (Some outcome, d')"
    using assms(2,3) by (auto simp: tick_def Let_def split: if_splits prod.splits sum.splits bool.splits)
  have "waiting w = {#}"
    using assms(1) counts_seen_outcome [OF seen] unfolding pending_law_def by (auto dest!: spec [of _ w] simp: g)
  then show ?thesis using tick_queue [OF assms(1,2)] by simp
qed

section \<open>Sound outcomes\<close>

lemma coord_run_priority:
  assumes "pending_law known waiting g"
  shows "coord_run known waiting process g w0 d0 es s \<Longrightarrow> priority_run known waiting process w0 es (fst (snd s))"
proof (induction rule: coord_run.induct)
  case RunStart
  then show ?case by (simp add: PriorityStart)
next
  case (RunWork es w d e s)
  then show ?case by (auto elim!: coord_step_worked intro: PriorityMore)
next
  case (RunPoll es w d s)
  then show ?case by (auto elim!: coord_step_polled dest!: tick_queue [OF assms] intro: PriorityIdle)
qed

lemma coord_run_resolved:
  assumes "pending_law known waiting g"
    and "coord_run known waiting process g w0 d0 es (Some outcome, w, d)" and "\<forall>k. outcome \<noteq> Aborted k"
  shows "waiting w = {#}"
  using assms(2)
proof cases
  case (RunWork es w d e)
  then show ?thesis by (auto elim: coord_step_worked)
next
  case (RunPoll w d)
  then show ?thesis using assms(3) by (auto elim!: coord_step_polled dest: tick_outcome [OF assms(1)])
qed

lemma no_step_from_empty: "waiting w = {#} \<Longrightarrow> \<not> crawl_step known waiting process e w w'"
  by (auto elim: crawl_step.cases)


section \<open>The coordinator ends\<close>

text \<open>With the queue empty, every unresolved tick comes nearer to an outcome.\<close>

definition detector_measure :: "Detector \<Rightarrow> nat \<times> nat" where
  "detector_measure d = (2 - dt_emptyPollCount d, nat (ticks_left (dt_backoff d)))"

definition detector_live :: "BackoffConfig \<Rightarrow> Detector \<Rightarrow> bool" where
  "detector_live c d \<longleftrightarrow> backoff_wf c (dt_backoff d) \<and> \<not> bo_aborted (dt_backoff d) \<and> dt_emptyPollCount d < 2"

lemma onStoreSuccess_keeps: "bo_aborted (fst (onStoreSuccess b)) = bo_aborted b"
  by (simp add: onStoreSuccess_def)

lemma counts_seen_unresolved:
  assumes "counts_seen d c = (None, d')" and "0 \<le> qc_done c" and "detector_live k d" and "0 < bk_maxConsecutiveFailures k"
  shows "detector_live k d' \<and> (qc_pending c = 0 \<longrightarrow> dt_emptyPollCount d' = Suc (dt_emptyPollCount d))"
proof -
  have b: "dt_backoff d' = fst (onStoreSuccess (dt_backoff d))"
    and n: "dt_emptyPollCount d' < 2" "qc_pending c = 0 \<longrightarrow> dt_emptyPollCount d' = Suc (dt_emptyPollCount d)"
    using assms(1,2) by (auto simp: counts_seen_def Let_def split_beta split: if_splits)
  have "backoff_wf k (dt_backoff d')"
    using backoff_wf_step [of k "dt_backoff d" StoreSuccess] assms(3,4) by (simp add: b detector_live_def)
  then show ?thesis using assms(3) n by (simp add: b detector_live_def onStoreSuccess_keeps)
qed

lemma tick_unresolved:
  assumes law: "pending_law known waiting g" and t: "tick g d w = ((None, d'), w')"
    and live: "detector_live k d" and k: "0 < bk_maxConsecutiveFailures k"
  shows "detector_live k d' \<and> (waiting w = {#} \<longrightarrow> (detector_measure d', detector_measure d) \<in> less_than <*lex*> less_than)"
proof (cases "0 < bo_skipRemaining (dt_backoff d)")
  case True
  then have "d' = d\<lparr>dt_backoff := (dt_backoff d)\<lparr>bo_skipRemaining := bo_skipRemaining (dt_backoff d) - 1\<rparr>\<rparr>"
    using t live by (simp add: tick_def shouldSkipTick_def detector_live_def)
  then show ?thesis
    using backoff_wf_step [of k "dt_backoff d" SkipCheck] ticks_left_skip [OF True] ticks_left_pos [of k "dt_backoff d"] live k True
    by (auto simp: detector_live_def detector_measure_def shouldSkipTick_def)
next
  case False
  then have skip: "shouldSkipTick (dt_backoff d) = (False, dt_backoff d)" by (simp add: shouldSkipTick_def)
  have alive: "\<not> bo_aborted (dt_backoff d)" "backoff_wf k (dt_backoff d)" using live by (simp_all add: detector_live_def)
  obtain r w1 where g: "g w = (r, w1)" by fastforce
  show ?thesis
  proof (cases r)
    case (Inr c)
    then have seen: "counts_seen d c = (None, d')" using t alive g skip by (simp add: tick_def)
    have c: "qc_pending c = int (size (waiting w))" "0 \<le> qc_done c"
      using law g Inr unfolding pending_law_def by (auto dest!: spec [of _ w])
    show ?thesis using counts_seen_unresolved [OF seen c(2) live k] c(1) live
      by (auto simp: detector_measure_def detector_live_def)
  next
    case (Inl e)
    let ?b = "fst (onStoreError (dt_backoff d) (ThrownOther ''[object Object]''))"
    have "\<not> bo_aborted ?b" and d': "dt_backoff d' = ?b" "dt_emptyPollCount d' = dt_emptyPollCount d"
      using t alive g Inl skip by (auto simp: tick_def Let_def split_beta split: if_splits)
    moreover have "bo_skipRemaining (dt_backoff d) = 0" using False alive(2) by (simp add: backoff_wf_def)
    ultimately have "ticks_left ?b \<le> ticks_left (dt_backoff d) - 1"
      using ticks_left_error [OF alive(2,1)] by blast
    moreover have "backoff_wf k ?b" using backoff_wf_step [OF alive(2) k, of "StoreError (ThrownOther ''[object Object]'')"] by simp
    ultimately show ?thesis
      using d' live \<open>\<not> bo_aborted ?b\<close> ticks_left_pos [OF alive(2,1)] by (auto simp: detector_live_def detector_measure_def)
  qed
qed

lemma coord_step_live:
  assumes "pending_law known waiting g" and "coord_step known waiting process g e (w, d) (None, w', d')"
    and "detector_live k d" and "0 < bk_maxConsecutiveFailures k"
  shows "detector_live k d'"
  using assms(2)
proof cases
  case (CoordWork e)
  then show ?thesis using assms(3) by simp
next
  case CoordPoll
  then show ?thesis using tick_unresolved [OF assms(1) _ assms(3,4)] by blast
qed

text \<open>A run that only polls from some point on, or has an empty queue there.\<close>

lemma weakly_decreasing_stops:
  assumes "wf R" and "trans R" and "\<And>i :: nat. f (Suc i) = f i \<or> (f (Suc i), f i) \<in> R"
  shows "\<exists>i. \<forall>j \<ge> i. f j = f i"
proof -
  obtain z where z: "z \<in> range f" "\<And>y. (y, z) \<in> R \<Longrightarrow> y \<notin> range f"
    by (rule wfE_min [OF assms(1), of "f 0" "range f"]) auto
  then obtain i where "z = f i" by auto
  then have i: "(f j, f i) \<notin> R" for j using z(2) [of "f j"] by auto
  have "f j = f i" if "i \<le> j" for j
    using that
  proof (induction j rule: dec_induct)
    case (step j)
    then show ?case using assms(3) [of j] i by metis
  qed simp
  then show ?thesis by blast
qed

text \<open>C8: The coordinator always ends: with a worker that, as long as jobs are left, takes another one sooner or later, and a queue that answers or fails as it will, there is no infinite run of jobs and polls in which the completion detector never resolves.\<close>

theorem coordinator_resolves:
  assumes laws: "crawl_laws known waiting sha fconfig queue deps config entry_of exec" "pending_law known waiting getQueueCounts"
    and bounds: "0 < bk_maxConsecutiveFailures backoff" "0 \<le> bk_maxSkipTicks backoff"
  shows "\<nexists>run ev. snd (run 0) = detector_start (createBackoffController backoff)
    \<and> (\<forall>i :: nat. coord_step known waiting (crawl_consumer zod exec) getQueueCounts (ev i) (run i) (None, run (Suc i)))
    \<and> (\<forall>i. waiting (fst (run i)) \<noteq> {#} \<longrightarrow> (\<exists>j \<ge> i. ev j \<noteq> Polled))"
proof (intro notI, elim exE conjE)
  fix run ev
  assume d0: "snd (run 0) = detector_start (createBackoffController backoff)"
    and steps: "\<forall>i :: nat. coord_step known waiting (crawl_consumer zod exec) getQueueCounts (ev i) (run i) (None, run (Suc i))"
    and fair: "\<forall>i. waiting (fst (run i)) \<noteq> {#} \<longrightarrow> (\<exists>j \<ge> i. ev j \<noteq> Polled)"
  let ?M = "\<lambda>i. crawl_measure (pl_maxDepth config) (waiting (fst (run i)))"
  have wf: "wf (mult (less_than <*lex*> less_than :: ((nat \<times> nat) \<times> nat \<times> nat) set))" by (intro wf_mult wf_lex_prod wf_less_than)
  have work: "(?M (Suc i), ?M i) \<in> mult (less_than <*lex*> less_than)" if work: "ev i \<noteq> Polled" for i
  proof -
    obtain e where "ev i = Worked e" using work by (cases "ev i") simp_all
    then have "coord_step known waiting (crawl_consumer zod exec) getQueueCounts (Worked e) (run i) (None, run (Suc i))"
      using steps by metis
    then show ?thesis using crawl_step_decreases [OF laws(1)] worked_step by fastforce
  qed
  have poll: "tick getQueueCounts (snd (run i)) (fst (run i)) = ((None, snd (run (Suc i))), fst (run (Suc i)))" if "ev i = Polled" for i
    using steps that by (metis polled_step prod.collapse)
  have idle: "waiting (fst (run (Suc i))) = waiting (fst (run i))" if "ev i = Polled" for i
    using tick_queue [OF laws(2) poll [OF that]] by simp
  have "?M (Suc i) = ?M i \<or> (?M (Suc i), ?M i) \<in> mult (less_than <*lex*> less_than)" for i
    using work [of i] idle [of i] by (cases "ev i = Polled") simp_all
  then have "\<exists>i. \<forall>j \<ge> i. ?M j = ?M i" by (intro weakly_decreasing_stops [OF wf]) (simp_all add: trans_mult)
  then obtain i where same: "\<forall>j \<ge> i. ?M j = ?M i" by blast
  have polled: "ev j = Polled" if "i \<le> j" for j
  proof (rule ccontr)
    assume "ev j \<noteq> Polled"
    then have "(?M (Suc j), ?M j) \<in> mult (less_than <*lex*> less_than)" by (rule work)
    moreover have "?M (Suc j) = ?M i" "?M j = ?M i"
      using \<open>i \<le> j\<close> by (blast intro: same [rule_format] le_SucI)+
    ultimately show False using wf_not_refl [OF wf] by metis
  qed
  have empty: "waiting (fst (run j)) = {#}" if "i \<le> j" for j
  proof (rule ccontr)
    assume "waiting (fst (run j)) \<noteq> {#}"
    then obtain n where n: "j \<le> n" "ev n \<noteq> Polled" using fair by blast
    have "i \<le> n" using \<open>i \<le> j\<close> n(1) by (rule order_trans)
    then show False using polled n(2) by simp
  qed
  have live: "detector_live backoff (snd (run j))" for j
  proof (induction j)
    case 0
    then show ?case using bounds d0 backoff_wf_create [OF bounds]
      by (simp add: detector_live_def detector_start_def createBackoffController_def)
  next
    case (Suc j)
    have "coord_step known waiting (crawl_consumer zod exec) getQueueCounts (ev j) (fst (run j), snd (run j)) (None, fst (run (Suc j)), snd (run (Suc j)))"
      using steps by simp
    then show ?case using Suc by (rule coord_step_live [OF laws(2) _ _ bounds(1)])
  qed
  have "(detector_measure (snd (run (Suc (i + n)))), detector_measure (snd (run (i + n)))) \<in> less_than <*lex*> less_than" for n
    using tick_unresolved [OF laws(2) poll [OF polled] live bounds(1)] empty by simp
  moreover have "wf (less_than <*lex*> less_than :: ((nat \<times> nat) \<times> nat \<times> nat) set)" by (intro wf_lex_prod wf_less_than)
  ultimately show False
    unfolding wf_iff_no_infinite_down_chain by (auto dest!: spec [of _ "\<lambda>n. detector_measure (snd (run (i + n)))"])
qed

section \<open>A small crawl with its coordinator\<close>

text \<open>The counts of the queue of \<open>mem_world\<close>: a page is done when it is known and does not wait.\<close>

definition mem_counts :: "mem_world counts_fn" where
  "mem_counts w = (Ok \<lparr>qc_pending = int (length (snd w)), qc_done = max 0 (int (length (fst w)) - int (length (snd w)))\<rparr>, w)"

lemma mem_pending_law: "pending_law mem_known mem_waiting mem_counts"
  by (simp add: pending_law_def mem_counts_def mem_waiting_def)

abbreviation "mem_detector \<equiv> detector_start (createBackoffController DEFAULT_BACKOFF_CONFIG)"

definition mem_resolved :: "CompletionOutcome option \<times> mem_world \<times> Detector" where
  "mem_resolved = (case tick mem_counts mem_detector mem_end of ((r, d), w) \<Rightarrow> (r, w, d))"

lemma mem_coord_run: "coord_run mem_known mem_waiting mem_consumer mem_counts mem_start mem_detector mem_events mem_resolved"
proof -
  have "coord_run mem_known mem_waiting mem_consumer mem_counts mem_start mem_detector ([] @ [JobDone (mem_job ''https://example.com'' 0)])
      (None, mem_middle, mem_detector)"
    by (rule RunWork [OF RunStart CoordWork [OF mem_step_1]]) (simp add: mem_waiting_def mem_start_def)
  then have "coord_run mem_known mem_waiting mem_consumer mem_counts mem_start mem_detector
      (([] @ [JobDone (mem_job ''https://example.com'' 0)]) @ [JobDone (mem_job ''https://example.com/a'' 1)]) (None, mem_end, mem_detector)"
    by (rule RunWork [OF _ CoordWork [OF mem_step_2]]) (simp add: mem_waiting_def mem_middle_def)
  then have "coord_run mem_known mem_waiting mem_consumer mem_counts mem_start mem_detector mem_events (None, mem_end, mem_detector)"
    by (simp add: mem_events_def)
  then show ?thesis
    by (rule RunPoll) (auto simp: mem_resolved_def split: prod.splits intro: CoordPoll)
qed

lemma mem_resolved_eq: "\<exists>d. mem_resolved = (Some (Completed 2), mem_end, d)"
  by (simp add: mem_resolved_def tick_def mem_counts_def detector_start_def createBackoffController_def shouldSkipTick_def
      counts_seen_def onStoreSuccess_def mem_end_def)


theorem coordinator_resolves_witness:
  "\<nexists>run ev. snd (run 0) = mem_detector
    \<and> (\<forall>i :: nat. coord_step mem_known mem_waiting mem_consumer mem_counts (ev i) (run i) (None, run (Suc i)))
    \<and> (\<forall>i. mem_waiting (fst (run i)) \<noteq> {#} \<longrightarrow> (\<exists>j \<ge> i. ev j \<noteq> Polled))"
  by (rule coordinator_resolves [OF mem_laws mem_pending_law]) (simp_all add: DEFAULT_BACKOFF_CONFIG_def)

section \<open>With the counts of the queue adapter\<close>

text \<open>The counts the control plane offers as progress.\<close>

definition progress_counts :: "'w QueueAdapter \<Rightarrow> 'w counts_fn" where
  "progress_counts q w =
     (case cp_getProgress q w of
        (Ok p, w') \<Rightarrow> (Ok \<lparr>qc_pending = cp_pending p, qc_done = cp_completed p + cp_failed p\<rparr>, w')
      | (Err e, w') \<Rightarrow> (Err e, w'))"

text \<open>\<open>mem_queue\<close> with the states BullMQ keeps: jobs with a priority are not among the waiting ones.\<close>

definition mem_state :: "mem_world \<Rightarrow> string \<Rightarrow> int" where
  "mem_state w n =
     (if n = ''waiting'' then int (length (filter (\<lambda>(j, k). bj_priority j = 0) (snd w)))
      else if n = ''prioritized'' then int (length (filter (\<lambda>(j, k). bj_priority j \<noteq> 0) (snd w)))
      else if n = ''completed'' then int (length (fst w)) - int (length (snd w)) else 0)"

definition mem_bull :: "mem_world bull_queue" where
  "mem_bull = mem_queue\<lparr>bq_getJobCounts := (\<lambda>names w. (Return (map (\<lambda>n. (n, mem_state w n)) names), w))\<rparr>"

lemma mem_bull_counts: "counts_law mem_bull (mem_state w) w"
  by (simp add: counts_law_def mem_bull_def)

text \<open>After the seed the only job left is one level deep, so it is prioritized: the detector resolves, the job is still there to take.\<close>

lemma adapter_counts_resolve_early:
  "(\<exists>d. tick (progress_counts (createBullMQQueueAdapter mem_bull)) mem_detector mem_middle = ((Some (Completed 1), d), mem_middle))
   \<and> counts_law mem_bull (mem_state mem_middle) mem_middle
   \<and> crawl_step mem_known mem_waiting mem_consumer (JobDone (mem_job ''https://example.com/a'' 1)) mem_middle mem_end"
proof (intro conjI mem_bull_counts mem_step_2)
  have "bj_priority (mem_job ''https://example.com/a'' 1) = 1"
    by (simp add: mem_job_def toBullMQJob_def job_spec_def depthToPriority_def)
  then show "\<exists>d. tick (progress_counts (createBullMQQueueAdapter mem_bull)) mem_detector mem_middle = ((Some (Completed 1), d), mem_middle)"
    using counts_law_adapter [OF mem_bull_counts [of mem_middle]]
    by (simp add: tick_def progress_counts_def cp_getProgress_def createBullMQQueueAdapter_def detector_start_def createBackoffController_def
        shouldSkipTick_def counts_seen_def onStoreSuccess_def mem_state_def mem_middle_def)
qed

end
