(* ===== verification/CrawlConcurrent.thy ===== *)
theory CrawlConcurrent
  imports CrawlCoverage
begin

text \<open>
  A worker with a concurrency above one. The awaits of the consumer split a job into a fetch and an enqueueing;
  between them the worker goes on with its other jobs. A job that is taken is active until the queue settles it.
  Run without interruption, the phases are the consumer of \<open>CrawlSystem\<close>; with any interleaving the crawl still
  ends, every job ends at most once, and a page that stays within the depth limit has its links crawled.
\<close>

section \<open>The phases of a job\<close>

text \<open>What the processor of the queue answers for the result of the executor; it only looks at the result.\<close>

definition job_settled :: "(js_value \<Rightarrow> string) \<Rightarrow> js_value \<Rightarrow> (CrawlError, int) result completion \<Rightarrow> unit completion" where
  "job_settled zod raw x = fst (crawl_consumer zod (\<lambda>p w. (x, w)) raw ())"

lemma crawl_consumer_settled:
  "crawl_consumer zod exec raw w = (case JobPayloadSchema raw of
     None \<Rightarrow> (job_settled zod raw x, w) | Some p \<Rightarrow> (job_settled zod raw (fst (exec p w)), snd (exec p w)))"
  by (auto simp: job_settled_def crawl_consumer_def consumer_processor_def processJob_def Let_def
      split: option.split prod.splits completion.splits sum.splits if_splits ProcessJobResult.splits)

datatype job_phase = Fetching JobPayload | Enqueueing JobPayload "CrawlUrl list" | Ended "unit completion"

text \<open>Up to the first await: the payload is validated, then the entry.\<close>

definition start_phase ::
  "(js_value \<Rightarrow> string) \<Rightarrow> (JobPayload \<Rightarrow> CrawlFrontierEntry) \<Rightarrow> PipelineConfig \<Rightarrow> 'w pipeline_deps \<Rightarrow> js_value \<Rightarrow> job_phase" where
  "start_phase zod entry_of config deps raw =
     (case JobPayloadSchema raw of
        None \<Rightarrow> Ended (job_settled zod raw (Return (Ok 0)))
      | Some p \<Rightarrow>
          (case validateEntry (up_parse (pd_platform deps)) (entry_of p)
                  \<lparr>vc_maxDepth = pl_maxDepth config, vc_allowedDomains = pl_allowedDomains config\<rparr> of
             Err e \<Rightarrow> Ended (job_settled zod raw (Return (Err e)))
           | Ok _ \<Rightarrow> Fetching p))"

text \<open>The fetch, and on to the next await: the links are discovered.\<close>

definition fetch_phase ::
  "(js_value \<Rightarrow> string) \<Rightarrow> (JobPayload \<Rightarrow> CrawlFrontierEntry) \<Rightarrow> 'w pipeline_deps \<Rightarrow> js_value \<Rightarrow> JobPayload \<Rightarrow> 'w \<Rightarrow> job_phase \<times> 'w" where
  "fetch_phase zod entry_of deps raw p w =
     (case fetchEntry (entry_of p) deps w of
        (Throw t, w1) \<Rightarrow> (Ended (job_settled zod raw (Throw t)), w1)
      | (Return (Err e), w1) \<Rightarrow> (Ended (job_settled zod raw (Return (Err e))), w1)
      | (Return (Ok c), w1) \<Rightarrow>
          (case discoverLinks (pd_platform deps) c (pd_extract deps) of
             (Err e, logs) \<Rightarrow> (Ended (job_settled zod raw (Return (Err e))), w1)
           | (Ok urls, logs) \<Rightarrow> (Enqueueing p urls, w1)))"

definition enqueue_phase ::
  "(js_value \<Rightarrow> string) \<Rightarrow> (JobPayload \<Rightarrow> CrawlFrontierEntry) \<Rightarrow> 'w pipeline_deps \<Rightarrow> js_value \<Rightarrow> JobPayload \<Rightarrow> CrawlUrl list \<Rightarrow> 'w \<Rightarrow> job_phase \<times> 'w" where
  "enqueue_phase zod entry_of deps raw p urls w =
     (case enqueueUrls urls (entry_of p) deps w of (x, w2) \<Rightarrow> (Ended (job_settled zod raw x), w2))"

text \<open>The phases one after the other.\<close>

definition phases_in_order ::
  "(js_value \<Rightarrow> string) \<Rightarrow> (JobPayload \<Rightarrow> CrawlFrontierEntry) \<Rightarrow> PipelineConfig \<Rightarrow> 'w pipeline_deps \<Rightarrow> js_value \<Rightarrow> 'w \<Rightarrow> job_phase \<times> 'w" where
  "phases_in_order zod entry_of config deps raw w =
     (case start_phase zod entry_of config deps raw of
        Fetching p \<Rightarrow>
          (case fetch_phase zod entry_of deps raw p w of
             (Enqueueing q urls, w1) \<Rightarrow> enqueue_phase zod entry_of deps raw q urls w1
           | r \<Rightarrow> r)
      | ph \<Rightarrow> (ph, w))"

lemma job_settled_int: "job_settled zod raw (Return (Ok n)) = job_settled zod raw (Return (Ok m))"
  by (auto simp: job_settled_def crawl_consumer_def consumer_processor_def processJob_def Let_def split: option.split)

lemma phases_in_order_consumer:
  "phases_in_order zod entry_of config deps raw w =
     (case crawl_consumer zod (pipeline_exec entry_of config deps) raw w of (c, w') \<Rightarrow> (Ended c, w'))"
proof (cases "JobPayloadSchema raw")
  case None
  then show ?thesis
    using crawl_consumer_settled [of zod "pipeline_exec entry_of config deps" raw w "Return (Ok 0)"]
    by (simp add: phases_in_order_def start_phase_def)
next
  case (Some p)
  then show ?thesis
    unfolding crawl_consumer_settled [of zod "pipeline_exec entry_of config deps" raw w "Return (Ok 0)"]
    by (auto simp: phases_in_order_def start_phase_def fetch_phase_def enqueue_phase_def pipeline_exec_def executePipeline_def
        split: sum.split prod.split completion.split intro: job_settled_int)
qed

section \<open>Interleaved steps\<close>

text \<open>The world and the active jobs, each with the attempts it was taken with and its phase.\<close>

type_synonym active_jobs = "(BullJob \<times> nat \<times> job_phase) multiset"

datatype work_event = Took BullJob | Advanced BullJob | Settled crawl_event

inductive work_step ::
  "('w \<Rightarrow> string set) \<Rightarrow> ('w \<Rightarrow> job_queue) \<Rightarrow> (js_value \<Rightarrow> string) \<Rightarrow> (JobPayload \<Rightarrow> CrawlFrontierEntry) \<Rightarrow> PipelineConfig \<Rightarrow>
     'w pipeline_deps \<Rightarrow> nat \<Rightarrow> work_event \<Rightarrow> 'w \<times> active_jobs \<Rightarrow> 'w \<times> active_jobs \<Rightarrow> bool"
  for known waiting zod entry_of config deps concurrency where
  WorkTake: "(j, n) \<in># waiting w \<Longrightarrow> size act < concurrency \<Longrightarrow> waiting w' = waiting w - {#(j, n)#} \<Longrightarrow> known w' = known w \<Longrightarrow>
     work_step known waiting zod entry_of config deps concurrency (Took j) (w, act)
       (w', add_mset (j, n, start_phase zod entry_of config deps (job_value (bj_data j))) act)"
| WorkFetch: "fetch_phase zod entry_of deps (job_value (bj_data j)) p w = (ph, w') \<Longrightarrow>
     work_step known waiting zod entry_of config deps concurrency (Advanced j)
       (w, add_mset (j, n, Fetching p) act) (w', add_mset (j, n, ph) act)"
| WorkEnqueue: "enqueue_phase zod entry_of deps (job_value (bj_data j)) p urls w = (ph, w') \<Longrightarrow>
     work_step known waiting zod entry_of config deps concurrency (Advanced j)
       (w, add_mset (j, n, Enqueueing p urls) act) (w', add_mset (j, n, ph) act)"
| WorkDone: "waiting w' = waiting w \<Longrightarrow> known w' = known w \<Longrightarrow>
     work_step known waiting zod entry_of config deps concurrency (Settled (JobDone j))
       (w, add_mset (j, n, Ended (Return ())) act) (w', act)"
| WorkRetried: "waiting w' = waiting w + {#(j, Suc n)#} \<Longrightarrow> known w' = known w \<Longrightarrow>
     work_step known waiting zod entry_of config deps concurrency (Settled (JobRetried j))
       (w, add_mset (j, Suc (Suc n), Ended (Throw t)) act) (w', act)"
| WorkFailed: "n \<le> 1 \<Longrightarrow> waiting w' = waiting w \<Longrightarrow> known w' = known w \<Longrightarrow>
     work_step known waiting zod entry_of config deps concurrency (Settled (JobFailed j))
       (w, add_mset (j, n, Ended (Throw t)) act) (w', act)"

text \<open>A run, whose steps a schedule allows: the queue hands out its jobs by priority, in any case the least first.\<close>

inductive work_run ::
  "('w \<Rightarrow> string set) \<Rightarrow> ('w \<Rightarrow> job_queue) \<Rightarrow> (js_value \<Rightarrow> string) \<Rightarrow> (JobPayload \<Rightarrow> CrawlFrontierEntry) \<Rightarrow> PipelineConfig \<Rightarrow>
     'w pipeline_deps \<Rightarrow> nat \<Rightarrow> (work_event \<Rightarrow> 'w \<Rightarrow> bool) \<Rightarrow> 'w \<times> active_jobs \<Rightarrow> work_event list \<Rightarrow> 'w \<times> active_jobs \<Rightarrow> bool"
  for known waiting zod entry_of config deps concurrency allowed s0 where
  WorkStart: "work_run known waiting zod entry_of config deps concurrency allowed s0 [] s0"
| WorkMore: "work_run known waiting zod entry_of config deps concurrency allowed s0 es s \<Longrightarrow> allowed e (fst s) \<Longrightarrow>
     work_step known waiting zod entry_of config deps concurrency e s s' \<Longrightarrow>
     work_run known waiting zod entry_of config deps concurrency allowed s0 (es @ [e]) s'"

definition any_order :: "work_event \<Rightarrow> 'w \<Rightarrow> bool" where
  "any_order e w = True"

definition least_first :: "('w \<Rightarrow> job_queue) \<Rightarrow> work_event \<Rightarrow> 'w \<Rightarrow> bool" where
  "least_first waiting e w = (case e of Took j \<Rightarrow> (\<forall>(q, n) \<in># waiting w. bj_priority j \<le> bj_priority q) | _ \<Rightarrow> True)"

text \<open>The events the queue reports, and the whole of the unfinished jobs.\<close>

definition settled_events :: "work_event list \<Rightarrow> crawl_event list" where
  "settled_events es = concat (map (\<lambda>e. case e of Settled x \<Rightarrow> [x] | _ \<Rightarrow> []) es)"

definition active_queue :: "active_jobs \<Rightarrow> job_queue" where
  "active_queue act = image_mset (\<lambda>(j, n, ph). (j, n)) act"

definition unfinished :: "('w \<Rightarrow> job_queue) \<Rightarrow> 'w \<times> active_jobs \<Rightarrow> job_queue" where
  "unfinished waiting s = waiting (fst s) + active_queue (snd s)"

lemma work_run_append:
  "work_run known waiting zod entry_of config deps concurrency allowed s1 es2 s2 \<Longrightarrow>
     work_run known waiting zod entry_of config deps concurrency allowed s0 es1 s1 \<Longrightarrow>
     work_run known waiting zod entry_of config deps concurrency allowed s0 (es1 @ es2) s2"
proof (induction rule: work_run.induct)
  case (WorkMore es s e s')
  then show ?case using work_run.WorkMore [of known waiting zod entry_of config deps concurrency allowed s0 "es1 @ es" s e s'] by simp
qed simp

section \<open>The effect of a step\<close>

text \<open>
  A step moves one job, or advances it, or settles it. Only an enqueueing adds jobs: the pages found on the
  job's own page, one level deeper. What holds of the phase of a job that is active is an invariant.
\<close>

definition phase_fits :: "PipelineConfig \<Rightarrow> (string \<Rightarrow> string set) \<Rightarrow> BullJob \<Rightarrow> job_phase \<Rightarrow> bool" where
  "phase_fits config L j ph = (case ph of
     Fetching p \<Rightarrow> JobPayloadSchema (job_value (bj_data j)) = Some p \<and> job_depth j \<le> pl_maxDepth config
   | Enqueueing p urls \<Rightarrow> JobPayloadSchema (job_value (bj_data j)) = Some p \<and> job_depth j \<le> pl_maxDepth config
       \<and> cu_normalized ` set urls \<subseteq> L (job_url j)
   | Ended c \<Rightarrow> True)"

definition phases_fit ::
  "PipelineConfig \<Rightarrow> (string \<Rightarrow> string set) \<Rightarrow> active_jobs \<Rightarrow> bool" where
  "phases_fit config L act \<longleftrightarrow> (\<forall>(j, n, ph) \<in># act. phase_fits config L j ph)"

lemma start_phase_fits:
  assumes "crawl_laws known waiting sha fconfig queue deps config entry_of exec"
  shows "phase_fits config L j (start_phase zod entry_of config deps (job_value (bj_data j)))"
proof (cases "JobPayloadSchema (job_value (bj_data j))")
  case (Some p)
  have e: "ce_depth (entry_of p) = jp_depth p" using assms by (simp add: crawl_laws_def)
  have "ce_depth (entry_of p) \<le> pl_maxDepth config"
    if "validateEntry (up_parse (pd_platform deps)) (entry_of p)
      \<lparr>vc_maxDepth = pl_maxDepth config, vc_allowedDomains = pl_allowedDomains config\<rparr> = Ok u" for u
    using that validateEntry_Ok [of "up_parse (pd_platform deps)" "entry_of p"
        "\<lparr>vc_maxDepth = pl_maxDepth config, vc_allowedDomains = pl_allowedDomains config\<rparr>"] by simp
  then show ?thesis
    using JobPayloadSchema_job [OF Some] e by (auto simp: phase_fits_def start_phase_def Some split: sum.split)
qed (simp add: phase_fits_def start_phase_def)

lemma fetch_phase_fits:
  assumes laws: "crawl_laws known waiting sha fconfig queue deps config entry_of exec" and finds: "finds deps (entry_of p) (L (jp_url p))"
    and fits: "phase_fits config L j (Fetching p)" and fetch: "fetch_phase zod entry_of deps raw p w = (ph, w')"
  shows "phase_fits config L j ph \<and> (\<forall>q. ph \<noteq> Fetching q) \<and> known w' = known w \<and> waiting w' = waiting w"
proof -
  have "w' = snd (fetchEntry (entry_of p) deps w)"
    using fetch by (auto simp: fetch_phase_def split: prod.splits completion.splits sum.splits)
  then have "known w' = known w \<and> waiting w' = waiting w"
    using laws by (simp add: fetchEntry_world crawl_laws_def)
  moreover have "cu_normalized ` set urls \<subseteq> L (jp_url p)" if enq: "ph = Enqueueing q urls" for q urls
  proof -
    obtain c logs where "fetchEntry (entry_of p) deps w = (Return (Ok c), w')" "discoverLinks (pd_platform deps) c (pd_extract deps) = (Ok urls, logs)"
      using fetch enq by (auto simp: fetch_phase_def split: prod.splits completion.splits sum.splits)
    then show ?thesis using finds unfolding finds_def by blast
  qed
  moreover have "(\<exists>c. ph = Ended c) \<or> (\<exists>urls. ph = Enqueueing p urls)"
    using fetch by (auto simp: fetch_phase_def split: prod.splits completion.splits sum.splits)
  ultimately show ?thesis using fits JobPayloadSchema_job by (fastforce simp: phase_fits_def)
qed

lemma enqueue_phase_adds:
  assumes laws: "crawl_laws known waiting sha fconfig queue deps config entry_of exec"
    and fits: "phase_fits config L j (Enqueueing p urls)" and enq: "enqueue_phase zod entry_of deps raw p urls w = (ph, w')"
  shows "adds_jobs known waiting (child_jobs sha fconfig (pl_maxDepth config) (L (job_url j)) (job_depth j)) w w' \<and> (\<exists>c. ph = Ended c)"
proof -
  have d: "ce_depth (entry_of p) = job_depth j" "ce_depth (entry_of p) \<le> pl_maxDepth config" "cu_normalized ` set urls \<subseteq> L (job_url j)"
    using fits laws JobPayloadSchema_job [of "bj_data j" p] by (simp_all add: phase_fits_def crawl_laws_def)
  show ?thesis
    using enqueue_adds_children [OF laws d(2,3), of w] enq d(1) by (auto simp: enqueue_phase_def split: prod.splits)
qed

text \<open>The jobs a step adds, none known before; nothing else is new, and nothing is lost.\<close>

definition work_effect ::
  "('w \<Rightarrow> string set) \<Rightarrow> ('w \<Rightarrow> job_queue) \<Rightarrow> BullJob set \<Rightarrow> work_event \<Rightarrow> 'w \<times> active_jobs \<Rightarrow> 'w \<times> active_jobs \<Rightarrow> BullJob list \<Rightarrow> bool" where
  "work_effect known waiting J e s s' added \<longleftrightarrow> set added \<subseteq> J \<and> distinct (map bj_jobId added) \<and> bj_jobId ` set added \<inter> known (fst s) = {}
     \<and> known (fst s') = known (fst s) \<union> bj_jobId ` set added
     \<and> mset (map event_job (filter is_end (settled_events [e]))) + image_mset fst (unfinished waiting s')
         = image_mset fst (unfinished waiting s) + mset added"

fun work_job :: "work_event \<Rightarrow> BullJob" where
  "work_job (Took j) = j"
| "work_job (Advanced j) = j"
| "work_job (Settled e) = event_job e"

lemma phases_fit_add [simp]:
  "phases_fit config L (add_mset (j, n, ph) act) \<longleftrightarrow> phase_fits config L j ph \<and> phases_fit config L act"
  by (simp add: phases_fit_def)

lemma active_queue_add [simp]: "active_queue (add_mset (j, n, ph) act) = add_mset (j, n) (active_queue act)"
  by (simp add: active_queue_def)

lemma work_step_effect:
  assumes laws: "crawl_laws known waiting sha fconfig queue deps config entry_of exec" and finds: "\<And>p. finds deps (entry_of p) (L (jp_url p))"
    and step: "work_step known waiting zod entry_of config deps concurrency e s s'" and fits: "phases_fit config L (snd s)"
  shows "phases_fit config L (snd s') \<and> (\<exists>added. work_effect known waiting
    (child_jobs sha fconfig (pl_maxDepth config) (L (job_url (work_job e))) (job_depth (work_job e))) e s s' added)"
  using step
proof cases
  case (WorkTake j n w act w')
  have "waiting w = add_mset (j, n) (waiting w')" using WorkTake(4,6) by simp
  with WorkTake(1-3,7) show ?thesis
    using fits start_phase_fits [OF laws] by (auto simp: work_effect_def unfinished_def settled_events_def intro!: exI [of _ "[]"])
next
  case (WorkFetch j p w ph w' n act)
  then have "phase_fits config L j ph \<and> (\<forall>q. ph \<noteq> Fetching q) \<and> known w' = known w \<and> waiting w' = waiting w"
    using fits by (intro fetch_phase_fits [OF laws] finds) auto
  with WorkFetch show ?thesis
    using fits by (auto simp: work_effect_def unfinished_def settled_events_def intro!: exI [of _ "[]"])
next
  case (WorkEnqueue j p urls w ph w' n act)
  then have "adds_jobs known waiting (child_jobs sha fconfig (pl_maxDepth config) (L (job_url j)) (job_depth j)) w w' \<and> (\<exists>c. ph = Ended c)"
    using fits by (intro enqueue_phase_adds [OF laws]) auto
  then obtain c added where "ph = Ended c" "distinct (map bj_jobId added)" "bj_jobId ` set added \<inter> known w = {}"
      "set added \<subseteq> child_jobs sha fconfig (pl_maxDepth config) (L (job_url j)) (job_depth j)"
      "known w' = known w \<union> bj_jobId ` set added" "waiting w' = waiting w + mset (map (\<lambda>j. (j, nat (bj_attempts j))) added)"
    unfolding adds_jobs_def by blast
  with WorkEnqueue show ?thesis
    using fits by (auto simp: work_effect_def unfinished_def settled_events_def phase_fits_def multiset.map_comp comp_def intro!: exI [of _ added])
qed (use fits in \<open>auto simp: work_effect_def unfinished_def settled_events_def intro!: exI [of _ "[]"]\<close>)

lemma work_run_fits:
  assumes laws: "crawl_laws known waiting sha fconfig queue deps config entry_of exec" and finds: "\<And>p. finds deps (entry_of p) (L (jp_url p))"
    and run: "work_run known waiting zod entry_of config deps concurrency allowed (w0, {#}) es s"
  shows "phases_fit config L (snd s)"
  using run
proof induction
  case WorkStart
  then show ?case by (simp add: phases_fit_def)
next
  case (WorkMore es s e s')
  then show ?case using work_step_effect [OF laws finds] by blast
qed

section \<open>The worker's limit\<close>

lemma work_run_concurrency:
  "work_run known waiting zod entry_of config deps concurrency allowed (w0, {#}) es s \<Longrightarrow> size (snd s) \<le> concurrency"
  by (induction rule: work_run.induct) (auto elim!: work_step.cases)

section \<open>The crawl ends\<close>

fun phase_rank :: "job_phase \<Rightarrow> nat" where
  "phase_rank (Fetching _) = 2"
| "phase_rank (Enqueueing _ _) = 1"
| "phase_rank (Ended _) = 0"

definition work_measure :: "int \<Rightarrow> ('w \<Rightarrow> job_queue) \<Rightarrow> 'w \<times> active_jobs \<Rightarrow> (nat \<times> nat \<times> nat) multiset" where
  "work_measure m waiting s = image_mset (\<lambda>(j, n). (nat (m + 1 - job_depth j), n, 3)) (waiting (fst s))
     + image_mset (\<lambda>(j, n, ph). (nat (m + 1 - job_depth j), n, phase_rank ph)) (snd s)"

abbreviation "work_order \<equiv> less_than <*lex*> less_than <*lex*> less_than"

lemma measure_less:
  "(\<And>k. k \<in># K \<Longrightarrow> (k, x) \<in> work_order) \<Longrightarrow> (M + K, add_mset x M) \<in> mult work_order"
  using one_step_implies_mult [of "{#x#}" K work_order M] by simp

lemma phase_rank_less: "phase_rank ph < 3"
  by (cases ph) simp_all

lemma work_step_decreases:
  assumes laws: "crawl_laws known waiting sha fconfig queue deps config entry_of exec"
    and step: "work_step known waiting zod entry_of config deps concurrency e s s'" and fits: "phases_fit config (\<lambda>_. UNIV) (snd s)"
  shows "(work_measure (pl_maxDepth config) waiting s', work_measure (pl_maxDepth config) waiting s) \<in> mult work_order"
  using step
proof cases
  case (WorkTake j n w act w')
  have "waiting w = add_mset (j, n) (waiting w')" using WorkTake(4,6) by simp
  with WorkTake(1-3) show ?thesis
    using phase_rank_less
    by (auto simp: work_measure_def intro!: measure_less [where K = "{#x#}" for x, simplified])
next
  case (WorkFetch j p w ph w' n act)
  then have "phase_fits config (\<lambda>_. UNIV) j ph \<and> (\<forall>q. ph \<noteq> Fetching q) \<and> known w' = known w \<and> waiting w' = waiting w"
    using fits by (intro fetch_phase_fits [OF laws finds_UNIV]) auto
  moreover from this have "phase_rank ph < 2" by (cases ph) auto
  ultimately show ?thesis
    using WorkFetch by (auto simp: work_measure_def intro!: measure_less [where K = "{#x#}" for x, simplified])
next
  case (WorkEnqueue j p urls w ph w' n act)
  then have "adds_jobs known waiting (child_jobs sha fconfig (pl_maxDepth config) UNIV (job_depth j)) w w' \<and> (\<exists>c. ph = Ended c)"
    using fits by (intro enqueue_phase_adds [OF laws, where L = "\<lambda>_. UNIV"]) auto
  then obtain c added where new: "ph = Ended c" "set added \<subseteq> child_jobs sha fconfig (pl_maxDepth config) UNIV (job_depth j)"
      "waiting w' = waiting w + mset (map (\<lambda>j. (j, nat (bj_attempts j))) added)"
    unfolding adds_jobs_def by blast
  let ?key = "\<lambda>j. nat (pl_maxDepth config + 1 - job_depth j)"
  let ?K = "image_mset (\<lambda>a. (?key a, nat (bj_attempts a), 3)) (mset added) + {#(?key j, n, 0)#}"
  let ?M = "image_mset (\<lambda>(j, n). (?key j, n, 3)) (waiting w) + image_mset (\<lambda>(j, n, ph). (?key j, n, phase_rank ph)) act"
  have "(?M + ?K, add_mset (?key j, n, 1) ?M) \<in> mult work_order"
    using child_jobs_depth new(2) by (intro measure_less) fastforce
  then show ?thesis
    using WorkEnqueue new by (simp add: work_measure_def multiset.map_comp comp_def ac_simps)
next
  case (WorkDone w' w j n act)
  then show ?thesis
    using measure_less [where K = "{#}"] by (simp add: work_measure_def)
next
  case (WorkRetried w' w j n t act)
  then show ?thesis by (auto simp: work_measure_def intro!: measure_less [where K = "{#x#}" for x, simplified])
next
  case (WorkFailed n w' w j t act)
  then show ?thesis
    using measure_less [where K = "{#}"] by (simp add: work_measure_def)
qed

text \<open>The queue can always hand out a job, and settle one.\<close>

definition queue_moves :: "('w \<Rightarrow> string set) \<Rightarrow> ('w \<Rightarrow> job_queue) \<Rightarrow> bool" where
  "queue_moves known waiting \<longleftrightarrow>
     (\<forall>w x. x \<in># waiting w \<longrightarrow> (\<exists>w'. waiting w' = waiting w - {#x#} \<and> known w' = known w))
   \<and> (\<forall>w x. \<exists>w'. waiting w' = waiting w + {#x#} \<and> known w' = known w)"

lemma active_job_advances:
  assumes "queue_moves known waiting" and "(j, n, ph) \<in># act"
  shows "\<exists>e s'. work_step known waiting zod entry_of config deps concurrency e (w, act) s'"
proof -
  obtain rest where act: "act = add_mset (j, n, ph) rest" using assms(2) by (metis insert_DiffM)
  show ?thesis
  proof (cases ph)
    case (Fetching p)
    then show ?thesis unfolding act by (metis WorkFetch prod.collapse)
  next
    case (Enqueueing p urls)
    then show ?thesis unfolding act by (metis WorkEnqueue prod.collapse)
  next
    case (Ended c)
    show ?thesis
    proof (cases c)
      case (Return u)
      then show ?thesis unfolding act Ended by (metis WorkDone old.unit.exhaust)
    next
      case (Throw t)
      show ?thesis
      proof (cases "n \<le> 1")
        case True
        then show ?thesis unfolding act Ended Throw by (metis WorkFailed)
      next
        case False
        then obtain m where "n = Suc (Suc m)" by (metis One_nat_def not_less_eq_eq old.nat.exhaust le0)
        then show ?thesis unfolding act Ended Throw using assms(1) unfolding queue_moves_def by (metis WorkRetried)
      qed
    qed
  qed
qed

lemma unfinished_job_moves:
  assumes "queue_moves known waiting" and "0 < concurrency" and "unfinished waiting s \<noteq> {#}"
  shows "\<exists>e s'. work_step known waiting zod entry_of config deps concurrency e s s'"
proof (cases "snd s = {#}")
  case True
  then obtain j n where j: "(j, n) \<in># waiting (fst s)"
    using assms(3) by (auto simp: unfinished_def active_queue_def)
  then obtain w' where "waiting w' = waiting (fst s) - {#(j, n)#}" "known w' = known (fst s)"
    using assms(1) unfolding queue_moves_def by blast
  then show ?thesis using j True assms(2) WorkTake [of j n waiting "fst s" "{#}"] by (metis prod.collapse size_empty)
next
  case False
  then obtain j n ph where "(j, n, ph) \<in># snd s" by (metis multiset_nonemptyE prod.collapse)
  then show ?thesis using active_job_advances [OF assms(1)] by (metis prod.collapse)
qed

section \<open>Jobs end once\<close>

definition work_ids :: "('w \<Rightarrow> job_queue) \<Rightarrow> work_event list \<Rightarrow> 'w \<times> active_jobs \<Rightarrow> string multiset" where
  "work_ids waiting es s = mset (ended (settled_events es)) + queue_ids (unfinished waiting s)"

lemma work_ids_step:
  assumes "work_effect known waiting J e s s' added"
  shows "work_ids waiting (es @ [e]) s' = work_ids waiting es s + mset (map bj_jobId added)"
proof -
  have "image_mset bj_jobId (mset (map event_job (filter is_end (settled_events [e]))) + image_mset fst (unfinished waiting s'))
      = image_mset bj_jobId (image_mset fst (unfinished waiting s) + mset added)"
    using assms by (simp add: work_effect_def)
  then have "mset (ended (settled_events [e])) + queue_ids (unfinished waiting s') = queue_ids (unfinished waiting s) + mset (map bj_jobId added)"
    by (simp add: ended_def queue_ids_def multiset.map_comp comp_def)
  then show ?thesis by (simp add: work_ids_def settled_events_def ended_def ac_simps)
qed

lemma work_run_once:
  assumes laws: "crawl_laws known waiting sha fconfig queue deps config entry_of exec"
    and run: "work_run known waiting zod entry_of config deps concurrency allowed (w0, {#}) es s"
    and start: "\<forall>i. count (queue_ids (waiting w0)) i \<le> 1" "set_mset (queue_ids (waiting w0)) \<subseteq> known w0"
  shows "(\<forall>i. count (work_ids waiting es s) i \<le> 1) \<and> set_mset (work_ids waiting es s) \<subseteq> known (fst s)"
  using run
proof induction
  case WorkStart
  then show ?case using start by (simp add: work_ids_def settled_events_def ended_def unfinished_def active_queue_def)
next
  case (WorkMore es s e s')
  have "phases_fit config (\<lambda>_. UNIV) (snd s)" by (rule work_run_fits [OF laws finds_UNIV WorkMore.hyps(1)])
  then obtain added where eff: "work_effect known waiting (child_jobs sha fconfig (pl_maxDepth config) UNIV (job_depth (work_job e))) e s s' added"
    using work_step_effect [where L = "\<lambda>_. UNIV", OF laws finds_UNIV] WorkMore.hyps(3) by blast
  then have "distinct (map bj_jobId added)" "set (map bj_jobId added) \<inter> known (fst s) = {}" "known (fst s') = known (fst s) \<union> bj_jobId ` set added"
    by (simp_all add: work_effect_def)
  then show ?case
    using once_total [of "work_ids waiting es s" "known (fst s)" "map bj_jobId added"] WorkMore.IH
    by (auto simp: work_ids_step [OF eff])
qed

section \<open>One job at a time\<close>

lemma one_step_run:
  "work_step known waiting zod entry_of config deps concurrency e s s' \<Longrightarrow>
     work_run known waiting zod entry_of config deps concurrency any_order s [e] s'"
  using WorkMore [OF WorkStart, of any_order e s] by (simp add: any_order_def)

lemma phases_in_order_run:
  assumes "phases_in_order zod entry_of config deps (job_value (bj_data j)) w = (Ended c, w')"
  shows "\<exists>es. settled_events es = [] \<and> work_run known waiting zod entry_of config deps concurrency any_order
    (w, {#(j, n, start_phase zod entry_of config deps (job_value (bj_data j)))#}) es (w', {#(j, n, Ended c)#})"
proof (cases "start_phase zod entry_of config deps (job_value (bj_data j))")
  case (Ended c')
  then show ?thesis
    using assms by (intro exI [of _ "[]"]) (simp add: phases_in_order_def settled_events_def WorkStart)
next
  case (Enqueueing p urls)
  then have False by (auto simp: start_phase_def split: option.splits sum.splits)
  then show ?thesis ..
next
  case (Fetching p)
  obtain ph w1 where fetch: "fetch_phase zod entry_of deps (job_value (bj_data j)) p w = (ph, w1)" by (metis surj_pair)
  have fetched: "work_run known waiting zod entry_of config deps concurrency any_order (w, {#(j, n, Fetching p)#}) [Advanced j] (w1, {#(j, n, ph)#})"
    by (intro one_step_run WorkFetch fetch)
  show ?thesis
  proof (cases ph)
    case (Enqueueing q urls)
    then have "enqueue_phase zod entry_of deps (job_value (bj_data j)) q urls w1 = (Ended c, w')"
      using assms Fetching fetch by (simp add: phases_in_order_def)
    then have "work_run known waiting zod entry_of config deps concurrency any_order (w1, {#(j, n, ph)#}) [Advanced j] (w', {#(j, n, Ended c)#})"
      unfolding Enqueueing by (intro one_step_run WorkEnqueue)
    then show ?thesis
      using work_run_append [OF _ fetched] Fetching by (intro exI [of _ "[Advanced j, Advanced j]"]) (auto simp: settled_events_def)
  qed (use assms fetch fetched Fetching in \<open>auto simp: phases_in_order_def settled_events_def fetch_phase_def
      intro!: exI [of _ "[Advanced j]"] split: prod.splits completion.splits sum.splits\<close>)
qed

text \<open>A step of \<open>CrawlSystem\<close> is a run of the worker that begins and ends with no active job.\<close>

lemma crawl_step_is_work_run:
  assumes step: "crawl_step known waiting (crawl_consumer zod (pipeline_exec entry_of config deps)) e w w'" and "0 < concurrency"
  shows "\<exists>es. settled_events es = [e] \<and> work_run known waiting zod entry_of config deps concurrency any_order (w, {#}) es (w', {#})"
proof -
  let ?run = "work_run known waiting zod entry_of config deps concurrency any_order"
  have job: "\<exists>es. settled_events es = [e] \<and> ?run (w, {#}) es (w', {#})"
    if take: "(j, n) \<in># waiting w" "waiting w1 = waiting w - {#(j, n)#}" "known w1 = known w"
      and process: "crawl_consumer zod (pipeline_exec entry_of config deps) (job_value (bj_data j)) w1 = (c, w2)"
      and settle: "work_step known waiting zod entry_of config deps concurrency (Settled e) (w2, {#(j, n, Ended c)#}) (w', {#})" for j n w1 c w2
  proof -
    have "phases_in_order zod entry_of config deps (job_value (bj_data j)) w1 = (Ended c, w2)"
      using process by (simp add: phases_in_order_consumer)
    from phases_in_order_run [OF this, of known waiting concurrency n] obtain es where es: "settled_events es = []" "?run (w1, {#(j, n, start_phase zod entry_of config deps (job_value (bj_data j)))#}) es (w2, {#(j, n, Ended c)#})"
      by blast
    have "?run (w, {#}) [Took j] (w1, {#(j, n, start_phase zod entry_of config deps (job_value (bj_data j)))#})"
      by (intro one_step_run WorkTake take) (simp add: assms(2))
    from work_run_append [OF one_step_run [OF settle] work_run_append [OF es(2) this]] show ?thesis
      using es(1) by (intro exI [of _ "(Took j # es) @ [Settled e]"]) (simp add: settled_events_def)
  qed
  show ?thesis
    using step
  proof cases
    case (StepDone j n w1)
    show ?thesis
      unfolding StepDone(1) by (rule job [OF StepDone(2,3,4,5), unfolded StepDone(1)]) (intro WorkDone refl)
  next
    case (StepRetried j n w1 t w2)
    show ?thesis
      unfolding StepRetried(1) by (rule job [OF StepRetried(2,3,4,5), unfolded StepRetried(1)]) (intro WorkRetried StepRetried)
  next
    case (StepFailed j n w1 t)
    show ?thesis
      unfolding StepFailed(1) by (rule job [OF StepFailed(2,4,5,6), unfolded StepFailed(1)]) (intro WorkFailed StepFailed refl)
  qed
qed

lemma crawl_run_is_work_run:
  assumes "0 < concurrency"
  shows "crawl_run known waiting (crawl_consumer zod (pipeline_exec entry_of config deps)) w0 es w \<Longrightarrow>
    \<exists>es'. settled_events es' = es \<and> work_run known waiting zod entry_of config deps concurrency any_order (w0, {#}) es' (w, {#})"
proof (induction rule: crawl_run.induct)
  case CrawlStart
  show ?case by (intro exI [of _ "[]"]) (simp add: settled_events_def WorkStart)
next
  case (CrawlMore es w e w')
  then obtain es1 es2 where "settled_events es1 = es" "settled_events es2 = [e]"
      "work_run known waiting zod entry_of config deps concurrency any_order (w0, {#}) es1 (w, {#})"
      "work_run known waiting zod entry_of config deps concurrency any_order (w, {#}) es2 (w', {#})"
    using crawl_step_is_work_run [OF CrawlMore.hyps(2) assms] by blast
  then show ?case using work_run_append by (intro exI [of _ "es1 @ es2"]) (auto simp: settled_events_def)
qed

end
