(* ===== verification/ConcurrentCoverage.thy ===== *)
theory ConcurrentCoverage
  imports CrawlConcurrent CrawlOrder CrawlCompletion
begin

text \<open>
  What concurrent jobs reach, and what \<open>CrawlConcurrent\<close> gives for a whole crawl. Every link of a page that was done
  above the depth limit is known to the queue; so a crawl that ends with no job below the limit has crawled all
  that the seeds lead to. The depth of a page, though, is that of the first job that found it: the last example
  loses a page within the limit with two jobs at a time.
\<close>

section \<open>Coverage\<close>

definition work_jobs :: "('w \<Rightarrow> job_queue) \<Rightarrow> work_event list \<Rightarrow> 'w \<times> active_jobs \<Rightarrow> BullJob set" where
  "work_jobs waiting es s = set (map event_job (filter is_end (settled_events es))) \<union> fst ` set_mset (unfinished waiting s)"

lemma work_jobs_step:
  assumes "work_effect known waiting J e s s' added"
  shows "work_jobs waiting (es @ [e]) s' = work_jobs waiting es s \<union> set added"
proof -
  have "set_mset (mset (map event_job (filter is_end (settled_events [e]))) + image_mset fst (unfinished waiting s'))
      = set_mset (image_mset fst (unfinished waiting s) + mset added)"
    using assms by (simp add: work_effect_def)
  then have "event_job ` {x \<in> set (settled_events [e]). is_end x} \<union> fst ` set_mset (unfinished waiting s')
      = fst ` set_mset (unfinished waiting s) \<union> set added" by simp
  then show ?thesis by (auto simp: work_jobs_def settled_events_def)
qed

text \<open>What the phase of an active job says about the links of its page.\<close>

definition phase_links ::
  "(string \<Rightarrow> string) \<Rightarrow> (string \<Rightarrow> string list option) \<Rightarrow> int \<Rightarrow> string set \<Rightarrow> BullJob \<Rightarrow> job_phase \<Rightarrow> bool" where
  "phase_links sha site m K j ph = (case ph of
     Fetching p \<Rightarrow> True
   | Enqueueing p urls \<Rightarrow> site (job_url j) = Some (map cu_normalized urls)
   | Ended c \<Rightarrow> c = Return () \<longrightarrow> job_depth j \<le> m \<longrightarrow> deriveJobId sha ` page_links site (job_url j) \<subseteq> K)"

definition links_inv ::
  "('w \<Rightarrow> string set) \<Rightarrow> (string \<Rightarrow> string) \<Rightarrow> (string \<Rightarrow> string list option) \<Rightarrow> int \<Rightarrow> work_event list \<Rightarrow> 'w \<times> active_jobs \<Rightarrow> bool" where
  "links_inv known sha site m es s \<longleftrightarrow> (\<forall>(j, n, ph) \<in># snd s. phase_links sha site m (known (fst s)) j ph)
     \<and> (\<forall>j. JobDone j \<in> set (settled_events es) \<longrightarrow> job_depth j \<le> m \<longrightarrow> deriveJobId sha ` page_links site (job_url j) \<subseteq> known (fst s))"

lemma phase_links_mono: "phase_links sha site m K j ph \<Longrightarrow> K \<subseteq> K' \<Longrightarrow> phase_links sha site m K' j ph"
  by (auto simp: phase_links_def split: job_phase.splits)

lemma settled_returned:
  "job_settled zod raw x = Return () \<Longrightarrow> JobPayloadSchema raw = Some p \<Longrightarrow> (\<forall>t. x \<noteq> Throw t) \<and> (\<forall>q. x \<noteq> Return (Err (CeQueue q)))"
  using consumer_returned [of zod "\<lambda>p w. (x, w)" raw "()" "()" p] by (cases "crawl_consumer zod (\<lambda>p w. (x, w)) raw ()") (simp add: job_settled_def)

text \<open>A page of the site passes the validation, its fetch does not end the job.\<close>

lemma start_phase_links:
  assumes laws: "coverage_laws known waiting sha fconfig queue deps config entry_of site" and "job_formed sha A j"
  shows "phase_links sha site (pl_maxDepth config) K j (start_phase zod entry_of config deps (job_value (bj_data j)))"
proof (cases "job_depth j \<le> pl_maxDepth config \<and> site (job_url j) \<noteq> None")
  case False
  then show ?thesis
    by (auto simp: phase_links_def start_phase_def page_links_def split: option.split sum.split)
next
  case True
  let ?p = "\<lparr>jp_url = job_url j, jp_depth = job_depth j\<rparr>"
  have p: "JobPayloadSchema (job_value (bj_data j)) = Some ?p"
    using laws assms(2) True by (intro JobPayloadSchema_job_value) (auto simp: coverage_laws_def job_formed_def MAX_SAFE_INTEGER_def)
  have "static_site deps config entry_of site" using laws by (simp add: coverage_laws_def)
  then have "isOk (validateEntry (up_parse (pd_platform deps)) (entry_of ?p)
           \<lparr>vc_maxDepth = pl_maxDepth config, vc_allowedDomains = pl_allowedDomains config\<rparr>)"
    using True unfolding static_site_def by (auto dest!: spec [of _ ?p] split: option.splits)
  then show ?thesis by (auto simp: phase_links_def start_phase_def p isOk_iff)
qed

lemma fetch_phase_links:
  assumes laws: "coverage_laws known waiting sha fconfig queue deps config entry_of site"
    and p: "jp_url p = job_url j" and fetch: "fetch_phase zod entry_of deps raw p w = (ph, w')"
  shows "phase_links sha site m K j ph"
proof (cases "site (job_url j)")
  case None
  then have "\<not> (\<exists>c w1. fetchEntry (entry_of p) deps w = (Return (Ok c), w1))"
    using laws p unfolding coverage_laws_def static_site_def by (auto dest!: spec [of _ p] split: option.splits)
  then show ?thesis
    using fetch None by (auto simp: fetch_phase_def phase_links_def page_links_def split: prod.splits completion.splits sum.splits)
next
  case (Some ls)
  then obtain c w1 urls logs where "fetchEntry (entry_of p) deps w = (Return (Ok c), w1)"
      "discoverLinks (pd_platform deps) c (pd_extract deps) = (Ok urls, logs)" "map cu_normalized urls = ls"
    using laws p unfolding coverage_laws_def static_site_def by (auto dest!: spec [of _ p] spec [of _ w] split: option.splits)
  then show ?thesis using fetch Some by (auto simp: fetch_phase_def phase_links_def)
qed

lemma enqueue_phase_links:
  assumes laws: "coverage_laws known waiting sha fconfig queue deps config entry_of site"
    and schema: "JobPayloadSchema raw = Some q" and "site (job_url j) = Some (map cu_normalized urls)"
    and enq: "enqueue_phase zod entry_of deps raw p urls w = (ph, w')"
  shows "phase_links sha site m (known w') j ph"
proof -
  obtain x where x: "enqueueUrls urls (entry_of p) deps w = (x, w')" "ph = Ended (job_settled zod raw x)"
    using enq by (auto simp: enqueue_phase_def split: prod.splits)
  have "deriveJobId sha ` cu_normalized ` set urls \<subseteq> known w'" if ret: "job_settled zod raw x = Return ()"
  proof -
    have "x = Return (Err e) \<Longrightarrow> \<exists>q. e = CeQueue q" for e
      using x(1) by (auto simp: enqueueUrls_def split: if_splits prod.splits completion.splits sum.splits)
    then obtain n where "x = Return (Ok n)"
      using settled_returned [OF ret schema] by (metis completion.exhaust sum.exhaust)
    then show ?thesis using enqueued_known [OF laws] x(1) by blast
  qed
  then show ?thesis using assms(3) x(2) by (simp add: phase_links_def page_links_def)
qed

lemma links_inv_step:
  assumes laws: "coverage_laws known waiting sha fconfig queue deps config entry_of site"
    and step: "work_step known waiting zod entry_of config deps concurrency e s s'"
    and fits: "phases_fit config (\<lambda>_. UNIV) (snd s)" and formed: "\<forall>x \<in> work_jobs waiting es s. job_formed sha A x"
    and grows: "known (fst s) \<subseteq> known (fst s')" and inv: "links_inv known sha site (pl_maxDepth config) es s"
  shows "links_inv known sha site (pl_maxDepth config) (es @ [e]) s'"
  using step
proof cases
  case (WorkTake j n w act w')
  then have "job_formed sha A j" using formed by (force simp: work_jobs_def unfinished_def)
  then show ?thesis
    using WorkTake inv start_phase_links [OF laws] by (auto simp: links_inv_def settled_events_def)
next
  case (WorkFetch j p w ph w' n act)
  have base: "crawl_laws known waiting sha fconfig queue deps config entry_of (pipeline_exec entry_of config deps)"
    using laws by (simp add: coverage_laws_def)
  have "phase_fits config (\<lambda>_. UNIV) j ph \<and> (\<forall>q. ph \<noteq> Fetching q) \<and> known w' = known w \<and> waiting w' = waiting w"
    using fits WorkFetch by (intro fetch_phase_fits [OF base finds_UNIV]) auto
  then have same: "known w' = known w" by blast
  have "jp_url p = job_url j" using WorkFetch fits JobPayloadSchema_job [of "bj_data j" p] by (simp add: phase_fits_def)
  then have "phase_links sha site (pl_maxDepth config) (known w') j ph" using fetch_phase_links [OF laws] WorkFetch by blast
  then show ?thesis using WorkFetch inv same by (auto simp: links_inv_def settled_events_def)
next
  case (WorkEnqueue j p urls w ph w' n act)
  have "JobPayloadSchema (job_value (bj_data j)) = Some p" using WorkEnqueue fits by (simp add: phase_fits_def)
  moreover have "site (job_url j) = Some (map cu_normalized urls)" using WorkEnqueue inv by (simp add: links_inv_def phase_links_def)
  ultimately have "phase_links sha site (pl_maxDepth config) (known w') j ph"
    using enqueue_phase_links [OF laws] WorkEnqueue by blast
  then show ?thesis
    using WorkEnqueue inv grows phase_links_mono by (fastforce simp: links_inv_def settled_events_def)
next
  case (WorkDone w' w j n act)
  then show ?thesis using inv by (auto simp: links_inv_def settled_events_def phase_links_def)
qed (use inv in \<open>auto simp: links_inv_def settled_events_def\<close>)

definition work_cover_inv ::
  "('w \<Rightarrow> string set) \<Rightarrow> ('w \<Rightarrow> job_queue) \<Rightarrow> (string \<Rightarrow> string) \<Rightarrow> (string \<Rightarrow> string list option) \<Rightarrow> string set \<Rightarrow> int \<Rightarrow> work_event list \<Rightarrow> 'w \<times> active_jobs \<Rightarrow> bool" where
  "work_cover_inv known waiting sha site A m es s \<longleftrightarrow> known (fst s) = bj_jobId ` work_jobs waiting es s
     \<and> (\<forall>x \<in> work_jobs waiting es s. job_formed sha A x) \<and> links_inv known sha site m es s"

lemma work_cover_step:
  assumes laws: "coverage_laws known waiting sha fconfig queue deps config entry_of site" and within: "site_within site A"
    and run: "work_run known waiting zod entry_of config deps concurrency allowed (w0, {#}) es s"
    and step: "work_step known waiting zod entry_of config deps concurrency e s s'"
    and inv: "work_cover_inv known waiting sha site A (pl_maxDepth config) es s"
  shows "work_cover_inv known waiting sha site A (pl_maxDepth config) (es @ [e]) s' \<and> work_jobs waiting es s \<subseteq> work_jobs waiting (es @ [e]) s'"
proof -
  have base: "crawl_laws known waiting sha fconfig queue deps config entry_of (pipeline_exec entry_of config deps)"
    and site: "static_site deps config entry_of site" using laws by (simp_all add: coverage_laws_def)
  have finds: "finds deps (entry_of p) (page_links site (jp_url p))" for p by (rule static_site_finds [OF site])
  have fits: "phases_fit config (page_links site) (snd s)" "phases_fit config (\<lambda>_. UNIV) (snd s)"
    by (rule work_run_fits [OF base _ run], rule finds) (rule work_run_fits [OF base finds_UNIV run])
  obtain added where eff: "work_effect known waiting
      (child_jobs sha fconfig (pl_maxDepth config) (page_links site (job_url (work_job e))) (job_depth (work_job e))) e s s' added"
    using work_step_effect [where L = "page_links site", OF base finds step fits(1)] by blast
  have jobs: "work_jobs waiting (es @ [e]) s' = work_jobs waiting es s \<union> set added" by (rule work_jobs_step [OF eff])
  have known': "known (fst s') = known (fst s) \<union> bj_jobId ` set added" using eff by (simp add: work_effect_def)
  have formed: "\<forall>x \<in> work_jobs waiting es s. job_formed sha A x" using inv by (simp add: work_cover_inv_def)
  have "work_job e \<in> work_jobs waiting es s"
    using step
  proof cases
    case (WorkTake j n w act w')
    then have "j \<in> fst ` set_mset (waiting w)" by (intro rev_image_eqI [OF WorkTake(4)]) simp
    then show ?thesis using WorkTake(1,2) by (simp add: work_jobs_def unfinished_def image_Un)
  qed (simp_all add: work_jobs_def unfinished_def image_Un)
  then have "0 \<le> job_depth (work_job e)" using formed by (auto simp: job_formed_def)
  moreover have "set added \<subseteq> child_jobs sha fconfig (pl_maxDepth config) (page_links site (job_url (work_job e))) (job_depth (work_job e))"
    using eff by (simp add: work_effect_def)
  ultimately have "\<forall>x \<in> set added. job_formed sha A x" using child_jobs_formed [OF _ within] by (meson subsetD)
  moreover have "links_inv known sha site (pl_maxDepth config) (es @ [e]) s'"
    using inv known' by (intro links_inv_step [OF laws step fits(2) formed]) (auto simp: work_cover_inv_def)
  ultimately show ?thesis using inv jobs known' by (auto simp: work_cover_inv_def)
qed

lemma work_run_cover:
  assumes "coverage_laws known waiting sha fconfig queue deps config entry_of site" and "site_within site A"
    and "work_run known waiting zod entry_of config deps concurrency allowed (w0, {#}) es s"
    and "work_cover_inv known waiting sha site A (pl_maxDepth config) [] (w0, {#})"
  shows "work_cover_inv known waiting sha site A (pl_maxDepth config) es s \<and> work_jobs waiting [] (w0, {#}) \<subseteq> work_jobs waiting es s"
  using assms(3)
proof induction
  case WorkStart
  then show ?case using assms(4) by simp
next
  case (WorkMore es s e s')
  then show ?case using work_cover_step [OF assms(1,2) WorkMore.hyps(1,3)] by blast
qed

lemma work_cover_start:
  "cover_inv known waiting sha site A m [] w0 \<Longrightarrow> work_cover_inv known waiting sha site A m [] (w0, {#}) \<and> work_jobs waiting [] (w0, {#}) = crawl_jobs waiting [] w0"
  by (simp add: cover_inv_def work_cover_inv_def links_inv_def settled_events_def work_jobs_def crawl_jobs_def unfinished_def active_queue_def)

section \<open>Two jobs at a time lose a page\<close>

abbreviation "chain_run_two \<equiv> work_run mem_known mem_waiting (\<lambda>v. []) chain_entry chain_config chain_deps 2 (least_first mem_waiting)"
abbreviation "chain_payload path d \<equiv> \<lparr>jp_url = page_url path, jp_depth = d\<rparr>"

lemma chain_take:
  assumes "size act < 2" and "start_phase (\<lambda>v. []) chain_entry chain_config chain_deps (job_value (bj_data (chain_job p d))) = ph"
    and "\<forall>q k. (q, k) \<in> set (ws1 @ ws2) \<longrightarrow> d \<le> k"
  shows "chain_run_two (chain_world ps (ws1 @ (p, d) # ws2), act) [Took (chain_job p d)]
    (chain_world ps (ws1 @ ws2), add_mset (chain_job p d, 3, ph) act)"
proof -
  let ?s = "(chain_world ps (ws1 @ (p, d) # ws2), act)"
  have "bj_priority (chain_job q k) = k" for q k
    by (simp add: chain_job_def mem_job_def toBullMQJob_def job_spec_def depthToPriority_def)
  then have "least_first mem_waiting (Took (chain_job p d)) (fst ?s)"
    using assms(3) by (auto simp: least_first_def chain_world_waiting split_beta)
  then have "chain_run_two ?s ([] @ [Took (chain_job p d)]) (chain_world ps (ws1 @ ws2), add_mset (chain_job p d, 3, ph) act)"
    unfolding assms(2) [symmetric]
    by (intro WorkMore [OF WorkStart] WorkTake assms(1)) (simp_all add: chain_world_waiting chain_world_known)
  then show ?thesis by simp
qed

lemma chain_advance:
  assumes "case fetch_phase (\<lambda>v. []) chain_entry chain_deps (job_value (bj_data j)) p w of
      (Enqueueing q urls, w1) \<Rightarrow> enqueue_phase (\<lambda>v. []) chain_entry chain_deps (job_value (bj_data j)) q urls w1 = (Ended c, w')
    | _ \<Rightarrow> False"
  shows "chain_run_two (w, add_mset (j, n, Fetching p) act) [Advanced j, Advanced j] (w', add_mset (j, n, Ended c) act)"
proof -
  obtain q urls w1 where ph: "fetch_phase (\<lambda>v. []) chain_entry chain_deps (job_value (bj_data j)) p w = (Enqueueing q urls, w1)"
      "enqueue_phase (\<lambda>v. []) chain_entry chain_deps (job_value (bj_data j)) q urls w1 = (Ended c, w')"
    using assms by (auto split: prod.splits job_phase.splits)
  have "chain_run_two (w, add_mset (j, n, Fetching p) act) (([] @ [Advanced j]) @ [Advanced j]) (w', add_mset (j, n, Ended c) act)"
    by (intro WorkMore [OF WorkMore [OF WorkStart _ WorkFetch [OF ph(1)]] _ WorkEnqueue [OF ph(2)]]) (simp_all add: least_first_def)
  then show ?thesis by simp
qed

lemma chain_settle: "chain_run_two (w, add_mset (j, n, Ended (Return ())) act) [Settled (JobDone j)] (w, act)"
proof -
  have "chain_run_two (w, add_mset (j, n, Ended (Return ())) act) ([] @ [Settled (JobDone j)]) (w, act)"
    by (intro WorkMore [OF WorkStart] WorkDone) (simp_all add: least_first_def)
  then show ?thesis by simp
qed

lemma chain_whole:
  assumes "size act < 2" and "start_phase (\<lambda>v. []) chain_entry chain_config chain_deps (job_value (bj_data (chain_job p d))) = Fetching (chain_payload p d)"
    and "case fetch_phase (\<lambda>v. []) chain_entry chain_deps (job_value (bj_data (chain_job p d))) (chain_payload p d) (chain_world ps ws) of
      (Enqueueing q urls, w1) \<Rightarrow> enqueue_phase (\<lambda>v. []) chain_entry chain_deps (job_value (bj_data (chain_job p d))) q urls w1 = (Ended (Return ()), w')
    | _ \<Rightarrow> False"
    and "\<forall>q k. (q, k) \<in> set ws \<longrightarrow> d \<le> k"
  shows "chain_run_two (chain_world ps ((p, d) # ws), act)
    [Took (chain_job p d), Advanced (chain_job p d), Advanced (chain_job p d), Settled (JobDone (chain_job p d))] (w', act)"
proof -
  let ?j = "chain_job p d"
  have "chain_run_two (chain_world ps ((p, d) # ws), act) [Took ?j] (chain_world ps ws, add_mset (?j, 3, Fetching (chain_payload p d)) act)"
    using chain_take [OF assms(1,2), of "[]" ws ps] assms(4) by simp
  from work_run_append [OF chain_settle work_run_append [OF chain_advance [OF assms(3)] this]] show ?thesis by simp
qed

definition chain_work_events :: "work_event list" where
  "chain_work_events =
     [Took (chain_job ''/t'' 0)]
     @ concat (map (\<lambda>(p, d). [Took (chain_job p d), Advanced (chain_job p d), Advanced (chain_job p d), Settled (JobDone (chain_job p d))])
         [(''/s'', 0), (''/c'', 1), (''/d'', 2)])
     @ [Advanced (chain_job ''/t'' 0), Advanced (chain_job ''/t'' 0), Settled (JobDone (chain_job ''/t'' 0)),
        Took (chain_job ''/e'' 3), Settled (JobDone (chain_job ''/e'' 3))]"

lemma chain_starts:
  "start_phase (\<lambda>v. []) chain_entry chain_config chain_deps (job_value (bj_data (chain_job ''/s'' 0))) = Fetching (chain_payload ''/s'' 0)"
  "start_phase (\<lambda>v. []) chain_entry chain_config chain_deps (job_value (bj_data (chain_job ''/t'' 0))) = Fetching (chain_payload ''/t'' 0)"
  "start_phase (\<lambda>v. []) chain_entry chain_config chain_deps (job_value (bj_data (chain_job ''/c'' 1))) = Fetching (chain_payload ''/c'' 1)"
  "start_phase (\<lambda>v. []) chain_entry chain_config chain_deps (job_value (bj_data (chain_job ''/d'' 2))) = Fetching (chain_payload ''/d'' 2)"
  "start_phase (\<lambda>v. []) chain_entry chain_config chain_deps (job_value (bj_data (chain_job ''/e'' 3))) = Ended (Return ())"
  by code_simp+

text \<open>
  The page \<open>/t\<close> is taken first, and its fetch is the slowest. Though every job is taken by priority and none
  fails, \<open>/e\<close> is lost as in \<open>CrawlOrder\<close>: the page \<open>/d\<close> is known at depth 2 before \<open>/t\<close> links to it.
\<close>

lemma chain_work_run: "chain_run_two (chain_start, {#}) chain_work_events (chain_end, {#})"
proof -
  let ?t = "(chain_job ''/t'' 0, 3, Fetching (chain_payload ''/t'' 0))"
  have t: "chain_run_two (chain_start, {#}) [Took (chain_job ''/t'' 0)] (chain_world [''/t'', ''/s''] [(''/s'', 0)], {#?t#})"
    using chain_take [OF _ chain_starts(2), of "{#}" "[(''/s'', 0)]" "[]"] by simp
  have s: "chain_run_two (chain_world [''/t'', ''/s''] [(''/s'', 0)], {#?t#})
      [Took (chain_job ''/s'' 0), Advanced (chain_job ''/s'' 0), Advanced (chain_job ''/s'' 0), Settled (JobDone (chain_job ''/s'' 0))]
      (chain_world [''/c'', ''/t'', ''/s''] [(''/c'', 1)], {#?t#})"
    by (rule chain_whole [OF _ chain_starts(1)], simp, code_simp, simp)
  have c: "chain_run_two (chain_world [''/c'', ''/t'', ''/s''] [(''/c'', 1)], {#?t#})
      [Took (chain_job ''/c'' 1), Advanced (chain_job ''/c'' 1), Advanced (chain_job ''/c'' 1), Settled (JobDone (chain_job ''/c'' 1))]
      (chain_world [''/d'', ''/c'', ''/t'', ''/s''] [(''/d'', 2)], {#?t#})"
    by (rule chain_whole [OF _ chain_starts(3)], simp, code_simp, simp)
  have d: "chain_run_two (chain_world [''/d'', ''/c'', ''/t'', ''/s''] [(''/d'', 2)], {#?t#})
      [Took (chain_job ''/d'' 2), Advanced (chain_job ''/d'' 2), Advanced (chain_job ''/d'' 2), Settled (JobDone (chain_job ''/d'' 2))]
      (chain_world [''/e'', ''/d'', ''/c'', ''/t'', ''/s''] [(''/e'', 3)], {#?t#})"
    by (rule chain_whole [OF _ chain_starts(4)], simp, code_simp, simp)
  have t': "chain_run_two (chain_world [''/e'', ''/d'', ''/c'', ''/t'', ''/s''] [(''/e'', 3)], {#?t#})
      [Advanced (chain_job ''/t'' 0), Advanced (chain_job ''/t'' 0)]
      (chain_world [''/e'', ''/d'', ''/c'', ''/t'', ''/s''] [(''/e'', 3)], {#(chain_job ''/t'' 0, 3, Ended (Return ()))#})"
    by (rule chain_advance) code_simp
  have e: "chain_run_two (chain_world [''/e'', ''/d'', ''/c'', ''/t'', ''/s''] [(''/e'', 3)], {#})
      [Took (chain_job ''/e'' 3)] (chain_end, {#(chain_job ''/e'' 3, 3, Ended (Return ()))#})"
    using chain_take [OF _ chain_starts(5), of "{#}" "[]" "[]"] by simp
  from work_run_append [OF chain_settle work_run_append [OF e work_run_append [OF chain_settle
        work_run_append [OF t' work_run_append [OF d work_run_append [OF c work_run_append [OF s t]]]]]]]
  show ?thesis by (simp add: chain_work_events_def)
qed

lemma chain_work_settled: "settled_events chain_work_events
    = [JobDone (chain_job ''/s'' 0), JobDone (chain_job ''/c'' 1), JobDone (chain_job ''/d'' 2), JobDone (chain_job ''/t'' 0), JobDone (chain_job ''/e'' 3)]"
  by (simp add: settled_events_def chain_work_events_def)

section \<open>Results\<close>



text \<open>C5: With any number of concurrent jobs, a crawl ends: no sequence of interleaved fetches, enqueueings, settlements and retries is infinite, and while a job waits or is active some step can be taken, so that the crawl only stops with every job ended.\<close>

theorem concurrent_crawl_ends:
  assumes laws: "crawl_laws known waiting sha fconfig queue deps config entry_of exec" and "queue_moves known waiting" and "0 < concurrency"
  shows "(\<nexists>run. run 0 = (w0, {#}) \<and> (\<forall>i :: nat. \<exists>e. work_step known waiting zod entry_of config deps concurrency e (run i) (run (Suc i))))
    \<and> (\<forall>s. (\<nexists>e s'. work_step known waiting zod entry_of config deps concurrency e s s') \<longrightarrow> unfinished waiting s = {#})"
proof
  show "\<nexists>run. run 0 = (w0, {#}) \<and> (\<forall>i :: nat. \<exists>e. work_step known waiting zod entry_of config deps concurrency e (run i) (run (Suc i)))"
  proof
    assume "\<exists>run. run 0 = (w0, {#}) \<and> (\<forall>i :: nat. \<exists>e. work_step known waiting zod entry_of config deps concurrency e (run i) (run (Suc i)))"
    then obtain run where run: "run 0 = (w0, {#})" "\<exists>e. work_step known waiting zod entry_of config deps concurrency e (run i) (run (Suc i))" for i :: nat
      by blast
    have reached: "\<exists>es. work_run known waiting zod entry_of config deps concurrency any_order (w0, {#}) es (run i)" for i
    proof (induction i)
      case 0
      show ?case using WorkStart run(1) by metis
    next
      case (Suc i)
      then show ?case using WorkMore [of _ _ _ _ _ _ _ any_order] run(2) [of i] by (metis any_order_def)
    qed
    have "phases_fit config (\<lambda>_. UNIV) (snd (run i))" for i
      using reached [of i] work_run_fits [OF laws finds_UNIV] by blast
    then have down: "(work_measure (pl_maxDepth config) waiting (run (Suc i)), work_measure (pl_maxDepth config) waiting (run i)) \<in> mult work_order" for i
      using work_step_decreases [OF laws] run(2) [of i] by blast
    have "wf (mult work_order)" by (intro wf_mult wf_lex_prod wf_less_than)
    then show False
      unfolding wf_iff_no_infinite_down_chain
      using down by (blast intro: exI [of _ "\<lambda>i. work_measure (pl_maxDepth config) waiting (run i)"])
  qed
qed (use unfinished_job_moves [OF assms(2,3)] in blast)

lemma mem_queue_moves: "queue_moves mem_known mem_waiting"
proof -
  have "\<exists>v :: mem_world. mem_waiting v = M \<and> mem_known v = mem_known w" for M and w :: mem_world
  proof -
    obtain ws where "mset ws = M" using ex_mset by blast
    then show ?thesis by (intro exI [of _ "(fst w, ws)"]) (simp add: mem_waiting_def mem_known_def)
  qed
  then show ?thesis by (simp add: queue_moves_def)
qed

theorem concurrent_crawl_ends_witness:
  "(\<nexists>run. run 0 = (chain_start, {#}) \<and> (\<forall>i :: nat. \<exists>e. work_step mem_known mem_waiting (\<lambda>v. []) chain_entry chain_config chain_deps 2 e (run i) (run (Suc i))))
   \<and> chain_run_two (chain_start, {#}) chain_work_events (chain_end, {#})"
proof -
  have "crawl_laws mem_known mem_waiting (\<lambda>s. s) DEFAULT_FRONTIER_CONFIG mem_queue chain_deps chain_config chain_entry chain_exec"
    using chain_coverage by (simp add: coverage_laws_def)
  from concurrent_crawl_ends [OF this mem_queue_moves, of 2 chain_start "\<lambda>v. []"] show ?thesis using chain_work_run by simp
qed

text \<open>With any number of concurrent jobs, in any order, and none below the depth limit.\<close>

lemma concurrent_covers:
  assumes laws: "coverage_laws known waiting sha fconfig queue deps config entry_of site"
    and within: "site_within site A" and seeds: "set seeds \<subseteq> A" and ids: "inj_on (deriveJobId sha) A"
    and empty: "known w = {}" "waiting w = {#}"
    and enq: "enqueueEntries sha (seed_entries_of seeds) (createBullMQQueueBackend queue) fconfig w = ((Ok n, ms), w0)"
    and run: "work_run known waiting zod entry_of config deps concurrency allowed (w0, {#}) es s"
    and over: "unfinished waiting s = {#}" "\<forall>j. JobFailed j \<notin> set (settled_events es)"
    and uncut: "\<forall>j. JobDone j \<in> set (settled_events es) \<longrightarrow> job_depth j \<le> pl_maxDepth config"
    and path: "link_path site (set seeds) k u"
  shows "\<exists>j. JobDone j \<in> set (settled_events es) \<and> job_url j = u"
proof -
  have start: "cover_inv known waiting sha site A (pl_maxDepth config) [] w0" "deriveJobId sha ` set seeds \<subseteq> known w0"
    using cover_inv_seeds [OF laws empty enq seeds] within by (simp_all add: site_within_def)
  then have inv: "work_cover_inv known waiting sha site A (pl_maxDepth config) es s" and grown: "crawl_jobs waiting [] w0 \<subseteq> work_jobs waiting es s"
    using work_run_cover [OF laws within run] work_cover_start [OF start(1)] by simp_all
  have crawled: "\<exists>j. JobDone j \<in> set (settled_events es) \<and> job_url j = v" if v: "v \<in> A" "deriveJobId sha v \<in> known (fst s)" for v
  proof -
    obtain x where x: "x \<in> work_jobs waiting es s" "bj_jobId x = deriveJobId sha v"
      using inv v(2) unfolding work_cover_inv_def by (metis imageE)
    then obtain e where "e \<in> set (settled_events es)" "is_end e" "x = event_job e" using over(1) by (auto simp: work_jobs_def)
    then have "JobDone x \<in> set (settled_events es)" using over(2) by - (cases e; simp)
    moreover have "job_formed sha A x" using inv x(1) by (simp add: work_cover_inv_def)
    ultimately show ?thesis using ids x(2) v(1) by (auto simp: job_formed_def dest: inj_onD)
  qed
  have jobs: "known w0 = bj_jobId ` crawl_jobs waiting [] w0" "known (fst s) = bj_jobId ` work_jobs waiting es s"
      "links_inv known sha site (pl_maxDepth config) es s"
    using start(1) inv by (simp_all add: cover_inv_def work_cover_inv_def)
  have known: "known w0 \<subseteq> known (fst s)" unfolding jobs(1,2) using grown by (rule image_mono)
  show ?thesis
    using path
  proof induction
    case (PathSeed u)
    then show ?case using crawled [of u] seeds start(2) known by blast
  next
    case (PathLink k v ls u)
    then obtain j where j: "JobDone j \<in> set (settled_events es)" "job_url j = v" by blast
    have "deriveJobId sha ` page_links site v \<subseteq> known (fst s)"
      using jobs(3) j uncut unfolding links_inv_def by blast
    moreover have "u \<in> page_links site v" using PathLink.hyps by (simp add: page_links_def)
    moreover have "u \<in> A" using page_links_within [OF within] calculation(2) by blast
    ultimately show ?case using crawled by blast
  qed
qed



text \<open>
  Without the last condition pages within the limit are lost, as soon as two jobs are active at a time: the crawl
  of \<open>chain_work_run\<close> takes its jobs by priority, ends with nothing failed, and never crawls \<open>/e\<close>, two links
  from the seed \<open>/t\<close> with a limit of 2. With one worker at a time, priority is enough (\<open>CrawlCoverage\<close>).
\<close>

lemma concurrency_loses_pages:
  "chain_run_two (chain_start, {#}) chain_work_events (chain_end, {#})
   \<and> unfinished mem_waiting (chain_end, {#}) = {#} \<and> (\<forall>j. JobFailed j \<notin> set (settled_events chain_work_events))
   \<and> link_path chain_site {page_url ''/s'', page_url ''/t''} 2 (page_url ''/e'') \<and> 2 \<le> pl_maxDepth chain_config
   \<and> \<not> (\<exists>j. JobDone j \<in> set (settled_events chain_work_events) \<and> job_url j = page_url ''/e'' \<and> job_depth j \<le> 2)"
proof (intro conjI)
  show "unfinished mem_waiting (chain_end, {#}) = {#}" by (simp add: unfinished_def active_queue_def chain_world_waiting)
  show "\<not> (\<exists>j. JobDone j \<in> set (settled_events chain_work_events) \<and> job_url j = page_url ''/e'' \<and> job_depth j \<le> 2)"
    by (auto simp: chain_work_settled chain_job_def mem_job_def toBullMQJob_def job_spec_def page_url_def)
qed (use chain_work_run order_loses_pages in \<open>simp_all add: chain_work_settled\<close>)



end
