(* ===== verification/DatabaseSchema.thy ===== *)
theory DatabaseSchema
  imports UrlStore
begin

text \<open>
  The tables: the drizzle schema the repository inserts by, the SQL of the test helper, and the migration
  that \<open>pnpm db:migrate:deploy\<close> applies (prisma/migrations/20260330000000_initial/migration.sql). What
  PostgreSQL does with an insert is modelled column by column: a column without a value takes its default,
  \<open>NULL\<close> if it has none, and a \<open>NULL\<close> in a \<open>NOT NULL\<close> column is refused.
\<close>

section \<open>Columns and rows\<close>

datatype sql_value = SqlNull | SqlInt int | SqlText string | SqlTime int | SqlJson json_object

datatype column_default = NoDefault | IdentityAlways | SequenceNext | DefaultInt int | DefaultText string | DefaultJson json_object | DefaultNow

record column =
  cl_name :: string
  cl_type :: string
  cl_notNull :: bool
  cl_default :: column_default

record table_def =
  tb_name :: string
  tb_columns :: "column list"
  tb_primary :: "string list"
  tb_unique :: "(string \<times> string) list"
  tb_index :: "(string \<times> string) list"
  tb_references :: "(string \<times> string \<times> string) list"

abbreviation column_def :: "string \<Rightarrow> string \<Rightarrow> bool \<Rightarrow> column_default \<Rightarrow> column" where
  "column_def n t nn d \<equiv> \<lparr>cl_name = n, cl_type = t, cl_notNull = nn, cl_default = d\<rparr>"

section \<open>schema/crawl-urls.ts, crawl-links.ts, crawl-sessions.ts\<close>

definition crawlUrls :: table_def where
  "crawlUrls = \<lparr>tb_name = ''crawl_urls'', tb_columns =
     [column_def ''id'' ''BIGINT'' True IdentityAlways, column_def ''url'' ''TEXT'' True NoDefault,
      column_def ''url_hash'' ''TEXT'' True NoDefault, column_def ''domain'' ''TEXT'' True NoDefault,
      column_def ''status'' ''TEXT'' True (DefaultText ''pending''), column_def ''status_code'' ''INTEGER'' False NoDefault,
      column_def ''content_type'' ''TEXT'' False NoDefault, column_def ''s3_key'' ''TEXT'' False NoDefault,
      column_def ''depth'' ''INTEGER'' True (DefaultInt 0), column_def ''discovered_at'' ''TIMESTAMPTZ'' True DefaultNow,
      column_def ''fetched_at'' ''TIMESTAMPTZ'' False NoDefault, column_def ''parent_url_id'' ''BIGINT'' False NoDefault,
      column_def ''metadata'' ''JSONB'' True (DefaultJson []), column_def ''created_at'' ''TIMESTAMPTZ'' True DefaultNow,
      column_def ''updated_at'' ''TIMESTAMPTZ'' True DefaultNow],
     tb_primary = [''id''], tb_unique = [(''idx_crawl_urls_hash'', ''url_hash'')],
     tb_index = [(''idx_crawl_urls_domain'', ''domain''), (''idx_crawl_urls_status'', ''status'')], tb_references = []\<rparr>"

definition crawlLinks :: table_def where
  "crawlLinks = \<lparr>tb_name = ''crawl_links'', tb_columns =
     [column_def ''source_url_id'' ''BIGINT'' True NoDefault, column_def ''target_url_id'' ''BIGINT'' True NoDefault,
      column_def ''anchor_text'' ''TEXT'' False NoDefault, column_def ''created_at'' ''TIMESTAMPTZ'' True DefaultNow],
     tb_primary = [''source_url_id'', ''target_url_id''], tb_unique = [], tb_index = [],
     tb_references = [(''source_url_id'', ''crawl_urls'', ''id''), (''target_url_id'', ''crawl_urls'', ''id'')]\<rparr>"

definition crawlSessions :: table_def where
  "crawlSessions = \<lparr>tb_name = ''crawl_sessions'', tb_columns =
     [column_def ''id'' ''BIGINT'' True IdentityAlways, column_def ''name'' ''TEXT'' True NoDefault,
      column_def ''config'' ''JSONB'' True (DefaultJson []), column_def ''status'' ''TEXT'' True (DefaultText ''active''),
      column_def ''started_at'' ''TIMESTAMPTZ'' True DefaultNow, column_def ''ended_at'' ''TIMESTAMPTZ'' False NoDefault],
     tb_primary = [''id''], tb_unique = [], tb_index = [], tb_references = []\<rparr>"

section \<open>test-helpers.ts\<close>

definition CREATE_TABLE_SQL :: table_def where
  "CREATE_TABLE_SQL = \<lparr>tb_name = ''crawl_urls'', tb_columns =
     [column_def ''id'' ''BIGINT'' True IdentityAlways, column_def ''url'' ''TEXT'' True NoDefault,
      column_def ''url_hash'' ''TEXT'' True NoDefault, column_def ''domain'' ''TEXT'' True NoDefault,
      column_def ''status'' ''TEXT'' True (DefaultText ''pending''), column_def ''status_code'' ''INTEGER'' False NoDefault,
      column_def ''content_type'' ''TEXT'' False NoDefault, column_def ''s3_key'' ''TEXT'' False NoDefault,
      column_def ''depth'' ''INTEGER'' True (DefaultInt 0), column_def ''discovered_at'' ''TIMESTAMPTZ'' True DefaultNow,
      column_def ''fetched_at'' ''TIMESTAMPTZ'' False NoDefault, column_def ''parent_url_id'' ''BIGINT'' False NoDefault,
      column_def ''metadata'' ''JSONB'' True (DefaultJson []), column_def ''created_at'' ''TIMESTAMPTZ'' True DefaultNow,
      column_def ''updated_at'' ''TIMESTAMPTZ'' True DefaultNow],
     tb_primary = [''id''], tb_unique = [(''idx_crawl_urls_hash'', ''url_hash'')],
     tb_index = [(''idx_crawl_urls_domain'', ''domain''), (''idx_crawl_urls_status'', ''status'')], tb_references = []\<rparr>"

section \<open>The migration\<close>

definition migrated_crawl_urls :: table_def where
  "migrated_crawl_urls = \<lparr>tb_name = ''crawl_urls'', tb_columns =
     [column_def ''id'' ''BIGINT'' True SequenceNext, column_def ''url'' ''TEXT'' True NoDefault,
      column_def ''url_hash'' ''TEXT'' True NoDefault, column_def ''domain'' ''TEXT'' True NoDefault,
      column_def ''status'' ''TEXT'' True (DefaultText ''pending''), column_def ''status_code'' ''INTEGER'' False NoDefault,
      column_def ''content_type'' ''TEXT'' False NoDefault, column_def ''s3_key'' ''TEXT'' False NoDefault,
      column_def ''depth'' ''INTEGER'' True (DefaultInt 0), column_def ''discovered_at'' ''TIMESTAMPTZ'' True DefaultNow,
      column_def ''fetched_at'' ''TIMESTAMPTZ'' False NoDefault, column_def ''parent_url_id'' ''BIGINT'' False NoDefault,
      column_def ''metadata'' ''JSONB'' True (DefaultJson []), column_def ''created_at'' ''TIMESTAMPTZ'' True DefaultNow,
      column_def ''updated_at'' ''TIMESTAMPTZ'' True NoDefault],
     tb_primary = [''id''], tb_unique = [(''crawl_urls_url_hash_key'', ''url_hash'')],
     tb_index = [(''crawl_urls_domain_idx'', ''domain''), (''crawl_urls_status_idx'', ''status'')],
     tb_references = [(''parent_url_id'', ''crawl_urls'', ''id'')]\<rparr>"

definition migrated_crawl_links :: table_def where
  "migrated_crawl_links = \<lparr>tb_name = ''crawl_links'', tb_columns =
     [column_def ''source_url_id'' ''BIGINT'' True NoDefault, column_def ''target_url_id'' ''BIGINT'' True NoDefault,
      column_def ''anchor_text'' ''TEXT'' False NoDefault, column_def ''created_at'' ''TIMESTAMPTZ'' True DefaultNow],
     tb_primary = [''source_url_id'', ''target_url_id''], tb_unique = [], tb_index = [],
     tb_references = [(''source_url_id'', ''crawl_urls'', ''id''), (''target_url_id'', ''crawl_urls'', ''id'')]\<rparr>"

definition migrated_crawl_sessions :: table_def where
  "migrated_crawl_sessions = \<lparr>tb_name = ''crawl_sessions'', tb_columns =
     [column_def ''id'' ''BIGINT'' True SequenceNext, column_def ''name'' ''TEXT'' True NoDefault,
      column_def ''config'' ''JSONB'' True (DefaultJson []), column_def ''status'' ''TEXT'' True (DefaultText ''active''),
      column_def ''started_at'' ''TIMESTAMPTZ'' True DefaultNow, column_def ''ended_at'' ''TIMESTAMPTZ'' False NoDefault],
     tb_primary = [''id''], tb_unique = [], tb_index = [], tb_references = []\<rparr>"

text \<open>The columns in which two tables differ.\<close>

definition column_differences :: "table_def \<Rightarrow> table_def \<Rightarrow> (column \<times> column) list" where
  "column_differences s t = filter (\<lambda>(c, d). c \<noteq> d) (zip (tb_columns s) (tb_columns t))"

lemma test_table_is_schema: "CREATE_TABLE_SQL = crawlUrls"
  by (simp add: CREATE_TABLE_SQL_def crawlUrls_def)

lemma migration_differs:
  "column_differences crawlUrls migrated_crawl_urls =
     [(column_def ''id'' ''BIGINT'' True IdentityAlways, column_def ''id'' ''BIGINT'' True SequenceNext),
      (column_def ''updated_at'' ''TIMESTAMPTZ'' True DefaultNow, column_def ''updated_at'' ''TIMESTAMPTZ'' True NoDefault)]"
  "column_differences crawlSessions migrated_crawl_sessions =
     [(column_def ''id'' ''BIGINT'' True IdentityAlways, column_def ''id'' ''BIGINT'' True SequenceNext)]"
  "migrated_crawl_links = crawlLinks"
  by (simp_all add: column_differences_def crawlUrls_def migrated_crawl_urls_def crawlSessions_def migrated_crawl_sessions_def
      crawlLinks_def migrated_crawl_links_def)

section \<open>Inserts\<close>

text \<open>The parameters of \<open>save\<close> and \<open>saveBatch\<close>; drizzle writes \<open>default\<close> for the other columns of the schema.\<close>

definition insert_params :: "NewCrawlURL \<Rightarrow> (string \<times> sql_value) list" where
  "insert_params v =
     [(''url'', SqlText (nu_url v)), (''url_hash'', SqlText (nu_urlHash v)), (''domain'', SqlText (nu_domain v)),
      (''depth'', SqlInt (nu_depth v)), (''parent_url_id'', case nu_parentUrlId v of None \<Rightarrow> SqlNull | Some p \<Rightarrow> SqlInt p),
      (''metadata'', case nu_metadata v of None \<Rightarrow> SqlNull | Some m \<Rightarrow> SqlJson m)]"

fun default_value :: "int \<Rightarrow> int \<Rightarrow> column_default \<Rightarrow> sql_value" where
  "default_value seq now NoDefault = SqlNull"
| "default_value seq now IdentityAlways = SqlInt seq"
| "default_value seq now SequenceNext = SqlInt seq"
| "default_value seq now (DefaultInt n) = SqlInt n"
| "default_value seq now (DefaultText s) = SqlText s"
| "default_value seq now (DefaultJson m) = SqlJson m"
| "default_value seq now DefaultNow = SqlTime now"

definition column_value :: "int \<Rightarrow> int \<Rightarrow> (string \<times> sql_value) list \<Rightarrow> column \<Rightarrow> sql_value" where
  "column_value seq now params c =
     (case map_of params (cl_name c) of None \<Rightarrow> default_value seq now (cl_default c) | Some v \<Rightarrow> v)"

definition insert_row :: "int \<Rightarrow> int \<Rightarrow> (string \<times> sql_value) list \<Rightarrow> table_def \<Rightarrow> (string, (string \<times> sql_value) list) result" where
  "insert_row seq now params tbl =
     (case find (\<lambda>c. cl_notNull c \<and> column_value seq now params c = SqlNull) (tb_columns tbl) of
        Some c \<Rightarrow> Err (cl_name c)
      | None \<Rightarrow> Ok (map (\<lambda>c. (cl_name c, column_value seq now params c)) (tb_columns tbl)))"

text \<open>The row as drizzle returns it.\<close>

fun int_of_sql :: "sql_value \<Rightarrow> int option" where
  "int_of_sql (SqlInt n) = Some n"
| "int_of_sql (SqlTime n) = Some n"
| "int_of_sql _ = None"

fun text_of_sql :: "sql_value \<Rightarrow> string option" where
  "text_of_sql (SqlText s) = Some s"
| "text_of_sql _ = None"

fun json_of_sql :: "sql_value \<Rightarrow> json_object option" where
  "json_of_sql (SqlJson m) = Some m"
| "json_of_sql _ = None"

definition returned_row :: "(string \<times> sql_value) list \<Rightarrow> CrawlURL" where
  "returned_row row =
     (let col = (\<lambda>n. case map_of row n of None \<Rightarrow> SqlNull | Some v \<Rightarrow> v);
          text_at = (\<lambda>n. case text_of_sql (col n) of None \<Rightarrow> [] | Some s \<Rightarrow> s);
          int_at = (\<lambda>n. case int_of_sql (col n) of None \<Rightarrow> 0 | Some i \<Rightarrow> i)
      in \<lparr>ur_id = int_at ''id'', ur_url = text_at ''url'', ur_urlHash = text_at ''url_hash'', ur_domain = text_at ''domain'',
          ur_status = text_at ''status'', ur_statusCode = int_of_sql (col ''status_code''), ur_contentType = text_of_sql (col ''content_type''),
          ur_s3Key = text_of_sql (col ''s3_key''), ur_depth = int_at ''depth'', ur_discoveredAt = int_at ''discovered_at'',
          ur_fetchedAt = int_of_sql (col ''fetched_at''), ur_parentUrlId = int_of_sql (col ''parent_url_id''),
          ur_metadata = json_of_sql (col ''metadata'')\<rparr>)"

lemma insert_into_schema:
  "nu_metadata v \<noteq> None \<Longrightarrow> \<exists>row. insert_row seq now (insert_params v) crawlUrls = Ok row \<and> returned_row row = crawlUrls_row seq now v"
  by (auto simp: insert_row_def crawlUrls_def column_value_def insert_params_def returned_row_def crawlUrls_row_def Let_def
      split: option.splits)

lemma insert_into_migrated:
  "nu_metadata v \<noteq> None \<Longrightarrow> insert_row seq now (insert_params v) migrated_crawl_urls = Err ''updated_at''"
  by (auto simp: insert_row_def migrated_crawl_urls_def column_value_def insert_params_def)

section \<open>The repository on a table\<close>

text \<open>
  A database whose statements insert by the columns of a table: a row that is refused fails the whole statement,
  with the error of a violated \<open>NOT NULL\<close>, and changes nothing. A row that is accepted may still be refused by an index.
\<close>

definition not_null_violation :: "string \<Rightarrow> string \<Rightarrow> thrown" where
  "not_null_violation tbl col = ThrownError ((new_Error (''null value in column '' @ col @ '' of relation '' @ tbl @ '' violates not-null constraint''))
     \<lparr>err_code := Some ''23502''\<rparr>)"

definition inserts_into :: "table_def \<Rightarrow> 'w sql_db \<Rightarrow> bool" where
  "inserts_into tbl db \<longleftrightarrow>
     (\<forall>v w. \<exists>seq now. case insert_row seq now (insert_params v) tbl of
        Err col \<Rightarrow> sq_insert db v w = (Throw (not_null_violation (tb_name tbl) col), w)
      | Ok row \<Rightarrow> (\<exists>w'. sq_insert db v w = (Return [returned_row row], w')) \<or> (\<exists>t. sq_insert db v w = (Throw t, w)))
   \<and> (\<forall>vs w. \<exists>seq now. case find (\<lambda>v. \<not> isOk (insert_row seq now (insert_params v) tbl)) vs of
        Some v \<Rightarrow> (\<exists>col. insert_row seq now (insert_params v) tbl = Err col
          \<and> sq_insert_new db vs w = (Throw (not_null_violation (tb_name tbl) col), w))
      | None \<Rightarrow> True)"

lemma insert_values_some: "nu_metadata (insert_values u) \<noteq> None"
  by (simp add: insert_values_def split: option.split)

text \<open>On the schema, and so on the table of the tests, a save is what \<open>crawlUrls_row\<close> says.\<close>

lemma schema_save:
  assumes "inserts_into crawlUrls db" and "repo_save db u w = (Ok x, w')"
  shows "\<exists>seq now. x = crawlUrls_row seq now (insert_values u)"
proof -
  obtain seq now where i: "case insert_row seq now (insert_params (insert_values u)) crawlUrls of
        Err col \<Rightarrow> sq_insert db (insert_values u) w = (Throw (not_null_violation (tb_name crawlUrls) col), w)
      | Ok row \<Rightarrow> (\<exists>w'. sq_insert db (insert_values u) w = (Return [returned_row row], w')) \<or> (\<exists>t. sq_insert db (insert_values u) w = (Throw t, w))"
    using assms(1) unfolding inserts_into_def by blast
  obtain row where row: "insert_row seq now (insert_params (insert_values u)) crawlUrls = Ok row"
      "returned_row row = crawlUrls_row seq now (insert_values u)"
    using insert_into_schema [OF insert_values_some] by blast
  have "toDomain (crawlUrls_row seq now (insert_values u)) = crawlUrls_row seq now (insert_values u)"
    by (simp add: toDomain_def crawlUrls_row_def insert_values_def split: option.split)
  then have "x = crawlUrls_row seq now (insert_values u)"
    using assms(2) i row by (auto simp: repo_save_def split: if_splits)
  then show ?thesis by blast
qed


text \<open>A database that refuses every insert as the migrated table does.\<close>

definition migrated_db :: "unit sql_db" where
  "migrated_db =
     \<lparr>sq_select_id = (\<lambda>i w. (Return [], w)), sq_select_hash = (\<lambda>h w. (Return [], w)),
      sq_insert = (\<lambda>v w. (case insert_row 1 0 (insert_params v) migrated_crawl_urls of
          Err col \<Rightarrow> (Throw (not_null_violation ''crawl_urls'' col), w) | Ok row \<Rightarrow> (Return [returned_row row], w))),
      sq_insert_new = (\<lambda>vs w. (case find (\<lambda>v. \<not> isOk (insert_row 1 0 (insert_params v) migrated_crawl_urls)) vs of
          Some v \<Rightarrow> (case insert_row 1 0 (insert_params v) migrated_crawl_urls of
              Err col \<Rightarrow> (Throw (not_null_violation ''crawl_urls'' col), w) | Ok row \<Rightarrow> (Return [], w))
        | None \<Rightarrow> (Return [], w))),
      sq_select_pending = (\<lambda>d n w. (Return [], w)), sq_update = (\<lambda>i d w. (Return (), w))\<rparr>"

lemma migrated_db_inserts: "inserts_into migrated_crawl_urls migrated_db"
proof -
  have name: "tb_name migrated_crawl_urls = ''crawl_urls''" by (simp add: migrated_crawl_urls_def)
  have "\<exists>col. insert_row 1 0 (insert_params v) migrated_crawl_urls = Err col \<and> sq_insert_new migrated_db vs w = (Throw (not_null_violation ''crawl_urls'' col), w)"
    if "find (\<lambda>v. \<not> isOk (insert_row 1 0 (insert_params v) migrated_crawl_urls)) vs = Some v" for vs v w
  proof -
    have "\<not> isOk (insert_row 1 0 (insert_params v) migrated_crawl_urls)" using that by (auto simp: find_Some_iff)
    then obtain col where "insert_row 1 0 (insert_params v) migrated_crawl_urls = Err col" by (cases "insert_row 1 0 (insert_params v) migrated_crawl_urls") (auto simp: isOk_iff)
    then show ?thesis using that by (simp add: migrated_db_def)
  qed
  then have batch: "\<exists>seq now. case find (\<lambda>v. \<not> isOk (insert_row seq now (insert_params v) migrated_crawl_urls)) vs of
        Some v \<Rightarrow> (\<exists>col. insert_row seq now (insert_params v) migrated_crawl_urls = Err col
          \<and> sq_insert_new migrated_db vs w = (Throw (not_null_violation ''crawl_urls'' col), w))
      | None \<Rightarrow> True" for vs w
    by (intro exI [of _ 1] exI [of _ 0]) (auto split: option.splits)
  have "\<exists>seq now. case insert_row seq now (insert_params v) migrated_crawl_urls of
        Err col \<Rightarrow> sq_insert migrated_db v w = (Throw (not_null_violation ''crawl_urls'' col), w)
      | Ok row \<Rightarrow> (\<exists>w'. sq_insert migrated_db v w = (Return [returned_row row], w')) \<or> (\<exists>t. sq_insert migrated_db v w = (Throw t, w))" for v w
    by (intro exI [of _ 1] exI [of _ 0]) (auto simp: migrated_db_def split: sum.splits)
  then show ?thesis using batch by (simp only: inserts_into_def name) blast
qed


text \<open>
  drizzle-orm 0.45, the version of the lock file, throws a query error of its own whose \<open>cause\<close> is the error of
  PostgreSQL; it has no \<open>code\<close>, so a duplicate is not recognised.
\<close>

lemma wrapped_duplicate_not_recognised:
  assumes "sq_insert db (insert_values u) w = (Throw (ThrownError e), w')" and "err_code e = None"
  shows "repo_save db u w = (Err (createQueryFailed ''save'' (ThrownError e)), w')"
  using assms by (simp add: repo_save_def isDuplicateKeyError_def)

end
