(* ===== verification/LintConfig.thy ===== *)
theory LintConfig
  imports Startup
begin

text \<open>
  packages/eslint-config: the rule that wants \<open>./otel\<close> as the first import of a service, and the shared flat
  config. The globs are matched by ESLint, a parameter; so are the entries of the preset the config starts from. A
  flat config is read from the first entry to the last: an entry that gives a rule options replaces them.
\<close>

section \<open>otel-first-import.js\<close>

text \<open>The statements of a program, in order: imports, exports from another module, and others.\<close>

datatype module_stmt = ImportDeclaration string | ExportFrom string | OtherStatement

datatype lint_report = MissingOtelImport | NotFirstImport string

fun visit_imports :: "module_stmt list \<Rightarrow> string list" where
  "visit_imports [] = []"
| "visit_imports (ImportDeclaration source # body) = source # visit_imports body"
| "visit_imports (_ # body) = visit_imports body"

definition otelFirstImport :: "module_stmt list \<Rightarrow> lint_report list" where
  "otelFirstImport body =
     (let imports = visit_imports body
      in if imports = [] then [MissingOtelImport]
         else if hd imports \<noteq> ''./otel'' then [NotFirstImport (hd imports)] else [])"

text \<open>The modules a program requests, in the order the language evaluates them.\<close>

fun module_requests :: "module_stmt list \<Rightarrow> string list" where
  "module_requests [] = []"
| "module_requests (ImportDeclaration source # body) = source # module_requests body"
| "module_requests (ExportFrom source # body) = source # module_requests body"
| "module_requests (OtherStatement # body) = module_requests body"

lemma otelFirstImport_accepts: "otelFirstImport body = [] \<longleftrightarrow> (\<exists>rest. visit_imports body = ''./otel'' # rest)"
  by (cases "visit_imports body") (auto simp: otelFirstImport_def)

lemma requests_without_exports: "(\<And>source. ExportFrom source \<notin> set body) \<Longrightarrow> module_requests body = visit_imports body"
  by (induction body rule: visit_imports.induct) auto

text \<open>
  A program the rule accepts requests \<open>./otel\<close> before any other module, provided that it does not re-export one:
  the rule does not see an export from a module, which is evaluated in its place like an import.
\<close>

lemma accepted_requests_otel_first:
  "otelFirstImport body = [] \<Longrightarrow> (\<And>source. ExportFrom source \<notin> set body) \<Longrightarrow> \<exists>rest. module_requests body = ''./otel'' # rest"
  by (simp add: otelFirstImport_accepts requests_without_exports)

lemma export_before_otel:
  "otelFirstImport [ExportFrom ''./server.js'', ImportDeclaration ''./otel''] = []
   \<and> hd (module_requests [ExportFrom ''./server.js'', ImportDeclaration ''./otel'']) = ''./server.js''"
  by (simp add: otelFirstImport_def)

text \<open>apps/api-gateway/src/main.ts: one import.\<close>

lemma gateway_main_reported: "otelFirstImport [ImportDeclaration ''./server.js'', OtherStatement] = [NotFirstImport ''./server.js'']"
  by (simp add: otelFirstImport_def)

section \<open>Flat configs\<close>

datatype severity = SeverityOff | SeverityWarn | SeverityError

record lint_zone =
  zn_target :: string
  zn_from :: string
  zn_message :: string

text \<open>The options of a rule: none but the severity, an object, the zones of restricted paths, or the selectors of restricted syntax.\<close>

datatype rule_options = Bare | Settings "(string \<times> js_value) list" | Zones "lint_zone list" | Selectors "(string \<times> string) list"

record lint_config =
  lc_files :: "string list option"
  lc_ignores :: "string list"
  lc_rules :: "(string \<times> severity \<times> rule_options) list"

datatype config_entry = GlobalIgnores "string list" | Config lint_config

type_synonym glob_match = "string \<Rightarrow> string \<Rightarrow> bool"

definition matches_any :: "glob_match \<Rightarrow> string list \<Rightarrow> string \<Rightarrow> bool" where
  "matches_any matches globs file = list_ex (\<lambda>g. matches g file) globs"

definition applies :: "glob_match \<Rightarrow> lint_config \<Rightarrow> string \<Rightarrow> bool" where
  "applies matches c file =
     ((case lc_files c of None \<Rightarrow> True | Some globs \<Rightarrow> matches_any matches globs file)
      \<and> \<not> matches_any matches (lc_ignores c) file)"

text \<open>An entry with a severity alone keeps the options an earlier one gave.\<close>

definition merge_rule :: "(severity \<times> rule_options) option \<Rightarrow> (severity \<times> rule_options) option \<Rightarrow> (severity \<times> rule_options) option" where
  "merge_rule old new = (case new of
     None \<Rightarrow> old
   | Some (sev, opts) \<Rightarrow> Some (sev, if opts = Bare then (case old of Some (_, prev) \<Rightarrow> prev | None \<Rightarrow> Bare) else opts))"

fun effective_rule ::
  "glob_match \<Rightarrow> string \<Rightarrow> string \<Rightarrow> (severity \<times> rule_options) option \<Rightarrow> config_entry list \<Rightarrow> (severity \<times> rule_options) option" where
  "effective_rule matches file rule acc [] = acc"
| "effective_rule matches file rule acc (GlobalIgnores _ # cs) = effective_rule matches file rule acc cs"
| "effective_rule matches file rule acc (Config c # cs) =
     effective_rule matches file rule (if applies matches c file then merge_rule acc (map_of (lc_rules c) rule) else acc) cs"

definition linted :: "glob_match \<Rightarrow> config_entry list \<Rightarrow> string \<Rightarrow> bool" where
  "linted matches cs file = list_all (\<lambda>c. case c of GlobalIgnores gs \<Rightarrow> \<not> matches_any matches gs file | Config _ \<Rightarrow> True) cs"

section \<open>eslint.config.js\<close>

definition test_zone :: lint_zone where
  "test_zone = \<lparr>zn_target = ''./**/!(*.test).ts'', zn_from = ''./**/*.test.ts'',
     zn_message = ''Production code must not import test files (REQ-ARCH-008).''\<rparr>"

definition base_config :: lint_config where
  "base_config = \<lparr>lc_files = None, lc_ignores = [], lc_rules =
     [(''@typescript-eslint/no-explicit-any'', SeverityError, Bare),
      (''@typescript-eslint/explicit-function-return-type'', SeverityError,
         Settings [(''allowExpressions'', JsBool True), (''allowTypedFunctionExpressions'', JsBool True)]),
      (''@typescript-eslint/no-unused-vars'', SeverityError,
         Settings [(''argsIgnorePattern'', JsString ''^_''), (''varsIgnorePattern'', JsString ''^_'')]),
      (''@typescript-eslint/no-non-null-assertion'', SeverityWarn, Bare),
      (''@typescript-eslint/consistent-type-imports'', SeverityError, Settings [(''prefer'', JsString ''type-imports'')]),
      (''import-x/no-cycle'', SeverityError, Bare),
      (''import-x/no-restricted-paths'', SeverityError, Zones [test_zone])]\<rparr>"

definition core_zones :: "lint_zone list" where
  "core_zones =
     [\<lparr>zn_target = ''./**/domain/**/*.ts'', zn_from = ''./**/infra/**'', zn_message = ''Core/Domain must not import Infrastructure (REQ-ARCH-003).''\<rparr>,
      \<lparr>zn_target = ''./**/domain/**/*.ts'', zn_from = ''./**/infrastructure/**'', zn_message = ''Core/Domain must not import Infrastructure (REQ-ARCH-003).''\<rparr>,
      \<lparr>zn_target = ''./**/domain/**/*.ts'', zn_from = ''./**/application/**'', zn_message = ''Core/Domain must not import Application (REQ-ARCH-003).''\<rparr>,
      \<lparr>zn_target = ''./**/errors/**/*.ts'', zn_from = ''./**/infra/**'', zn_message = ''Core/Errors must not import Infrastructure (REQ-ARCH-003).''\<rparr>,
      \<lparr>zn_target = ''./**/errors/**/*.ts'', zn_from = ''./**/infrastructure/**'', zn_message = ''Core/Errors must not import Infrastructure (REQ-ARCH-003).''\<rparr>,
      \<lparr>zn_target = ''./**/errors/**/*.ts'', zn_from = ''./**/application/**'', zn_message = ''Core/Errors must not import Application (REQ-ARCH-003).''\<rparr>]"

definition core_config :: lint_config where
  "core_config = \<lparr>lc_files = Some [''**/domain/**/*.ts'', ''**/errors/**/*.ts'', ''**/types/**/*.ts''], lc_ignores = [''**/*.test.ts''],
     lc_rules = [(''import-x/no-restricted-paths'', SeverityError, Zones core_zones)]\<rparr>"

definition infra_zones :: "lint_zone list" where
  "infra_zones =
     [\<lparr>zn_target = ''./**/infra/**/*.ts'', zn_from = ''./**/application/**'', zn_message = ''Infrastructure must not import Application (REQ-ARCH-004).''\<rparr>,
      \<lparr>zn_target = ''./**/infrastructure/**/*.ts'', zn_from = ''./**/application/**'', zn_message = ''Infrastructure must not import Application (REQ-ARCH-004).''\<rparr>]"

definition infra_config :: lint_config where
  "infra_config = \<lparr>lc_files = Some [''**/infra/**/*.ts'', ''**/infrastructure/**/*.ts''], lc_ignores = [''**/*.test.ts''],
     lc_rules = [(''import-x/no-restricted-paths'', SeverityError, Zones infra_zones)]\<rparr>"

definition test_config :: lint_config where
  "test_config = \<lparr>lc_files = Some [''**/*.test.ts''], lc_ignores = [],
     lc_rules = [(''@typescript-eslint/unbound-method'', SeverityOff, Bare)]\<rparr>"

text \<open>The messages have a long dash, in UTF-8.\<close>

definition contract_message :: "string \<Rightarrow> string" where
  "contract_message what = ''Contracts layer must contain only types/interfaces '' @ [CHR 0xE2, CHR 0x80, CHR 0x94] @ '' no '' @ what @ '' (REQ-ARCH-002).''"

definition contract_selectors :: "(string \<times> string) list" where
  "contract_selectors =
     [(''ClassDeclaration'', contract_message ''class declarations''),
      (''FunctionDeclaration'', contract_message ''function declarations''),
      (''VariableDeclaration[kind='' @ [CHR 0x22] @ ''let'' @ [CHR 0x22] @ '']'', contract_message ''let declarations''),
      (''VariableDeclaration[kind='' @ [CHR 0x22] @ ''var'' @ [CHR 0x22] @ '']'', contract_message ''var declarations''),
      (''VariableDeclarator > CallExpression'', contract_message ''runtime function calls''),
      (''VariableDeclarator > NewExpression'', contract_message ''runtime instantiation'')]"

definition contracts_config :: lint_config where
  "contracts_config = \<lparr>lc_files = Some [''**/contracts/**/*.ts''], lc_ignores = [''**/*.test.ts''],
     lc_rules = [(''no-restricted-syntax'', SeverityError, Selectors contract_selectors)]\<rparr>"

definition otel_config :: lint_config where
  "otel_config = \<lparr>lc_files = Some [''apps/*/src/main.ts''], lc_ignores = [],
     lc_rules = [(''@ipf/otel-first-import'', SeverityError, Bare)]\<rparr>"

text \<open>The whole config, around the entries of \<open>strictTypeChecked\<close>.\<close>

definition eslint_config :: "config_entry list \<Rightarrow> config_entry list" where
  "eslint_config strictTypeChecked =
     GlobalIgnores [''**/dist/**'', ''**/node_modules/**'', ''**/*.js'', ''**/*.mjs''] # strictTypeChecked
       @ map Config [base_config, core_config, infra_config, test_config, contracts_config, otel_config]"

lemmas lint_configs = base_config_def core_config_def infra_config_def test_config_def contracts_config_def otel_config_def

section \<open>What is enforced\<close>

lemma effective_rule_append:
  "effective_rule matches file rule acc (cs @ ds) = effective_rule matches file rule (effective_rule matches file rule acc cs) ds"
proof (induction cs arbitrary: acc)
  case (Cons c cs)
  then show ?case by (cases c) simp_all
qed simp

text \<open>The rule of an entry that no entry before it in the preset or after it names.\<close>

definition rule_of :: "glob_match \<Rightarrow> config_entry list \<Rightarrow> string \<Rightarrow> string \<Rightarrow> (severity \<times> rule_options) option" where
  "rule_of matches strictTypeChecked file rule = effective_rule matches file rule None (eslint_config strictTypeChecked)"

definition preset_silent :: "config_entry list \<Rightarrow> string \<Rightarrow> bool" where
  "preset_silent cs rule = list_all (\<lambda>c. case c of GlobalIgnores _ \<Rightarrow> True | Config c \<Rightarrow> map_of (lc_rules c) rule = None) cs"

lemma preset_silent_effective: "preset_silent cs rule \<Longrightarrow> effective_rule matches file rule acc cs = acc"
proof (induction cs arbitrary: acc)
  case (Cons c cs)
  then show ?case by (cases c) (simp_all add: preset_silent_def merge_rule_def)
qed simp

definition is_test :: "glob_match \<Rightarrow> string \<Rightarrow> bool" where
  "is_test matches file = matches ''**/*.test.ts'' file"

definition in_core :: "glob_match \<Rightarrow> string \<Rightarrow> bool" where
  "in_core matches file = matches_any matches [''**/domain/**/*.ts'', ''**/errors/**/*.ts'', ''**/types/**/*.ts''] file"

definition in_infra :: "glob_match \<Rightarrow> string \<Rightarrow> bool" where
  "in_infra matches file = matches_any matches [''**/infra/**/*.ts'', ''**/infrastructure/**/*.ts''] file"

text \<open>Importing a path from a file breaks a zone whose target is the file and whose source is the path.\<close>

definition import_restricted :: "glob_match \<Rightarrow> config_entry list \<Rightarrow> string \<Rightarrow> string \<Rightarrow> bool" where
  "import_restricted matches strictTypeChecked file path =
     (case rule_of matches strictTypeChecked file ''import-x/no-restricted-paths'' of
        Some (sev, Zones zs) \<Rightarrow> sev \<noteq> SeverityOff \<and> list_ex (\<lambda>z. matches (zn_target z) file \<and> matches (zn_from z) path) zs
      | _ \<Rightarrow> False)"

lemma restricted_paths_entries:
  "map_of (lc_rules base_config) ''import-x/no-restricted-paths'' = Some (SeverityError, Zones [test_zone])"
  "map_of (lc_rules core_config) ''import-x/no-restricted-paths'' = Some (SeverityError, Zones core_zones)"
  "map_of (lc_rules infra_config) ''import-x/no-restricted-paths'' = Some (SeverityError, Zones infra_zones)"
  "map_of (lc_rules test_config) ''import-x/no-restricted-paths'' = None"
  "map_of (lc_rules contracts_config) ''import-x/no-restricted-paths'' = None"
  "map_of (lc_rules otel_config) ''import-x/no-restricted-paths'' = None"
  by (simp_all add: lint_configs)

lemma otel_entries:
  "map_of (lc_rules base_config) ''@ipf/otel-first-import'' = None"
  "map_of (lc_rules core_config) ''@ipf/otel-first-import'' = None"
  "map_of (lc_rules infra_config) ''@ipf/otel-first-import'' = None"
  "map_of (lc_rules test_config) ''@ipf/otel-first-import'' = None"
  "map_of (lc_rules contracts_config) ''@ipf/otel-first-import'' = None"
  by (simp_all add: lint_configs)

lemma config_applies:
  "applies matches base_config file"
  "applies matches core_config file \<longleftrightarrow> \<not> is_test matches file \<and> in_core matches file"
  "applies matches infra_config file \<longleftrightarrow> \<not> is_test matches file \<and> in_infra matches file"
  by (auto simp: applies_def base_config_def core_config_def infra_config_def is_test_def in_core_def in_infra_def matches_any_def)

lemma merge_rule_new:
  "merge_rule old None = old"
  "opts \<noteq> Bare \<Longrightarrow> merge_rule old (Some (sev, opts)) = Some (sev, opts)"
  by (simp_all add: merge_rule_def)

lemma zones_of_file:
  "rule_of matches strictTypeChecked file ''import-x/no-restricted-paths'' =
     Some (SeverityError, Zones (if \<not> is_test matches file \<and> in_infra matches file then infra_zones
       else if \<not> is_test matches file \<and> in_core matches file then core_zones else [test_zone]))"
  by (simp add: rule_of_def eslint_config_def effective_rule_append restricted_paths_entries config_applies merge_rule_new)


text \<open>A file below a directory, as seen from that directory.\<close>

definition relative_to :: "string \<Rightarrow> string \<Rightarrow> string" where
  "relative_to base_dir file = (if take (length base_dir) file = base_dir then drop (length base_dir) file else file)"

text \<open>
  ESLint takes the globs of a config relative to the directory of the config file, and every package and app has one
  of its own that only exports the shared config; \<open>pnpm lint\<close> runs \<open>eslint src/\<close> there. So no file it sees starts
  with \<open>apps/\<close>, and the rule on the entry points of the services is never applied.
\<close>

lemma otel_rule_never_applied:
  assumes "\<And>file. matches ''apps/*/src/main.ts'' file \<Longrightarrow> take 5 file = ''apps/''"
    and "preset_silent strictTypeChecked ''@ipf/otel-first-import''"
    and "take (length base_dir) file = base_dir" and "take 4 (drop (length base_dir) file) = ''src/''"
  shows "rule_of matches strictTypeChecked (relative_to base_dir file) ''@ipf/otel-first-import'' = None"
proof -
  obtain rest where rel: "relative_to base_dir file = ''src/'' @ rest"
    using assms(3,4) by (metis append_take_drop_id relative_to_def)
  then have "\<not> matches ''apps/*/src/main.ts'' (relative_to base_dir file)" using assms(1) by fastforce
  then show ?thesis
    by (simp add: rule_of_def eslint_config_def effective_rule_append preset_silent_effective [OF assms(2)])
      (simp add: otel_entries merge_rule_new applies_def otel_config_def matches_any_def)
qed

lemma otel_rule_never_applied_gateway:
  "rule_of (\<lambda>g file. g = ''apps/*/src/main.ts'' \<and> file = ''apps/api-gateway/src/main.ts'') []
     (relative_to ''apps/api-gateway/'' ''apps/api-gateway/src/main.ts'') ''@ipf/otel-first-import'' = None"
  by (rule otel_rule_never_applied) (auto simp: preset_silent_def)

text \<open>
  The layers replace the zone of the test files: a file of the core or of the infrastructure may import a test
  file, and a file below \<open>types/\<close> is in the layer, but no zone has it as a target.
\<close>

lemma layers_may_import_tests:
  assumes "\<not> is_test matches file" and "in_core matches file \<or> in_infra matches file"
    and "\<not> matches_any matches [''./**/infra/**'', ''./**/infrastructure/**'', ''./**/application/**''] path"
  shows "\<not> import_restricted matches strictTypeChecked file path"
  using assms by (auto simp: import_restricted_def zones_of_file core_zones_def infra_zones_def matches_any_def)

lemma types_unrestricted:
  assumes "\<not> is_test matches file" and "in_core matches file" and "\<not> in_infra matches file"
    and "\<not> matches ''./**/domain/**/*.ts'' file" and "\<not> matches ''./**/errors/**/*.ts'' file"
  shows "\<not> import_restricted matches strictTypeChecked file path"
  using assms by (simp add: import_restricted_def zones_of_file core_zones_def)

text \<open>A file of no layer, for contrast: it may not import a test.\<close>

lemma plain_files_keep_test_zone:
  assumes "\<not> in_core matches file" "\<not> in_infra matches file" "matches ''./**/!(*.test).ts'' file" "matches ''./**/*.test.ts'' path"
  shows "import_restricted matches strictTypeChecked file path"
  using assms by (simp add: import_restricted_def zones_of_file test_zone_def)

section \<open>The import rules as a whole\<close>

text \<open>What the shared lint config forbids a file to import, for every preset and every way of matching globs: in an infrastructure file only the zones of the infrastructure layer, else in a file of the core only those of the core, else only importing a test file into a file that is not one; the layers do not add to that last zone, they replace it.\<close>

lemma import_zones:
  "import_restricted matches strictTypeChecked file path =
     (let m = \<lambda>g. matches g path in
      if \<not> is_test matches file \<and> in_infra matches file
      then (matches ''./**/infra/**/*.ts'' file \<or> matches ''./**/infrastructure/**/*.ts'' file) \<and> m ''./**/application/**''
      else if \<not> is_test matches file \<and> in_core matches file
      then (matches ''./**/domain/**/*.ts'' file \<or> matches ''./**/errors/**/*.ts'' file)
         \<and> (m ''./**/infra/**'' \<or> m ''./**/infrastructure/**'' \<or> m ''./**/application/**'')
      else matches ''./**/!(*.test).ts'' file \<and> m ''./**/*.test.ts'')"
  by (auto simp: import_restricted_def zones_of_file core_zones_def infra_zones_def test_zone_def)

end
