(* ===== verification/TestInputs.thy ===== *)
theory TestInputs
  imports IpRange
begin

text \<open>
  The address generators of packages/testing/src/generators: the IPv4 addresses the property tests draw as reserved
  by RFC 6890, in dotted form, mapped into IPv6 and as a decimal number. A draw is a range and the octets that
  fast-check chooses. Which of them the guard blocks is decided for every draw.
\<close>

section \<open>rfc6890.generator.ts\<close>

definition RFC_6890_RANGES :: "(string \<times> string) list" where
  "RFC_6890_RANGES =
     [(''0'', ''This host on this network''), (''10'', ''Private-Use (RFC 1918)''), (''100.64'', ''Shared Address Space (CGNAT)''),
      (''127'', ''Loopback''), (''169.254'', ''Link-Local''), (''172.16'', ''Private-Use (RFC 1918)''),
      (''192.0.0'', ''IETF Protocol Assignments''), (''192.0.2'', ''Documentation (TEST-NET-1)''), (''192.168'', ''Private-Use (RFC 1918)''),
      (''198.18'', ''Benchmarking''), (''198.51.100'', ''Documentation (TEST-NET-2)''), (''203.0.113'', ''Documentation (TEST-NET-3)''),
      (''240'', ''Reserved for Future Use''), (''255.255.255.255'', ''Limited Broadcast'')]"

definition remaining_octets :: "string \<Rightarrow> nat" where
  "remaining_octets prefix = 4 - length (split_on CHR ''.'' prefix)"

definition arbIPInRange :: "string \<Rightarrow> int list \<Rightarrow> string" where
  "arbIPInRange prefix octets =
     (if remaining_octets prefix = 0 then prefix else prefix @ ''.'' @ join_with ''.'' (map string_of_int octets))"

definition arbIPv4MappedIPv6 :: "string \<Rightarrow> string" where
  "arbIPv4MappedIPv6 ip = ''::ffff:'' @ ip"

text \<open>A draw of \<open>arbReservedIPv4\<close>.\<close>

definition reserved_draw :: "string \<Rightarrow> int list \<Rightarrow> bool" where
  "reserved_draw prefix octets \<longleftrightarrow>
     prefix \<in> fst ` set RFC_6890_RANGES \<and> length octets = remaining_octets prefix \<and> list_all octet octets"

section \<open>ssrf-payload.generator.ts\<close>

text \<open>\<open>ip.split('.').map(Number)\<close>, a missing part is 0; then \<open>((p0 << 24) | (p1 << 16) | (p2 << 8) | p3) >>> 0\<close>.\<close>

definition ip_part :: "string list \<Rightarrow> nat \<Rightarrow> 32 word" where
  "ip_part parts i = (if i < length parts then to_uint32 (js_Number (parts ! i)) else 0)"

definition decimal_ip :: "string \<Rightarrow> 32 word" where
  "decimal_ip ip =
     (let parts = split_on CHR ''.'' ip
      in ((push_bit 24 (ip_part parts 0) OR push_bit 16 (ip_part parts 1)) OR push_bit 8 (ip_part parts 2)) OR ip_part parts 3)"

definition arbDecimalIP :: "string \<Rightarrow> string" where
  "arbDecimalIP ip = ''http://'' @ string_of_int (uint (decimal_ip ip)) @ ''/''"

text \<open>The number is the one the guard computes of the address.\<close>

lemma decimal_ip_number: "isIpv4 ip \<Longrightarrow> decimal_ip ip = ipv4ToNumber ip"
  by (auto simp: isIpv4_def match_ipv4_def decimal_ip_def ipv4ToNumber_def ip_part_def Let_def or.assoc
      split: list.splits if_splits)

section \<open>Verdicts\<close>

lemma octet_list: "length xs = 1 \<Longrightarrow> \<exists>a. xs = [a]" "length xs = 2 \<Longrightarrow> \<exists>a b. xs = [a, b]" "length xs = 3 \<Longrightarrow> \<exists>a b c. xs = [a, b, c]"
  by (auto simp: length_Suc_conv numeral_2_eq_2 numeral_3_eq_3)

lemma remaining:
  "remaining_octets ''0'' = 3" "remaining_octets ''10'' = 3" "remaining_octets ''100.64'' = 2" "remaining_octets ''127'' = 3"
  "remaining_octets ''169.254'' = 2" "remaining_octets ''172.16'' = 2" "remaining_octets ''192.0.0'' = 1" "remaining_octets ''192.0.2'' = 1"
  "remaining_octets ''192.168'' = 2" "remaining_octets ''198.18'' = 2" "remaining_octets ''198.51.100'' = 1"
  "remaining_octets ''203.0.113'' = 1" "remaining_octets ''240'' = 3" "remaining_octets ''255.255.255.255'' = 0"
  by code_simp+

lemma octet_texts:
  "string_of_int 0 = ''0''" "string_of_int 10 = ''10''" "string_of_int 100 = ''100''" "string_of_int 64 = ''64''" "string_of_int 127 = ''127''"
  "string_of_int 169 = ''169''" "string_of_int 254 = ''254''" "string_of_int 172 = ''172''" "string_of_int 16 = ''16''" "string_of_int 192 = ''192''"
  "string_of_int 2 = ''2''" "string_of_int 168 = ''168''" "string_of_int 198 = ''198''" "string_of_int 18 = ''18''" "string_of_int 51 = ''51''"
  "string_of_int 203 = ''203''" "string_of_int 113 = ''113''" "string_of_int 240 = ''240''" "string_of_int 255 = ''255''"
  by code_simp+

text \<open>The ranges the guard lets pass.\<close>

definition unguarded :: "string set" where
  "unguarded = {''192.0.0'', ''192.0.2'', ''198.18'', ''198.51.100'', ''203.0.113'', ''240''}"

definition drawn_as :: "string \<Rightarrow> int list \<Rightarrow> int \<Rightarrow> int \<Rightarrow> int \<Rightarrow> int \<Rightarrow> bool" where
  "drawn_as prefix octets a b c d \<longleftrightarrow> octet a \<and> octet b \<and> octet c \<and> octet d \<and> arbIPInRange prefix octets = dotted a b c d
     \<and> (ipv4_class a b c d = NotBlocked \<longleftrightarrow> prefix \<in> unguarded)"

lemma draw_three_octets:
  assumes "remaining_octets p = 3" "length octets = 3" "list_all octet octets" "string_of_int a = p" "octet a"
    and "\<And>b c d. ipv4_class a b c d = NotBlocked \<longleftrightarrow> p \<in> unguarded"
  shows "\<exists>a b c d. drawn_as p octets a b c d"
proof -
  obtain b c d where os: "octets = [b, c, d]" using octet_list(3) [OF assms(2)] by blast
  have "arbIPInRange p octets = dotted a b c d" using assms(1) by (simp add: arbIPInRange_def dotted_def os assms(4))
  then have "drawn_as p octets a b c d" using assms(3,5,6) by (simp add: drawn_as_def os del: ipv4_class.simps)
  then show ?thesis by blast
qed

lemma draw_two_octets:
  assumes "remaining_octets p = 2" "length octets = 2" "list_all octet octets" "string_of_int a @ ''.'' @ string_of_int b = p" "octet a" "octet b"
    and "\<And>c d. ipv4_class a b c d = NotBlocked \<longleftrightarrow> p \<in> unguarded"
  shows "\<exists>a b c d. drawn_as p octets a b c d"
proof -
  obtain c d where os: "octets = [c, d]" using octet_list(2) [OF assms(2)] by blast
  have "arbIPInRange p octets = dotted a b c d" using assms(1) by (simp add: arbIPInRange_def dotted_def os assms(4) [symmetric])
  then have "drawn_as p octets a b c d" using assms(3,5-7) by (simp add: drawn_as_def os del: ipv4_class.simps)
  then show ?thesis by blast
qed

lemma draw_one_octet:
  assumes "remaining_octets p = 1" "length octets = 1" "list_all octet octets"
    and "string_of_int a @ ''.'' @ string_of_int b @ ''.'' @ string_of_int c = p" "octet a" "octet b" "octet c"
    and "\<And>d. ipv4_class a b c d = NotBlocked \<longleftrightarrow> p \<in> unguarded"
  shows "\<exists>a b c d. drawn_as p octets a b c d"
proof -
  obtain d where os: "octets = [d]" using octet_list(1) [OF assms(2)] by blast
  have "arbIPInRange p octets = dotted a b c d" using assms(1) by (simp add: arbIPInRange_def dotted_def os assms(4) [symmetric])
  then have "drawn_as p octets a b c d" using assms(3,5-8) by (simp add: drawn_as_def os del: ipv4_class.simps)
  then show ?thesis by blast
qed

lemma drawn_address:
  assumes "reserved_draw prefix octets"
  shows "\<exists>a b c d. drawn_as prefix octets a b c d"
proof -
  have draw: "length octets = remaining_octets prefix" "list_all octet octets" "prefix \<in> fst ` set RFC_6890_RANGES"
    using assms by (simp_all add: reserved_draw_def)
  note eval = remaining octet_texts octet_def unguarded_def
  have "prefix = ''0'' \<or> prefix = ''10'' \<or> prefix = ''100.64'' \<or> prefix = ''127'' \<or> prefix = ''169.254'' \<or> prefix = ''172.16'' \<or> prefix = ''192.0.0''
    \<or> prefix = ''192.0.2'' \<or> prefix = ''192.168'' \<or> prefix = ''198.18'' \<or> prefix = ''198.51.100'' \<or> prefix = ''203.0.113'' \<or> prefix = ''240'' \<or> prefix = ''255.255.255.255''"
    using draw(3) by (simp add: RFC_6890_RANGES_def)
  then show ?thesis
  proof (elim disjE, goal_cases)
    case 1
    show ?thesis unfolding 1 by (rule draw_three_octets [where a = 0]) (use draw in \<open>simp_all add: 1 eval\<close>)
  next
    case 2
    show ?thesis unfolding 2 by (rule draw_three_octets [where a = 10]) (use draw in \<open>simp_all add: 2 eval\<close>)
  next
    case 3
    show ?thesis unfolding 3 by (rule draw_two_octets [where a = 100 and b = 64]) (use draw in \<open>simp_all add: 3 eval\<close>)
  next
    case 4
    show ?thesis unfolding 4 by (rule draw_three_octets [where a = 127]) (use draw in \<open>simp_all add: 4 eval\<close>)
  next
    case 5
    show ?thesis unfolding 5 by (rule draw_two_octets [where a = 169 and b = 254]) (use draw in \<open>simp_all add: 5 eval\<close>)
  next
    case 6
    show ?thesis unfolding 6 by (rule draw_two_octets [where a = 172 and b = 16]) (use draw in \<open>simp_all add: 6 eval\<close>)
  next
    case 7
    show ?thesis unfolding 7 by (rule draw_one_octet [where a = 192 and b = 0 and c = 0]) (use draw in \<open>simp_all add: 7 eval\<close>)
  next
    case 8
    show ?thesis unfolding 8 by (rule draw_one_octet [where a = 192 and b = 0 and c = 2]) (use draw in \<open>simp_all add: 8 eval\<close>)
  next
    case 9
    show ?thesis unfolding 9 by (rule draw_two_octets [where a = 192 and b = 168]) (use draw in \<open>simp_all add: 9 eval\<close>)
  next
    case 10
    show ?thesis unfolding 10 by (rule draw_two_octets [where a = 198 and b = 18]) (use draw in \<open>simp_all add: 10 eval\<close>)
  next
    case 11
    show ?thesis unfolding 11 by (rule draw_one_octet [where a = 198 and b = 51 and c = 100]) (use draw in \<open>simp_all add: 11 eval\<close>)
  next
    case 12
    show ?thesis unfolding 12 by (rule draw_one_octet [where a = 203 and b = 0 and c = 113]) (use draw in \<open>simp_all add: 12 eval\<close>)
  next
    case 13
    show ?thesis unfolding 13 by (rule draw_three_octets [where a = 240]) (use draw in \<open>simp_all add: 13 eval\<close>)
  next
    case 14
    have "octets = []" using draw(1) by (simp add: 14 remaining)
    then have "drawn_as prefix octets 255 255 255 255"
      by (simp add: drawn_as_def 14 arbIPInRange_def dotted_def eval)
    then show ?thesis by blast
  qed
qed

text \<open>C35: Of the addresses the test suite draws as reserved by RFC 6890, and of their forms mapped into IPv6, the guard blocks exactly those of eight of the fourteen ranges; all others, those for IETF protocols, documentation, benchmarking and future use, pass.\<close>

theorem reserved_verdicts:
  assumes "reserved_draw prefix octets"
  shows "(checkIp (arbIPInRange prefix octets) = NotBlocked
      \<longleftrightarrow> prefix \<in> unguarded)
    \<and> checkIp (arbIPv4MappedIPv6 (arbIPInRange prefix octets)) = checkIp (arbIPInRange prefix octets)"
proof -
  obtain a b c d where "drawn_as prefix octets a b c d" using drawn_address [OF assms] by blast
  then have q: "octet a" "octet b" "octet c" "octet d" "arbIPInRange prefix octets = dotted a b c d"
      "ipv4_class a b c d = NotBlocked \<longleftrightarrow> prefix \<in> unguarded"
    by (simp_all add: drawn_as_def)
  have "isIpv4 (dotted a b c d)" using q(1-4) by (simp add: isIpv4_def match_ipv4_dotted)
  moreover have "to_lower ''::ffff:'' = ''::ffff:''" by code_simp
  ultimately show ?thesis
    using q checkIp_of_dotted [OF q(1-4)] checkIp_mapped [of "dotted a b c d" "''::ffff:''"] by (simp add: arbIPv4MappedIPv6_def del: ipv4_class.simps)
qed

theorem reserved_verdicts_witness:
  "checkIp ''192.0.2.1'' = NotBlocked \<and> checkIp ''::ffff:192.0.2.1'' = NotBlocked \<and> checkIp ''10.1.2.3'' \<noteq> NotBlocked"
proof -
  have "reserved_draw ''192.0.2'' [1]" "reserved_draw ''10'' [1, 2, 3]" by code_simp+
  moreover have "arbIPInRange ''192.0.2'' [1] = ''192.0.2.1''" "arbIPInRange ''10'' [1, 2, 3] = ''10.1.2.3''" by code_simp+
  ultimately show ?thesis
    using reserved_verdicts [of "''192.0.2''" "[1]"] reserved_verdicts [of "''10''" "[1, 2, 3]"] by (simp add: arbIPv4MappedIPv6_def unguarded_def)
qed

end
