(* ===== verification/WebSimulator.thy ===== *)
theory WebSimulator
  imports HttpFetcher JsMap
begin

text \<open>
  The web server of the end-to-end tests, packages/testing/src/simulators: routes, the handling of a request, the
  routes of a site graph, and the built-in routes for redirects, link traps and rate limits. The URL parser is a
  parameter (the path of a request, its query parameters), and the values of a repeated request header come joined.
  The numbers a query gives are taken below 2^53. The routes with a constant body (the bait, the robots file and the
  mixed links) are left out.
\<close>

section \<open>web-simulator.ts\<close>

record SimulatorRequest =
  sq_url :: string
  sq_method :: string
  sq_headers :: "(string \<times> string) list"

record SimulatorResponse =
  sp_status :: int
  sp_headers :: "(string \<times> string) list"
  sp_body :: string
  sp_delay :: "int option"

text \<open>A handler, in the state the module keeps between requests.\<close>

type_synonym 's route_handler = "SimulatorRequest \<Rightarrow> 's \<Rightarrow> SimulatorResponse completion \<times> 's"

record 's SimulatorRoute =
  rt_path :: string
  rt_handler :: "'s route_handler"

definition route_matches :: "string \<Rightarrow> 's SimulatorRoute \<Rightarrow> bool" where
  "route_matches pathname r =
     (rt_path r = pathname
      \<or> (starts_with pathname (rt_path r) \<and> length (rt_path r) < length pathname \<and> pathname ! length (rt_path r) = CHR ''?''))"

definition matchRoute :: "'s SimulatorRoute list \<Rightarrow> string \<Rightarrow> 's SimulatorRoute option" where
  "matchRoute routes pathname = find (route_matches pathname) routes"

text \<open>What is sent: status, headers and body, and the delay before.\<close>

type_synonym sent_response = "int \<times> (string \<times> string) list \<times> string \<times> int"

definition spread_headers :: "(string \<times> string) list \<Rightarrow> (string \<times> string) list \<Rightarrow> (string \<times> string) list" where
  "spread_headers base extra = foldl (\<lambda>m (k, v). jsmap_set m k v) base extra"

definition handleRequest ::
  "(string \<Rightarrow> string option) \<Rightarrow> 's SimulatorRoute list \<Rightarrow> string \<Rightarrow> string \<Rightarrow> (string \<times> string) list \<Rightarrow> 's \<Rightarrow> sent_response completion \<times> 's" where
  "handleRequest pathname_of routes reqUrl reqMethod reqHeaders s =
     (case pathname_of reqUrl of
        None \<Rightarrow> (Throw type_error_invalid_url, s)
      | Some pathname \<Rightarrow>
          (case matchRoute routes pathname of
             None \<Rightarrow> (Return (404, [(''Content-Type'', ''text/plain'')], ''Not Found'', 0), s)
           | Some route \<Rightarrow>
               (case rt_handler route \<lparr>sq_url = reqUrl, sq_method = reqMethod, sq_headers = reqHeaders\<rparr> s of
                  (Throw t, s') \<Rightarrow> (Throw t, s')
                | (Return res, s') \<Rightarrow>
                    (Return (sp_status res,
                       spread_headers [(''Content-Type'', ''text/html; charset=utf-8'')] (sp_headers res), sp_body res,
                       (case sp_delay res of Some d \<Rightarrow> if 0 < d then d else 0 | None \<Rightarrow> 0)), s'))))"

text \<open>The server catches what the handling throws before the headers were sent.\<close>

definition serve_request ::
  "(string \<Rightarrow> string option) \<Rightarrow> 's SimulatorRoute list \<Rightarrow> string \<Rightarrow> string \<Rightarrow> (string \<times> string) list \<Rightarrow> 's \<Rightarrow> sent_response \<times> 's" where
  "serve_request pathname_of routes reqUrl reqMethod reqHeaders s =
     (case handleRequest pathname_of routes reqUrl reqMethod reqHeaders s of
        (Return r, s') \<Rightarrow> (r, s')
      | (Throw t, s') \<Rightarrow> ((500, [], ''Internal Server Error'', 0), s'))"

section \<open>site-graph-builder.ts\<close>

record PageDefinition =
  pg_path :: string
  pg_title :: string
  pg_links :: "string list"
  pg_body :: "string option"

record SiteGraph =
  sg_pages :: "PageDefinition list"
  sg_robotsTxt :: "string option"

definition replace_char :: "char \<Rightarrow> string \<Rightarrow> string \<Rightarrow> string" where
  "replace_char c r s = concat (map (\<lambda>x. if x = c then r else [x]) s)"

definition escapeHtml :: "string \<Rightarrow> string" where
  "escapeHtml text =
     replace_char (CHR 0x22) ''&quot;'' (replace_char (CHR ''>'') ''&gt;'' (replace_char (CHR ''<'') ''&lt;'' (replace_char (CHR ''&'') ''&amp;'' text)))"

definition link_element :: "string \<Rightarrow> string" where
  "link_element link = ''    <a href='' @ [CHR 0x22] @ escapeHtml link @ [CHR 0x22] @ ''>'' @ escapeHtml link @ ''</a>''"

definition generatePageHtml :: "PageDefinition \<Rightarrow> string" where
  "generatePageHtml page =
     join_with [CHR 0x0A]
       [''<!DOCTYPE html>'', ''<html>'', ''<head><title>'' @ escapeHtml (pg_title page) @ ''</title></head>'', ''<body>'',
        ''  <h1>'' @ escapeHtml (pg_title page) @ ''</h1>'',
        (case pg_body page of None \<Rightarrow> [] | Some b \<Rightarrow> ''  <div>'' @ b @ ''</div>'' @ [CHR 0x0A]),
        ''  <nav>'', join_with [CHR 0x0A] (map link_element (pg_links page)), ''  </nav>'', ''</body>'', ''</html>'']"

definition robots_route :: "string \<Rightarrow> 's SimulatorRoute" where
  "robots_route content = \<lparr>rt_path = ''/robots.txt'', rt_handler = (\<lambda>req s. (Return
     \<lparr>sp_status = 200, sp_headers = [(''Content-Type'', ''text/plain'')], sp_body = content, sp_delay = None\<rparr>, s))\<rparr>"

definition page_route :: "PageDefinition \<Rightarrow> 's SimulatorRoute" where
  "page_route page = \<lparr>rt_path = pg_path page, rt_handler = (\<lambda>req s. (Return
     \<lparr>sp_status = 200, sp_headers = [], sp_body = generatePageHtml page, sp_delay = None\<rparr>, s))\<rparr>"

definition buildSiteGraphRoutes :: "SiteGraph \<Rightarrow> 's SimulatorRoute list" where
  "buildSiteGraphRoutes graph =
     (case sg_robotsTxt graph of None \<Rightarrow> [] | Some content \<Rightarrow> [robots_route content]) @ map page_route (sg_pages graph)"

section \<open>built-in-scenarios.ts\<close>

text \<open>\<open>parseInt(s, 10)\<close>.\<close>

definition parseInt10 :: "string \<Rightarrow> int option" where
  "parseInt10 s =
     (let (neg, u) = signed_rest (dropWhile js_space s); ds = takeWhile is_digit u
      in if ds = [] then None else Some (if neg then - digits_val ds else digits_val ds))"

text \<open>\<open>parseInt(url.searchParams.get(name) ?? fallback, 10)\<close>.\<close>

type_synonym query_param = "string \<Rightarrow> string \<Rightarrow> string option"

definition int_param :: "query_param \<Rightarrow> string \<Rightarrow> string \<Rightarrow> string \<Rightarrow> int option" where
  "int_param query url name fallback = parseInt10 (case query url name of None \<Rightarrow> fallback | Some v \<Rightarrow> v)"

text \<open>\<open>Number.isFinite(n) \<and> n > 0 ? Math.min(n, cap) : otherwise\<close>.\<close>

definition positive_capped :: "int option \<Rightarrow> int \<Rightarrow> int \<Rightarrow> int" where
  "positive_capped n cap otherwise = (case n of Some k \<Rightarrow> if 0 < k then min k cap else otherwise | None \<Rightarrow> otherwise)"

definition html_body :: "string \<Rightarrow> string" where
  "html_body content = ''<html><body>'' @ content @ ''</body></html>''"

definition slowResponseRoute :: "query_param \<Rightarrow> 's SimulatorRoute" where
  "slowResponseRoute query = \<lparr>rt_path = ''/slow'', rt_handler = (\<lambda>req s.
     (let delay = positive_capped (int_param query (sq_url req) ''ms'' ''1000'') 30000 1000
      in (Return \<lparr>sp_status = 200, sp_headers = [], sp_body = html_body (''Slow response ('' @ string_of_int delay @ ''ms)''),
                  sp_delay = Some delay\<rparr>, s)))\<rparr>"

definition httpErrorRoute :: "query_param \<Rightarrow> 's SimulatorRoute" where
  "httpErrorRoute query = \<lparr>rt_path = ''/error'', rt_handler = (\<lambda>req s.
     (let status = (case int_param query (sq_url req) ''code'' ''500'' of
                      Some c \<Rightarrow> if 100 \<le> c \<and> c < 600 then c else 500 | None \<Rightarrow> 500)
      in (Return \<lparr>sp_status = status, sp_headers = [], sp_body = html_body (''Error '' @ string_of_int status), sp_delay = None\<rparr>, s)))\<rparr>"

definition hop_path :: "int \<Rightarrow> string" where
  "hop_path k = ''/redirect?hops='' @ string_of_int k"

definition redirectChainRoute :: "query_param \<Rightarrow> 's SimulatorRoute" where
  "redirectChainRoute query = \<lparr>rt_path = ''/redirect'', rt_handler = (\<lambda>req s.
     (let remaining = positive_capped (int_param query (sq_url req) ''hops'' ''1'') 20 0
      in if 0 < remaining
         then (Return \<lparr>sp_status = 302, sp_headers = [(''Location'', hop_path (remaining - 1))], sp_body = [], sp_delay = None\<rparr>, s)
         else (Return \<lparr>sp_status = 200, sp_headers = [], sp_body = html_body ''Final destination'', sp_delay = None\<rparr>, s)))\<rparr>"

definition linkTrapRoute :: "query_param \<Rightarrow> 's SimulatorRoute" where
  "linkTrapRoute query = \<lparr>rt_path = ''/trap'', rt_handler = (\<lambda>req s.
     (let d = (case int_param query (sq_url req) ''depth'' ''0'' of Some n \<Rightarrow> if 0 \<le> n then n else 0 | None \<Rightarrow> 0)
      in (Return \<lparr>sp_status = 200, sp_headers = [], sp_body = html_body (''<h1>Trap depth '' @ string_of_int d @ ''</h1>''
              @ ''<a href='' @ [CHR 0x22] @ ''/trap?depth='' @ string_of_int (d + 1) @ [CHR 0x22] @ ''>Go deeper</a>''),
            sp_delay = None\<rparr>, s)))\<rparr>"

definition rateLimitRoute :: "query_param \<Rightarrow> 's SimulatorRoute" where
  "rateLimitRoute query = \<lparr>rt_path = ''/rate-limit'', rt_handler = (\<lambda>req s.
     (let retryAfter = positive_capped (int_param query (sq_url req) ''retry'' ''5'') 3600 5
      in (Return \<lparr>sp_status = 429, sp_headers = [(''Retry-After'', string_of_int retryAfter)],
                  sp_body = html_body ''Too Many Requests'', sp_delay = None\<rparr>, s)))\<rparr>"

definition burstLinksRoute :: "query_param \<Rightarrow> 's SimulatorRoute" where
  "burstLinksRoute query = \<lparr>rt_path = ''/burst-links'', rt_handler = (\<lambda>req s.
     (let count = positive_capped (int_param query (sq_url req) ''count'' ''10'') 10000 10;
          links = map (\<lambda>i. ''<a href='' @ [CHR 0x22] @ ''/page-'' @ string_of_int (int i) @ [CHR 0x22] @ ''>Link '' @ string_of_int (int i) @ ''</a>'')
                    [0..<nat count]
      in (Return \<lparr>sp_status = 200, sp_headers = [],
            sp_body = join_with [CHR 0x0A] ([''<html><body>'', ''<h1>Burst Links ('' @ string_of_int count @ '')</h1>''] @ links @ [''</body></html>'']),
            sp_delay = None\<rparr>, s)))\<rparr>"

definition connectionHoldRoute :: "query_param \<Rightarrow> 's SimulatorRoute" where
  "connectionHoldRoute query = \<lparr>rt_path = ''/connection-hold'', rt_handler = (\<lambda>req s.
     (let delay = positive_capped (int_param query (sq_url req) ''ms'' ''5000'') 60000 5000
      in (Return \<lparr>sp_status = 200, sp_headers = [], sp_body = html_body ''Connection held'', sp_delay = Some delay\<rparr>, s)))\<rparr>"

text \<open>The state is the number of its requests, until \<open>resetDynamic429State\<close>.\<close>

definition dynamic429Route :: "query_param \<Rightarrow> int SimulatorRoute" where
  "dynamic429Route query = \<lparr>rt_path = ''/dynamic-429'', rt_handler = (\<lambda>req requestCount.
     (let after = (case int_param query (sq_url req) ''after'' ''5'' of Some n \<Rightarrow> if 0 < n then n else 5 | None \<Rightarrow> 5);
          count = requestCount + 1
      in if after < count
         then (Return \<lparr>sp_status = 429, sp_headers = [(''Retry-After'', ''10'')], sp_body = html_body ''Too Many Requests'', sp_delay = None\<rparr>, count)
         else (Return \<lparr>sp_status = 200, sp_headers = [], sp_body = html_body (''OK (request '' @ string_of_int count @ '')''), sp_delay = None\<rparr>, count)))\<rparr>"

definition resetDynamic429State :: "int \<Rightarrow> int" where
  "resetDynamic429State requestCount = 0"

section \<open>Routes\<close>

text \<open>The path of a URL has no question mark, so that only a route of the very path matches.\<close>

lemma matchRoute_path:
  fixes routes :: "'s SimulatorRoute list"
  assumes "CHR ''?'' \<notin> set pathname"
  shows "matchRoute routes pathname = find (\<lambda>r. rt_path r = pathname) routes"
proof -
  have "route_matches pathname r \<longleftrightarrow> rt_path r = pathname" for r :: "'s SimulatorRoute" using assms by (metis nth_mem route_matches_def)
  then have "route_matches pathname = (\<lambda>r :: 's SimulatorRoute. rt_path r = pathname)" by (simp add: fun_eq_iff)
  then show ?thesis by (simp add: matchRoute_def)
qed

lemma find_page_route:
  "distinct (map pg_path pages) \<Longrightarrow> page \<in> set pages \<Longrightarrow> find (\<lambda>r. rt_path r = pg_path page) (map page_route pages) = Some (page_route page)"
proof (induction pages)
  case (Cons p ps)
  then show ?case by (cases "p = page") (force simp: page_route_def)+
qed simp

text \<open>Every page of a graph is served at its path, the robots file at its own.\<close>

lemma site_graph_served:
  assumes "distinct (map pg_path (sg_pages graph))" "page \<in> set (sg_pages graph)" "sg_robotsTxt graph = None \<or> pg_path page \<noteq> ''/robots.txt''"
    and "pathname_of reqUrl = Some (pg_path page)" "CHR ''?'' \<notin> set (pg_path page)"
  shows "serve_request pathname_of (buildSiteGraphRoutes graph) reqUrl m hs s
    = ((200, [(''Content-Type'', ''text/html; charset=utf-8'')], generatePageHtml page, 0), s)"
proof -
  have "find (\<lambda>r. rt_path r = pg_path page) (buildSiteGraphRoutes graph :: 'a SimulatorRoute list) = Some (page_route page)"
    using find_page_route [OF assms(1,2)] assms(3) by (auto simp: buildSiteGraphRoutes_def robots_route_def split: option.split)
  then show ?thesis
    using assms(4,5) by (simp add: serve_request_def handleRequest_def matchRoute_path page_route_def spread_headers_def)
qed

section \<open>Escaping\<close>

fun escaped :: "char \<Rightarrow> string" where
  "escaped c = (if c = CHR ''&'' then ''&amp;'' else if c = CHR ''<'' then ''&lt;'' else if c = CHR ''>'' then ''&gt;''
     else if c = CHR 0x22 then ''&quot;'' else [c])"

lemma replace_char_append: "replace_char c r (s @ t) = replace_char c r s @ replace_char c r t"
  by (simp add: replace_char_def)

text \<open>The four replacements in their order are one pass over the characters; no special character is left.\<close>

lemma escapeHtml_pass: "escapeHtml s = concat (map escaped s)"
proof (induction s)
  case (Cons c s)
  have "escapeHtml (c # s) = escapeHtml [c] @ escapeHtml s"
    by (simp add: escapeHtml_def replace_char_def)
  moreover have "escapeHtml [c] = escaped c" by (simp add: escapeHtml_def replace_char_def)
  ultimately show ?case using Cons by simp
qed (simp add: escapeHtml_def replace_char_def)

lemma escapeHtml_safe: "set (escapeHtml s) \<inter> {CHR ''<'', CHR ''>'', CHR 0x22} = {}"
  by (auto simp: escapeHtml_pass split: if_splits)

lemma escaped_prefix_free: "escaped c @ s = escaped d @ t \<Longrightarrow> c = d \<and> s = t"
  by (simp split: if_splits)

lemma escapeHtml_inject: "escapeHtml s = escapeHtml t \<Longrightarrow> s = t"
proof (induction s arbitrary: t)
  case Nil
  then show ?case by (cases t) (simp_all add: escapeHtml_pass split: if_splits)
next
  case (Cons c s)
  show ?case
  proof (cases t)
    case Nil
    then show ?thesis using Cons.prems by (simp add: escapeHtml_pass split: if_splits)
  next
    case (Cons d u)
    then show ?thesis
      using Cons.IH Cons.prems escaped_prefix_free [of c "concat (map escaped s)" d "concat (map escaped u)"]
      by (simp add: escapeHtml_pass del: escaped.simps)
  qed
qed

section \<open>A rate limit that sets in\<close>

fun served_statuses :: "query_param \<Rightarrow> SimulatorRequest list \<Rightarrow> int \<Rightarrow> int list" where
  "served_statuses query [] n = []"
| "served_statuses query (r # rs) n = (case rt_handler (dynamic429Route query) r n of
     (Return res, n') \<Rightarrow> sp_status res # served_statuses query rs n' | (Throw t, n') \<Rightarrow> [])"

lemma dynamic429_statuses:
  assumes "\<forall>r \<in> set rs. int_param query (sq_url r) ''after'' ''5'' = Some k" and "0 < k" and "0 \<le> n"
  shows "served_statuses query rs n = map (\<lambda>i. if n + int i < k then 200 else 429) [0..<length rs]"
  using assms(1,3)
proof (induction rs arbitrary: n)
  case (Cons r rs)
  have "[0..<length (r # rs)] = 0 # map Suc [0..<length rs]" by (simp add: upt_conv_Cons map_Suc_upt del: upt_Suc)
  moreover have "served_statuses query rs (n + 1) = map (\<lambda>i. if n + 1 + int i < k then 200 else 429) [0..<length rs]"
    using Cons by simp
  ultimately show ?case
    using Cons.prems assms(2) by (auto simp: dynamic429Route_def Let_def comp_def algebra_simps)
qed simp


section \<open>A fetch through the redirect chain\<close>

lemma parseInt10_string_of_int: "0 \<le> k \<Longrightarrow> parseInt10 (string_of_int k) = Some k"
proof -
  assume k: "0 \<le> k"
  let ?t = "string_of_nonneg k"
  have digits: "list_all is_digit ?t" "?t \<noteq> []" using string_of_nonneg_digits [OF k] by (simp_all add: string_of_nonneg.simps [of k])
  then obtain c r where t: "?t = c # r" "is_digit c" by (cases ?t) auto
  then have "dropWhile js_space ?t = ?t" "signed_rest ?t = (False, ?t)"
    using js_space_digit [of c] is_digit_neq [of c] by (simp_all add: signed_rest_def)
  then show ?thesis
    using k digits by (simp add: parseInt10_def string_of_int_def takeWhile_all digits_val_string_of_nonneg)
qed

text \<open>The response as the client receives it: header names in lower case, the body in one chunk.\<close>

definition received :: "sent_response \<Rightarrow> HttpResponse" where
  "received sent = (case sent of (status, hs, body, delay) \<Rightarrow>
     \<lparr>hp_statusCode = status, hp_headers = map (\<lambda>(k, v). (to_lower k, HvText v)) hs, hp_body = [Chunk (map of_char body)]\<rparr>)"

text \<open>
  A fetcher whose requests below \<open>base\<close> go to the simulator, with nothing in the way: the URLs parse, the validator
  that the tests inject lets them pass, and the parser finds the path and the parameter of a request.
\<close>

definition reaches_simulator ::
  "(string \<Rightarrow> string option) \<Rightarrow> query_param \<Rightarrow> 's SimulatorRoute list \<Rightarrow> 's \<Rightarrow> 'w http_env \<Rightarrow> string \<Rightarrow> bool" where
  "reaches_simulator pathname_of query routes s env base \<longleftrightarrow>
     find (\<lambda>r. rt_path r = ''/redirect'') routes = Some (redirectChainRoute query)
   \<and> (\<forall>k \<ge> 0. pathname_of (hop_path k) = Some ''/redirect'' \<and> query (hop_path k) ''hops'' = Some (string_of_int k)
        \<and> (\<exists>u. he_parse env (base @ hop_path k) = Some u \<and> (\<forall>w. \<exists>w'. he_validate env u w = (Return None, w')))
        \<and> (\<forall>c. \<exists>u. he_parse_base env (hop_path k) c = Some u \<and> url_href u = base @ hop_path k)
        \<and> (\<forall>hs w. \<exists>w'. he_request env (base @ hop_path k) hs w =
             (Return (received (fst (serve_request pathname_of routes (hop_path k) ''GET'' hs s))), w')))"

lemma hop_served:
  assumes "reaches_simulator pathname_of query routes s env base" and "0 \<le> k" "k \<le> 20"
  shows "fst (serve_request pathname_of routes (hop_path k) m hs s) =
    (if 0 < k then (302, [(''Content-Type'', ''text/html; charset=utf-8''), (''Location'', hop_path (k - 1))], [], 0)
     else (200, [(''Content-Type'', ''text/html; charset=utf-8'')], html_body ''Final destination'', 0))"
  using assms
  by (simp add: reaches_simulator_def serve_request_def handleRequest_def matchRoute_path redirectChainRoute_def int_param_def
      parseInt10_string_of_int positive_capped_def spread_headers_def Let_def)

lemma hop_headers:
  "to_lower ''Content-Type'' = ''content-type''" "to_lower ''Location'' = ''location''"
  by code_simp+

lemma hop_round:
  assumes sim: "reaches_simulator pathname_of query routes s env base" and k: "0 \<le> k" "k \<le> 20"
    and body: "int (length (html_body ''Final destination'')) \<le> hf_maxBodyBytes config"
  shows "\<exists>next ev w'. http_round env config url start (base @ hop_path k) n w = ((next, ev), w') \<and>
    (case next of HtDone r \<Rightarrow> (isOk r \<longleftrightarrow> k = 0) \<and> (0 < k \<longrightarrow> hf_maxRedirects config < n + 1)
     | HtContinue u n' \<Rightarrow> 0 < k \<and> u = base @ hop_path (k - 1) \<and> n' = n + 1 \<and> n' \<le> hf_maxRedirects config
     | HtThrown t \<Rightarrow> False)"
proof -
  obtain u where u: "he_parse env (base @ hop_path k) = Some u" "\<forall>w. \<exists>w'. he_validate env u w = (Return None, w')"
    using sim k(1) unfolding reaches_simulator_def by blast
  obtain w1 where v: "he_validate env u w = (Return None, w1)" using u(2) by blast
  let ?hs = "[(''User-Agent'', hf_userAgent config)]"
  have "\<exists>w2. he_request env (base @ hop_path k) ?hs w1 = (Return (received (fst (serve_request pathname_of routes (hop_path k) ''GET'' ?hs s))), w2)"
    using sim k(1) unfolding reaches_simulator_def by blast
  then obtain w2 where r: "he_request env (base @ hop_path k) ?hs w1 = (Return (received (fst (serve_request pathname_of routes (hop_path k) ''GET'' ?hs s))), w2)"
    by blast
  note r = r [unfolded hop_served [OF sim k]]
  show ?thesis
  proof (cases "k = 0")
    case True
    then show ?thesis
      using u(1) v r body
      by (simp add: http_round_def hop_request_def received_def handle_response_def readResponse_def
          checkContentLength_def readBodyStream_def REDIRECT_CODES_def hop_headers Let_def)
  next
    case False
    then have "0 \<le> k - 1" using k(1) by simp
    then have "\<forall>c. \<exists>u. he_parse_base env (hop_path (k - 1)) c = Some u \<and> url_href u = base @ hop_path (k - 1)"
      using sim unfolding reaches_simulator_def by blast
    then obtain u' where "he_parse_base env (hop_path (k - 1)) (base @ hop_path k) = Some u'" "url_href u' = base @ hop_path (k - 1)" by blast
    then show ?thesis
      using False k(1) u(1) v r
      by (simp add: http_round_def hop_request_def received_def handle_response_def ht_fail_def
          getHeader_def REDIRECT_CODES_def hop_headers Let_def)
  qed
qed

lemma hop_loop:
  assumes sim: "reaches_simulator pathname_of query routes s env base"
    and body: "int (length (html_body ''Final destination'')) \<le> hf_maxBodyBytes config"
  shows "k \<le> 20 \<Longrightarrow> isOk (fst (fst (http_loop env config url start (base @ hop_path (int k)) n tr w))) \<longleftrightarrow> k = 0 \<or> n + int k \<le> hf_maxRedirects config"
proof (induction k arbitrary: n tr w)
  case 0
  obtain nx ev w' where "http_round env config url start (base @ hop_path 0) n w = ((nx, ev), w')"
      "case nx of HtDone r \<Rightarrow> (isOk r \<longleftrightarrow> (0 :: int) = 0) \<and> ((0 :: int) < 0 \<longrightarrow> hf_maxRedirects config < n + 1)
     | HtContinue u n' \<Rightarrow> (0 :: int) < 0 \<and> u = base @ hop_path (0 - 1) \<and> n' = n + 1 \<and> n' \<le> hf_maxRedirects config
     | HtThrown t \<Rightarrow> False"
    using hop_round [OF sim _ _ body, of 0 url start n w] by fastforce
  then show ?case by (subst http_loop.simps) (auto split: ht_next.splits)
next
  case (Suc k)
  have k: "int (Suc k) - 1 = int k" by simp
  obtain nx ev w' where r: "http_round env config url start (base @ hop_path (int (Suc k))) n w = ((nx, ev), w')"
      "case nx of HtDone r \<Rightarrow> (isOk r \<longleftrightarrow> int (Suc k) = 0) \<and> (0 < int (Suc k) \<longrightarrow> hf_maxRedirects config < n + 1)
       | HtContinue u n' \<Rightarrow> 0 < int (Suc k) \<and> u = base @ hop_path (int k) \<and> n' = n + 1 \<and> n' \<le> hf_maxRedirects config
       | HtThrown t \<Rightarrow> False"
    using hop_round [OF sim _ _ body, of "int (Suc k)" url start n w] Suc.prems unfolding k by fastforce
  show ?case
  proof (cases nx)
    case (HtDone res)
    then show ?thesis using r by (subst http_loop.simps) auto
  next
    case (HtContinue u n')
    then have "http_loop env config url start (base @ hop_path (int (Suc k))) n tr w = http_loop env config url start (base @ hop_path (int k)) (n + 1) (tr @ ev) w'"
      using r by (subst http_loop.simps) simp
    then show ?thesis using Suc.IH [of "n + 1" "tr @ ev" w'] Suc.prems r(2) HtContinue by auto
  qed (use r in simp)
qed


text \<open>The simulator itself as the network, with its paths read off the text.\<close>

definition sim_path :: "string \<Rightarrow> string option" where
  "sim_path url = Some (takeWhile (\<lambda>c. c \<noteq> CHR ''?'') url)"

definition sim_query :: query_param where
  "sim_query url name = (if name = ''hops'' then Some (drop 15 url) else None)"

definition sim_env :: "unit http_env" where
  "sim_env =
     \<lparr>he_request = (\<lambda>url hs w. (Return (received (fst (serve_request sim_path [redirectChainRoute sim_query] (drop 13 url) ''GET'' hs ()))), w)),
      he_validate = (\<lambda>u w. (Return None, w)), he_now = (\<lambda>w. 0), he_parse = (\<lambda>s. Some (witness_url [] [])),
      he_parse_base = (\<lambda>s b. Some ((witness_url [] [])\<lparr>u_protocol := ''http:'', u_hostname := ''sim.io'', u_pathname := s\<rparr>)),
      he_set_hostname = (\<lambda>u v. u\<lparr>u_hostname := v\<rparr>), he_decode = map char_of\<rparr>"

lemma hop_path_text: "0 \<le> k \<Longrightarrow> sim_path (hop_path k) = Some ''/redirect'' \<and> sim_query (hop_path k) ''hops'' = Some (string_of_int k)"
  by (simp add: sim_path_def sim_query_def hop_path_def)

abbreviation "sim_base \<equiv> ''http://sim.io''"

lemma sim_reached: "reaches_simulator sim_path sim_query [redirectChainRoute sim_query] () sim_env sim_base"
proof -
  have "url_href ((witness_url [] [])\<lparr>u_protocol := ''http:'', u_hostname := ''sim.io'', u_pathname := p\<rparr>) = sim_base @ p" for p
    by (simp add: url_href_def witness_url_def)
  then show ?thesis
    by (auto simp: reaches_simulator_def hop_path_text sim_env_def) (auto simp: redirectChainRoute_def)
qed

definition sim_config :: FetcherConfig where
  "sim_config = \<lparr>hf_userAgent = ''bot'', hf_timeoutMs = 1000, hf_maxRedirects = 5, hf_maxBodyBytes = 1000\<rparr>"


end
