(* ===== verification/Spec2Isabelle.thy ===== *)
theory Spec2Isabelle
  imports UrlNormalizer CrawlPipeline UrlFrontier CompletionDetector LeaderElection Ipv6Check HardenedFetch
    CompositionRoot HttpFetcher Politeness ResilientFetcher PolicyStack SlidingWindow PromMetrics WorkerManagement
    Connections JobQueue RedisStore RedisStreams Startup Shutdown MainProgram Database DatabaseConnection UrlStore
    ApiRouter ApiGateway Observability CrawlSystem CrawlCoverage CrawlOrder CrawlCompletion
    CrawlConcurrent ConcurrentCoverage DatabaseSchema LintConfig TestInputs WebSimulator
begin

text \<open>
  A verification development of the crawler: the TypeScript packages under src/packages, read as
  Isabelle definitions.

  \<^bold>\<open>The program.\<close> A worker process (application-lifecycle) loads its configuration, starts its
  components in phases, seeds a frontier of URLs and consumes jobs from a BullMQ queue. A job runs the
  crawl pipeline: validate the entry, fetch the page, discover its links, enqueue the new ones. Fetching
  passes the rate limiters and policies of resilience, the politeness delay and redirect loop of
  http-fetching, and the SSRF guard, which resolves and pins the address of every hop. A coordinator
  (completion-detection), one of several by leader election, polls the queue until the crawl is complete.
  Results go to the database package (PostgreSQL and an object store), events to Redis streams.

  \<^bold>\<open>Conventions.\<close> Prelude says how results, exceptions, injected dependencies and logs appear. A library
  or service is an argument: a record of functions over a world of arbitrary type, so that nothing is
  assumed of it but the laws a theorem names. JsMap and JsString model the part of the JavaScript
  standard library the sources use.

  \<^bold>\<open>Theories and sources.\<close>
  \<^item> CoreErrors, CompositionRoot: core/src/errors, core/src/domain, core/src/application.
  \<^item> IpRange, Ipv6Check, SsrfValidator, HardenedFetch: ssrf-guard/src (\<open>checkIp\<close>, \<open>validateUrl\<close>,
    \<open>executeHardenedFetch\<close> and its round and loop).
  \<^item> ErrorClassifier, StreamProcessor, HttpFetcher, LruMap, Politeness, ResilientFetcher: http-fetching/src.
  \<^item> TokenBucket, SlidingWindow, BreakerRegistry, PolicyStack: resilience/src.
  \<^item> UrlNormalizer, CrawlPipeline: crawl-pipeline/src. UrlFrontier: url-frontier/src, the queue backend of
    job-queue/src and the seeding of completion-detection/src.
  \<^item> JobQueue: the rest of job-queue/src. Connections: the three parsers of Redis URLs.
  \<^item> CompletionDetector, LeaderElection: completion-detection/src.
  \<^item> WorkerManagement: worker-management/src. PromMetrics, Observability: observability/src.
  \<^item> ZodSchema, ConfigSchema, ComponentConfig: the combinators of zod, config/src on top of them, and the
    settings schemas of the other packages.
  \<^item> ApiRouter: api-router/src. ApiGateway: the router as it is mounted, apps/api-gateway/src.
  \<^item> RedisStore, RedisStreams: redis/src. Database, DatabaseConnection: database/src. UrlStore: the contract of
    its repository of URLs, and the rows of the table. DatabaseSchema: the tables of schema/, of the test helper and of
    the migration, column by column.
  \<^item> Startup, Shutdown, MainProgram: application-lifecycle/src.
  \<^item> CrawlSystem: a whole crawl, as steps over the queue, the worker's consumer, the pipeline and the
    frontier, with the executor that main.ts leaves open as a parameter. CrawlCoverage: what one worker by
    priority reaches. CrawlOrder: what another order can lose. CrawlCompletion: the crawl beside the
    coordinator's completion detector. CrawlConcurrent: the jobs of one worker, split at the awaits of their
    consumer and interleaved up to its concurrency. ConcurrentCoverage: what they reach and what they can lose.
  \<^item> LintConfig: eslint-config. TestInputs, WebSimulator: the address generators and the web simulator of
    testing/src, against the guard and the fetcher.
  \<^item> This theory: what spans components. The fetcher of http-fetching takes its validator as an argument;
    here it is the guard of ssrf-guard. A link goes from the pipeline through the frontier and the queue to
    the schema of the worker. A status event of database is read by the event handler of api-router.

  \<^bold>\<open>State.\<close> A class or closure is a record with the fields of the source (\<open>RedirectTracker\<close>, \<open>Detector\<close>,
  \<open>Election\<close>, \<open>JobConsumerAdapter\<close>, ..); an operation returns the new record. The coordinators of a
  cluster are an inductive step relation (\<open>cluster_step\<close>) with its reachable states; other components are
  folds of their operations over a list of calls or events.

  \<^bold>\<open>What is shown.\<close>
  \<^item> Safety of fetching: an allowed URL is pinned to an address outside every blocked range, and so is
    every hop of a redirect chain; the number of requests is bounded; a fetch always ends in a result.
  \<^item> Rate limits: the token bucket, the sliding window and the politeness delay bound what they admit.
  \<^item> Caches and registries: what is kept and what is evicted, stated over whole histories, through the
    locale \<open>bounded_cache\<close>.
  \<^item> Coordination: at most one leader while no lease expires, what a failed renewal does, when the poll
    loop stops and that its verdict rests on what the queue answered.
  \<^item> The pipeline, the frontier and the database: deduplication (locale \<open>first_wins\<close>), batch counts,
    round trips of stored pages, stream entries and connection settings; the repository that
    publishes events refines the one that does not, and the utilization tracker refines the set of
    running jobs. The repository of URLs refines a store of pages by hash (locale \<open>url_repository\<close>, provided
    by the table, kept by the breaker and by the publishing decorator).
  \<^item> Settings: which environments the schema accepts and what it makes of them.
  \<^item> The crawl as a whole: it ends, by the multiset order on depth and attempts left, ends each job once,
    and, taken by priority, reaches every page within the depth limit (an invariant on the depths in the
    queue). Beside it the coordinator resolves, and not before the crawl is over, given counts of all jobs.
  \<^item> The same crawl with concurrent jobs: the phases of a job run in one go are the consumer; with any
    interleaving the crawl ends (a multiset order with the phase as last component), no job is active twice, and what the seeds lead to is
    crawled unless the depth limit cut a page off. Crawls of one job at a time are a special case.
  \<^item> The tables: what an insert makes of a row, column by column; the table of the tests is the one of the
    schema, the migrated one is not.
  \<^item> The lint config: what remains of its rules after all entries that apply to a file.
  \<^item> The life of the process: the start is all or nothing and cleans up in reverse (locale
    \<open>reverse_cleanup\<close>), shutdown ends within its two timeouts.
  \<^item> Where the code departs from what it documents, a lemma states what it does.

  \<^bold>\<open>Loops and bounds.\<close> The redirect loops terminate by the measure limit minus count. The poll loop is a
  recursion over the number of ticks that are waited for (\<open>wait_ticks\<close>); a property shows that
  \<open>maxConsecutiveFailures * (maxSkipTicks + 1)\<close> ticks are enough when the store does not answer. Nothing
  else uses fuel. A crawl is an unbounded run of steps; its termination is a theorem. Integers are \<open>int\<close> where the source stays below \<open>2^53\<close>, \<open>32 word\<close> under the bit operators
  of the address checks; times and rates that are divided are rationals.

  \<^bold>\<open>Not modelled.\<close> What the sources only configure: the HTTP servers and the clients of PostgreSQL, Redis, S3
  and BullMQ, whose calls are parameters. Of testing/src, the containers, the Kubernetes helpers, the load scripts and
  the random site of the load tests, whose faults follow the clock and \<open>Math.random\<close>; deployment files. Interleavings
  of awaits are modelled where more than one activity shares state: the pipeline of the sliding window, the polls and
  renewals of the coordinators, the jobs of a worker. A job that BullMQ takes for stalled and hands out again while it
  still runs is outside the model of a crawl. Strings are lists of 8-bit code units, so code points
  above 255 are outside the model. A JSON value is a datatype of ZodSchema. What remains of the sources are interface
  types and the objects of methods that modules return, which appear as the records and operations above.
\<close>

section \<open>The fetcher behind the guard\<close>

text \<open>The validator of the fetcher answers what \<open>validateUrl\<close> of the guard decides; an error of the guard makes it reject.\<close>

definition guarded :: "'w http_env \<Rightarrow> 'w DnsResolver \<Rightarrow> SsrfConfig \<Rightarrow> bool" where
  "guarded env resolver sc \<longleftrightarrow>
     (\<forall>u w v w'. he_validate env u w = (Return v, w') \<longrightarrow>
        (\<exists>verdict ms w2. v = Some verdict \<and> validateUrl u resolver sc w = ((Ok verdict, ms), w2)))"

definition pinned_hop :: "'w http_env \<Rightarrow> ht_event \<Rightarrow> bool" where
  "pinned_hop env e = (case e of
     HtRequest target hs \<Rightarrow>
       \<exists>u p h. checkIp p = NotBlocked \<and> u_protocol u \<in> {''http:'', ''https:''} \<and> h = bare_host (u_hostname u)
         \<and> target = url_href (he_set_hostname env u p) \<and> (''Host'', h) \<in> set hs
   | _ \<Rightarrow> True)"

lemma ht_fail_silent: "\<forall>e \<in> set (snd (ht_fail env err s w)). pinned_hop env e"
  by (simp add: ht_fail_def pinned_hop_def)

lemma readResponse_silent: "readResponse env res u f s config w = (r, ev) \<Longrightarrow> e \<in> set ev \<Longrightarrow> pinned_hop env e"
  by (auto simp: readResponse_def Let_def ht_fail_def pinned_hop_def
      split: content_length_check.splits if_splits sum.splits StreamError.splits)

lemma handle_response_silent:
  assumes "handle_response env config url s c n res w = (nxt, ev)" and "e \<in> set ev"
  shows "pinned_hop env e"
proof (cases "hp_statusCode res \<notin> set REDIRECT_CODES \<and> 200 \<le> hp_statusCode res \<and> hp_statusCode res < 300")
  case True
  obtain r ev2 where r: "readResponse env res url c s config w = (r, ev2)" by fastforce
  then show ?thesis using True assms readResponse_silent [OF r] by (auto simp: handle_response_def)
next
  case False
  then show ?thesis
    using assms by (auto simp: handle_response_def Let_def ht_fail_def pinned_hop_def split: if_splits option.splits)
qed

lemma http_round_pinned:
  assumes "guarded env resolver sc" and "\<not> allowPrivateIps sc"
    and "http_round env config url s c n w = ((nxt, ev), w')" and "e \<in> set ev"
  shows "pinned_hop env e"
proof (cases "he_parse env c")
  case None
  then show ?thesis using assms(3,4) by (simp add: http_round_def)
next
  case (Some parsed)
  obtain x w1 where v: "he_validate env parsed w = (x, w1)" by fastforce
  show ?thesis
  proof (cases x)
    case (Throw t)
    then show ?thesis using assms(3,4) Some v by (simp add: http_round_def)
  next
    case (Return y)
    then obtain verdict ms w2 where y: "y = Some verdict" and ok: "validateUrl parsed resolver sc w = ((Ok verdict, ms), w2)"
      using assms(1) v unfolding guarded_def by blast
    show ?thesis
    proof (cases verdict)
      case (SsrfBlocked h reason)
      then show ?thesis using assms(3,4) Some v Return y by (auto simp: http_round_def Let_def ht_fail_def pinned_hop_def)
    next
      case (SsrfAllowed p h)
      have safe: "checkIp p = NotBlocked \<and> u_protocol parsed \<in> {''http:'', ''https:''} \<and> h = bare_host (u_hostname parsed)"
        using validateUrl_allowed_hop [OF ok [unfolded SsrfAllowed]] assms(2) by auto
      let ?t = "url_href (he_set_hostname env parsed p)" and ?hs = "[(''User-Agent'', hf_userAgent config), (''Host'', h)]"
      have req: "pinned_hop env (HtRequest ?t ?hs)" using safe by (auto simp: pinned_hop_def)
      obtain z w3 where z: "he_request env ?t ?hs w1 = (z, w3)" by fastforce
      have round: "http_round env config url s c n w = (case z of
           Throw t \<Rightarrow> ((HtThrown t, [HtRequest ?t ?hs]), w3)
         | Return res \<Rightarrow> (case handle_response env config url s c n res w3 of (m, ev2) \<Rightarrow> ((m, HtRequest ?t ?hs # ev2), w3)))"
        using Some v Return y SsrfAllowed z by (simp add: http_round_def hop_request_def split: completion.split)
      then show ?thesis
        using assms(3,4) req handle_response_silent by (auto split: completion.splits prod.splits)
    qed
  qed
qed

lemma http_loop_pinned:
  assumes "guarded env resolver sc" and "\<not> allowPrivateIps sc"
    and "http_loop env config url s c n tr w = ((r, tr'), w')" and "\<forall>e \<in> set tr. pinned_hop env e"
  shows "\<forall>e \<in> set tr'. pinned_hop env e"
  using assms(1,3,4)
proof (induction env config url s c n tr w arbitrary: r tr' w' rule: http_loop.induct)
  case (1 env config url s c n tr w)
  obtain nxt ev w1 where f: "http_round env config url s c n w = ((nxt, ev), w1)" by (metis prod.collapse)
  have here: "\<forall>e \<in> set ev. pinned_hop env e" using http_round_pinned [OF "1.prems"(1) assms(2) f] by blast
  show ?case
  proof (cases nxt)
    case (HtDone r')
    with "1.prems"(2,3) f here show ?thesis by (subst (asm) http_loop.simps) auto
  next
    case (HtThrown t)
    obtain rf fev where ft: "ht_fail env (classifyTimeout (he_parse env) t url (hf_timeoutMs config)) s w1 = (rf, fev)" by fastforce
    then have "\<forall>e \<in> set fev. pinned_hop env e" using ht_fail_silent [of env] by (metis snd_conv)
    with "1.prems"(2,3) f here HtThrown ft show ?thesis by (subst (asm) http_loop.simps) auto
  next
    case (HtContinue c' n')
    with "1.prems"(2) f have "http_loop env config url s c' n' (tr @ ev) w1 = ((r, tr'), w')"
      by (subst (asm) http_loop.simps) auto
    then show ?thesis by (rule "1.IH" [OF f [symmetric] refl HtContinue "1.prems"(1)]) (use "1.prems"(3) here in auto)
  qed
qed


text \<open>The server that redirects once, behind the guard with a resolver that answers two public addresses.\<close>

definition guarded_http :: "nat http_env" where
  "guarded_http = demo_http\<lparr>he_validate := (\<lambda>u w. case validateUrl u two_addresses DEFAULT_SSRF_CONFIG w of
       ((Ok verdict, ms), w') \<Rightarrow> (Return (Some verdict), w')
     | ((Err e, ms), w') \<Rightarrow> (Throw (ThrownOther (se_message e)), w'))\<rparr>"


section \<open>From a link to the worker\<close>

lemma normalizeUrl_not_Nil: "normalizeUrl pf p \<noteq> []"
  by (simp add: normalizeUrl_def Let_def)

lemma executePipeline_discovered:
  assumes "executePipeline entry config deps w = ((Return (Ok r), logs), w2)" and "u \<in> set (cr_discoveredUrls r)"
  shows "cu_normalized u \<noteq> []"
proof -
  obtain f logs' where "discoverLinks (pd_platform deps) f (pd_extract deps) = (Ok (cr_discoveredUrls r), logs')"
    using assms(1) by (auto simp: executePipeline_def split: sum.splits prod.splits completion.splits)
  then show ?thesis using discovered_normal [of "pd_platform deps" f "pd_extract deps" "cr_discoveredUrls r" u] assms(2)
      normalizeUrl_not_Nil by fastforce
qed

text \<open>C23: Every job that the frontier submits for the links of a crawled page is accepted by the worker's schema: it reaches the pipeline with the normal form of one of the discovered links as URL and the depth of the page plus one, and its id is derived from that normal form, so that the same link found on two pages has the same id.\<close>

theorem links_reach_worker:
  assumes "executePipeline entry config deps w = ((Return (Ok r), logs), w2)"
    and "0 \<le> ce_depth entry" and "ce_depth entry < 9007199254740991"
    and "j \<in> set (batch_jobs sha fconfig (child_entries (cr_discoveredUrls r) entry))"
  shows "\<exists>u \<in> set (cr_discoveredUrls r).
      JobPayloadSchema (job_value (js_data j)) = Some \<lparr>jp_url = cu_normalized u, jp_depth = ce_depth entry + 1\<rparr>
    \<and> js_jobId j = take 32 (sha (cu_normalized u)) \<and> js_priority j = ce_depth entry + 1"
proof -
  obtain e where e: "e \<in> set (child_entries (cr_discoveredUrls r) entry)" "j = job_spec sha fconfig e"
    using assms(4) batch.dedup_subset by (fastforce simp: batch_jobs_eq)
  then obtain u where u: "u \<in> set (cr_discoveredUrls r)"
      "e = \<lparr>fe_entry_url = cu_normalized u, fe_priority = 0, fe_depth = ce_depth entry + 1\<rparr>"
    by (auto simp: child_entries_def)
  have "cu_normalized u \<noteq> []" by (rule executePipeline_discovered [OF assms(1) u(1)])
  then show ?thesis
    using u e(2) assms(2,3) JobPayloadSchema_job_value [of "js_data j"]
    by (intro bexI [OF _ u(1)]) (simp add: job_spec_def deriveJobId_def depthToPriority_def)
qed

theorem links_reach_worker_witness:
  "\<exists>r logs w2 j. executePipeline (demo_entry 1) demo_pipeline_config demo_deps 0 = ((Return (Ok r), logs), w2)
     \<and> batch_jobs rev DEFAULT_FRONTIER_CONFIG (child_entries (cr_discoveredUrls r) (demo_entry 1)) = [j]
     \<and> JobPayloadSchema (job_value (js_data j)) = Some \<lparr>jp_url = ''https://example.com/a'', jp_depth = 2\<rparr>"
proof -
  have "(case executePipeline (demo_entry 1) demo_pipeline_config demo_deps 0 of
      ((Return (Ok r), logs), w2) \<Rightarrow> map cu_normalized (cr_discoveredUrls r) = [''https://example.com/a''] | _ \<Rightarrow> False)"
    by code_simp
  then obtain r logs w2 where e: "executePipeline (demo_entry 1) demo_pipeline_config demo_deps 0 = ((Return (Ok r), logs), w2)"
    "map cu_normalized (cr_discoveredUrls r) = [''https://example.com/a'']"
    by (auto split: prod.splits completion.splits sum.splits)
  have d: "ce_depth (demo_entry 1) = 1" by (simp add: demo_entry_def)
  obtain u where u: "cr_discoveredUrls r = [u]" "cu_normalized u = ''https://example.com/a''" using e(2) by auto
  obtain j where j: "batch_jobs rev DEFAULT_FRONTIER_CONFIG (child_entries (cr_discoveredUrls r) (demo_entry 1)) = [j]"
    using u by (simp add: batch_jobs_def child_entries_def jsmap_has_def jsmap_get_def)
  from links_reach_worker [OF e(1), of j rev DEFAULT_FRONTIER_CONFIG] d j u
  have "JobPayloadSchema (job_value (js_data j)) = Some \<lparr>jp_url = ''https://example.com/a'', jp_depth = 2\<rparr>" by simp
  with e(1) j show ?thesis by blast
qed

section \<open>Status events under the schema of their consumers\<close>

text \<open>The event as its consumers read it from the stream.\<close>

fun payload_json :: "status_payload \<Rightarrow> json" where
  "payload_json (CrawlCompletedPayload i url code len ms) =
     JObj [(''jobId'', JStr i), (''url'', JStr url), (''statusCode'', JNum (of_int code)),
           (''contentLength'', JNum (of_int len)), (''fetchDurationMs'', JNum (of_int ms))]"
| "payload_json (CrawlFailedPayload i url kind m n) =
     JObj [(''jobId'', JStr i), (''url'', JStr url), (''errorKind'', JStr kind), (''message'', JStr m),
           (''attempt'', JNum (of_int n))]"

definition status_event_json :: "StatusChangeEvent \<Rightarrow> json" where
  "status_event_json e =
     JObj [(''type'', JStr (ev_type e)), (''version'', JNum (of_int (ev_version e))), (''payload'', payload_json (ev_payload e)),
           (''id'', JStr (ev_id e)), (''timestamp'', JStr (ev_timestamp e)), (''source'', JStr (ev_source e))]"

definition context_url :: "StatusChangeContext option \<Rightarrow> string" where
  "context_url ctx = (case ctx of None \<Rightarrow> [] | Some c \<Rightarrow> (case cx_url c of None \<Rightarrow> [] | Some u \<Rightarrow> u))"

definition context_kind :: "StatusChangeContext option \<Rightarrow> string" where
  "context_kind ctx = (case ctx of None \<Rightarrow> ''unknown'' | Some c \<Rightarrow> (case cx_errorKind c of None \<Rightarrow> ''unknown'' | Some k \<Rightarrow> k))"

lemma isHandled_iff: "isHandled (fst (parseEvent is_url issues v)) \<longleftrightarrow> DomainEventSchema is_url v \<noteq> None"
  by (simp add: parseEvent_def Let_def split: option.split)

lemmas schema_simps = DomainEventSchema_def payload_schema_def CrawlCompletedPayloadSchema_def CrawlFailedPayloadSchema_def
  z_nonempty_def z_url_def

text \<open>C25: A consumer handles a status event exactly when its context named a valid URL and, for a fetched page, the status code is an HTTP one, for a failed one, the error kind is not empty. An event of a row without context carries the empty URL, so the handler skips it with a warning.\<close>

theorem status_event_handled:
  assumes "buildStatusEvent now i status result source ctx = Some e"
  shows "isHandled (fst (parseEvent is_url issues (status_event_json e))) \<longleftrightarrow>
    is_url (context_url ctx) \<and>
    (if status = ''fetched'' then 100 \<le> df_statusCode (the result) \<and> df_statusCode (the result) \<le> 599 else context_kind ctx \<noteq> [])"
proof (cases "status = ''fetched''")
  case True
  then have "e = \<lparr>ev_type = ''CrawlCompleted'', ev_version = 1,
      ev_payload = CrawlCompletedPayload (string_of_int i) (context_url ctx) (df_statusCode (the result)) 0 0,
      ev_id = string_of_int i @ ''-'' @ now, ev_timestamp = now, ev_source = source\<rparr>"
    using assms by (auto simp: buildStatusEvent_def context_url_def Let_def split: if_splits option.splits)
  then show ?thesis
    using True by (auto simp: isHandled_iff status_event_json_def schema_simps string_of_int_not_Nil)
next
  case False
  then obtain m where "e = \<lparr>ev_type = ''CrawlFailed'', ev_version = 1,
      ev_payload = CrawlFailedPayload (string_of_int i) (context_url ctx) (context_kind ctx) m 1,
      ev_id = string_of_int i @ ''-'' @ now, ev_timestamp = now, ev_source = source\<rparr>"
    using assms by (auto simp: buildStatusEvent_def context_url_def context_kind_def Let_def split: if_splits option.splits)
  then show ?thesis
    using False by (auto simp: isHandled_iff status_event_json_def schema_simps string_of_int_not_Nil)
qed

theorem status_event_handled_witness:
  "\<exists>e e'. buildStatusEvent ''2026-01-01T00:00:00.000Z'' 7 ''fetched'' (Some \<lparr>df_statusCode = 200, df_contentType = None, df_s3Key = None\<rparr>) ''db''
        (Some \<lparr>cx_url = Some ''https://example.com/'', cx_errorKind = None, cx_errorMessage = None\<rparr>) = Some e
     \<and> isHandled (fst (parseEvent (\<lambda>s. s \<noteq> []) (\<lambda>v. ''bad url'') (status_event_json e)))
     \<and> buildStatusEvent ''2026-01-01T00:00:00.000Z'' 7 ''failed'' None ''db'' None = Some e'
     \<and> \<not> isHandled (fst (parseEvent (\<lambda>s. s \<noteq> []) (\<lambda>v. ''bad url'') (status_event_json e')))"
proof -
  let ?r = "Some \<lparr>df_statusCode = 200, df_contentType = None, df_s3Key = None\<rparr> :: DbFetchResult option"
  let ?c = "Some \<lparr>cx_url = Some ''https://example.com/'', cx_errorKind = None, cx_errorMessage = None\<rparr>"
  obtain e where e: "buildStatusEvent ''2026-01-01T00:00:00.000Z'' 7 ''fetched'' ?r ''db'' ?c = Some e"
    by (simp add: buildStatusEvent_def Let_def)
  obtain e' where e': "buildStatusEvent ''2026-01-01T00:00:00.000Z'' 7 ''failed'' None ''db'' None = Some e'"
    by (simp add: buildStatusEvent_def Let_def)
  show ?thesis
    using e e' status_event_handled [OF e, of "\<lambda>s. s \<noteq> []" "\<lambda>v. ''bad url''"] status_event_handled [OF e', of "\<lambda>s. s \<noteq> []" "\<lambda>v. ''bad url''"]
    by (simp add: context_url_def)
qed

end
